(* ===== verification/Prelude.thy ===== *)
theory Prelude
  imports Main "HOL-Library.Word"
begin

text \<open>
  Shared vocabulary of the development: the machine integer types of the C++ sources at their
  width, the collections of rewrite rules the component theories fill
  (\<open>raft_defs\<close>: the handlers and daemon steps, \<open>msg_defs\<close>: message constructors and
  accessors, \<open>rpc_defs\<close>: the dispatch code), and the generic lemmas on words, options, sets and
  strings that several components use.
\<close>

section \<open>Collections of rewrite rules\<close>

named_theorems raft_defs "handlers and daemon steps of the Raft class"
named_theorems msg_defs "constructors, setters and getters of the protocol messages"
named_theorems rpc_defs "the service dispatch and the client stubs"

section \<open>Machine integers\<close>

text \<open>
  \<open>uint64_t\<close> and \<open>size_t\<close> are 64 bit words read unsigned; \<open>int\<close> is a 32 bit word and
  \<open>long long\<close> a 64 bit word, both read through \<^const>\<open>sint\<close>.  C++ converts
  \<open>uint64_t\<close> to \<open>int\<close> by dropping the high bits and an \<open>int\<close> to \<open>uint64_t\<close> by
  sign extension.
\<close>

type_synonym uint64 = "64 word"
type_synonym uint32 = "32 word"
type_synonym cint = "32 word"
type_synonym llong = "64 word"

definition int_of_uint64 :: "uint64 \<Rightarrow> cint" where
  "int_of_uint64 w = ucast w"

definition uint64_of_int :: "cint \<Rightarrow> uint64" where
  "uint64_of_int w = scast w"

definition llong_of_int :: "cint \<Rightarrow> llong" where
  "llong_of_int w = scast w"

lemma int_of_uint64_sint:
  assumes "w < 2 ^ 31"
  shows "sint (int_of_uint64 w) = uint w"
proof -
  from assms have less: "uint w < 2 ^ 31"
    by (simp add: word_less_def)
  moreover have "- (2 ^ 31) \<le> uint w"
    by (rule order_trans [of _ 0]) simp_all
  ultimately have "take_bit 32 (uint w) = uint w" "signed_take_bit 31 (uint w) = uint w"
    by (auto intro!: take_bit_int_eq_self signed_take_bit_int_eq_self)
  then show ?thesis
    by (simp add: int_of_uint64_def unsigned_ucast_eq signed_ucast_eq)
qed

text \<open>Narrowing to \<open>int\<close> and widening back loses nothing below \<open>2 ^ 31\<close>.\<close>

lemma uint64_int_roundtrip [simp]:
  assumes "w < 2 ^ 31"
  shows "uint64_of_int (int_of_uint64 w) = w"
proof -
  have "uint64_of_int (int_of_uint64 w) = of_int (sint (int_of_uint64 w))"
    by (simp add: uint64_of_int_def)
  also have "\<dots> = of_int (uint w)"
    using assms by (simp add: int_of_uint64_sint)
  finally show ?thesis
    by simp
qed

lemma unat_of_nat_uint64: "k < 2 ^ 64 \<Longrightarrow> unat (of_nat k :: uint64) = k"
  by (simp add: unsigned_of_nat take_bit_nat_eq_self)

lemma int_of_uint64_wrap:
  assumes "t < 2 ^ 31"
  shows "int_of_uint64 (2 ^ 32 + t) = int_of_uint64 t"
proof -
  from assms have less: "uint t < 2 ^ 31"
    by (simp add: word_less_def)
  have "uint (2 ^ 32 :: uint64) = 2 ^ 32"
    by simp
  with less have "uint (2 ^ 32 :: uint64) + uint t < 2 ^ LENGTH(64)"
    by simp
  then have sum: "uint (2 ^ 32 + t) = uint (2 ^ 32 :: uint64) + uint t"
    by (rule uint_add_lem [THEN iffD1])
  have narrow: "int_of_uint64 w = of_int (uint w)" for w
    by (simp add: int_of_uint64_def)
  have "int_of_uint64 (2 ^ 32 + t) = of_int (uint (2 ^ 32 :: uint64)) + of_int (uint t)"
    unfolding narrow sum by (rule of_int_add)
  also have "of_int (uint (2 ^ 32 :: uint64)) = (0 :: cint)"
    by simp
  finally show ?thesis
    unfolding narrow by simp
qed

end
