(* ===== verification/RWLock.thy ===== *)
theory RWLock
  imports Prelude
begin

text \<open>
  The reader/writer lock of \<open>src/raft.h\<close> (\<open>struct RWLock\<close>), a wrapper of a
  \<open>pthread_rwlock_t\<close>, and the contract the \<open>Op\<close> handler relies on: a lock section that
  was entered can be left, and leaving it restores the lock exactly.

  A lock operation of the model returns \<open>None\<close> where the calling thread does not get past
  the call in the current state: \<open>pthread_rwlock_rdlock\<close> and \<open>pthread_rwlock_wrlock\<close> block
  there, \<open>pthread_rwlock_unlock\<close> of a lock nobody holds is undefined.
\<close>

section \<open>The contract of a reader/writer lock\<close>

locale rw_lock =
  fixes invar :: "'l \<Rightarrow> bool"
    and readers :: "'l \<Rightarrow> nat"
    and writer :: "'l \<Rightarrow> bool"
    and rdlock :: "'l \<Rightarrow> 'l option"
    and wrlock :: "'l \<Rightarrow> 'l option"
    and unlock :: "'l \<Rightarrow> 'l option"
  assumes state_ext: "\<lbrakk>invar l; invar m; readers l = readers m; writer l = writer m\<rbrakk> \<Longrightarrow> l = m"
    and exclusive: "invar l \<Longrightarrow> writer l \<Longrightarrow> readers l = 0"
    and rd_enabled: "invar l \<Longrightarrow> (\<exists>m. rdlock l = Some m) = (\<not> writer l)"
    and rd_effect: "\<lbrakk>invar l; rdlock l = Some m\<rbrakk> \<Longrightarrow>
          invar m \<and> readers m = Suc (readers l) \<and> \<not> writer m"
    and wr_enabled: "invar l \<Longrightarrow> (\<exists>m. wrlock l = Some m) = (\<not> writer l \<and> readers l = 0)"
    and wr_effect: "\<lbrakk>invar l; wrlock l = Some m\<rbrakk> \<Longrightarrow> invar m \<and> readers m = 0 \<and> writer m"
    and ul_enabled: "invar l \<Longrightarrow> (\<exists>m. unlock l = Some m) = (writer l \<or> 0 < readers l)"
    and ul_effect: "\<lbrakk>invar l; unlock l = Some m\<rbrakk> \<Longrightarrow>
          invar m \<and> \<not> writer m \<and> readers m = readers l - 1"
begin

lemma read_section:
  assumes "invar l" and rd: "rdlock l = Some m"
  shows "unlock m = Some l"
proof -
  from assms have m: "invar m" "readers m = Suc (readers l)" "\<not> writer m"
    by (auto dest: rd_effect)
  moreover from m obtain k where k: "unlock m = Some k"
    using ul_enabled [of m] by auto
  moreover from k m have "invar k" "readers k = readers l" "\<not> writer k"
    by (auto dest: ul_effect)
  moreover from assms have "\<not> writer l"
    using rd_enabled by fastforce
  ultimately show ?thesis
    using \<open>invar l\<close> state_ext [of k l] by simp
qed

lemma write_section:
  assumes "invar l" and wr: "wrlock l = Some m"
  shows "unlock m = Some l"
proof -
  from assms have m: "invar m" "readers m = 0" "writer m"
    by (auto dest: wr_effect)
  moreover from m obtain k where k: "unlock m = Some k"
    using ul_enabled [of m] by auto
  moreover from k m have "invar k" "readers k = 0" "\<not> writer k"
    by (auto dest: ul_effect)
  moreover from assms have "\<not> writer l" "readers l = 0"
    using wr_enabled by fastforce+
  ultimately show ?thesis
    using \<open>invar l\<close> state_ext [of k l] by simp
qed

text \<open>No thread enters while a writer is inside; a writer enters an idle lock only.\<close>

lemma writer_excludes:
  assumes "invar l" and wr: "wrlock l = Some m"
  shows "rdlock m = None \<and> wrlock m = None"
proof -
  from assms have "invar m" "writer m"
    by (auto dest: wr_effect)
  then show ?thesis
    using rd_enabled [of m] wr_enabled [of m] by auto
qed

end

section \<open>The lock of raft.h\<close>

datatype RWLock = RW_Free | RW_Readers nat | RW_Writer

definition RWLock_init :: RWLock where
  "RWLock_init = RW_Free"

fun ReadLock :: "RWLock \<Rightarrow> RWLock option" where
  "ReadLock RW_Free = Some (RW_Readers 1)"
| "ReadLock (RW_Readers n) = Some (RW_Readers (Suc n))"
| "ReadLock RW_Writer = None"

fun WriteLock :: "RWLock \<Rightarrow> RWLock option" where
  "WriteLock RW_Free = Some RW_Writer"
| "WriteLock (RW_Readers n) = None"
| "WriteLock RW_Writer = None"

fun Unlock :: "RWLock \<Rightarrow> RWLock option" where
  "Unlock RW_Free = None"
| "Unlock (RW_Readers n) = Some (if n \<le> 1 then RW_Free else RW_Readers (n - 1))"
| "Unlock RW_Writer = Some RW_Free"

fun RWLock_ok :: "RWLock \<Rightarrow> bool" where
  "RWLock_ok (RW_Readers n) = (0 < n)"
| "RWLock_ok l = True"

fun RWLock_readers :: "RWLock \<Rightarrow> nat" where
  "RWLock_readers (RW_Readers n) = n"
| "RWLock_readers l = 0"

fun RWLock_writer :: "RWLock \<Rightarrow> bool" where
  "RWLock_writer l = (l = RW_Writer)"

lemma RWLock_init_ok [simp]: "RWLock_ok RWLock_init"
  by (simp add: RWLock_init_def)

interpretation rwl: rw_lock RWLock_ok RWLock_readers RWLock_writer ReadLock WriteLock Unlock
proof unfold_locales
  fix l m
  assume "RWLock_ok l" "RWLock_ok m" "RWLock_readers l = RWLock_readers m"
    "RWLock_writer l = RWLock_writer m"
  then show "l = m"
    by (cases l; cases m) auto
next
  fix l
  assume ok: "RWLock_ok l"
  show "RWLock_writer l \<Longrightarrow> RWLock_readers l = 0"
    by (cases l) auto
  show "(\<exists>m. ReadLock l = Some m) = (\<not> RWLock_writer l)"
    by (cases l) auto
  from ok show "(\<exists>m. WriteLock l = Some m) = (\<not> RWLock_writer l \<and> RWLock_readers l = 0)"
    by (cases l) auto
  from ok show "(\<exists>m. Unlock l = Some m) = (RWLock_writer l \<or> 0 < RWLock_readers l)"
    by (cases l) auto
  fix m
  show "ReadLock l = Some m \<Longrightarrow>
      RWLock_ok m \<and> RWLock_readers m = Suc (RWLock_readers l) \<and> \<not> RWLock_writer m"
    by (cases l) auto
  show "WriteLock l = Some m \<Longrightarrow>
      RWLock_ok m \<and> RWLock_readers m = 0 \<and> RWLock_writer m"
    by (cases l) auto
  show "Unlock l = Some m \<Longrightarrow>
      RWLock_ok m \<and> \<not> RWLock_writer m \<and> RWLock_readers m = RWLock_readers l - 1"
    by (cases l) (auto split: if_splits)
qed

section \<open>Properties\<close>

text \<open>
  A read or write section of \<open>RWLock\<close> that was entered can be left, which restores the lock
  exactly; no writer gets in during a read section, and nobody during a write section.
\<close>

theorem lock_sections:
  assumes "RWLock_ok l"
  shows "(ReadLock l = Some m \<longrightarrow> Unlock m = Some l \<and> WriteLock m = None) \<and>
    (WriteLock l = Some m \<longrightarrow> Unlock m = Some l \<and> ReadLock m = None \<and> WriteLock m = None)"
  using assms rwl.read_section rwl.write_section rwl.writer_excludes by (cases l) auto

theorem lock_sections_witness:
  "ReadLock (RW_Readers 1) = Some (RW_Readers 2) \<and> Unlock (RW_Readers 2) = Some (RW_Readers 1) \<and>
   WriteLock RW_Free = Some RW_Writer \<and> Unlock RW_Writer = Some RW_Free"
  using lock_sections [of "RW_Readers 1" "RW_Readers 2"] lock_sections [of RW_Free RW_Writer]
  by (simp add: numeral_2_eq_2)

end
