(* ===== verification/Raft_Types.thy ===== *)
theory Raft_Types
  imports Prelude
begin

text \<open>
  The data the peers keep and exchange: the enumerations and the log entry of
  \<open>src/struct.h\<close> and the protocol messages of \<open>protofiles/raft.proto\<close>.

  A protobuf (version 2) message keeps a presence bit per field.  A field is therefore an
  \<open>option\<close>: \<open>None\<close> until its setter runs.  A getter of an unset field returns the field's
  default value, and \<open>IsInitialized\<close> asks that every field the \<open>.proto\<close> file declares
  \<open>required\<close> is present; a message that fails it is refused by the protobuf serializer or
  parser.
\<close>

section \<open>Enumerations and structs of struct.h\<close>

datatype RaftStatus = UNKNOWN | DEAD | LEADER | FOLLOWER | CANDIDATE

datatype RaftOp = OP_INSERT | OP_DELETE | OP_QUERY | OP_INVALID

text \<open>The enumerators' integer values, by which C++ compares and stores them.\<close>

fun RaftStatus_value :: "RaftStatus \<Rightarrow> nat" where
  "RaftStatus_value UNKNOWN = 0"
| "RaftStatus_value DEAD = 1"
| "RaftStatus_value LEADER = 2"
| "RaftStatus_value FOLLOWER = 3"
| "RaftStatus_value CANDIDATE = 4"

fun RaftOp_value :: "RaftOp \<Rightarrow> nat" where
  "RaftOp_value OP_INSERT = 0"
| "RaftOp_value OP_DELETE = 1"
| "RaftOp_value OP_QUERY = 2"
| "RaftOp_value OP_INVALID = 3"

record LogEntry_struct =
  le_term :: uint32
  le_index :: uint32
  le_op :: RaftOp
  le_key :: string
  le_val :: string

section \<open>Messages of raft.proto\<close>

datatype EntryOp = ENTRY_INVALID | ENTRY_INSERT | ENTRY_DELETE | ENTRY_QUERY

fun EntryOp_number :: "EntryOp \<Rightarrow> nat" where
  "EntryOp_number ENTRY_INVALID = 0"
| "EntryOp_number ENTRY_INSERT = 1"
| "EntryOp_number ENTRY_DELETE = 2"
| "EntryOp_number ENTRY_QUERY = 3"

datatype PeerStatus_Status = PS_UNKNOWN | PS_FOLLOWER | PS_CANDIDATE | PS_LEADER

fun PeerStatus_Status_number :: "PeerStatus_Status \<Rightarrow> nat" where
  "PeerStatus_Status_number PS_UNKNOWN = 0"
| "PeerStatus_Status_number PS_FOLLOWER = 1"
| "PeerStatus_Status_number PS_CANDIDATE = 2"
| "PeerStatus_Status_number PS_LEADER = 3"

record VoteRequest =
  vreq_term :: "uint64 option"
  vreq_candidate_id :: "string option"
  vreq_last_log_index :: "uint64 option"
  vreq_last_term_index :: "uint64 option"

record VoteReply =
  vrep_term :: "uint64 option"
  vrep_vote :: "bool option"

record LogEntry =
  entry_op :: "EntryOp option"
  entry_key :: "string option"
  entry_value :: "string option"

record AppendRequest =
  areq_term :: "uint64 option"
  areq_candidate_id :: "string option"
  areq_prev_log_index :: "uint64 option"
  areq_prev_log_term :: "uint64 option"
  areq_entries :: "LogEntry list"

record AppendReply =
  arep_term :: "uint64 option"
  arep_success :: "bool option"

record PeerStatus =
  ps_term :: "uint64 option"
  ps_status :: "PeerStatus_Status option"

record OpRequest =
  oreq_op :: "EntryOp option"
  oreq_key :: "string option"
  oreq_value :: "string option"

record OpReply =
  orep_success :: "bool option"

datatype Empty = Empty

subsection \<open>Default instances\<close>

definition VoteRequest_default :: VoteRequest where
  "VoteRequest_default = \<lparr>vreq_term = None, vreq_candidate_id = None,
     vreq_last_log_index = None, vreq_last_term_index = None\<rparr>"

definition VoteReply_default :: VoteReply where
  "VoteReply_default = \<lparr>vrep_term = None, vrep_vote = None\<rparr>"

definition AppendRequest_default :: AppendRequest where
  "AppendRequest_default = \<lparr>areq_term = None, areq_candidate_id = None,
     areq_prev_log_index = None, areq_prev_log_term = None, areq_entries = []\<rparr>"

definition AppendReply_default :: AppendReply where
  "AppendReply_default = \<lparr>arep_term = None, arep_success = None\<rparr>"

definition PeerStatus_default :: PeerStatus where
  "PeerStatus_default = \<lparr>ps_term = None, ps_status = None\<rparr>"

definition OpRequest_default :: OpRequest where
  "OpRequest_default = \<lparr>oreq_op = None, oreq_key = None, oreq_value = None\<rparr>"

definition OpReply_default :: OpReply where
  "OpReply_default = \<lparr>orep_success = None\<rparr>"

lemmas message_defaults [msg_defs] =
  VoteRequest_default_def VoteReply_default_def AppendRequest_default_def
  AppendReply_default_def PeerStatus_default_def OpRequest_default_def OpReply_default_def

subsection \<open>Getters\<close>

text \<open>
  The default of an unset field is the one of the \<open>.proto\<close> file where it gives one
  (\<open>FOLLOWER\<close> for \<open>PeerStatus.status\<close>, \<open>INVALID\<close> for \<open>LogEntry.op\<close>), otherwise the
  protobuf default of the type: 0, the empty string, \<open>false\<close>, the first enumerator.
\<close>

definition field :: "'a \<Rightarrow> 'a option \<Rightarrow> 'a" where
  "field dflt f = (case f of None \<Rightarrow> dflt | Some v \<Rightarrow> v)"

lemma field_simps_msg [simp]: "field d None = d" "field d (Some v) = v"
  by (simp_all add: field_def)

definition get_vreq_candidate_id :: "VoteRequest \<Rightarrow> string" where
  "get_vreq_candidate_id m = field [] (vreq_candidate_id m)"

definition get_vrep_vote :: "VoteReply \<Rightarrow> bool" where
  "get_vrep_vote m = field False (vrep_vote m)"

definition get_areq_term :: "AppendRequest \<Rightarrow> uint64" where
  "get_areq_term m = field 0 (areq_term m)"

definition get_areq_candidate_id :: "AppendRequest \<Rightarrow> string" where
  "get_areq_candidate_id m = field [] (areq_candidate_id m)"

definition get_arep_term :: "AppendReply \<Rightarrow> uint64" where
  "get_arep_term m = field 0 (arep_term m)"

definition get_arep_success :: "AppendReply \<Rightarrow> bool" where
  "get_arep_success m = field False (arep_success m)"

definition get_ps_status :: "PeerStatus \<Rightarrow> PeerStatus_Status" where
  "get_ps_status m = field PS_FOLLOWER (ps_status m)"

definition get_oreq_op :: "OpRequest \<Rightarrow> EntryOp" where
  "get_oreq_op m = field ENTRY_INVALID (oreq_op m)"

lemmas message_getters [msg_defs] =
  get_vreq_candidate_id_def get_vrep_vote_def get_areq_term_def get_areq_candidate_id_def
  get_arep_term_def get_arep_success_def get_ps_status_def get_oreq_op_def

subsection \<open>Required fields\<close>

definition VoteRequest_IsInitialized :: "VoteRequest \<Rightarrow> bool" where
  "VoteRequest_IsInitialized m \<longleftrightarrow> vreq_term m \<noteq> None \<and> vreq_candidate_id m \<noteq> None \<and>
     vreq_last_log_index m \<noteq> None \<and> vreq_last_term_index m \<noteq> None"

definition VoteReply_IsInitialized :: "VoteReply \<Rightarrow> bool" where
  "VoteReply_IsInitialized m \<longleftrightarrow> vrep_term m \<noteq> None \<and> vrep_vote m \<noteq> None"

definition LogEntry_IsInitialized :: "LogEntry \<Rightarrow> bool" where
  "LogEntry_IsInitialized m \<longleftrightarrow> entry_op m \<noteq> None"

definition AppendRequest_IsInitialized :: "AppendRequest \<Rightarrow> bool" where
  "AppendRequest_IsInitialized m \<longleftrightarrow> areq_term m \<noteq> None \<and> areq_candidate_id m \<noteq> None \<and>
     areq_prev_log_index m \<noteq> None \<and> areq_prev_log_term m \<noteq> None \<and>
     list_all LogEntry_IsInitialized (areq_entries m)"

definition AppendReply_IsInitialized :: "AppendReply \<Rightarrow> bool" where
  "AppendReply_IsInitialized m \<longleftrightarrow> arep_term m \<noteq> None \<and> arep_success m \<noteq> None"

definition PeerStatus_IsInitialized :: "PeerStatus \<Rightarrow> bool" where
  "PeerStatus_IsInitialized m \<longleftrightarrow> ps_term m \<noteq> None \<and> ps_status m \<noteq> None"

definition OpRequest_IsInitialized :: "OpRequest \<Rightarrow> bool" where
  "OpRequest_IsInitialized m \<longleftrightarrow> oreq_op m \<noteq> None"

definition OpReply_IsInitialized :: "OpReply \<Rightarrow> bool" where
  "OpReply_IsInitialized m \<longleftrightarrow> orep_success m \<noteq> None"

lemmas message_required [msg_defs] =
  VoteRequest_IsInitialized_def VoteReply_IsInitialized_def LogEntry_IsInitialized_def
  AppendRequest_IsInitialized_def AppendReply_IsInitialized_def PeerStatus_IsInitialized_def
  OpRequest_IsInitialized_def OpReply_IsInitialized_def

section \<open>Type class instances\<close>

text \<open>C++ orders enumerators by their values; the order is total because the values differ.\<close>

lemma RaftStatus_value_inject [simp]: "RaftStatus_value a = RaftStatus_value b \<longleftrightarrow> a = b"
  by (cases a; cases b) simp_all

instantiation RaftStatus :: linorder
begin

definition less_eq_RaftStatus :: "RaftStatus \<Rightarrow> RaftStatus \<Rightarrow> bool" where
  "less_eq_RaftStatus a b \<longleftrightarrow> RaftStatus_value a \<le> RaftStatus_value b"

definition less_RaftStatus :: "RaftStatus \<Rightarrow> RaftStatus \<Rightarrow> bool" where
  "less_RaftStatus a b \<longleftrightarrow> RaftStatus_value a < RaftStatus_value b"

instance
  by standard (auto simp: less_eq_RaftStatus_def less_RaftStatus_def)

end

end
