(* ===== verification/Consensus_Log.thy ===== *)
theory Consensus_Log
  imports Raft_Types
begin

text \<open>
  The replicated log of \<open>src/consensus_log.h\<close>: a vector of protocol log entries of which the
  class offers the constructor and \<open>size\<close> only.  Copying and moving are deleted.
\<close>

record ConsensusLog =
  logs :: "LogEntry list"

definition ConsensusLog_init :: ConsensusLog where
  "ConsensusLog_init = \<lparr>logs = []\<rparr>"

text \<open>\<open>size_t\<close> is 64 bits wide; \<open>std::vector::size\<close> is exact below that bound.\<close>

definition ConsensusLog_size :: "ConsensusLog \<Rightarrow> uint64" where
  "ConsensusLog_size l = of_nat (length (logs l))"

lemma ConsensusLog_size_init [simp]: "ConsensusLog_size ConsensusLog_init = 0"
  by (simp add: ConsensusLog_size_def ConsensusLog_init_def)

end
