(* ===== verification/Rpcz_Service.thy ===== *)
theory Rpcz_Service
  imports Raft_Types
begin

text \<open>
  The service and client classes of \<open>src/raft.rpcz.h\<close> and \<open>src/raft.rpcz.cc\<close>:
  \<open>RaftService\<close>, whose \<open>call_method\<close> dispatches a request on its method index to one of four
  virtual methods, and \<open>RaftService_Stub\<close>, whose methods send a request under the index of the
  method they stand for.

  Virtual methods are a record of functions (the table of one object).  A method takes the
  request and the object's state and returns the new state and what it passes to its
  \<open>rpcz::reply\<close>; \<open>None\<close> where the calling thread blocks on a lock of the object.  The
  transport (\<open>rpcz::rpc_channel\<close>) is not part of the sources: it is a parameter of the stub
  methods, and the locale \<open>rpc_channel\<close> states what the stubs rely on.
\<close>

section \<open>Messages, replies and method descriptors\<close>

datatype Message =
    Empty_msg Empty
  | PeerStatus_msg PeerStatus
  | AppendRequest_msg AppendRequest
  | AppendReply_msg AppendReply
  | VoteRequest_msg VoteRequest
  | VoteReply_msg VoteReply
  | OpRequest_msg OpRequest
  | OpReply_msg OpReply

datatype application_error = METHOD_NOT_IMPLEMENTED

datatype 'p reply = Reply_send 'p | Reply_Error application_error string

fun map_reply :: "('p \<Rightarrow> 'q) \<Rightarrow> 'p reply \<Rightarrow> 'q reply" where
  "map_reply f (Reply_send p) = Reply_send (f p)"
| "map_reply f (Reply_Error e msg) = Reply_Error e msg"

datatype message_type = T_Empty | T_PeerStatus | T_AppendRequest | T_AppendReply
  | T_VoteRequest | T_VoteReply | T_OpRequest | T_OpReply

fun message_type_of :: "Message \<Rightarrow> message_type" where
  "message_type_of (Empty_msg _) = T_Empty"
| "message_type_of (PeerStatus_msg _) = T_PeerStatus"
| "message_type_of (AppendRequest_msg _) = T_AppendRequest"
| "message_type_of (AppendReply_msg _) = T_AppendReply"
| "message_type_of (VoteRequest_msg _) = T_VoteRequest"
| "message_type_of (VoteReply_msg _) = T_VoteReply"
| "message_type_of (OpRequest_msg _) = T_OpRequest"
| "message_type_of (OpReply_msg _) = T_OpReply"

text \<open>A method of the service declared at the end of \<open>protofiles/raft.proto\<close>.\<close>

record MethodDescriptor =
  md_name :: string
  md_input :: message_type
  md_output :: message_type
  md_index :: int

definition RaftService_methods :: "MethodDescriptor list" where
  "RaftService_methods =
    [\<lparr>md_name = ''GetStatus'', md_input = T_Empty, md_output = T_PeerStatus, md_index = 0\<rparr>,
     \<lparr>md_name = ''AppendMsg'', md_input = T_AppendRequest, md_output = T_AppendReply, md_index = 1\<rparr>,
     \<lparr>md_name = ''Vote'', md_input = T_VoteRequest, md_output = T_VoteReply, md_index = 2\<rparr>,
     \<lparr>md_name = ''Op'', md_input = T_OpRequest, md_output = T_OpReply, md_index = 3\<rparr>]"

section \<open>RaftService\<close>

record 's RaftService =
  svc_GetStatus :: "Empty \<Rightarrow> 's \<Rightarrow> ('s \<times> PeerStatus reply) option"
  svc_AppendMsg :: "AppendRequest \<Rightarrow> 's \<Rightarrow> ('s \<times> AppendReply reply) option"
  svc_Vote :: "VoteRequest \<Rightarrow> 's \<Rightarrow> ('s \<times> VoteReply reply) option"
  svc_Op :: "OpRequest \<Rightarrow> 's \<Rightarrow> ('s \<times> OpReply reply) option"

text \<open>The methods of the base class, for a service that overrides none of them.\<close>

definition RaftService_GetStatus :: "Empty \<Rightarrow> 's \<Rightarrow> ('s \<times> PeerStatus reply) option" where
  "RaftService_GetStatus e s =
     Some (s, Reply_Error METHOD_NOT_IMPLEMENTED ''Method GetStatus() not implemented.'')"

definition RaftService_AppendMsg :: "AppendRequest \<Rightarrow> 's \<Rightarrow> ('s \<times> AppendReply reply) option" where
  "RaftService_AppendMsg r s =
     Some (s, Reply_Error METHOD_NOT_IMPLEMENTED ''Method AppendMsg() not implemented.'')"

definition RaftService_Vote :: "VoteRequest \<Rightarrow> 's \<Rightarrow> ('s \<times> VoteReply reply) option" where
  "RaftService_Vote r s =
     Some (s, Reply_Error METHOD_NOT_IMPLEMENTED ''Method Vote() not implemented.'')"

definition RaftService_Op :: "OpRequest \<Rightarrow> 's \<Rightarrow> ('s \<times> OpReply reply) option" where
  "RaftService_Op r s =
     Some (s, Reply_Error METHOD_NOT_IMPLEMENTED ''Method Op() not implemented.'')"

definition RaftService_base :: "'s RaftService" where
  "RaftService_base = \<lparr>svc_GetStatus = RaftService_GetStatus, svc_AppendMsg = RaftService_AppendMsg,
     svc_Vote = RaftService_Vote, svc_Op = RaftService_Op\<rparr>"

text \<open>
  What ends a dispatch without running a method: \<open>GOOGLE_LOG(FATAL)\<close> on an index outside the
  switch, and the \<open>down_cast\<close> of a request whose dynamic type is not the method's.
\<close>

datatype dispatch_error = Bad_Method_Index | Bad_Down_Cast

definition dispatch_reply ::
  "('p \<Rightarrow> Message) \<Rightarrow> ('s \<times> 'p reply) option \<Rightarrow> dispatch_error + ('s \<times> Message reply) option" where
  "dispatch_reply wrap r = Inr (map_option (\<lambda>(s, p). (s, map_reply wrap p)) r)"

definition RaftService_call_method ::
  "'s RaftService \<Rightarrow> MethodDescriptor \<Rightarrow> Message \<Rightarrow> 's \<Rightarrow>
     dispatch_error + ('s \<times> Message reply) option" where
  "RaftService_call_method svc mth request s =
    (if md_index mth = 0 then
       (case request of Empty_msg e \<Rightarrow> dispatch_reply PeerStatus_msg (svc_GetStatus svc e s)
        | _ \<Rightarrow> Inl Bad_Down_Cast)
     else if md_index mth = 1 then
       (case request of AppendRequest_msg r \<Rightarrow> dispatch_reply AppendReply_msg (svc_AppendMsg svc r s)
        | _ \<Rightarrow> Inl Bad_Down_Cast)
     else if md_index mth = 2 then
       (case request of VoteRequest_msg r \<Rightarrow> dispatch_reply VoteReply_msg (svc_Vote svc r s)
        | _ \<Rightarrow> Inl Bad_Down_Cast)
     else if md_index mth = 3 then
       (case request of OpRequest_msg r \<Rightarrow> dispatch_reply OpReply_msg (svc_Op svc r s)
        | _ \<Rightarrow> Inl Bad_Down_Cast)
     else Inl Bad_Method_Index)"

text \<open>The prototypes the server parses a request into and a client a response.\<close>

definition RaftService_GetRequestPrototype :: "MethodDescriptor \<Rightarrow> dispatch_error + Message" where
  "RaftService_GetRequestPrototype mth =
    (if md_index mth = 0 then Inr (Empty_msg Empty)
     else if md_index mth = 1 then Inr (AppendRequest_msg AppendRequest_default)
     else if md_index mth = 2 then Inr (VoteRequest_msg VoteRequest_default)
     else if md_index mth = 3 then Inr (OpRequest_msg OpRequest_default)
     else Inl Bad_Method_Index)"

definition RaftService_GetResponsePrototype :: "MethodDescriptor \<Rightarrow> dispatch_error + Message" where
  "RaftService_GetResponsePrototype mth =
    (if md_index mth = 0 then Inr (PeerStatus_msg PeerStatus_default)
     else if md_index mth = 1 then Inr (AppendReply_msg AppendReply_default)
     else if md_index mth = 2 then Inr (VoteReply_msg VoteReply_default)
     else if md_index mth = 3 then Inr (OpReply_msg OpReply_default)
     else Inl Bad_Method_Index)"

section \<open>RaftService\_Stub\<close>

text \<open>
  \<open>'c\<close> is the type of channels.  A channel's \<open>call_method\<close> with a deadline followed by
  \<open>rpc.wait()\<close> yields the response or a failure, and changes the world \<open>'w\<close> (the network
  and the peer behind it).
\<close>

record 'c RaftService_Stub =
  stub_channel :: 'c
  stub_service_name :: string
  stub_owns_channel :: bool

definition RaftService_name :: string where
  "RaftService_name = ''RaftService''"

definition RaftService_Stub_new :: "'c \<Rightarrow> string \<Rightarrow> bool \<Rightarrow> 'c RaftService_Stub" where
  "RaftService_Stub_new ch name owns =
     \<lparr>stub_channel = ch, stub_service_name = name, stub_owns_channel = owns\<rparr>"

definition RaftService_Stub_new_default :: "'c \<Rightarrow> bool \<Rightarrow> 'c RaftService_Stub" where
  "RaftService_Stub_new_default ch owns =
     \<lparr>stub_channel = ch, stub_service_name = RaftService_name, stub_owns_channel = owns\<rparr>"

text \<open>The destructor deletes an owned channel: the channels still alive after it.\<close>

definition RaftService_Stub_delete :: "'c RaftService_Stub \<Rightarrow> 'c set \<Rightarrow> 'c set" where
  "RaftService_Stub_delete stub live =
     (if stub_owns_channel stub then live - {stub_channel stub} else live)"

datatype ('e, 'p) rpc_result = RPC_ok 'p | RPC_failed 'e

text \<open>
  \<open>Rpc_error\<close> is the exception the synchronous stub methods throw when the call failed;
  \<open>Response_type\<close> stands for a channel that filled the typed response with another message.
\<close>

datatype 'e stub_error = Rpc_error 'e | Response_type

text \<open>
  Every stub method hands the channel the same four things; the asynchronous overloads do only
  that, the synchronous ones then wait and turn a failure into an exception.
\<close>

record 'c issued_call =
  ic_channel :: 'c
  ic_service :: string
  ic_method :: MethodDescriptor
  ic_request :: Message

definition stub_async :: "'c RaftService_Stub \<Rightarrow> nat \<Rightarrow> Message \<Rightarrow> 'c issued_call" where
  "stub_async stub i request =
     \<lparr>ic_channel = stub_channel stub, ic_service = stub_service_name stub,
      ic_method = RaftService_methods ! i, ic_request = request\<rparr>"

definition stub_GetStatus_async :: "'c RaftService_Stub \<Rightarrow> Empty \<Rightarrow> 'c issued_call" where
  "stub_GetStatus_async stub request = stub_async stub 0 (Empty_msg request)"

definition stub_AppendMsg_async :: "'c RaftService_Stub \<Rightarrow> AppendRequest \<Rightarrow> 'c issued_call" where
  "stub_AppendMsg_async stub request = stub_async stub 1 (AppendRequest_msg request)"

definition stub_Vote_async :: "'c RaftService_Stub \<Rightarrow> VoteRequest \<Rightarrow> 'c issued_call" where
  "stub_Vote_async stub request = stub_async stub 2 (VoteRequest_msg request)"

definition stub_Op_async :: "'c RaftService_Stub \<Rightarrow> OpRequest \<Rightarrow> 'c issued_call" where
  "stub_Op_async stub request = stub_async stub 3 (OpRequest_msg request)"

type_synonym ('c, 'e, 'w) channel_call =
  "'c issued_call \<Rightarrow> int \<Rightarrow> 'w \<Rightarrow> ('e, Message) rpc_result \<times> 'w"

definition stub_sync ::
  "('c, 'e, 'w) channel_call \<Rightarrow> (Message \<Rightarrow> 'p option) \<Rightarrow> 'c issued_call \<Rightarrow> int \<Rightarrow> 'w \<Rightarrow>
     ('e stub_error + 'p) \<times> 'w" where
  "stub_sync call response c deadline_ms w =
    (case call c deadline_ms w of
       (RPC_ok m, w') \<Rightarrow> (case response m of Some p \<Rightarrow> (Inr p, w') | None \<Rightarrow> (Inl Response_type, w'))
     | (RPC_failed e, w') \<Rightarrow> (Inl (Rpc_error e), w'))"

definition stub_GetStatus ::
  "('c, 'e, 'w) channel_call \<Rightarrow> 'c RaftService_Stub \<Rightarrow> Empty \<Rightarrow> int \<Rightarrow> 'w \<Rightarrow>
     ('e stub_error + PeerStatus) \<times> 'w" where
  "stub_GetStatus call stub request deadline_ms w =
     stub_sync call (\<lambda>m. case m of PeerStatus_msg p \<Rightarrow> Some p | _ \<Rightarrow> None)
       (stub_GetStatus_async stub request) deadline_ms w"

definition stub_AppendMsg ::
  "('c, 'e, 'w) channel_call \<Rightarrow> 'c RaftService_Stub \<Rightarrow> AppendRequest \<Rightarrow> int \<Rightarrow> 'w \<Rightarrow>
     ('e stub_error + AppendReply) \<times> 'w" where
  "stub_AppendMsg call stub request deadline_ms w =
     stub_sync call (\<lambda>m. case m of AppendReply_msg p \<Rightarrow> Some p | _ \<Rightarrow> None)
       (stub_AppendMsg_async stub request) deadline_ms w"

definition stub_Vote ::
  "('c, 'e, 'w) channel_call \<Rightarrow> 'c RaftService_Stub \<Rightarrow> VoteRequest \<Rightarrow> int \<Rightarrow> 'w \<Rightarrow>
     ('e stub_error + VoteReply) \<times> 'w" where
  "stub_Vote call stub request deadline_ms w =
     stub_sync call (\<lambda>m. case m of VoteReply_msg p \<Rightarrow> Some p | _ \<Rightarrow> None)
       (stub_Vote_async stub request) deadline_ms w"

definition stub_Op ::
  "('c, 'e, 'w) channel_call \<Rightarrow> 'c RaftService_Stub \<Rightarrow> OpRequest \<Rightarrow> int \<Rightarrow> 'w \<Rightarrow>
     ('e stub_error + OpReply) \<times> 'w" where
  "stub_Op call stub request deadline_ms w =
     stub_sync call (\<lambda>m. case m of OpReply_msg p \<Rightarrow> Some p | _ \<Rightarrow> None)
       (stub_Op_async stub request) deadline_ms w"

lemmas service_defs [rpc_defs] =
  RaftService_methods_def RaftService_base_def RaftService_GetStatus_def RaftService_AppendMsg_def
  RaftService_Vote_def RaftService_Op_def dispatch_reply_def RaftService_call_method_def
  RaftService_GetRequestPrototype_def RaftService_GetResponsePrototype_def

lemmas stub_defs [rpc_defs] =
  stub_async_def stub_GetStatus_async_def stub_AppendMsg_async_def stub_Vote_async_def
  stub_Op_async_def stub_sync_def stub_GetStatus_def stub_AppendMsg_def stub_Vote_def stub_Op_def

section \<open>What the stubs rely on\<close>

text \<open>
  A channel parses the response into a message of the method's output type.
\<close>

locale rpc_channel =
  fixes call :: "('c, 'e, 'w) channel_call"
  assumes response_typed: "\<lbrakk>call c d w = (RPC_ok m, w'); ic_method c \<in> set RaftService_methods\<rbrakk> \<Longrightarrow>
    message_type_of m = md_output (ic_method c)"
begin

lemma stub_Vote_typed: "fst (stub_Vote call stub r d w) \<noteq> Inl Response_type"
proof -
  obtain res w' where res: "call (stub_Vote_async stub r) d w = (res, w')"
    by fastforce
  show ?thesis
  proof (cases res)
    case (RPC_ok m)
    with res have "message_type_of m = T_VoteReply"
      using response_typed [of "stub_Vote_async stub r" d w m w'] by (simp add: rpc_defs)
    with res RPC_ok show ?thesis
      by (cases m) (simp_all add: stub_Vote_def stub_sync_def)
  qed (use res in \<open>simp add: stub_Vote_def stub_sync_def\<close>)
qed

lemma stub_AppendMsg_typed: "fst (stub_AppendMsg call stub r d w) \<noteq> Inl Response_type"
proof -
  obtain res w' where res: "call (stub_AppendMsg_async stub r) d w = (res, w')"
    by fastforce
  show ?thesis
  proof (cases res)
    case (RPC_ok m)
    with res have "message_type_of m = T_AppendReply"
      using response_typed [of "stub_AppendMsg_async stub r" d w m w'] by (simp add: rpc_defs)
    with res RPC_ok show ?thesis
      by (cases m) (simp_all add: stub_AppendMsg_def stub_sync_def)
  qed (use res in \<open>simp add: stub_AppendMsg_def stub_sync_def\<close>)
qed

end

text \<open>
  A channel to one peer: a response is what the peer's \<open>call_method\<close> sent for this request, in
  the state the peer had.  \<open>srv\<close> reads the peer's state off the world.
\<close>

locale peer_channel =
  fixes call :: "('c, 'e, 'w) channel_call"
    and svc :: "'s RaftService"
    and srv :: "'w \<Rightarrow> 's"
  assumes delivered: "call c d w = (RPC_ok m, w') \<Longrightarrow>
    RaftService_call_method svc (ic_method c) (ic_request c) (srv w) = Inr (Some (srv w', Reply_send m))"

text \<open>The dispatch answers a method with a message of the method's output type.\<close>

lemma map_reply_send: "map_reply f r = Reply_send m \<longleftrightarrow> (\<exists>p. r = Reply_send p \<and> m = f p)"
  by (cases r) auto

lemma call_method_typed:
  assumes "mth \<in> set RaftService_methods"
    and "RaftService_call_method svc mth request s = Inr (Some (s', Reply_send m))"
  shows "message_type_of m = md_output mth \<and> message_type_of request = md_input mth"
  using assms
  by (auto simp: rpc_defs map_reply_send split: Message.splits)

sublocale peer_channel \<subseteq> rpc_channel call
  by unfold_locales (blast dest: delivered call_method_typed)

context peer_channel begin

lemma stub_Vote_handled:
  assumes "stub_Vote call stub r d w = (Inr p, w')"
  shows "svc_Vote svc r (srv w) = Some (srv w', Reply_send p)"
proof -
  from assms obtain m where m: "call (stub_Vote_async stub r) d w = (RPC_ok m, w')"
    and p: "m = VoteReply_msg p"
    by (auto simp: stub_Vote_def stub_sync_def split: rpc_result.splits prod.splits
        option.splits Message.splits)
  from delivered [OF m] p show ?thesis
    by (auto simp: rpc_defs map_reply_send)
qed

lemma stub_AppendMsg_handled:
  assumes "stub_AppendMsg call stub r d w = (Inr p, w')"
  shows "svc_AppendMsg svc r (srv w) = Some (srv w', Reply_send p)"
proof -
  from assms obtain m where m: "call (stub_AppendMsg_async stub r) d w = (RPC_ok m, w')"
    and p: "m = AppendReply_msg p"
    by (auto simp: stub_AppendMsg_def stub_sync_def split: rpc_result.splits prod.splits
        option.splits Message.splits)
  from delivered [OF m] p show ?thesis
    by (auto simp: rpc_defs map_reply_send)
qed

end

section \<open>Properties\<close>

text \<open>
  \<open>RaftService::call_method\<close> on every input: an index outside 0 to 3 is the fatal error, a
  request that is not of the method's input type is the failing cast, and every other call runs
  exactly the virtual method of the index and wraps its reply in the method's output type.
\<close>

theorem call_method_total:
  "RaftService_call_method svc mth request s =
    (if md_index mth \<notin> {0, 1, 2, 3} then Inl Bad_Method_Index
     else if message_type_of request \<noteq> md_input (RaftService_methods ! nat (md_index mth))
     then Inl Bad_Down_Cast
     else Inr (case request of
       Empty_msg e \<Rightarrow> map_option (\<lambda>(t, p). (t, map_reply PeerStatus_msg p)) (svc_GetStatus svc e s)
     | AppendRequest_msg r \<Rightarrow> map_option (\<lambda>(t, p). (t, map_reply AppendReply_msg p)) (svc_AppendMsg svc r s)
     | VoteRequest_msg r \<Rightarrow> map_option (\<lambda>(t, p). (t, map_reply VoteReply_msg p)) (svc_Vote svc r s)
     | OpRequest_msg r \<Rightarrow> map_option (\<lambda>(t, p). (t, map_reply OpReply_msg p)) (svc_Op svc r s)
     | _ \<Rightarrow> None))"
  by (auto simp: rpc_defs split: Message.splits)

text \<open>
  The prototypes agree with the method table of the \<open>.proto\<close> file: for each method the server
  parses a request into its input type and the client a response into its output type; and a
  service that overrides nothing answers each of them with the "not implemented" error.
\<close>

theorem prototypes_match_methods:
  assumes "mth \<in> set RaftService_methods"
  shows "\<exists>m n. RaftService_GetRequestPrototype mth = Inr m \<and> message_type_of m = md_input mth \<and>
    RaftService_GetResponsePrototype mth = Inr n \<and> message_type_of n = md_output mth \<and>
    RaftService_call_method RaftService_base mth m s =
      Inr (Some (s, Reply_Error METHOD_NOT_IMPLEMENTED
        (''Method '' @ md_name mth @ ''() not implemented.'')))"
  using assms by (auto simp: rpc_defs)

theorem prototypes_match_methods_witness:
  "\<exists>m. RaftService_GetRequestPrototype (RaftService_methods ! 2) = Inr m \<and>
     message_type_of m = md_input (RaftService_methods ! 2)"
proof -
  have "RaftService_methods ! 2 \<in> set RaftService_methods"
    by (rule nth_mem) (simp add: RaftService_methods_def)
  from prototypes_match_methods [OF this, of "()"] show ?thesis
    by (elim exE conjE) (rule exI, rule conjI)
qed

end
