(* ===== verification/Cpp_Strings.thy ===== *)
theory Cpp_Strings
  imports Prelude
begin

text \<open>
  The text operations of the C++ library the sources use, on \<open>std::string\<close> as a list of
  bytes: \<open>std::to_string\<close>, \<open>std::getline\<close>, and the extraction of a word and of an \<open>int\<close>
  from a stream with \<open>>>\<close> (decimal, "C" locale).  An extraction that sets \<open>failbit\<close> is
  \<open>None\<close>; otherwise it returns the value and the rest of the stream.
\<close>

section \<open>std::to\_string\<close>

definition digit_char :: "nat \<Rightarrow> char" where
  "digit_char d = char_of (48 + d)"

fun nat_to_string :: "nat \<Rightarrow> string" where
  "nat_to_string n =
     (if n < 10 then [digit_char n] else nat_to_string (n div 10) @ [digit_char (n mod 10)])"

declare nat_to_string.simps [simp del]

definition int_to_string :: "int \<Rightarrow> string" where
  "int_to_string i = (if i < 0 then CHR ''-'' # nat_to_string (nat (- i)) else nat_to_string (nat i))"

definition to_string :: "cint \<Rightarrow> string" where
  "to_string w = int_to_string (sint w)"

section \<open>Stream extraction\<close>

definition is_space :: "char \<Rightarrow> bool" where
  "is_space c \<longleftrightarrow> (let n = (of_char c :: nat) in n = 32 \<or> 9 \<le> n \<and> n \<le> 13)"

definition is_digit :: "char \<Rightarrow> bool" where
  "is_digit c \<longleftrightarrow> (let n = (of_char c :: nat) in 48 \<le> n \<and> n \<le> 57)"

definition digit_val :: "char \<Rightarrow> nat" where
  "digit_val c = of_char c - 48"

definition newline :: char where
  "newline = char_of (10 :: nat)"

definition extract_word :: "string \<Rightarrow> (string \<times> string) option" where
  "extract_word s =
     (let t = dropWhile is_space s; w = takeWhile (\<lambda>c. \<not> is_space c) t
      in if w = [] then None else Some (w, dropWhile (\<lambda>c. \<not> is_space c) t))"

text \<open>Base ten accumulation of a run of digits.\<close>

definition digits_val :: "string \<Rightarrow> nat" where
  "digits_val ds = foldl (\<lambda>n c. 10 * n + digit_val c) 0 ds"

text \<open>An optional sign, then as many digits as there are.\<close>

definition split_sign :: "string \<Rightarrow> bool \<times> string" where
  "split_sign s =
     (case s of
        c # r \<Rightarrow> if c = CHR ''-'' then (True, r) else if c = CHR ''+'' then (False, r) else (False, s)
      | [] \<Rightarrow> (False, s))"

definition extract_int :: "string \<Rightarrow> (cint \<times> string) option" where
  "extract_int s =
     (let (neg, t) = split_sign (dropWhile is_space s);
          ds = takeWhile is_digit t;
          v = (if neg then - int (digits_val ds) else int (digits_val ds))
      in if ds = [] \<or> v < - (2 ^ 31) \<or> 2 ^ 31 \<le> v then None
         else Some (of_int v, dropWhile is_digit t))"

definition getline :: "string \<Rightarrow> (string \<times> string) option" where
  "getline s =
     (if s = [] then None
      else Some (takeWhile (\<lambda>c. c \<noteq> newline) s, drop 1 (dropWhile (\<lambda>c. c \<noteq> newline) s)))"

section \<open>Digits\<close>

lemma of_char_digit_char [simp]: "d < 10 \<Longrightarrow> of_char (digit_char d) = 48 + d"
  by (simp add: digit_char_def)

lemma digit_char_neq:
  assumes "d < 10" and "of_char c < (48 :: nat) \<or> (57 :: nat) < of_char c"
  shows "digit_char d \<noteq> c"
proof
  assume "digit_char d = c"
  with of_char_digit_char [OF assms(1)] have "of_char c = 48 + d" by simp
  with assms show False by simp
qed

lemma digit_char_props [simp]:
  assumes "d < 10"
  shows "is_digit (digit_char d)" "digit_val (digit_char d) = d" "\<not> is_space (digit_char d)"
    "digit_char d \<noteq> CHR ''-''" "digit_char d \<noteq> CHR ''+''" "digit_char d \<noteq> CHR '':''"
    "digit_char d \<noteq> newline"
  using assms
  by (simp_all add: is_digit_def digit_val_def is_space_def newline_def digit_char_neq)

lemma digits_val_snoc [simp]: "digits_val (ds @ [c]) = 10 * digits_val ds + digit_val c"
  by (simp add: digits_val_def)

lemma digits_val_singleton [simp]: "digits_val [c] = digit_val c"
  by (simp add: digits_val_def)

lemma nat_to_string_nonempty [simp]: "nat_to_string n \<noteq> []"
  by (subst nat_to_string.simps) simp

lemma digits_val_nat_to_string [simp]: "digits_val (nat_to_string n) = n"
  by (induction n rule: nat_to_string.induct) (subst nat_to_string.simps, simp)

lemma nat_to_string_digits: "c \<in> set (nat_to_string n) \<Longrightarrow> \<exists>d < 10. c = digit_char d"
proof (induction n rule: nat_to_string.induct)
  case (1 n)
  then show ?case
    by (subst (asm) nat_to_string.simps) (auto split: if_splits intro: exI [of _ "n mod 10"])
qed

lemma nat_to_string_all:
  assumes "\<And>d. d < 10 \<Longrightarrow> P (digit_char d)"
  shows "\<forall>c \<in> set (nat_to_string n). P c"
  using assms nat_to_string_digits by blast

lemma int_to_string_nonempty [simp]: "int_to_string i \<noteq> []"
  by (simp add: int_to_string_def)

lemma int_to_string_all:
  assumes "P (CHR ''-'')" and "\<And>d. d < 10 \<Longrightarrow> P (digit_char d)"
  shows "\<forall>c \<in> set (int_to_string i). P c"
  using assms nat_to_string_all [of P] by (auto simp: int_to_string_def)

section \<open>Runs of characters\<close>

definition stops :: "(char \<Rightarrow> bool) \<Rightarrow> string \<Rightarrow> bool" where
  "stops P r \<longleftrightarrow> (case r of [] \<Rightarrow> True | c # _ \<Rightarrow> \<not> P c)"

lemma stops_simps [simp]: "stops P []" "stops P (c # r) \<longleftrightarrow> \<not> P c"
  by (simp_all add: stops_def)

lemma takeWhile_run:
  assumes "\<forall>c \<in> set xs. P c" and "stops P r"
  shows "takeWhile P (xs @ r) = xs" "dropWhile P (xs @ r) = r"
  using assms by (cases r; induction xs; simp)+

section \<open>Reading back what to\_string prints\<close>

lemma nat_to_string_Cons:
  obtains d ds where "nat_to_string n = digit_char d # ds" "d < 10"
proof (cases "nat_to_string n")
  case (Cons c ds)
  then have "c \<in> set (nat_to_string n)" by simp
  with nat_to_string_digits Cons that show ?thesis by metis
qed simp

lemma split_sign_nat: "split_sign (nat_to_string n @ r) = (False, nat_to_string n @ r)"
  by (rule nat_to_string_Cons [of n]) (simp add: split_sign_def)

lemma split_sign_int:
  "split_sign (int_to_string i @ r) = (i < 0, nat_to_string (nat \<bar>i\<bar>) @ r)"
  by (cases "i < 0") (simp_all add: int_to_string_def split_sign_nat, simp add: split_sign_def)

lemma dropWhile_space_int:
  "dropWhile is_space (int_to_string i @ r) = int_to_string i @ r"
proof (cases "int_to_string i")
  case (Cons c cs)
  have "\<forall>c \<in> set (int_to_string i). \<not> is_space c"
    by (rule int_to_string_all) (simp_all add: is_space_def)
  with Cons show ?thesis by simp
qed simp

lemma extract_int_print:
  assumes "- (2 ^ 31) \<le> i" and "i < 2 ^ 31" and "stops is_digit r"
  shows "extract_int (int_to_string i @ r) = Some (of_int i, r)"
proof -
  have run: "\<forall>c \<in> set (nat_to_string n). is_digit c" for n
    by (rule nat_to_string_all) simp
  show ?thesis
    using assms takeWhile_run [OF run assms(3)]
    by (auto simp: extract_int_def dropWhile_space_int split_sign_int Let_def)
qed

lemma int_to_string_inject [simp]: "int_to_string i = int_to_string j \<longleftrightarrow> i = j"
proof
  assume "int_to_string i = int_to_string j"
  then have "split_sign (int_to_string i @ []) = split_sign (int_to_string j @ [])"
    by simp
  then have eq: "(i < 0, nat_to_string (nat \<bar>i\<bar>) @ []) = (j < 0, nat_to_string (nat \<bar>j\<bar>) @ [])"
    by (simp only: split_sign_int)
  then have "i < 0 \<longleftrightarrow> j < 0"
    and "digits_val (nat_to_string (nat \<bar>i\<bar>)) = digits_val (nat_to_string (nat \<bar>j\<bar>))"
    by auto
  then show "i = j"
    by (cases "i < 0") auto
qed simp

lemma sint_cint_range: "- (2 ^ 31) \<le> sint (w :: cint)" "sint (w :: cint) < 2 ^ 31"
  using sint_range_size [of w] by (simp_all add: word_size)

lemma extract_int_to_string:
  "stops is_digit r \<Longrightarrow> extract_int (to_string w @ r) = Some (w, r)"
  using extract_int_print [OF sint_cint_range] by (simp add: to_string_def)

lemma to_string_inject [simp]: "to_string v = to_string w \<longleftrightarrow> v = w"
  by (auto simp: to_string_def intro: signed_word_eqI)

lemma to_string_all:
  assumes "P (CHR ''-'')" and "\<And>d. d < 10 \<Longrightarrow> P (digit_char d)"
  shows "\<forall>c \<in> set (to_string w). P c"
  unfolding to_string_def by (rule int_to_string_all) (fact assms)+

lemma to_string_nonempty [simp]: "to_string w \<noteq> []"
  by (simp add: to_string_def)

end
