(* ===== verification/Raft_Node.thy ===== *)
theory Raft_Node
  imports RWLock Consensus_Log Rpcz_Service Cpp_Strings
begin

text \<open>
  One peer: the fields of class \<open>Raft\<close> (\<open>src/raft.h\<close>), its constructor, \<open>Kill\<close> and the
  status mappings of \<open>src/raft.cpp\<close>, and the four service methods it overrides.  The daemon
  thread's loop is in theory \<open>Raft_Daemon\<close>.

  The clock is an argument \<open>now\<close> of the operations that read it (milliseconds since the epoch
  as a \<open>long long\<close>).  A member the constructor leaves indeterminate is \<open>None\<close>.  The mutex
  \<open>lock_\<close> is a flag: an operation that takes it returns \<open>None\<close>, that is, blocks, while the flag
  is set.
\<close>

section \<open>State\<close>

text \<open>A \<open>std::thread\<close>: running, its function returned, or already joined.\<close>

datatype thread = Thread_Running | Thread_Finished | Thread_Joined

record Raft =
  rpc_addr :: string
  rpc_port :: cint
  app_terminated :: bool
  rpc_thread :: thread
  raft_thread :: thread
  self_id :: string
  vote_for :: string
  node_term :: uint64
  status :: RaftStatus
  leader_active_time :: llong
  is_dead :: bool
  commit_index :: "uint64 option"
  last_applied :: "uint64 option"
  peers :: "string set"
  peers_next_index :: "string \<rightharpoonup> uint64"
  lock :: bool
  log_lock :: RWLock
  node_logs :: ConsensusLog

section \<open>Construction and destruction\<close>

text \<open>\<open>peers_addrs[peer_id]\<close> is unchecked: an index outside the vector is undefined behaviour.\<close>

datatype ctor_error = Peer_id_out_of_range

definition Raft_new ::
  "string \<Rightarrow> cint \<Rightarrow> cint \<Rightarrow> string list \<Rightarrow> llong \<Rightarrow> ctor_error + Raft" where
  "Raft_new addr port peer_id peers_addrs now =
    (if unat (uint64_of_int peer_id) < length peers_addrs then
       Inr \<lparr>rpc_addr = addr, rpc_port = port, app_terminated = False,
            rpc_thread = Thread_Running, raft_thread = Thread_Running,
            self_id = peers_addrs ! unat (uint64_of_int peer_id), vote_for = [],
            node_term = - 1, status = FOLLOWER, leader_active_time = now, is_dead = False,
            commit_index = None, last_applied = None, peers = set peers_addrs,
            peers_next_index = Map.empty, lock = False, log_lock = RWLock_init,
            node_logs = ConsensusLog_init\<rparr>
     else Inl Peer_id_out_of_range)"

text \<open>
  \<open>Kill\<close> joins two threads, so it runs in two phases around the moment the daemon has left its
  loop: it raises \<open>is_dead_\<close>, and once \<open>raft_thread_\<close> has finished it stops the server and
  marks the peer dead.  \<open>Kill\<close> is the effect of the whole call.
\<close>

definition Kill_request :: "Raft \<Rightarrow> Raft" where
  "Kill_request s = s\<lparr>is_dead := True\<rparr>"

definition Kill_complete :: "Raft \<Rightarrow> Raft option" where
  "Kill_complete s =
    (if raft_thread s = Thread_Finished then
       Some (s\<lparr>raft_thread := Thread_Joined, app_terminated := True,
               rpc_thread := Thread_Joined, status := DEAD\<rparr>)
     else None)"

definition daemon_exit :: "Raft \<Rightarrow> Raft" where
  "daemon_exit s = s\<lparr>raft_thread := Thread_Finished\<rparr>"

definition Kill :: "Raft \<Rightarrow> Raft" where
  "Kill s =
    (if \<not> is_dead s then
       s\<lparr>is_dead := True, raft_thread := Thread_Joined, app_terminated := True,
         rpc_thread := Thread_Joined, status := DEAD\<rparr>
     else s)"

definition Raft_delete :: "Raft \<Rightarrow> Raft" where
  "Raft_delete s = Kill s"

section \<open>Status and description\<close>

fun StatusMapping :: "RaftStatus \<Rightarrow> PeerStatus_Status" where
  "StatusMapping FOLLOWER = PS_FOLLOWER"
| "StatusMapping CANDIDATE = PS_CANDIDATE"
| "StatusMapping LEADER = PS_LEADER"
| "StatusMapping _ = PS_UNKNOWN"

fun PeerStatusMapping :: "PeerStatus_Status \<Rightarrow> RaftStatus" where
  "PeerStatusMapping PS_FOLLOWER = FOLLOWER"
| "PeerStatusMapping PS_CANDIDATE = CANDIDATE"
| "PeerStatusMapping PS_LEADER = LEADER"
| "PeerStatusMapping _ = UNKNOWN"

definition GetInfo :: "Raft \<Rightarrow> string" where
  "GetInfo s = rpc_addr s @ to_string (rpc_port s)"

text \<open>The endpoint \<open>ThreadMain\<close> binds its server to.\<close>

definition ThreadMain_bind :: "Raft \<Rightarrow> string" where
  "ThreadMain_bind s = ''tcp://'' @ rpc_addr s @ '':'' @ to_string (rpc_port s)"

section \<open>Service methods\<close>

definition GetStatus :: "Empty \<Rightarrow> Raft \<Rightarrow> (Raft \<times> PeerStatus reply) option" where
  "GetStatus e s =
     Some (s, Reply_send \<lparr>ps_term = Some (node_term s), ps_status = Some (StatusMapping (status s))\<rparr>)"

text \<open>
  \<open>Op\<close> takes no mutex.  Its critical sections are empty; what remains of them is that the call
  waits for the log lock and gives it back.
\<close>

definition Op :: "OpRequest \<Rightarrow> Raft \<Rightarrow> (Raft \<times> OpReply reply) option" where
  "Op e s =
    (if status s \<noteq> LEADER then Some (s, Reply_send \<lparr>orep_success = Some False\<rparr>)
     else
       (let done = (\<lambda>l. Some (s\<lparr>log_lock := l\<rparr>, Reply_send \<lparr>orep_success = Some True\<rparr>))
        in case get_oreq_op e of
             ENTRY_DELETE \<Rightarrow> Option.bind (Option.bind (WriteLock (log_lock s)) Unlock) done
           | ENTRY_INSERT \<Rightarrow> Option.bind (Option.bind (WriteLock (log_lock s)) Unlock) done
           | ENTRY_QUERY \<Rightarrow> Option.bind (Option.bind (ReadLock (log_lock s)) Unlock) done
           | _ \<Rightarrow> done (log_lock s)))"

definition Vote_locked :: "llong \<Rightarrow> VoteRequest \<Rightarrow> Raft \<Rightarrow> Raft \<times> VoteReply" where
  "Vote_locked now request s =
    (let response = VoteReply_default\<lparr>vrep_term := Some (node_term s)\<rparr>
     in if status s = LEADER \<or> status s = CANDIDATE then (s, response\<lparr>vrep_vote := Some False\<rparr>)
        else if vote_for s \<noteq> [] then (s, response\<lparr>vrep_vote := Some False\<rparr>)
        else (s\<lparr>vote_for := get_vreq_candidate_id request, leader_active_time := now\<rparr>,
              response\<lparr>vrep_vote := Some True\<rparr>))"

definition Vote :: "llong \<Rightarrow> VoteRequest \<Rightarrow> Raft \<Rightarrow> (Raft \<times> VoteReply reply) option" where
  "Vote now request s =
    (if lock s then None
     else case Vote_locked now request s of (s', response) \<Rightarrow> Some (s', Reply_send response))"

text \<open>
  \<open>int term = request.term()\<close> narrows the 64 bit term; the comparison and the assignment widen
  it again.
\<close>

definition AppendMsg_locked :: "llong \<Rightarrow> AppendRequest \<Rightarrow> Raft \<Rightarrow> Raft \<times> AppendReply" where
  "AppendMsg_locked now request s =
    (let e = AppendReply_default\<lparr>arep_term := Some (node_term s), arep_success := Some False\<rparr>;
         s1 = s\<lparr>leader_active_time := now\<rparr>;
         term_arg = int_of_uint64 (get_areq_term request);
         leader_id = get_areq_candidate_id request
     in if node_term s1 \<le> uint64_of_int term_arg then
          (let s2 = s1\<lparr>node_term := uint64_of_int term_arg\<rparr>;
               s3 = (if status s2 = CANDIDATE \<or> status s2 = LEADER
                     then s2\<lparr>status := FOLLOWER, vote_for := leader_id\<rparr> else s2)
           in (s3, e\<lparr>arep_success := Some True\<rparr>))
        else (s1, e\<lparr>arep_success := Some False\<rparr>))"

definition AppendMsg :: "llong \<Rightarrow> AppendRequest \<Rightarrow> Raft \<Rightarrow> (Raft \<times> AppendReply reply) option" where
  "AppendMsg now request s =
    (if lock s then None
     else case AppendMsg_locked now request s of (s', e) \<Rightarrow> Some (s', Reply_send e))"

text \<open>The method table of a \<open>Raft\<close> object, at the time \<open>now\<close>.\<close>

definition Raft_service :: "llong \<Rightarrow> Raft RaftService" where
  "Raft_service now = \<lparr>svc_GetStatus = GetStatus, svc_AppendMsg = AppendMsg now,
     svc_Vote = Vote now, svc_Op = Op\<rparr>"

lemmas node_defs [raft_defs] =
  GetStatus_def Op_def Vote_def Vote_locked_def AppendMsg_def AppendMsg_locked_def
  Raft_service_def Kill_def Kill_request_def Kill_complete_def daemon_exit_def

section \<open>Service methods: behaviour on every branch\<close>

definition may_vote :: "Raft \<Rightarrow> bool" where
  "may_vote s \<longleftrightarrow> status s \<noteq> LEADER \<and> status s \<noteq> CANDIDATE \<and> vote_for s = []"

lemma Vote_granted:
  assumes "\<not> lock s" and "may_vote s"
  shows "Vote now r s =
    Some (s\<lparr>vote_for := get_vreq_candidate_id r, leader_active_time := now\<rparr>,
          Reply_send \<lparr>vrep_term = Some (node_term s), vrep_vote = Some True\<rparr>)"
  using assms by (simp add: may_vote_def Vote_def Vote_locked_def msg_defs)

lemma Vote_refused:
  assumes "\<not> lock s" and "\<not> may_vote s"
  shows "Vote now r s =
    Some (s, Reply_send \<lparr>vrep_term = Some (node_term s), vrep_vote = Some False\<rparr>)"
  using assms by (auto simp: may_vote_def Vote_def Vote_locked_def msg_defs Let_def)

lemma Vote_blocks [simp]: "lock s \<Longrightarrow> Vote now r s = None"
  by (simp add: Vote_def)

text \<open>The term a request carries once it has gone through an \<open>int\<close>.\<close>

definition wire_term :: "AppendRequest \<Rightarrow> uint64" where
  "wire_term r = uint64_of_int (int_of_uint64 (get_areq_term r))"

lemma wire_term_exact: "get_areq_term r < 2 ^ 31 \<Longrightarrow> wire_term r = get_areq_term r"
  by (simp add: wire_term_def)

lemma AppendMsg_accepted:
  assumes "\<not> lock s" and "node_term s \<le> wire_term r"
  shows "AppendMsg now r s =
    Some (s\<lparr>leader_active_time := now, node_term := wire_term r,
            status := (if status s = CANDIDATE \<or> status s = LEADER then FOLLOWER else status s),
            vote_for := (if status s = CANDIDATE \<or> status s = LEADER
                         then get_areq_candidate_id r else vote_for s)\<rparr>,
          Reply_send \<lparr>arep_term = Some (node_term s), arep_success = Some True\<rparr>)"
  using assms by (simp add: AppendMsg_def AppendMsg_locked_def wire_term_def msg_defs Let_def)

lemma AppendMsg_rejected:
  assumes "\<not> lock s" and "\<not> node_term s \<le> wire_term r"
  shows "AppendMsg now r s =
    Some (s\<lparr>leader_active_time := now\<rparr>,
          Reply_send \<lparr>arep_term = Some (node_term s), arep_success = Some False\<rparr>)"
  using assms by (simp add: AppendMsg_def AppendMsg_locked_def wire_term_def msg_defs Let_def)

lemma AppendMsg_blocks [simp]: "lock s \<Longrightarrow> AppendMsg now r s = None"
  by (simp add: AppendMsg_def)

lemma Op_leader_only:
  assumes "Op e s = Some (s', rep)"
  shows "rep = Reply_send \<lparr>orep_success = Some (status s = LEADER)\<rparr>"
  using assms
  by (auto simp: Op_def Let_def bind_eq_Some_conv split: if_splits EntryOp.splits)

lemma Op_frame:
  assumes "Op e s = Some (s', rep)" and "RWLock_ok (log_lock s)"
  shows "s' = s"
  using assms
  by (auto simp: Op_def Let_def bind_eq_Some_conv dest: rwl.read_section rwl.write_section
      split: if_splits EntryOp.splits)

lemma Op_total:
  assumes "log_lock s = RW_Free"
  shows "\<exists>rep. Op e s = Some (s, rep)"
  using assms by (auto simp: Op_def Let_def split: EntryOp.splits)

section \<open>Sequences of requests to one peer\<close>

datatype service_request = Req_GetStatus Empty | Req_Op OpRequest | Req_Vote llong VoteRequest
  | Req_AppendMsg llong AppendRequest

text \<open>
  Running a list of requests between two daemon iterations: the state afterwards and the
  candidates that were granted the vote, in order.  A request whose handler blocks is left out.
\<close>

fun serve :: "service_request list \<Rightarrow> Raft \<Rightarrow> Raft \<times> string list" where
  "serve [] s = (s, [])"
| "serve (Req_GetStatus e # rs) s =
    (case GetStatus e s of None \<Rightarrow> serve rs s | Some (s', _) \<Rightarrow> serve rs s')"
| "serve (Req_Op e # rs) s =
    (case Op e s of None \<Rightarrow> serve rs s | Some (s', _) \<Rightarrow> serve rs s')"
| "serve (Req_AppendMsg now r # rs) s =
    (case AppendMsg now r s of None \<Rightarrow> serve rs s | Some (s', _) \<Rightarrow> serve rs s')"
| "serve (Req_Vote now r # rs) s =
    (case Vote now r s of
       Some (s', Reply_send v) \<Rightarrow>
         (case serve rs s' of (t, cs) \<Rightarrow>
            (t, if get_vrep_vote v then get_vreq_candidate_id r # cs else cs))
     | _ \<Rightarrow> serve rs s)"

definition named_requests :: "service_request list \<Rightarrow> bool" where
  "named_requests rs \<longleftrightarrow> list_all (\<lambda>q. case q of
      Req_Vote now r \<Rightarrow> get_vreq_candidate_id r \<noteq> []
    | Req_AppendMsg now r \<Rightarrow> get_areq_candidate_id r \<noteq> []
    | _ \<Rightarrow> True) rs"

lemma AppendMsg_not_may_vote:
  assumes "AppendMsg now r s = Some (s', rep)" and "\<not> may_vote s" and "get_areq_candidate_id r \<noteq> []"
  shows "\<not> may_vote s'"
proof -
  from assms(1) have "\<not> lock s" by (auto simp: AppendMsg_def split: if_splits)
  with assms show ?thesis
    by (cases "node_term s \<le> wire_term r")
      (auto simp: AppendMsg_accepted AppendMsg_rejected may_vote_def split: if_splits)
qed

lemma Op_may_vote: "Op e s = Some (s', rep) \<Longrightarrow> may_vote s' \<longleftrightarrow> may_vote s"
  by (auto simp: Op_def Let_def bind_eq_Some_conv may_vote_def split: if_splits EntryOp.splits)

lemma serve_not_may_vote:
  assumes "\<not> may_vote s" and "named_requests rs"
  shows "snd (serve rs s) = []"
  using assms
proof (induction rs s rule: serve.induct)
  case (5 now r rs s)
  then show ?case
    by (cases "lock s") (simp_all add: Vote_refused named_requests_def msg_defs split: prod.splits)
next
  case (3 e rs s)
  then show ?case
    by (cases "Op e s") (auto simp: named_requests_def dest: Op_may_vote)
next
  case (4 now r rs s)
  then show ?case
    by (cases "AppendMsg now r s") (auto simp: named_requests_def dest: AppendMsg_not_may_vote)
qed (simp_all add: GetStatus_def named_requests_def)

definition holds_vote :: "string \<Rightarrow> Raft \<Rightarrow> bool" where
  "holds_vote c s \<longleftrightarrow> vote_for s = c \<and> c \<noteq> [] \<and> status s \<noteq> LEADER \<and> status s \<noteq> CANDIDATE"

lemma AppendMsg_holds_vote:
  assumes "AppendMsg now r s = Some (s', rep)" and "holds_vote c s"
  shows "holds_vote c s'"
proof -
  from assms(1) have "\<not> lock s" by (auto simp: AppendMsg_def split: if_splits)
  with assms show ?thesis
    by (cases "node_term s \<le> wire_term r")
      (auto simp: AppendMsg_accepted AppendMsg_rejected holds_vote_def)
qed

lemma Op_holds_vote: "Op e s = Some (s', rep) \<Longrightarrow> holds_vote c s \<Longrightarrow> holds_vote c s'"
  by (auto simp: Op_def Let_def bind_eq_Some_conv holds_vote_def split: if_splits EntryOp.splits)

lemma holds_vote_may_not: "holds_vote c s \<Longrightarrow> \<not> may_vote s"
  by (auto simp: holds_vote_def may_vote_def)

lemma serve_holds_vote: "holds_vote c s \<Longrightarrow> holds_vote c (fst (serve rs s))"
proof (induction rs s rule: serve.induct)
  case (5 now r rs s)
  then show ?case
    by (cases "lock s"; cases "serve rs s") (fastforce simp: Vote_refused holds_vote_may_not)+
next
  case (3 e rs s)
  then show ?case by (cases "Op e s") (auto dest: Op_holds_vote)
next
  case (4 now r rs s)
  then show ?case by (cases "AppendMsg now r s") (auto dest: AppendMsg_holds_vote)
qed (simp_all add: GetStatus_def)

lemma serve_vote_kept:
  assumes "named_requests rs"
  shows "snd (serve rs s) = [] \<or> (\<exists>c. snd (serve rs s) = [c] \<and> holds_vote c (fst (serve rs s)))"
  using assms
proof (induction rs s rule: serve.induct)
  case (5 now r rs s)
  show ?case
  proof (cases "\<not> lock s \<and> may_vote s")
    case True
    let ?c = "get_vreq_candidate_id r"
    let ?s = "s\<lparr>vote_for := ?c, leader_active_time := now\<rparr>"
    from 5 True have vote: "holds_vote ?c ?s" and named: "named_requests rs"
      by (auto simp: holds_vote_def may_vote_def named_requests_def)
    have "snd (serve rs ?s) = []"
      by (rule serve_not_may_vote [OF holds_vote_may_not [OF vote] named])
    with True serve_holds_vote [OF vote, of rs] show ?thesis
      by (auto simp: Vote_granted msg_defs split: prod.splits)
  next
    case False
    with 5 show ?thesis
      by (cases "lock s") (simp_all add: Vote_refused named_requests_def msg_defs split: prod.splits)
  qed
qed (auto simp: named_requests_def split: option.splits)

section \<open>Initial state\<close>

lemma max_term_wire: "get_areq_term r < 2 ^ 31 \<Longrightarrow> \<not> (- 1 :: uint64) \<le> wire_term r"
  using le_less_trans [of "- 1 :: uint64" "get_areq_term r" "2 ^ 31"] by (auto simp: wire_term_exact)

lemma Raft_new_fields:
  assumes "Raft_new addr port k ps now = Inr s"
  shows "node_term s = - 1" "status s = FOLLOWER" "vote_for s = []" "\<not> lock s" "\<not> is_dead s"
    "peers s = set ps" "self_id s \<in> set ps" "log_lock s = RW_Free" "node_logs s = ConsensusLog_init"
    "rpc_addr s = addr" "rpc_port s = port" "\<not> app_terminated s" "raft_thread s = Thread_Running"
    "commit_index s = None" "last_applied s = None"
  using assms by (auto simp: Raft_new_def RWLock_init_def split: if_splits)

section \<open>Properties\<close>

text \<open>A concrete peer for the witnesses: what the constructor makes of a two peer configuration.\<close>

definition node0 :: Raft where
  "node0 = projr (Raft_new ''h'' 1 0 [''p'', ''q''] 0)"

lemma Raft_new_node0: "Raft_new ''h'' 1 0 [''p'', ''q''] 0 = Inr node0"
  by (simp add: node0_def Raft_new_def uint64_of_int_def)

lemmas node0_fields [simp] = Raft_new_fields [OF Raft_new_node0]


text \<open>
  C9.  Between two iterations of its daemon a peer gives away one vote at most: whatever requests
  it serves, in any order and number, as long as the senders name themselves, it grants nothing,
  or it was free to vote, grants exactly one candidate and still holds that vote afterwards.
\<close>

theorem one_vote_between_iterations:
  assumes "named_requests rs"
  shows "snd (serve rs s) = [] \<or>
    may_vote s \<and> (\<exists>c. snd (serve rs s) = [c] \<and> vote_for (fst (serve rs s)) = c)"
  using serve_vote_kept [OF assms] serve_not_may_vote [OF _ assms] by (auto simp: holds_vote_def)

definition two_candidates :: "service_request list" where
  "two_candidates =
    [Req_Vote 1 (VoteRequest_default\<lparr>vreq_candidate_id := Some ''p''\<rparr>),
     Req_Vote 2 (VoteRequest_default\<lparr>vreq_candidate_id := Some ''q''\<rparr>)]"

theorem one_vote_between_iterations_witness:
  "snd (serve two_candidates node0) = [''p''] \<and> vote_for (fst (serve two_candidates node0)) = ''p''"
proof -
  have named: "named_requests two_candidates"
    by (simp add: named_requests_def two_candidates_def msg_defs)
  have grant: "snd (serve two_candidates node0) = [''p'']"
    by (simp add: two_candidates_def Vote_granted Vote_refused may_vote_def msg_defs)
  with one_vote_between_iterations [OF named, of node0] show ?thesis
    by auto
qed



text \<open>
  \<open>AppendMsg\<close> never lowers the term, at any width: the new term is the old one or the narrowed
  term of the request, and never below the old one; it reports success exactly when the old term
  does not exceed the narrowed one.
\<close>

theorem AppendMsg_term_mono:
  assumes "AppendMsg now r s = Some (s', rep)"
  shows "node_term s \<le> node_term s' \<and> (node_term s' = node_term s \<or> node_term s' = wire_term r) \<and>
    (\<exists>ok. rep = Reply_send \<lparr>arep_term = Some (node_term s), arep_success = Some ok\<rparr> \<and>
      (ok \<longleftrightarrow> node_term s \<le> wire_term r))"
proof -
  from assms have "\<not> lock s"
    by (auto simp: AppendMsg_def split: if_splits)
  with assms show ?thesis
    by (cases "node_term s \<le> wire_term r") (auto simp: AppendMsg_accepted AppendMsg_rejected)
qed

theorem AppendMsg_term_mono_witness:
  "\<exists>s' rep. AppendMsg 9 AppendRequest_default node0 = Some (s', rep) \<and> node_term node0 \<le> node_term s'"
proof -
  obtain s' rep where res: "AppendMsg 9 AppendRequest_default node0 = Some (s', rep)"
    by (simp add: AppendMsg_def case_prod_beta)
  with AppendMsg_term_mono [OF res] show ?thesis
    by blast
qed

text \<open>
  C11.  Terms are narrowed to 32 bits on arrival: a request of term \<open>2 ^ 32 + t\<close> is handled exactly
  as one of term \<open>t\<close>, so a leader of a later term is refused as stale.
\<close>

theorem AppendMsg_truncates_term:
  assumes "t < 2 ^ 31"
  shows "AppendMsg now (r\<lparr>areq_term := Some (2 ^ 32 + t)\<rparr>) s = AppendMsg now (r\<lparr>areq_term := Some t\<rparr>) s"
  using assms int_of_uint64_wrap [of t]
  by (simp add: AppendMsg_def AppendMsg_locked_def msg_defs)

theorem AppendMsg_truncates_term_witness:
  "AppendMsg 9 (AppendRequest_default\<lparr>areq_term := Some (2 ^ 32 + 0)\<rparr>) (node0\<lparr>node_term := 1\<rparr>) =
   Some (node0\<lparr>node_term := 1, leader_active_time := 9\<rparr>,
         Reply_send \<lparr>arep_term = Some 1, arep_success = Some False\<rparr>)"
  using AppendMsg_truncates_term [of 0 9 AppendRequest_default "node0\<lparr>node_term := 1\<rparr>"]
  by (simp add: AppendMsg_def AppendMsg_locked_def msg_defs)

text \<open>
  \<open>Op\<close> with the log lock free, on every operation code: it returns, leaves the peer as it was,
  and reports success exactly at the leader.
\<close>

theorem Op_exact:
  assumes "log_lock s = RW_Free"
  shows "Op e s = Some (s, Reply_send \<lparr>orep_success = Some (status s = LEADER)\<rparr>)"
  using Op_total [OF assms, of e] Op_leader_only [of e s] by auto

theorem Op_exact_witness:
  "Op (OpRequest_default\<lparr>oreq_op := Some ENTRY_INSERT\<rparr>) (node0\<lparr>status := LEADER\<rparr>) =
     Some (node0\<lparr>status := LEADER\<rparr>, Reply_send \<lparr>orep_success = Some True\<rparr>)"
  using Op_exact [of "node0\<lparr>status := LEADER\<rparr>"] by simp

text \<open>
  \<open>Kill\<close> is idempotent and the destructor after it does nothing; its two phases around the
  daemon's exit give the whole effect; and it does not complete while the daemon still runs.
\<close>

theorem Kill_lifecycle:
  "Kill (Kill s) = Kill s \<and> Raft_delete (Kill s) = Kill s \<and>
   (\<not> is_dead s \<longrightarrow> Kill_complete (daemon_exit (Kill_request s)) = Some (Kill s)) \<and>
   (raft_thread s = Thread_Running \<longrightarrow> Kill_complete (Kill_request s) = None)"
  by (simp add: raft_defs Raft_delete_def)

theorem Kill_lifecycle_witness:
  "Kill_complete (daemon_exit (Kill_request node0)) = Some (Kill node0) \<and>
   Kill_complete (Kill_request node0) = None \<and> status (Kill node0) = DEAD"
  using Kill_lifecycle [of node0] by (simp add: Kill_def)

text \<open>
  The status a peer reports: \<open>GetStatus\<close> sends its term and status, the receiver's mapping
  gives back the status of every live peer and \<open>UNKNOWN\<close> for any other, and every protocol status
  survives the opposite round trip.
\<close>

theorem status_roundtrip:
  "(\<exists>m. GetStatus e s = Some (s, Reply_send m) \<and> ps_term m = Some (node_term s) \<and>
     PeerStatusMapping (get_ps_status m) =
       (if status s \<in> {FOLLOWER, CANDIDATE, LEADER} then status s else UNKNOWN)) \<and>
   StatusMapping (PeerStatusMapping st) = st"
  by (cases "status s"; cases st) (simp_all add: GetStatus_def msg_defs)

end
