(* ===== verification/Raft_Daemon.thy ===== *)
theory Raft_Daemon
  imports Raft_Node
begin

text \<open>
  The daemon thread of a peer: \<open>Raft::LaunchRaftDemon\<close> of \<open>src/raft.h\<close>.  It builds a stub
  per other peer and then loops; one iteration runs under \<open>lock_\<close> and does what the status asks:
  a follower watches the time of the last message of its leader, a candidate asks every peer for
  its vote, anything else is taken for a leader and sends an empty \<open>AppendMsg\<close> to every peer.

  What an iteration reads from outside is an argument: the random draw (200 to 350), the clock,
  the order in which the unordered set of peers is enumerated, the channels' \<open>call_method\<close> and
  the world it acts on.  The two calls of an iteration that the C++ leaves undefined, a method
  call through a null stub and an \<open>rpc_channel\<close> that fills a response of another type, are the
  errors of \<open>daemon_error\<close>.
\<close>

section \<open>Stubs by peer\<close>

text \<open>
  \<open>std::unordered_map<std::string, std::unique_ptr<RaftService_Stub>>\<close>: \<open>Some None\<close> is a key
  with a null pointer, which \<open>operator[]\<close> makes of a missing key.
\<close>

type_synonym 'c channels = "string \<rightharpoonup> 'c RaftService_Stub option"

definition channels_index :: "'c channels \<Rightarrow> string \<Rightarrow> 'c channels" where
  "channels_index ch p = (case ch p of None \<Rightarrow> ch(p \<mapsto> None) | Some _ \<Rightarrow> ch)"

text \<open>The loop that fills the map before the daemon's main loop.\<close>

definition setup_channels :: "(string \<Rightarrow> 'c) \<Rightarrow> string \<Rightarrow> string list \<Rightarrow> 'c channels" where
  "setup_channels create_rpc_channel self ps =
     fold (\<lambda>p ch. if p = self then ch
                  else ch(p \<mapsto> Some (RaftService_Stub_new_default (create_rpc_channel p) True)))
       ps Map.empty"

text \<open>The stub behind \<open>channels[p]\<close>, null where the key is missing or empty.\<close>

definition channel_ptr :: "'c channels \<Rightarrow> string \<Rightarrow> 'c RaftService_Stub option" where
  "channel_ptr ch p = (case ch p of None \<Rightarrow> None | Some q \<Rightarrow> q)"

section \<open>Follower\<close>

definition patience :: "cint \<Rightarrow> cint" where
  "patience draw = draw * 25"

definition leader_silent :: "cint \<Rightarrow> llong \<Rightarrow> Raft \<Rightarrow> bool" where
  "leader_silent draw cur_milli s \<longleftrightarrow>
     \<not> \<bar>sint (leader_active_time s - cur_milli)\<bar> < sint (llong_of_int (patience draw))"

text \<open>The branch that gives a silent leader up: its stub and its membership are erased.\<close>

definition forget_leader :: "Raft \<Rightarrow> 'c channels \<Rightarrow> Raft \<times> 'c channels" where
  "forget_leader s ch =
    (s\<lparr>peers := peers s - {vote_for s}, vote_for := []\<rparr>,
     ((channels_index ch (vote_for s))(vote_for s \<mapsto> None)) (vote_for s := None))"

definition daemon_follower ::
  "cint \<Rightarrow> llong \<Rightarrow> Raft \<Rightarrow> 'c channels \<Rightarrow> Raft \<times> 'c channels" where
  "daemon_follower draw cur_milli s ch =
    (if \<not> leader_silent draw cur_milli s then (s, ch)
     else if vote_for s = [] then (s\<lparr>status := CANDIDATE\<rparr>, ch)
     else forget_leader s ch)"

section \<open>Candidate\<close>

definition campaign_begin :: "Raft \<Rightarrow> Raft" where
  "campaign_begin s = s\<lparr>node_term := node_term s + 1, vote_for := self_id s\<rparr>"

definition vote_request :: "Raft \<Rightarrow> VoteRequest" where
  "vote_request s = VoteRequest_default\<lparr>vreq_candidate_id := Some (self_id s),
     vreq_last_log_index := Some (- 1), vreq_last_term_index := Some (- 1),
     vreq_term := Some (node_term s)\<rparr>"

datatype daemon_error = Null_stub | Response_confusion

text \<open>
  The reply object starts with \<open>vote = false\<close>; an \<open>rpc_error\<close> is caught and leaves it so.
\<close>

definition count_vote :: "'e stub_error + VoteReply \<Rightarrow> cint \<Rightarrow> cint" where
  "count_vote outcome n =
    (let reply = (case outcome of Inl _ \<Rightarrow> VoteReply_default\<lparr>vrep_vote := Some False\<rparr> | Inr r \<Rightarrow> r)
     in if get_vrep_vote reply then n + 1 else n)"

fun request_votes ::
  "('c, 'e, 'w) channel_call \<Rightarrow> string \<Rightarrow> 'c channels \<Rightarrow> VoteRequest \<Rightarrow> string list \<Rightarrow> cint \<Rightarrow> 'w \<Rightarrow>
     (daemon_error + cint) \<times> 'w" where
  "request_votes call self ch request [] n w = (Inr n, w)"
| "request_votes call self ch request (p # ps) n w =
    (if p = self then request_votes call self ch request ps n w
     else case channel_ptr ch p of
            None \<Rightarrow> (Inl Null_stub, w)
          | Some stub \<Rightarrow>
             (case stub_Vote call stub request 1000 w of
                (Inl Response_type, w') \<Rightarrow> (Inl Response_confusion, w')
              | (outcome, w') \<Rightarrow> request_votes call self ch request ps (count_vote outcome n) w'))"

text \<open>\<open>vote_count >= (peers_.size() / 2 + 1)\<close>, in \<open>size_t\<close>.\<close>

definition wins :: "cint \<Rightarrow> string set \<Rightarrow> bool" where
  "wins vote_count ps \<longleftrightarrow> of_nat (card ps) div 2 + 1 \<le> uint64_of_int vote_count"

definition become_leader :: "Raft \<Rightarrow> Raft" where
  "become_leader s =
    (let s1 = s\<lparr>status := LEADER\<rparr>
     in if ConsensusLog_size (node_logs s1) = 0 then
          s1\<lparr>peers_next_index := (\<lambda>p. if p \<in> peers s1 then Some 0 else peers_next_index s1 p),
             commit_index := Some 0, last_applied := Some 0\<rparr>
        else s1)"

definition campaign_finish :: "cint \<Rightarrow> llong \<Rightarrow> Raft \<Rightarrow> Raft" where
  "campaign_finish vote_count now s =
    (if wins vote_count (peers s) then become_leader s
     else s\<lparr>leader_active_time := now, status := FOLLOWER, vote_for := []\<rparr>)"

definition daemon_candidate ::
  "('c, 'e, 'w) channel_call \<Rightarrow> string list \<Rightarrow> llong \<Rightarrow> Raft \<Rightarrow> 'c channels \<Rightarrow> 'w \<Rightarrow>
     (daemon_error + Raft) \<times> 'w" where
  "daemon_candidate call order now s ch w =
    (let s1 = campaign_begin s
     in case request_votes call (self_id s1) ch (vote_request s1) order 1 w of
          (Inl e, w') \<Rightarrow> (Inl e, w')
        | (Inr n, w') \<Rightarrow> (Inr (campaign_finish n now s1), w'))"

section \<open>Leader\<close>

definition heartbeat_request :: "Raft \<Rightarrow> AppendRequest" where
  "heartbeat_request s = AppendRequest_default\<lparr>areq_candidate_id := Some (self_id s),
     areq_term := Some (node_term s)\<rparr>"

definition step_down :: "llong \<Rightarrow> AppendReply \<Rightarrow> Raft \<Rightarrow> Raft" where
  "step_down now reply s =
     s\<lparr>status := FOLLOWER, node_term := get_arep_term reply, leader_active_time := now\<rparr>"

fun send_heartbeats ::
  "('c, 'e, 'w) channel_call \<Rightarrow> llong \<Rightarrow> 'c channels \<Rightarrow> string list \<Rightarrow> Raft \<Rightarrow> 'w \<Rightarrow>
     (daemon_error + Raft) \<times> 'w" where
  "send_heartbeats call now ch [] s w = (Inr s, w)"
| "send_heartbeats call now ch (p # ps) s w =
    (if p = self_id s then send_heartbeats call now ch ps s w
     else case channel_ptr ch p of
            None \<Rightarrow> (Inl Null_stub, w)
          | Some stub \<Rightarrow>
             (case stub_AppendMsg call stub (heartbeat_request s) 1000 w of
                (Inr reply, w') \<Rightarrow>
                   if \<not> get_arep_success reply then (Inr (step_down now reply s), w')
                   else send_heartbeats call now ch ps s w'
              | (Inl (Rpc_error e), w') \<Rightarrow> send_heartbeats call now ch ps s w'
              | (Inl Response_type, w') \<Rightarrow> (Inl Response_confusion, w')))"

section \<open>The loop\<close>

text \<open>What one iteration reads from outside.\<close>

record daemon_input =
  di_draw :: cint
  di_now :: llong
  di_order :: "string list"

definition daemon_iteration ::
  "('c, 'e, 'w) channel_call \<Rightarrow> daemon_input \<Rightarrow> Raft \<Rightarrow> 'c channels \<Rightarrow> 'w \<Rightarrow>
     (daemon_error + Raft \<times> 'c channels) \<times> 'w" where
  "daemon_iteration call i s ch w =
    (if status s = FOLLOWER then (Inr (daemon_follower (di_draw i) (di_now i) s ch), w)
     else if status s = CANDIDATE then
       (case daemon_candidate call (di_order i) (di_now i) s ch w of
          (Inl e, w') \<Rightarrow> (Inl e, w') | (Inr s', w') \<Rightarrow> (Inr (s', ch), w'))
     else
       (case send_heartbeats call (di_now i) ch (di_order i) s w of
          (Inl e, w') \<Rightarrow> (Inl e, w') | (Inr s', w') \<Rightarrow> (Inr (s', ch), w')))"

text \<open>
  The loop over as many iterations as inputs are given: \<open>Inr (s, ch)\<close> with
  \<open>raft_thread s = Thread_Finished\<close> once it has seen \<open>is_dead_\<close>.
\<close>

fun daemon_loop ::
  "('c, 'e, 'w) channel_call \<Rightarrow> daemon_input list \<Rightarrow> Raft \<Rightarrow> 'c channels \<Rightarrow> 'w \<Rightarrow>
     (daemon_error + Raft \<times> 'c channels) \<times> 'w" where
  "daemon_loop call [] s ch w = (Inr (if is_dead s then daemon_exit s else s, ch), w)"
| "daemon_loop call (i # is) s ch w =
    (if is_dead s then (Inr (daemon_exit s, ch), w)
     else case daemon_iteration call i s ch w of
            (Inl e, w') \<Rightarrow> (Inl e, w')
          | (Inr (s', ch'), w') \<Rightarrow> daemon_loop call is s' ch' w')"

lemmas daemon_defs [raft_defs] =
  forget_leader_def daemon_follower_def campaign_begin_def vote_request_def count_vote_def
  become_leader_def campaign_finish_def daemon_candidate_def heartbeat_request_def step_down_def
  daemon_iteration_def

section \<open>Stubs\<close>

lemma setup_channels_fold:
  "fold (\<lambda>p ch. if p = self then ch
                  else ch(p \<mapsto> Some (RaftService_Stub_new_default (mk p) True))) ps ch q =
   (if q \<in> set ps \<and> q \<noteq> self then Some (Some (RaftService_Stub_new_default (mk q) True)) else ch q)"
  by (induction ps arbitrary: ch) auto

lemma setup_channels_lookup:
  "setup_channels mk self ps q =
    (if q \<in> set ps \<and> q \<noteq> self then Some (Some (RaftService_Stub_new_default (mk q) True)) else None)"
  by (simp add: setup_channels_def setup_channels_fold)

lemma forget_leader_channel:
  "channel_ptr (snd (forget_leader s ch)) q = (if q = vote_for s then None else channel_ptr ch q)"
  by (auto simp: forget_leader_def channel_ptr_def channels_index_def split: option.splits)

section \<open>Counting votes\<close>

definition grants :: "'e stub_error + VoteReply \<Rightarrow> bool" where
  "grants outcome \<longleftrightarrow> (case outcome of Inl _ \<Rightarrow> False | Inr r \<Rightarrow> get_vrep_vote r)"

lemma count_vote_grants: "count_vote outcome n = (if grants outcome then n + 1 else n)"
  by (auto simp: count_vote_def grants_def msg_defs split: sum.splits)

text \<open>The vote loop when the outcome of a call depends on the peer only.\<close>

lemma request_votes_count:
  assumes "\<And>p w. p \<in> set ps \<Longrightarrow> p \<noteq> self \<Longrightarrow>
      \<exists>stub. channel_ptr ch p = Some stub \<and> fst (stub_Vote call stub r 1000 w) = g p"
    and "\<And>p. g p \<noteq> Inl Response_type"
  shows "fst (request_votes call self ch r ps n w) =
    Inr (n + of_nat (length (filter (\<lambda>p. p \<noteq> self \<and> grants (g p)) ps)))"
  using assms(1)
proof (induction ps arbitrary: n w)
  case (Cons p ps)
  show ?case
  proof (cases "p = self")
    case True
    with Cons show ?thesis by simp
  next
    case False
    with Cons.prems [of p w] obtain stub where stub: "channel_ptr ch p = Some stub"
      and "fst (stub_Vote call stub r 1000 w) = g p"
      by auto
    then obtain w' where res: "stub_Vote call stub r 1000 w = (g p, w')"
      by (cases "stub_Vote call stub r 1000 w") simp
    have "fst (request_votes call self ch r (p # ps) n w) =
        fst (request_votes call self ch r ps (count_vote (g p) n) w')"
      using False stub res assms(2) [of p]
      by (auto split: sum.splits stub_error.splits)
    also have "\<dots> = Inr (count_vote (g p) n +
        of_nat (length (filter (\<lambda>p. p \<noteq> self \<and> grants (g p)) ps)))"
      by (rule Cons.IH) (use Cons.prems in auto)
    finally show ?thesis
      using False by (simp add: count_vote_grants)
  qed
qed simp

text \<open>The majority test, away from the width of \<open>int\<close>.\<close>

lemma wins_nat:
  assumes "k < 2 ^ 31" and "card ps < 2 ^ 31"
  shows "wins (of_nat k) ps \<longleftrightarrow> card ps div 2 + 1 \<le> k"
proof -
  have k: "uint64_of_int (of_nat k) = of_nat k"
  proof -
    have "signed_take_bit 31 (int k) = int k"
      using assms(1) by (intro signed_take_bit_int_eq_self) auto
    then show ?thesis
      by (simp add: uint64_of_int_def signed_of_nat)
  qed
  have half: "(of_nat (card ps) :: uint64) div 2 + 1 = of_nat (card ps div 2 + 1)"
  proof (rule word_unat_eq_iff [THEN iffD2])
    have "unat ((of_nat (card ps) :: uint64) div 2) = card ps div 2"
      using assms(2) by (simp add: unat_div unat_of_nat_uint64)
    then show "unat ((of_nat (card ps) :: uint64) div 2 + 1) = unat (of_nat (card ps div 2 + 1) :: uint64)"
      using assms(2) by (simp add: unat_word_ariths unat_of_nat_uint64 del: of_nat_add of_nat_Suc)
  qed
  have "wins (of_nat k) ps \<longleftrightarrow> unat (of_nat (card ps div 2 + 1) :: uint64) \<le> unat (of_nat k :: uint64)"
    unfolding wins_def k half word_le_nat_alt ..
  also have "\<dots> \<longleftrightarrow> card ps div 2 + 1 \<le> k"
    using assms by (simp add: unat_of_nat_uint64 del: of_nat_add of_nat_Suc)
  finally show ?thesis .
qed

section \<open>A whole campaign\<close>

definition elected_by :: "Raft \<Rightarrow> nat \<Rightarrow> bool" where
  "elected_by s k \<longleftrightarrow> card (peers s) div 2 + 1 \<le> k"

lemma daemon_candidate_outcome:
  assumes enum: "distinct order" "set order = peers s"
    and outcome: "\<And>p w. p \<in> peers s \<Longrightarrow> p \<noteq> self_id s \<Longrightarrow>
      \<exists>stub. channel_ptr ch p = Some stub \<and>
        fst (stub_Vote call stub (vote_request (campaign_begin s)) 1000 w) = g p"
    and typed: "\<And>p. g p \<noteq> Inl Response_type"
    and small: "card (peers s) < 2 ^ 30"
  shows "fst (daemon_candidate call order now s ch w) = Inr
    (let s1 = campaign_begin s
     in if elected_by s (1 + card {p \<in> peers s. p \<noteq> self_id s \<and> grants (g p)})
        then become_leader s1
        else s1\<lparr>leader_active_time := now, status := FOLLOWER, vote_for := []\<rparr>)"
proof -
  let ?V = "{p \<in> peers s. p \<noteq> self_id s \<and> grants (g p)}"
  have s1: "self_id (campaign_begin s) = self_id s" "peers (campaign_begin s) = peers s"
    by (simp_all add: campaign_begin_def)
  have count: "length (filter (\<lambda>p. p \<noteq> self_id s \<and> grants (g p)) order) = card ?V"
    using enum distinct_card [of "filter (\<lambda>p. p \<noteq> self_id s \<and> grants (g p)) order"] by auto
  have "fst (request_votes call (self_id s) ch (vote_request (campaign_begin s)) order 1 w) =
      Inr (1 + of_nat (length (filter (\<lambda>p. p \<noteq> self_id s \<and> grants (g p)) order)))"
    by (rule request_votes_count) (use outcome typed enum in auto)
  then obtain w' where votes: "request_votes call (self_id s) ch (vote_request (campaign_begin s))
      order 1 w = (Inr (of_nat (1 + card ?V)), w')"
    by (cases "request_votes call (self_id s) ch (vote_request (campaign_begin s)) order 1 w")
      (simp add: count)
  have fin: "finite (peers s)" using enum(2) by (metis List.finite_set)
  then have "card ?V \<le> card (peers s)" by (intro card_mono) auto
  then have "wins (of_nat (1 + card ?V)) (peers s) \<longleftrightarrow> elected_by s (1 + card ?V)"
    unfolding elected_by_def using small by (intro wins_nat) auto
  then show ?thesis
    by (simp add: daemon_candidate_def s1 votes campaign_finish_def Let_def)
qed

section \<open>The loops never meet an undefined call\<close>

definition channels_cover :: "'c channels \<Rightarrow> string \<Rightarrow> string set \<Rightarrow> bool" where
  "channels_cover ch self ps \<longleftrightarrow> (\<forall>q. q \<in> ps \<and> q \<noteq> self \<longrightarrow> channel_ptr ch q \<noteq> None)"

lemma channels_coverD: "channels_cover ch self ps \<Longrightarrow> q \<in> ps \<Longrightarrow> q \<noteq> self \<Longrightarrow> \<exists>stub. channel_ptr ch q = Some stub"
  by (simp add: channels_cover_def)

lemma send_heartbeats_frame:
  "send_heartbeats call now ch ps s w = (Inr s', w') \<Longrightarrow> self_id s' = self_id s \<and> peers s' = peers s"
  by (induction call now ch ps s w rule: send_heartbeats.induct)
    (auto simp: step_down_def split: if_splits option.splits sum.splits stub_error.splits prod.splits)

context rpc_channel begin

lemma request_votes_defined:
  assumes "channels_cover ch self (set ps)"
  shows "\<exists>n' w'. request_votes call self ch r ps n w = (Inr n', w')"
  using assms
proof (induction ps arbitrary: n w)
  case (Cons p ps)
  then have IH: "\<exists>n' w'. request_votes call self ch r ps m v = (Inr n', w')" for m v
    by (simp add: channels_cover_def)
  show ?case
  proof (cases "p = self")
    case False
    with Cons.prems obtain stub where stub: "channel_ptr ch p = Some stub"
      by (auto dest: channels_coverD)
    obtain res w' where res: "stub_Vote call stub r 1000 w = (res, w')"
      by fastforce
    then have "res \<noteq> Inl Response_type"
      using stub_Vote_typed [of stub r 1000 w] by simp
    with False stub res IH show ?thesis
      by (cases res) (auto split: stub_error.splits)
  qed (use IH in simp)
qed simp

lemma send_heartbeats_defined:
  assumes "channels_cover ch (self_id s) (set ps)"
  shows "\<exists>s' w'. send_heartbeats call now ch ps s w = (Inr s', w')"
  using assms
proof (induction ps arbitrary: w)
  case (Cons p ps)
  then have IH: "\<exists>s' w'. send_heartbeats call now ch ps s v = (Inr s', w')" for v
    by (simp add: channels_cover_def)
  show ?case
  proof (cases "p = self_id s")
    case False
    with Cons.prems obtain stub where stub: "channel_ptr ch p = Some stub"
      by (auto dest: channels_coverD)
    obtain res w' where res: "stub_AppendMsg call stub (heartbeat_request s) 1000 w = (res, w')"
      by fastforce
    then have "res \<noteq> Inl Response_type"
      using stub_AppendMsg_typed [of stub "heartbeat_request s" 1000 w] by simp
    with False stub res IH show ?thesis
      by (cases res) (auto split: stub_error.splits)
  qed (use IH in simp)
qed simp

text \<open>An iteration is defined, and keeps a stub for every remaining peer.\<close>

lemma daemon_iteration_defined:
  assumes cover: "channels_cover ch (self_id s) (peers s)" and order: "set (di_order i) = peers s"
  shows "\<exists>s' ch' w'. daemon_iteration call i s ch w = (Inr (s', ch'), w') \<and>
    self_id s' = self_id s \<and> peers s' \<subseteq> peers s \<and> channels_cover ch' (self_id s') (peers s')"
proof -
  consider "status s = FOLLOWER" | "status s = CANDIDATE" | "status s \<noteq> FOLLOWER" "status s \<noteq> CANDIDATE"
    by blast
  then show ?thesis
  proof cases
    case 1
    then show ?thesis
      using cover forget_leader_channel [of s ch]
      by (auto simp: daemon_iteration_def daemon_follower_def channels_cover_def)
        (auto simp: forget_leader_def)
  next
    case 2
    let ?s = "campaign_begin s"
    have frame: "self_id ?s = self_id s" "peers ?s = peers s"
      by (simp_all add: campaign_begin_def)
    obtain n w' where "request_votes call (self_id s) ch (vote_request ?s) (di_order i) 1 w = (Inr n, w')"
      using request_votes_defined [of ch "self_id s" "di_order i"] cover order by fastforce
    with 2 cover show ?thesis
      by (auto simp: daemon_iteration_def daemon_candidate_def frame campaign_finish_def
          become_leader_def Let_def)
  next
    case 3
    obtain s' w' where s': "send_heartbeats call (di_now i) ch (di_order i) s w = (Inr s', w')"
      using send_heartbeats_defined [of ch s "di_order i"] cover order by fastforce
    then have "self_id s' = self_id s \<and> peers s' = peers s"
      by (rule send_heartbeats_frame)
    with 3 s' cover show ?thesis
      by (auto simp: daemon_iteration_def)
  qed
qed

end


section \<open>In-process delivery\<close>

text \<open>
  The channel that hands a request straight to a peer of the same process: an instance of the
  channel contract over the \<open>Raft\<close> methods.  A handler that blocks is a failed call.
\<close>

definition loopback_call :: "llong \<Rightarrow> ('c, application_error option, Raft) channel_call" where
  "loopback_call now c deadline_ms s =
    (case RaftService_call_method (Raft_service now) (ic_method c) (ic_request c) s of
       Inr (Some (s', Reply_send m)) \<Rightarrow> (RPC_ok m, s')
     | Inr (Some (s', Reply_Error e msg)) \<Rightarrow> (RPC_failed (Some e), s')
     | _ \<Rightarrow> (RPC_failed None, s))"

interpretation loop: peer_channel "loopback_call now" "Raft_service now" "\<lambda>s. s" for now
  by unfold_locales
    (auto simp: loopback_call_def split: sum.splits option.splits prod.splits reply.splits)

section \<open>What a call over it returns\<close>

definition handled :: "(Raft \<times> 'p reply) option \<Rightarrow> Raft \<Rightarrow> (application_error option stub_error + 'p) \<times> Raft" where
  "handled res s =
    (case res of
       Some (s', Reply_send p) \<Rightarrow> (Inr p, s')
     | Some (s', Reply_Error e m) \<Rightarrow> (Inl (Rpc_error (Some e)), s')
     | None \<Rightarrow> (Inl (Rpc_error None), s))"

lemma handled_simps [simp]:
  "handled None s = (Inl (Rpc_error None), s)"
  "handled (Some (s', Reply_send p)) s = (Inr p, s')"
  "handled (Some (s', Reply_Error e m)) s = (Inl (Rpc_error (Some e)), s')"
  by (simp_all add: handled_def)

lemma reply_option_cases:
  obtains "x = None" | s' p where "x = Some (s', Reply_send p)" | s' e m where "x = Some (s', Reply_Error e m)"
  by (cases x rule: option.exhaust) (auto, metis reply.exhaust)


section \<open>Properties\<close>

text \<open>
  C7.  The outcome of a whole campaign, when what a peer answers does not depend on the order in
  which the peers are asked: the candidate moves to the next term and votes for itself; it becomes
  leader exactly when one plus the number of other peers that grant their vote reaches
  \<open>peers_.size() / 2 + 1\<close>, and otherwise falls back to a follower without a vote.  Failed calls
  count as refusals, and the enumeration order of the set does not matter.
\<close>

theorem campaign_outcome:
  assumes "distinct order" and "set order = peers s" and "card (peers s) < 2 ^ 30"
    and "\<And>p w. p \<in> peers s \<Longrightarrow> p \<noteq> self_id s \<Longrightarrow>
      \<exists>stub. channel_ptr ch p = Some stub \<and>
        fst (stub_Vote call stub (vote_request (campaign_begin s)) 1000 w) = g p"
    and "\<And>p. g p \<noteq> Inl Response_type"
  shows "fst (daemon_candidate call order now s ch w) = Inr
    (if card (peers s) div 2 + 1 \<le> 1 + card {p \<in> peers s. p \<noteq> self_id s \<and> grants (g p)}
     then become_leader (campaign_begin s)
     else (campaign_begin s)\<lparr>leader_active_time := now, status := FOLLOWER, vote_for := []\<rparr>)"
  using daemon_candidate_outcome [OF assms(1,2,4,5,3)] by (simp add: elected_by_def Let_def)

text \<open>A channel on which every peer grants its vote, and the stubs of the peer of the witnesses.\<close>

definition granting_call :: "(string, unit, unit) channel_call" where
  "granting_call c d w = (RPC_ok (VoteReply_msg \<lparr>vrep_term = Some 0, vrep_vote = Some True\<rparr>), w)"

definition channels0 :: "string channels" where
  "channels0 = setup_channels (\<lambda>q. q) ''p'' [''p'', ''q'']"

lemma node0_self [simp]: "self_id node0 = ''p''"
  by (simp add: node0_def Raft_new_def uint64_of_int_def)

lemma channels0_ptr: "channel_ptr channels0 p = (if p = ''q'' then Some (RaftService_Stub_new_default ''q'' True) else None)"
  by (simp add: channels0_def setup_channels_lookup channel_ptr_def)

theorem campaign_outcome_witness:
  "fst (daemon_candidate granting_call [''q'', ''p''] 7 node0 channels0 ()) =
     Inr (become_leader (campaign_begin node0))"
proof -
  let ?r = "\<lparr>vrep_term = Some 0, vrep_vote = Some True\<rparr>"
  let ?g = "\<lambda>p :: string. Inr ?r :: unit stub_error + VoteReply"
  have voters: "{p \<in> peers node0. p \<noteq> self_id node0 \<and> grants (?g p)} = {''q''}"
    by (auto simp: grants_def msg_defs)
  have "fst (daemon_candidate granting_call [''q'', ''p''] 7 node0 channels0 ()) = Inr
    (if card (peers node0) div 2 + 1 \<le> 1 + card {p \<in> peers node0. p \<noteq> self_id node0 \<and> grants (?g p)}
     then become_leader (campaign_begin node0)
     else (campaign_begin node0)\<lparr>leader_active_time := 7, status := FOLLOWER, vote_for := []\<rparr>)"
    by (rule campaign_outcome)
      (auto simp: channels0_ptr rpc_defs granting_call_def split: if_splits)
  then show ?thesis
    unfolding voters by simp
qed

text \<open>
  An iteration of the daemon over peers of the same process is always defined: with a stub for
  every other peer it never calls through a null pointer and never confuses a response, in any
  state and status; it keeps the peer's identity, adds no peer, and leaves a stub for every peer
  that remains, so the next iteration is defined too.
\<close>

theorem iteration_defined:
  assumes "channels_cover ch (self_id s) (peers s)" and "set (di_order i) = peers s"
  shows "\<exists>s' ch' w'. daemon_iteration (loopback_call now) i s ch w = (Inr (s', ch'), w') \<and>
    self_id s' = self_id s \<and> peers s' \<subseteq> peers s \<and> channels_cover ch' (self_id s') (peers s')"
  using assms by (rule loop.daemon_iteration_defined)

theorem iteration_defined_witness:
  "\<exists>s' ch' w'. daemon_iteration (loopback_call 5) \<lparr>di_draw = 200, di_now = 6000, di_order = [''p'', ''q'']\<rparr>
       node0 channels0 node0 = (Inr (s', ch'), w') \<and>
     self_id s' = self_id node0 \<and> peers s' \<subseteq> peers node0 \<and> channels_cover ch' (self_id s') (peers s')"
  by (rule iteration_defined) (auto simp: channels_cover_def channels0_ptr)

text \<open>
  Stub and dispatch are inverse to each other: a synchronous stub call over the in-process
  channel is the method itself, for all four methods.  A reply is returned, an error reply and a
  blocked handler are the exception.
\<close>

theorem stub_loopback:
  "stub_Vote (loopback_call now) stub vr d s = handled (Vote now vr s) s \<and>
   stub_AppendMsg (loopback_call now) stub ar d s = handled (AppendMsg now ar s) s \<and>
   stub_Op (loopback_call now) stub oreq d s = handled (Op oreq s) s \<and>
   stub_GetStatus (loopback_call now) stub e d s = handled (GetStatus e s) s"
proof (intro conjI)
  show "stub_Vote (loopback_call now) stub vr d s = handled (Vote now vr s) s"
    by (rule reply_option_cases [of "Vote now vr s"]) (simp_all add: rpc_defs loopback_call_def Raft_service_def)
  show "stub_AppendMsg (loopback_call now) stub ar d s = handled (AppendMsg now ar s) s"
    by (rule reply_option_cases [of "AppendMsg now ar s"]) (simp_all add: rpc_defs loopback_call_def Raft_service_def)
  show "stub_Op (loopback_call now) stub oreq d s = handled (Op oreq s) s"
    by (rule reply_option_cases [of "Op oreq s"]) (simp_all add: rpc_defs loopback_call_def Raft_service_def)
  show "stub_GetStatus (loopback_call now) stub e d s = handled (GetStatus e s) s"
    by (simp add: rpc_defs loopback_call_def Raft_service_def GetStatus_def)
qed


text \<open>
  A peer that a heartbeat reaches before it has heard of any term refuses it, whatever the
  leader's term (below \<open>2 ^ 31\<close>), and makes the leader a follower of term \<open>2 ^ 64 - 1\<close>: the
  constructor's initial term \<open>-1\<close> is the largest value of \<open>uint64_t\<close>.
\<close>

theorem fresh_peer_deposes_leader:
  assumes "Raft_new addr port k ps now0 = Inr t" and "node_term s < 2 ^ 31"
  shows "AppendMsg now (heartbeat_request s) t = Some (t\<lparr>leader_active_time := now\<rparr>,
      Reply_send \<lparr>arep_term = Some (2 ^ 64 - 1), arep_success = Some False\<rparr>) \<and>
    step_down now' \<lparr>arep_term = Some (2 ^ 64 - 1), arep_success = Some False\<rparr> s =
      s\<lparr>status := FOLLOWER, node_term := - 1, leader_active_time := now'\<rparr>"
  using Raft_new_fields [OF assms(1)] assms(2) max_term_wire [of "heartbeat_request s"]
    AppendMsg_rejected [of t "heartbeat_request s" now]
  by (simp add: heartbeat_request_def step_down_def msg_defs)

theorem fresh_peer_deposes_leader_witness:
  "AppendMsg 9 (heartbeat_request (node0\<lparr>node_term := 3\<rparr>)) node0 =
     Some (node0\<lparr>leader_active_time := 9\<rparr>,
       Reply_send \<lparr>arep_term = Some (2 ^ 64 - 1), arep_success = Some False\<rparr>)"
  using fresh_peer_deposes_leader [OF Raft_new_node0, of "node0\<lparr>node_term := 3\<rparr>" 9]
  by simp

text \<open>
  A leader below term \<open>2 ^ 31\<close> that a peer refuses steps down to a strictly higher term, the
  one of the peer that refused.
\<close>

theorem refused_leader_adopts_term:
  assumes "AppendMsg now (heartbeat_request s) t = Some (t', Reply_send rep)"
    and "\<not> get_arep_success rep" and "node_term s < 2 ^ 31"
  shows "status (step_down now' rep s) = FOLLOWER \<and> node_term s < node_term (step_down now' rep s) \<and>
    node_term (step_down now' rep s) = node_term t"
proof -
  have wire: "wire_term (heartbeat_request s) = node_term s"
    using assms(3) wire_term_exact [of "heartbeat_request s"]
    by (simp add: heartbeat_request_def msg_defs)
  from assms(1) have "\<not> lock t"
    by (auto simp: AppendMsg_def split: if_splits)
  with assms(1,2) wire show ?thesis
    by (cases "node_term t \<le> node_term s")
      (auto simp: AppendMsg_accepted AppendMsg_rejected msg_defs step_down_def)
qed

theorem refused_leader_adopts_term_witness:
  "node_term (step_down 9 \<lparr>arep_term = Some 5, arep_success = Some False\<rparr> (node0\<lparr>node_term := 3\<rparr>)) = 5"
proof -
  let ?s = "node0\<lparr>node_term := 3\<rparr>" and ?t = "node0\<lparr>node_term := 5\<rparr>"
  have "AppendMsg 8 (heartbeat_request ?s) ?t =
      Some (?t\<lparr>leader_active_time := 8\<rparr>, Reply_send \<lparr>arep_term = Some 5, arep_success = Some False\<rparr>)"
    by (subst AppendMsg_rejected) (simp_all add: wire_term_exact heartbeat_request_def msg_defs)
  from refused_leader_adopts_term [OF this, of 9] show ?thesis
    by (simp add: msg_defs)
qed

text \<open>
  C12.  The vote request of a candidate sets every required field of its message; the heartbeat of
  a leader never does (\<open>prev_log_index\<close> and \<open>prev_log_term\<close> are missing), in any state.  The replies
  of \<open>Vote\<close> and \<open>AppendMsg\<close> are complete.
\<close>

theorem required_fields:
  "VoteRequest_IsInitialized (vote_request s) \<and> \<not> AppendRequest_IsInitialized (heartbeat_request s) \<and>
   VoteReply_IsInitialized (snd (Vote_locked now vr s)) \<and>
   AppendReply_IsInitialized (snd (AppendMsg_locked now ar s))"
  by (auto simp: msg_defs vote_request_def heartbeat_request_def Vote_locked_def AppendMsg_locked_def Let_def)

text \<open>
  A peer alone in its cluster elects itself in its first campaign, without any call.
\<close>

theorem single_peer_elects_itself:
  assumes "peers s = {self_id s}"
  shows "daemon_candidate call [self_id s] now s ch w = (Inr (become_leader (campaign_begin s)), w) \<and>
    status (become_leader (campaign_begin s)) = LEADER \<and>
    node_term (become_leader (campaign_begin s)) = node_term s + 1"
  using assms wins_nat [of 1 "{self_id s}"]
  by (simp add: daemon_candidate_def campaign_begin_def campaign_finish_def become_leader_def Let_def)

theorem single_peer_elects_itself_witness:
  "daemon_candidate granting_call [''p''] 7 (node0\<lparr>peers := {''p''}\<rparr>) Map.empty () =
     (Inr (become_leader (campaign_begin (node0\<lparr>peers := {''p''}\<rparr>))), ())"
  using single_peer_elects_itself [of "node0\<lparr>peers := {''p''}\<rparr>" granting_call 7 Map.empty "()"]
  by simp



end
