(* ===== verification/Cluster.thy ===== *)
theory Cluster
  imports Raft_Daemon
begin

text \<open>
  Several peers running at once.  The daemon thread of a peer is given a program counter at the
  points where other threads can interfere: the head of its loop, and every remote call it waits
  for.  It holds \<open>lock_\<close> from the start of a campaign or of a round of heartbeats to its end, so
  the peer's own \<open>Vote\<close> and \<open>AppendMsg\<close> handlers run between iterations only.

  Remote calls are asynchronous messages: a call puts a request on the network; the request is
  handled at most once, by \<open>RaftService::call_method\<close> at the peer it is addressed to, at any later
  time at which the handler does not block; the response is taken by the caller, unless the caller
  has by then given the call up (a deadline or a transport error).  Nothing else is assumed of the
  transport: requests may be delayed, overtaken or lost.

  An execution is a sequence of events; \<open>exec\<close> is the executable transition function, \<open>None\<close>
  where the event is not possible.  The fields \<open>votes\<close> and \<open>won\<close> record history only: which vote
  was ever cast, and who ever won a campaign.
\<close>

section \<open>State\<close>

datatype pc =
    Pc_Setup
  | Pc_Loop
  | Pc_Election "string list" cint
  | Pc_VoteWait nat string "string list" cint
  | Pc_Beat "string list"
  | Pc_BeatWait nat string "string list"
  | Pc_Crashed
  | Pc_Exited

record proc =
  raft :: Raft
  chans :: "string channels"
  pc_of :: pc

record cluster =
  procs :: "string \<rightharpoonup> proc"
  next_call :: nat
  requests :: "nat \<rightharpoonup> (string \<times> string issued_call)"
  responses :: "nat \<rightharpoonup> Message"
  votes :: "(string \<times> string) set"
  won :: "string set"

definition boot_proc :: "Raft \<Rightarrow> proc" where
  "boot_proc s = \<lparr>raft = s, chans = Map.empty, pc_of = Pc_Setup\<rparr>"

definition boot :: "Raft list \<Rightarrow> cluster" where
  "boot nodes = \<lparr>procs = map_of (map (\<lambda>s. (self_id s, boot_proc s)) nodes), next_call = 0,
     requests = Map.empty, responses = Map.empty, votes = {}, won = {}\<rparr>"

section \<open>Daemon steps\<close>

definition enumerates :: "string list \<Rightarrow> string set \<Rightarrow> bool" where
  "enumerates order S \<longleftrightarrow> distinct order \<and> set order = S"

definition runnable :: "proc \<Rightarrow> bool" where
  "runnable p \<longleftrightarrow> pc_of p = Pc_Loop \<and> \<not> is_dead (raft p) \<and> \<not> lock (raft p)"

definition p_setup :: "string list \<Rightarrow> proc \<Rightarrow> proc option" where
  "p_setup order p =
    (if pc_of p = Pc_Setup \<and> enumerates order (peers (raft p)) then
       Some (p\<lparr>chans := setup_channels (\<lambda>q. q) (self_id (raft p)) order, pc_of := Pc_Loop\<rparr>)
     else None)"

definition p_follower :: "cint \<Rightarrow> llong \<Rightarrow> proc \<Rightarrow> proc option" where
  "p_follower draw now p =
    (if runnable p \<and> status (raft p) = FOLLOWER then
       (case daemon_follower draw now (raft p) (chans p) of
          (s', ch') \<Rightarrow> Some (p\<lparr>raft := s', chans := ch'\<rparr>))
     else None)"

definition p_campaign :: "string list \<Rightarrow> proc \<Rightarrow> proc option" where
  "p_campaign order p =
    (if runnable p \<and> status (raft p) = CANDIDATE \<and> enumerates order (peers (raft p)) then
       Some (p\<lparr>raft := (campaign_begin (raft p))\<lparr>lock := True\<rparr>, pc_of := Pc_Election order 1\<rparr>)
     else None)"

definition p_decide :: "llong \<Rightarrow> proc \<Rightarrow> proc option" where
  "p_decide now p =
    (case pc_of p of
       Pc_Election [] n \<Rightarrow>
         Some (p\<lparr>raft := (campaign_finish n now (raft p))\<lparr>lock := False\<rparr>, pc_of := Pc_Loop\<rparr>)
     | _ \<Rightarrow> None)"

definition p_beat_begin :: "string list \<Rightarrow> proc \<Rightarrow> proc option" where
  "p_beat_begin order p =
    (if runnable p \<and> status (raft p) \<noteq> FOLLOWER \<and> status (raft p) \<noteq> CANDIDATE \<and>
        enumerates order (peers (raft p)) then
       Some (p\<lparr>raft := (raft p)\<lparr>lock := True\<rparr>, pc_of := Pc_Beat order\<rparr>)
     else None)"

definition p_beat_end :: "proc \<Rightarrow> proc option" where
  "p_beat_end p =
    (case pc_of p of
       Pc_Beat [] \<Rightarrow> Some (p\<lparr>raft := (raft p)\<lparr>lock := False\<rparr>, pc_of := Pc_Loop\<rparr>)
     | _ \<Rightarrow> None)"

text \<open>The next peer of a campaign or of a round: itself, a missing stub, or a call to make.\<close>

datatype next_peer = Skip pc | Crash | Issue "string issued_call" "nat \<Rightarrow> pc"

definition p_next :: "proc \<Rightarrow> next_peer option" where
  "p_next p =
    (case pc_of p of
       Pc_Election (q # ps) n \<Rightarrow>
         Some (if q = self_id (raft p) then Skip (Pc_Election ps n)
               else case channel_ptr (chans p) q of
                      None \<Rightarrow> Crash
                    | Some stub \<Rightarrow> Issue (stub_Vote_async stub (vote_request (raft p)))
                                     (\<lambda>c. Pc_VoteWait c q ps n))
     | Pc_Beat (q # ps) \<Rightarrow>
         Some (if q = self_id (raft p) then Skip (Pc_Beat ps)
               else case channel_ptr (chans p) q of
                      None \<Rightarrow> Crash
                    | Some stub \<Rightarrow> Issue (stub_AppendMsg_async stub (heartbeat_request (raft p)))
                                     (\<lambda>c. Pc_BeatWait c q ps))
     | _ \<Rightarrow> None)"

text \<open>The end of a call: its response, or \<open>Inl\<close> for an \<open>rpc_error\<close>.\<close>

definition p_return :: "llong \<Rightarrow> (unit stub_error + Message) \<Rightarrow> proc \<Rightarrow> proc option" where
  "p_return now outcome p =
    (case pc_of p of
       Pc_VoteWait c q ps n \<Rightarrow>
         (case outcome of
            Inr (VoteReply_msg r) \<Rightarrow> Some (p\<lparr>pc_of := Pc_Election ps (count_vote (Inr r :: unit stub_error + VoteReply) n)\<rparr>)
          | Inl e \<Rightarrow> Some (p\<lparr>pc_of := Pc_Election ps (count_vote (Inl e) n)\<rparr>)
          | _ \<Rightarrow> None)
     | Pc_BeatWait c q ps \<Rightarrow>
         (case outcome of
            Inr (AppendReply_msg r) \<Rightarrow>
              Some (if \<not> get_arep_success r
                    then p\<lparr>raft := (step_down now r (raft p))\<lparr>lock := False\<rparr>, pc_of := Pc_Loop\<rparr>
                    else p\<lparr>pc_of := Pc_Beat ps\<rparr>)
          | Inl e \<Rightarrow> Some (p\<lparr>pc_of := Pc_Beat ps\<rparr>)
          | _ \<Rightarrow> None)
     | _ \<Rightarrow> None)"

definition pending_call :: "proc \<Rightarrow> nat option" where
  "pending_call p =
    (case pc_of p of Pc_VoteWait c q ps n \<Rightarrow> Some c | Pc_BeatWait c q ps \<Rightarrow> Some c | _ \<Rightarrow> None)"

definition p_exit :: "proc \<Rightarrow> proc option" where
  "p_exit p =
    (if pc_of p = Pc_Loop \<and> is_dead (raft p)
     then Some (p\<lparr>raft := daemon_exit (raft p), pc_of := Pc_Exited\<rparr>) else None)"

definition p_kill :: "proc \<Rightarrow> proc option" where
  "p_kill p = (if is_dead (raft p) then None else Some (p\<lparr>raft := Kill_request (raft p)\<rparr>))"

definition p_killed :: "proc \<Rightarrow> proc option" where
  "p_killed p =
    (if is_dead (raft p)
     then map_option (\<lambda>s. p\<lparr>raft := s\<rparr>) (Kill_complete (raft p)) else None)"

section \<open>Events\<close>

datatype event =
    Ev_setup string "string list"
  | Ev_follower string cint llong
  | Ev_campaign string "string list"
  | Ev_next string
  | Ev_response string llong
  | Ev_rpc_error string llong
  | Ev_decide string llong
  | Ev_beat_begin string "string list"
  | Ev_beat_end string
  | Ev_handle nat llong
  | Ev_kill string
  | Ev_exit string
  | Ev_killed string

definition at_proc :: "string \<Rightarrow> (proc \<Rightarrow> proc option) \<Rightarrow> cluster \<Rightarrow> cluster option" where
  "at_proc i f c =
    (case procs c i of
       None \<Rightarrow> None
     | Some p \<Rightarrow> map_option (\<lambda>p'. c\<lparr>procs := (procs c)(i \<mapsto> p')\<rparr>) (f p))"

definition do_campaign :: "string \<Rightarrow> string list \<Rightarrow> cluster \<Rightarrow> cluster option" where
  "do_campaign i order c =
     map_option (\<lambda>c'. c'\<lparr>votes := insert (i, i) (votes c')\<rparr>) (at_proc i (p_campaign order) c)"

definition do_decide :: "string \<Rightarrow> llong \<Rightarrow> cluster \<Rightarrow> cluster option" where
  "do_decide i now c =
     map_option (\<lambda>c'. case procs c' i of
        Some p \<Rightarrow> if status (raft p) = LEADER then c'\<lparr>won := insert i (won c')\<rparr> else c'
      | None \<Rightarrow> c') (at_proc i (p_decide now) c)"

definition do_next :: "string \<Rightarrow> cluster \<Rightarrow> cluster option" where
  "do_next i c =
    (case procs c i of
       None \<Rightarrow> None
     | Some p \<Rightarrow>
        (case p_next p of
           None \<Rightarrow> None
         | Some (Skip pc') \<Rightarrow> Some (c\<lparr>procs := (procs c)(i \<mapsto> p\<lparr>pc_of := pc'\<rparr>)\<rparr>)
         | Some Crash \<Rightarrow> Some (c\<lparr>procs := (procs c)(i \<mapsto> p\<lparr>pc_of := Pc_Crashed\<rparr>)\<rparr>)
         | Some (Issue call k) \<Rightarrow>
             Some (c\<lparr>procs := (procs c)(i \<mapsto> p\<lparr>pc_of := k (next_call c)\<rparr>),
                     requests := (requests c)(next_call c \<mapsto> (i, call)),
                     next_call := Suc (next_call c)\<rparr>)))"

definition do_response :: "string \<Rightarrow> llong \<Rightarrow> cluster \<Rightarrow> cluster option" where
  "do_response i now c =
    (case procs c i of
       None \<Rightarrow> None
     | Some p \<Rightarrow>
        (case Option.bind (pending_call p) (responses c) of
           None \<Rightarrow> None
         | Some m \<Rightarrow> at_proc i (p_return now (Inr m)) c))"

definition do_rpc_error :: "string \<Rightarrow> llong \<Rightarrow> cluster \<Rightarrow> cluster option" where
  "do_rpc_error i now c = at_proc i (p_return now (Inl (Rpc_error ()))) c"

text \<open>
  The server of the addressed peer handles a request.  A vote the handler grants is recorded.
\<close>

definition vote_cast :: "string \<Rightarrow> Message \<Rightarrow> Message \<Rightarrow> (string \<times> string) set" where
  "vote_cast voter request response =
    (case (request, response) of
       (VoteRequest_msg r, VoteReply_msg v) \<Rightarrow>
          if get_vrep_vote v then {(voter, get_vreq_candidate_id r)} else {}
     | _ \<Rightarrow> {})"

definition do_handle :: "nat \<Rightarrow> llong \<Rightarrow> cluster \<Rightarrow> cluster option" where
  "do_handle cid now c =
    (case requests c cid of
       None \<Rightarrow> None
     | Some (caller, call) \<Rightarrow>
        (case procs c (ic_channel call) of
           None \<Rightarrow> None
         | Some p \<Rightarrow>
            if app_terminated (raft p) then None
            else
             (case RaftService_call_method (Raft_service now) (ic_method call) (ic_request call) (raft p) of
                Inr (Some (s', Reply_send m)) \<Rightarrow>
                  Some (c\<lparr>procs := (procs c)(ic_channel call \<mapsto> p\<lparr>raft := s'\<rparr>),
                          requests := (requests c)(cid := None),
                          responses := (responses c)(cid \<mapsto> m),
                          votes := votes c \<union> vote_cast (ic_channel call) (ic_request call) m\<rparr>)
              | _ \<Rightarrow> None)))"

fun exec :: "event \<Rightarrow> cluster \<Rightarrow> cluster option" where
  "exec (Ev_setup i order) c = at_proc i (p_setup order) c"
| "exec (Ev_follower i draw now) c = at_proc i (p_follower draw now) c"
| "exec (Ev_campaign i order) c = do_campaign i order c"
| "exec (Ev_next i) c = do_next i c"
| "exec (Ev_response i now) c = do_response i now c"
| "exec (Ev_rpc_error i now) c = do_rpc_error i now c"
| "exec (Ev_decide i now) c = do_decide i now c"
| "exec (Ev_beat_begin i order) c = at_proc i (p_beat_begin order) c"
| "exec (Ev_beat_end i) c = at_proc i p_beat_end c"
| "exec (Ev_handle cid now) c = do_handle cid now c"
| "exec (Ev_kill i) c = at_proc i p_kill c"
| "exec (Ev_exit i) c = at_proc i p_exit c"
| "exec (Ev_killed i) c = at_proc i p_killed c"

fun run :: "event list \<Rightarrow> cluster \<Rightarrow> cluster option" where
  "run [] c = Some c"
| "run (e # es) c = (case exec e c of None \<Rightarrow> None | Some c' \<Rightarrow> run es c')"

inductive reachable :: "cluster \<Rightarrow> cluster \<Rightarrow> bool" for c0 where
  start: "reachable c0 c0"
| step: "reachable c0 c \<Longrightarrow> exec e c = Some c' \<Longrightarrow> reachable c0 c'"

end
