(* ===== verification/Cluster_Invariant.thy ===== *)
theory Cluster_Invariant
  imports Cluster
begin

text \<open>
  What holds in every state a cluster can reach, whatever the schedule, the network, the clocks and
  the random draws do: the daemon of a peer never calls through a null stub; it holds the lock
  exactly while it campaigns or sends heartbeats; a candidate between iterations has given its vote
  to nobody, a campaigning one to itself; a leader's volatile indices are initialised; only a
  killed peer is dead.  Each step has its own preservation lemma; \<open>reachable_inv\<close> puts them
  together by rule induction.
\<close>

section \<open>What a handled request can do to a peer\<close>

text \<open>
  \<open>served s s'\<close>: \<open>s'\<close> is \<open>s\<close> after one service method.  Nothing changes, or the lock was free and
  the peer either kept its status, taking over a vote only if it had none to give away, or
  stepped back to follower.
\<close>

definition served :: "Raft \<Rightarrow> Raft \<Rightarrow> bool" where
  "served s s' \<longleftrightarrow> s' = s \<or>
    \<not> lock s \<and>
    s' = s\<lparr>leader_active_time := leader_active_time s', node_term := node_term s',
           status := status s', vote_for := vote_for s'\<rparr> \<and>
    (status s' = status s \<and> (vote_for s' = vote_for s \<or> may_vote s) \<or>
     (status s = CANDIDATE \<or> status s = LEADER) \<and> status s' = FOLLOWER)"

lemma served_refl [simp]: "served s s"
  by (simp add: served_def)

lemma Vote_served: "Vote now r s = Some (s', rep) \<Longrightarrow> served s s'"
  by (cases "lock s"; cases "may_vote s") (auto simp: Vote_granted Vote_refused served_def)

lemma AppendMsg_served:
  assumes "AppendMsg now r s = Some (s', rep)"
  shows "served s s'"
proof -
  from assms have "\<not> lock s"
    by (auto simp: AppendMsg_def split: if_splits)
  with assms show ?thesis
    by (cases "node_term s \<le> wire_term r")
      (auto simp: AppendMsg_accepted AppendMsg_rejected served_def)
qed

lemma Op_served: "Op e s = Some (s', rep) \<Longrightarrow> RWLock_ok (log_lock s) \<Longrightarrow> served s s'"
  by (auto dest: Op_frame simp: served_def)

lemma call_method_served:
  assumes "RaftService_call_method (Raft_service now) mth request s = Inr (Some (s', rep))"
    and "RWLock_ok (log_lock s)"
  shows "served s s'"
  using assms
  by (auto simp: rpc_defs Raft_service_def GetStatus_def split: Message.splits if_splits
      dest: Vote_served AppendMsg_served Op_served)

lemma served_frame:
  assumes "served s s'"
  shows "self_id s' = self_id s" "peers s' = peers s" "lock s' = lock s" "is_dead s' = is_dead s"
    "node_logs s' = node_logs s" "log_lock s' = log_lock s" "commit_index s' = commit_index s"
    "last_applied s' = last_applied s" "raft_thread s' = raft_thread s"
proof -
  have eq: "s' = s\<lparr>leader_active_time := leader_active_time s', node_term := node_term s',
      status := status s', vote_for := vote_for s'\<rparr>"
    using assms unfolding served_def by (elim disjE conjE) (simp, assumption+)
  show "self_id s' = self_id s" "peers s' = peers s" "lock s' = lock s" "is_dead s' = is_dead s"
    "node_logs s' = node_logs s" "log_lock s' = log_lock s" "commit_index s' = commit_index s"
    "last_applied s' = last_applied s" "raft_thread s' = raft_thread s"
    by (subst eq, simp)+
qed

lemma served_status:
  assumes "served s s'"
  shows "status s' = status s \<or> status s' = FOLLOWER" "lock s \<Longrightarrow> s' = s"
    "status s' = CANDIDATE \<Longrightarrow> vote_for s' = vote_for s"
  using assms by (auto simp: served_def may_vote_def)

section \<open>The invariant of a peer\<close>

fun busy :: "pc \<Rightarrow> bool" where
  "busy (Pc_Election ps n) = True"
| "busy (Pc_VoteWait c q ps n) = True"
| "busy (Pc_Beat ps) = True"
| "busy (Pc_BeatWait c q ps) = True"
| "busy _ = False"

fun pc_ok :: "string \<Rightarrow> Raft \<Rightarrow> pc \<Rightarrow> bool" where
  "pc_ok i s (Pc_Election ps n) =
     (distinct ps \<and> set ps \<subseteq> peers s \<and> status s = CANDIDATE \<and> vote_for s = i)"
| "pc_ok i s (Pc_VoteWait c q ps n) =
     (distinct (q # ps) \<and> set (q # ps) \<subseteq> peers s \<and> q \<noteq> i \<and> status s = CANDIDATE \<and> vote_for s = i)"
| "pc_ok i s (Pc_Beat ps) = (set ps \<subseteq> peers s \<and> status s = LEADER)"
| "pc_ok i s (Pc_BeatWait c q ps) = (set (q # ps) \<subseteq> peers s \<and> q \<noteq> i \<and> status s = LEADER)"
| "pc_ok i s Pc_Crashed = False"
| "pc_ok i s _ = (status s = CANDIDATE \<longrightarrow> vote_for s = [])"

definition stubs_ok :: "string \<Rightarrow> proc \<Rightarrow> bool" where
  "stubs_ok i p \<longleftrightarrow> pc_of p = Pc_Setup \<or>
    (\<forall>q. q \<in> peers (raft p) \<and> q \<noteq> i \<longrightarrow>
       channel_ptr (chans p) q = Some (RaftService_Stub_new_default q True))"

definition node_ok :: "string set \<Rightarrow> string \<Rightarrow> Raft \<Rightarrow> bool" where
  "node_ok M i s \<longleftrightarrow> self_id s = i \<and> peers s \<subseteq> M \<and> status s \<noteq> UNKNOWN \<and>
     node_logs s = ConsensusLog_init \<and> log_lock s = RW_Free \<and>
     (status s = LEADER \<longrightarrow> commit_index s = Some 0 \<and> last_applied s = Some 0)"

definition thread_ok :: "proc \<Rightarrow> bool" where
  "thread_ok p \<longleftrightarrow> (status (raft p) = DEAD \<longrightarrow> pc_of p = Pc_Exited) \<and>
     (pc_of p = Pc_Exited \<longleftrightarrow> raft_thread (raft p) \<noteq> Thread_Running)"

definition proc_inv :: "string set \<Rightarrow> string \<Rightarrow> proc \<Rightarrow> bool" where
  "proc_inv M i p \<longleftrightarrow> node_ok M i (raft p) \<and> lock (raft p) = busy (pc_of p) \<and>
     pc_ok i (raft p) (pc_of p) \<and> stubs_ok i p \<and> thread_ok p"

lemmas proc_inv_defs = proc_inv_def node_ok_def stubs_ok_def thread_ok_def

lemma pc_ok_served:
  assumes "served s s'" and "pc_ok i s k" and "lock s = busy k"
  shows "pc_ok i s' k"
  using assms served_status [OF assms(1)] by (cases k) auto

lemma proc_inv_served:
  assumes inv: "proc_inv M i p" and srv: "served (raft p) s'"
  shows "proc_inv M i (p\<lparr>raft := s'\<rparr>)"
proof -
  note frame = served_frame [OF srv] served_status [OF srv]
  have "pc_ok i s' (pc_of p)"
    using inv pc_ok_served [OF srv] by (simp add: proc_inv_def)
  moreover have "node_ok M i s'"
    using inv frame by (auto simp: proc_inv_defs)
  moreover have "stubs_ok i (p\<lparr>raft := s'\<rparr>)" "thread_ok (p\<lparr>raft := s'\<rparr>)"
    using inv frame by (auto simp: proc_inv_defs)
  ultimately show ?thesis
    using inv frame by (simp add: proc_inv_def)
qed

section \<open>Every daemon step keeps it\<close>

lemma p_setup_inv: "proc_inv M i p \<Longrightarrow> p_setup order p = Some p' \<Longrightarrow> proc_inv M i p'"
  by (auto simp: p_setup_def proc_inv_defs enumerates_def channel_ptr_def setup_channels_lookup
      split: if_splits)

lemma p_follower_inv: 
  assumes "proc_inv M i p" and "p_follower draw now p = Some p'"
  shows "proc_inv M i p'"
  using assms forget_leader_channel [of "raft p" "chans p"]
  by (auto simp: p_follower_def runnable_def daemon_follower_def proc_inv_defs split: if_splits prod.splits)
   (auto simp: forget_leader_def)

lemma p_campaign_inv: "proc_inv M i p \<Longrightarrow> p_campaign order p = Some p' \<Longrightarrow> proc_inv M i p'"
  by (auto simp: p_campaign_def runnable_def campaign_begin_def enumerates_def proc_inv_defs split: if_splits)

lemma p_decide_inv: "proc_inv M i p \<Longrightarrow> p_decide now p = Some p' \<Longrightarrow> proc_inv M i p'"
  by (auto simp: p_decide_def campaign_finish_def become_leader_def proc_inv_defs Let_def
      split: pc.splits list.splits if_splits)

lemma p_beat_begin_inv: "proc_inv M i p \<Longrightarrow> p_beat_begin order p = Some p' \<Longrightarrow> proc_inv M i p'"
  by (cases "status (raft p)")
    (auto simp: p_beat_begin_def runnable_def enumerates_def proc_inv_defs split: if_splits)

lemma p_beat_end_inv: "proc_inv M i p \<Longrightarrow> p_beat_end p = Some p' \<Longrightarrow> proc_inv M i p'"
  by (auto simp: p_beat_end_def proc_inv_defs split: pc.splits list.splits)

lemma p_return_inv: "proc_inv M i p \<Longrightarrow> p_return now outcome p = Some p' \<Longrightarrow> proc_inv M i p'"
  by (auto simp: p_return_def proc_inv_defs step_down_def split: pc.splits sum.splits Message.splits if_splits)

lemma p_exit_inv: "proc_inv M i p \<Longrightarrow> p_exit p = Some p' \<Longrightarrow> proc_inv M i p'"
  by (auto simp: p_exit_def daemon_exit_def proc_inv_defs split: if_splits)

lemma p_kill_inv: "proc_inv M i p \<Longrightarrow> p_kill p = Some p' \<Longrightarrow> proc_inv M i p'"
  by (cases "pc_of p") (auto simp: p_kill_def Kill_request_def proc_inv_defs split: if_splits)

lemma p_killed_inv: "proc_inv M i p \<Longrightarrow> p_killed p = Some p' \<Longrightarrow> proc_inv M i p'"
  by (auto simp: p_killed_def Kill_complete_def proc_inv_defs split: if_splits)

section \<open>The invariant of the cluster\<close>

definition cluster_inv :: "cluster \<Rightarrow> bool" where
  "cluster_inv c \<longleftrightarrow> finite (dom (procs c)) \<and>
     (\<forall>i p. procs c i = Some p \<longrightarrow> proc_inv (dom (procs c)) i p)"

lemma cluster_invD: "cluster_inv c \<Longrightarrow> procs c i = Some p \<Longrightarrow> proc_inv (dom (procs c)) i p"
  by (simp add: cluster_inv_def)

text \<open>The one shape every step has: one peer moves.\<close>

lemma cluster_inv_update:
  assumes "cluster_inv c" and "procs c i = Some p" and "procs c' = (procs c)(i \<mapsto> p')"
    and "proc_inv (dom (procs c)) i p \<Longrightarrow> proc_inv (dom (procs c)) i p'"
  shows "cluster_inv c'"
proof -
  have "dom (procs c') = dom (procs c)"
    using assms(2,3) by auto
  then show ?thesis
    using assms by (auto simp: cluster_inv_def)
qed

lemma at_procE:
  assumes "at_proc i f c = Some c'"
  obtains p p' where "procs c i = Some p" "f p = Some p'" "c' = c\<lparr>procs := (procs c)(i \<mapsto> p')\<rparr>"
  using assms by (auto simp: at_proc_def split: option.splits)

lemma at_proc_inv:
  assumes "cluster_inv c" and "at_proc i f c = Some c'"
    and "\<And>M p p'. proc_inv M i p \<Longrightarrow> f p = Some p' \<Longrightarrow> proc_inv M i p'"
  shows "cluster_inv c'"
  using assms by (auto elim!: at_procE intro: cluster_inv_update)

lemmas step_inv = p_setup_inv p_follower_inv p_campaign_inv p_decide_inv p_beat_begin_inv
  p_beat_end_inv p_return_inv p_exit_inv p_kill_inv p_killed_inv

lemma at_proc_steps_inv:
  assumes "cluster_inv c"
  shows "at_proc i (p_setup order) c = Some c' \<Longrightarrow> cluster_inv c'"
    and "at_proc i (p_follower draw now) c = Some c' \<Longrightarrow> cluster_inv c'"
    and "at_proc i (p_campaign order) c = Some c' \<Longrightarrow> cluster_inv c'"
    and "at_proc i (p_decide now) c = Some c' \<Longrightarrow> cluster_inv c'"
    and "at_proc i (p_beat_begin order) c = Some c' \<Longrightarrow> cluster_inv c'"
    and "at_proc i p_beat_end c = Some c' \<Longrightarrow> cluster_inv c'"
    and "at_proc i (p_return now outcome) c = Some c' \<Longrightarrow> cluster_inv c'"
    and "at_proc i p_exit c = Some c' \<Longrightarrow> cluster_inv c'"
    and "at_proc i p_kill c = Some c' \<Longrightarrow> cluster_inv c'"
    and "at_proc i p_killed c = Some c' \<Longrightarrow> cluster_inv c'"
  by (erule at_proc_inv [OF assms], erule (1) step_inv)+

lemma cluster_inv_procs: "procs c' = procs c \<Longrightarrow> cluster_inv c' \<longleftrightarrow> cluster_inv c"
  by (simp add: cluster_inv_def)

lemma do_campaign_inv:
  assumes "cluster_inv c" and "do_campaign i order c = Some c'"
  shows "cluster_inv c'"
proof -
  from assms(2) obtain c1 where c1: "at_proc i (p_campaign order) c = Some c1" "procs c' = procs c1"
    unfolding do_campaign_def by fastforce
  then have "cluster_inv c1"
    using at_proc_steps_inv [OF assms(1)] by blast
  then show ?thesis
    by (simp add: cluster_inv_procs [OF c1(2)])
qed

lemma do_decide_inv:
  assumes "cluster_inv c" and "do_decide i now c = Some c'"
  shows "cluster_inv c'"
proof -
  from assms(2) obtain c1 where c1: "at_proc i (p_decide now) c = Some c1" "procs c' = procs c1"
    unfolding do_decide_def by (fastforce split: option.splits if_splits)
  then have "cluster_inv c1"
    using at_proc_steps_inv [OF assms(1)] by blast
  then show ?thesis
    by (simp add: cluster_inv_procs [OF c1(2)])
qed

lemma p_next_inv:
  assumes "proc_inv M i p"
  shows "p_next p = Some (Skip k) \<Longrightarrow> proc_inv M i (p\<lparr>pc_of := k\<rparr>)"
    and "p_next p \<noteq> Some Crash"
    and "p_next p = Some (Issue call f) \<Longrightarrow> proc_inv M i (p\<lparr>pc_of := f cid\<rparr>)"
  using assms
  by (auto simp: p_next_def proc_inv_defs split: pc.splits list.splits if_splits option.splits)

lemma do_next_inv:
  assumes "cluster_inv c" and "do_next i c = Some c'"
  shows "cluster_inv c'"
proof -
  from assms(2) obtain p where p: "procs c i = Some p"
    by (auto simp: do_next_def split: option.splits)
  with assms(1) have inv: "proc_inv (dom (procs c)) i p"
    by (rule cluster_invD)
  from assms(2) p p_next_inv [OF inv] show ?thesis
    by (auto simp: do_next_def split: option.splits next_peer.splits
        intro!: cluster_inv_update [OF assms(1) p])
qed

lemma do_response_inv: "cluster_inv c \<Longrightarrow> do_response i now c = Some c' \<Longrightarrow> cluster_inv c'"
  by (auto simp: do_response_def split: option.splits dest: at_proc_steps_inv)

lemma do_handleE:
  assumes "do_handle cid now c = Some c'"
  obtains caller call p s' m where "requests c cid = Some (caller, call)"
    "procs c (ic_channel call) = Some p" "\<not> app_terminated (raft p)"
    "RaftService_call_method (Raft_service now) (ic_method call) (ic_request call) (raft p) =
       Inr (Some (s', Reply_send m))"
    "c' = c\<lparr>procs := (procs c)(ic_channel call \<mapsto> p\<lparr>raft := s'\<rparr>),
            requests := (requests c)(cid := None), responses := (responses c)(cid \<mapsto> m),
            votes := votes c \<union> vote_cast (ic_channel call) (ic_request call) m\<rparr>"
  using assms
  by (auto simp: do_handle_def split: option.splits prod.splits if_splits sum.splits reply.splits)

lemma do_handle_inv:
  assumes "cluster_inv c" and "do_handle cid now c = Some c'"
  shows "cluster_inv c'"
  using assms(2)
proof (rule do_handleE)
  fix caller call p s' m
  assume p: "procs c (ic_channel call) = Some p"
    and call: "RaftService_call_method (Raft_service now) (ic_method call) (ic_request call) (raft p) =
       Inr (Some (s', Reply_send m))"
    and c': "c' = c\<lparr>procs := (procs c)(ic_channel call \<mapsto> p\<lparr>raft := s'\<rparr>),
            requests := (requests c)(cid := None), responses := (responses c)(cid \<mapsto> m),
            votes := votes c \<union> vote_cast (ic_channel call) (ic_request call) m\<rparr>"
  have inv: "proc_inv (dom (procs c)) (ic_channel call) p"
    using assms(1) p by (rule cluster_invD)
  then have "RWLock_ok (log_lock (raft p))"
    by (simp add: proc_inv_defs)
  with call have "served (raft p) s'"
    by (rule call_method_served)
  with inv have "proc_inv (dom (procs c)) (ic_channel call) (p\<lparr>raft := s'\<rparr>)"
    by (rule proc_inv_served)
  with p c' show ?thesis
    by (intro cluster_inv_update [OF assms(1) p]) simp_all
qed

lemma exec_inv:
  assumes "cluster_inv c" and "exec e c = Some c'"
  shows "cluster_inv c'"
  using assms(2) at_proc_steps_inv [OF assms(1)] do_campaign_inv [OF assms(1)]
    do_decide_inv [OF assms(1)] do_next_inv [OF assms(1)] do_response_inv [OF assms(1)]
    do_handle_inv [OF assms(1)]
  by (cases e) (simp_all add: do_rpc_error_def)

lemma reachable_inv: "reachable c0 c \<Longrightarrow> cluster_inv c0 \<Longrightarrow> cluster_inv c"
  by (induction rule: reachable.induct) (auto intro: exec_inv)

lemma run_reachable: "reachable c0 c \<Longrightarrow> run es c = Some c' \<Longrightarrow> reachable c0 c'"
  by (induction es arbitrary: c) (auto split: option.splits intro: reachable.step)

section \<open>Booting\<close>

definition fresh_node :: "string set \<Rightarrow> Raft \<Rightarrow> bool" where
  "fresh_node M s \<longleftrightarrow> self_id s \<in> M \<and> peers s = M \<and> status s = FOLLOWER \<and> vote_for s = [] \<and>
     \<not> lock s \<and> \<not> is_dead s \<and> log_lock s = RW_Free \<and> node_logs s = ConsensusLog_init \<and>
     raft_thread s = Thread_Running \<and> \<not> app_terminated s \<and> node_term s = - 1"

definition good_boot :: "Raft list \<Rightarrow> bool" where
  "good_boot nodes \<longleftrightarrow> distinct (map self_id nodes) \<and> [] \<notin> set (map self_id nodes) \<and>
     list_all (fresh_node (set (map self_id nodes))) nodes"

lemma boot_dom: "dom (procs (boot nodes)) = set (map self_id nodes)"
  by (simp add: boot_def dom_map_of_conv_image_fst image_comp)

lemma boot_proc_of:
  assumes "procs (boot nodes) i = Some p"
  obtains s where "s \<in> set nodes" "self_id s = i" "p = boot_proc s"
  using assms by (auto simp: boot_def dest!: map_of_SomeD)

lemma boot_inv:
  assumes "good_boot nodes"
  shows "cluster_inv (boot nodes)"
proof -
  have "proc_inv (dom (procs (boot nodes))) i p" if "procs (boot nodes) i = Some p" for i p
    using that
  proof (rule boot_proc_of)
    fix s assume "s \<in> set nodes" "self_id s = i" "p = boot_proc s"
    with assms show ?thesis
      by (auto simp: good_boot_def list_all_iff fresh_node_def proc_inv_defs boot_proc_def boot_dom)
  qed
  then show ?thesis
    by (simp add: cluster_inv_def boot_dom)
qed

end
