(* ===== verification/Main_Config.thy ===== *)
theory Main_Config
  imports Cluster_Invariant
begin

text \<open>
  The program of \<open>src/main.cpp\<close>: it reads \<open>address port\<close> lines from the configuration file up
  to the first line that does not parse, builds one endpoint string per line, and constructs one
  peer per line in this process.  The file is its contents; the time at which the peer with
  index \<open>i\<close> is constructed is \<open>nows i\<close>.  Afterwards \<open>main\<close> only sleeps.
\<close>

section \<open>The program\<close>

definition BuildRPCAddr :: "string \<Rightarrow> cint \<Rightarrow> string" where
  "BuildRPCAddr addr port = ''tcp://'' @ addr @ '':'' @ to_string port"

definition parse_line :: "string \<Rightarrow> (string \<times> cint) option" where
  "parse_line line =
    (case extract_word line of
       None \<Rightarrow> None
     | Some (addr, r) \<Rightarrow> (case extract_int r of None \<Rightarrow> None | Some (port, _) \<Rightarrow> Some (addr, port)))"

lemma getline_shorter [termination_simp]: "getline s = Some (l, r) \<Longrightarrow> length r < length s"
proof -
  assume "getline s = Some (l, r)"
  then have "s \<noteq> []" and "r = drop 1 (dropWhile (\<lambda>c. c \<noteq> newline) s)"
    by (simp_all add: getline_def split: if_splits)
  moreover have "length (dropWhile (\<lambda>c. c \<noteq> newline) s) \<le> length s"
    by (rule length_dropWhile_le)
  ultimately show ?thesis
    by (cases s) auto
qed

fun read_config :: "string \<Rightarrow> (string \<times> cint) list" where
  "read_config text =
    (case getline text of
       None \<Rightarrow> []
     | Some (line, rest) \<Rightarrow>
        (case parse_line line of
           None \<Rightarrow> []
         | Some entry \<Rightarrow> entry # read_config rest))"

declare read_config.simps [simp del]

definition build_service :: "(string \<times> cint) list \<Rightarrow> string list" where
  "build_service entries = map (\<lambda>(addr, port). BuildRPCAddr addr port) entries"

fun construct_peers ::
  "string list \<Rightarrow> (nat \<Rightarrow> llong) \<Rightarrow> nat \<Rightarrow> (string \<times> cint) list \<Rightarrow> ctor_error + Raft list" where
  "construct_peers service nows i [] = Inr []"
| "construct_peers service nows i ((addr, port) # entries) =
    (case Raft_new addr port (of_nat i) service (nows i) of
       Inl e \<Rightarrow> Inl e
     | Inr s \<Rightarrow>
        (case construct_peers service nows (Suc i) entries of
           Inl e \<Rightarrow> Inl e
         | Inr ss \<Rightarrow> Inr (s # ss)))"

definition main :: "string \<Rightarrow> (nat \<Rightarrow> llong) \<Rightarrow> ctor_error + Raft list" where
  "main text nows =
     (let entries = read_config text
      in construct_peers (build_service entries) nows 0 entries)"

section \<open>Endpoints\<close>

lemma to_string_no_colon: "CHR '':'' \<notin> set (to_string p)"
  using to_string_all [of "\<lambda>c. c \<noteq> CHR '':''" p] by auto

lemma BuildRPCAddr_nonempty [simp]: "BuildRPCAddr a p \<noteq> []"
  by (simp add: BuildRPCAddr_def)

lemma BuildRPCAddr_inject [simp]: "BuildRPCAddr a p = BuildRPCAddr b q \<longleftrightarrow> a = b \<and> p = q"
proof
  let ?P = "\<lambda>c. c \<noteq> CHR '':''"
  have port: "takeWhile ?P (rev (a @ '':'' @ to_string p)) = rev (to_string p)" for a p
    using takeWhile_run(1) [of "rev (to_string p)" ?P "CHR '':'' # rev a"] to_string_no_colon [of p]
    by auto
  assume "BuildRPCAddr a p = BuildRPCAddr b q"
  then have eq: "a @ '':'' @ to_string p = b @ '':'' @ to_string q"
    by (simp add: BuildRPCAddr_def)
  from arg_cong [OF this, of "\<lambda>s. takeWhile ?P (rev s)"] have "p = q"
    unfolding port by simp
  with eq show "a = b \<and> p = q" by simp
qed simp

lemma distinct_build_service: "distinct entries \<Longrightarrow> distinct (build_service entries)"
  by (auto simp: build_service_def distinct_map inj_on_def)

section \<open>Reading the configuration\<close>

definition valid_addr :: "string \<Rightarrow> bool" where
  "valid_addr a \<longleftrightarrow> a \<noteq> [] \<and> list_all (\<lambda>c. \<not> is_space c) a"

definition print_line :: "string \<times> cint \<Rightarrow> string" where
  "print_line e = fst e @ '' '' @ to_string (snd e)"

lemma of_char_newline [simp]: "of_char newline = (10 :: nat)"
  by (simp add: newline_def)

lemma newline_neq: "of_char c \<noteq> (10 :: nat) \<Longrightarrow> c \<noteq> newline"
  by auto

lemma space_props [simp]: "is_space CHR '' ''" "is_space newline" "\<not> is_digit CHR '' ''"
  "CHR '' '' \<noteq> newline" "newline \<noteq> CHR '' ''" "CHR ''-'' \<noteq> newline"
  using newline_neq [of "CHR '' ''"] newline_neq [of "CHR ''-''"]
  by (auto simp: is_space_def is_digit_def)

lemma extract_word_run:
  assumes "valid_addr a" and "stops (\<lambda>c. \<not> is_space c) r"
  shows "extract_word (a @ r) = Some (a, r)"
proof -
  have run: "\<forall>c\<in>set a. \<not> is_space c" and ne: "a \<noteq> []"
    using assms(1) by (auto simp: valid_addr_def list_all_iff)
  then have "dropWhile is_space (a @ r) = a @ r"
    by (cases a) auto
  with takeWhile_run [OF run assms(2)] ne show ?thesis
    by (simp add: extract_word_def)
qed

lemma extract_int_space: "extract_int (CHR '' '' # s) = extract_int s"
  by (simp add: extract_int_def)

lemma parse_print_line:
  assumes "valid_addr (fst e)"
  shows "parse_line (print_line e) = Some e"
  using assms extract_word_run [of "fst e" "'' '' @ to_string (snd e)"]
    extract_int_to_string [of "[]" "snd e"]
  by (simp add: parse_line_def print_line_def extract_int_space)

lemma print_line_nonempty: "print_line e \<noteq> []"
  by (simp add: print_line_def)

lemma print_line_no_newline:
  assumes "valid_addr (fst e)"
  shows "\<forall>c\<in>set (print_line e). c \<noteq> newline"
  using assms to_string_all [of "\<lambda>c. c \<noteq> newline" "snd e"]
  by (auto simp: print_line_def valid_addr_def list_all_iff)

fun print_config :: "(string \<times> cint) list \<Rightarrow> string" where
  "print_config [] = []"
| "print_config (e # es) = print_line e @ newline # print_config es"

lemma getline_print_line:
  assumes "valid_addr (fst e)"
  shows "getline (print_line e @ newline # r) = Some (print_line e, r)"
  using takeWhile_run [OF print_line_no_newline [OF assms], of "newline # r"]
  by (simp add: getline_def print_line_def)

lemma read_config_print:
  "list_all (valid_addr \<circ> fst) es \<Longrightarrow> read_config (print_config es @ r) = es @ read_config r"
proof (induction es)
  case (Cons e es)
  then show ?case
    by (subst read_config.simps) (simp add: getline_print_line parse_print_line)
qed simp

lemma read_config_last:
  assumes "valid_addr (fst e)"
  shows "read_config (print_line e) = [e]"
proof -
  have "getline (print_line e) = Some (print_line e, [])"
    using takeWhile_run [OF print_line_no_newline [OF assms], of "[]"] print_line_nonempty [of e]
    by (simp add: getline_def del: takeWhile_eq_all_conv dropWhile_eq_Nil_conv)
  then show ?thesis
    by (simp add: read_config.simps parse_print_line [OF assms] getline_def [of "[]"])
qed

lemma read_config_bad_line:
  assumes "parse_line l = None" and "newline \<notin> set l"
  shows "read_config (l @ newline # r) = []"
proof -
  have "\<forall>c\<in>set l. c \<noteq> newline" using assms(2) by metis
  from takeWhile_run [OF this, of "newline # r"] have "getline (l @ newline # r) = Some (l, r)"
    by (simp add: getline_def)
  with assms(1) show ?thesis
    by (simp add: read_config.simps)
qed

section \<open>The peers main constructs\<close>

lemma construct_peers_ok:
  assumes "i + length entries \<le> length service" and "length service < 2 ^ 31"
  shows "\<exists>ns. construct_peers service nows i entries = Inr ns \<and> length ns = length entries \<and>
    (\<forall>k < length entries. Raft_new (fst (entries ! k)) (snd (entries ! k)) (of_nat (i + k)) service (nows (i + k)) = Inr (ns ! k))"
  using assms(1)
proof (induction entries arbitrary: i)
  case (Cons e es)
  from Cons.prems have "i < length service" by simp
  moreover have "signed_take_bit 31 (int i) = int i"
    using \<open>i < length service\<close> assms(2) by (intro signed_take_bit_int_eq_self) auto
  ultimately have "unat (uint64_of_int (of_nat i)) < length service"
    using assms(2) by (simp add: uint64_of_int_def signed_of_nat unat_of_nat_uint64)
  then obtain s where s: "Raft_new (fst e) (snd e) (of_nat i) service (nows i) = Inr s"
    by (simp add: Raft_new_def)
  from Cons.IH [of "Suc i"] Cons.prems obtain ns where ns: "construct_peers service nows (Suc i) es = Inr ns" "length ns = length es"
    "\<forall>k < length es. Raft_new (fst (es ! k)) (snd (es ! k)) (of_nat (Suc i + k)) service (nows (Suc i + k)) = Inr (ns ! k)"
    by auto
  show ?case
  proof (intro exI [of _ "s # ns"] conjI allI impI)
    show "construct_peers service nows i (e # es) = Inr (s # ns)"
      using s ns(1) by (cases e) simp
    show "length (s # ns) = length (e # es)" using ns(2) by simp
    fix k assume "k < length (e # es)"
    then show "Raft_new (fst ((e # es) ! k)) (snd ((e # es) ! k)) (of_nat (i + k)) service (nows (i + k)) = Inr ((s # ns) ! k)"
      using s ns(3) by (cases k) auto
  qed
qed simp

lemma main_peers:
  assumes "length (read_config text) < 2 ^ 31"
  obtains ns where "main text nows = Inr ns" "length ns = length (read_config text)"
    "\<And>k. k < length ns \<Longrightarrow> Raft_new (fst (read_config text ! k)) (snd (read_config text ! k)) (of_nat k)
       (build_service (read_config text)) (nows k) = Inr (ns ! k)"
proof -
  have len: "length (build_service (read_config text)) = length (read_config text)"
    by (simp add: build_service_def)
  show ?thesis
    using construct_peers_ok [of 0 "read_config text" "build_service (read_config text)" nows] assms that
    by (auto simp: len main_def Let_def)
qed

lemma Raft_new_self_id:
  assumes "Raft_new addr port (of_nat k) ps now = Inr s" and "k < 2 ^ 31"
  shows "self_id s = ps ! k"
proof -
  have "signed_take_bit 31 (int k) = int k"
    using assms(2) by (intro signed_take_bit_int_eq_self) auto
  then have "unat (uint64_of_int (of_nat k)) = k"
    using assms(2) by (simp add: uint64_of_int_def signed_of_nat unat_of_nat_uint64)
  with assms(1) show ?thesis
    by (auto simp: Raft_new_def split: if_splits)
qed

lemma main_self_ids:
  assumes "main text nows = Inr ns" and "length (read_config text) < 2 ^ 31"
  shows "map self_id ns = build_service (read_config text)"
    and "s \<in> set ns \<Longrightarrow> ThreadMain_bind s = self_id s"
    and "s \<in> set ns \<Longrightarrow> fresh_node (set (map self_id ns)) s"
proof -
  from assms obtain len: "length ns = length (read_config text)" and new:
    "\<And>k. k < length ns \<Longrightarrow> Raft_new (fst (read_config text ! k)) (snd (read_config text ! k)) (of_nat k)
       (build_service (read_config text)) (nows k) = Inr (ns ! k)"
    by (metis main_peers sum.inject(2))
  have id: "self_id (ns ! k) = build_service (read_config text) ! k" if "k < length ns" for k
    using new [OF that] that len assms(2) by (intro Raft_new_self_id) auto
  then show ids: "map self_id ns = build_service (read_config text)"
    by (intro nth_equalityI) (simp_all add: len build_service_def)
  assume "s \<in> set ns"
  then obtain k where k: "k < length ns" "s = ns ! k" by (metis in_set_conv_nth)
  note f = Raft_new_fields [OF new [OF k(1)]]
  show "ThreadMain_bind s = self_id s"
    using f id [OF k(1)] k len
    by (simp add: ThreadMain_bind_def build_service_def BuildRPCAddr_def case_prod_beta)
  show "fresh_node (set (map self_id ns)) s"
    using f k(2) unfolding ids fresh_node_def by simp
qed

lemma main_good_boot:
  assumes "main text nows = Inr ns" and "length (read_config text) < 2 ^ 31"
    and "distinct (read_config text)"
  shows "good_boot ns"
  unfolding good_boot_def
proof (intro conjI)
  show "distinct (map self_id ns)" "[] \<notin> set (map self_id ns)"
    unfolding main_self_ids(1) [OF assms(1,2)]
    using distinct_build_service [OF assms(3)] 
    by (auto simp: build_service_def BuildRPCAddr_nonempty [symmetric] simp del: BuildRPCAddr_nonempty)
  show "list_all (fresh_node (set (map self_id ns))) ns"
    using main_self_ids(3) [OF assms(1,2)] by (simp add: list_all_iff)
qed

section \<open>Properties\<close>

text \<open>
  Reading a configuration file gives back the entries that were written to it, one per line,
  and reading stops at the first line that does not parse, whatever follows it.
\<close>

theorem config_roundtrip:
  assumes "list_all (valid_addr \<circ> fst) es"
  shows "read_config (print_config es) = es \<and>
    (parse_line l = None \<and> newline \<notin> set l \<longrightarrow> read_config (print_config es @ l @ newline # r) = es)"
  using read_config_print [OF assms, of "[]"] read_config_print [OF assms] read_config_bad_line [of l r]
  by (simp add: read_config.simps [of "[]"] getline_def)

theorem config_roundtrip_witness:
  "read_config (print_config [(''h'', 80), (''k'', -1)] @ ''bad'' @ newline # ''a 1'') = [(''h'', 80), (''k'', -1)]"
proof -
  have ok: "list_all (valid_addr \<circ> fst) [(''h'', 80 :: cint), (''k'', -1)]"
    by (simp add: valid_addr_def is_space_def)
  have "parse_line ''bad'' = None" and "newline \<notin> set ''bad''"
    by code_simp+
  then show ?thesis
    using config_roundtrip [OF ok, of "''bad''" "''a 1''"] by blast
qed

text \<open>
  What \<open>main\<close> starts: from a configuration of fewer than \<open>2 ^ 31\<close> lines it constructs one peer
  per line, never indexing its address vector out of range; the peer's id is the endpoint it binds
  its server to, and every peer knows all of them.  Different lines have different endpoints.
\<close>

theorem main_constructs_peers:
  assumes "length (read_config text) < 2 ^ 31"
  shows "\<exists>nodes. main text nows = Inr nodes \<and>
    map self_id nodes = map (\<lambda>(addr, port). BuildRPCAddr addr port) (read_config text) \<and>
    (\<forall>s \<in> set nodes. ThreadMain_bind s = self_id s \<and> peers s = set (map self_id nodes)) \<and>
    (distinct (read_config text) \<longrightarrow> distinct (map self_id nodes))"
proof -
  obtain nodes where main: "main text nows = Inr nodes"
    using assms by (rule main_peers)
  note ids = main_self_ids [OF main assms]
  show ?thesis
    using main ids distinct_build_service [of "read_config text"]
    by (intro exI [of _ nodes]) (auto simp: build_service_def fresh_node_def)
qed

theorem main_constructs_peers_witness:
  "\<exists>nodes. main ''h 80'' (\<lambda>_. 0) = Inr nodes \<and> map self_id nodes = [''tcp://h:80'']"
proof -
  have cfg: "read_config ''h 80'' = [(''h'', 80)]"
    by code_simp
  have addr: "BuildRPCAddr ''h'' 80 = ''tcp://h:80''"
    by code_simp
  show ?thesis
    using main_constructs_peers [of "''h 80''" "\<lambda>_. 0"] unfolding cfg by (auto simp: addr)
qed

end
