(* ===== verification/Quorum.thy ===== *)
theory Quorum
  imports Raft_Daemon
begin

text \<open>
  The contract an election relies on, and the majority test of the candidate branch
  (\<open>vote_count >= peers_.size() / 2 + 1\<close>) as an instance of it: two sets of voters that pass the
  test among the same peers share a voter.
\<close>

locale quorum_system =
  fixes quorum :: "'v set \<Rightarrow> 'v set \<Rightarrow> bool"
  assumes quorum_subset: "quorum M Q \<Longrightarrow> Q \<subseteq> M"
    and quorum_intersect: "quorum M Q \<Longrightarrow> quorum M R \<Longrightarrow> Q \<inter> R \<noteq> {}"
    and quorum_mono: "quorum M Q \<Longrightarrow> Q \<subseteq> R \<Longrightarrow> R \<subseteq> M \<Longrightarrow> quorum M R"
begin

text \<open>If every voter votes for one candidate at most, one candidate at most has a quorum.\<close>

lemma unique_winner:
  assumes single: "\<And>v x y. (v, x) \<in> V \<Longrightarrow> (v, y) \<in> V \<Longrightarrow> x = y"
    and "quorum M {v. (v, a) \<in> V}" and "quorum M {v. (v, b) \<in> V}"
  shows "a = b"
proof -
  from quorum_intersect [OF assms(2,3)] obtain v where "(v, a) \<in> V" "(v, b) \<in> V"
    by blast
  then show ?thesis by (rule single)
qed

lemma quorum_nonempty: "quorum M Q \<Longrightarrow> Q \<noteq> {}"
  using quorum_intersect by blast

end

definition majority :: "string set \<Rightarrow> string set \<Rightarrow> bool" where
  "majority M Q \<longleftrightarrow> finite M \<and> card M < 2 ^ 30 \<and> Q \<subseteq> M \<and> wins (of_nat (card Q)) M"

lemma majority_nat:
  assumes "finite M" and "card M < 2 ^ 30" and "Q \<subseteq> M"
  shows "majority M Q \<longleftrightarrow> card M div 2 + 1 \<le> card Q"
proof -
  from assms have "card Q \<le> card M"
    by (intro card_mono)
  with assms have "wins (of_nat (card Q)) M \<longleftrightarrow> card M div 2 + 1 \<le> card Q"
    by (intro wins_nat) auto
  with assms show ?thesis
    by (simp add: majority_def)
qed

interpretation maj: quorum_system majority
proof unfold_locales
  fix M Q
  assume "majority M Q"
  then show "Q \<subseteq> M" by (simp add: majority_def)
next
  fix M Q R
  assume Q: "majority M Q" and R: "majority M R"
  then have M: "finite M" "card M < 2 ^ 30" "Q \<subseteq> M" "R \<subseteq> M"
    by (auto simp: majority_def)
  with Q R have "card M < card Q + card R"
    by (auto simp: majority_nat)
  moreover have "card Q + card R \<le> card M" if "Q \<inter> R = {}"
  proof -
    from M that have "card Q + card R = card (Q \<union> R)"
      by (metis card_Un_disjoint finite_subset)
    also from M have "\<dots> \<le> card M" by (intro card_mono) auto
    finally show ?thesis .
  qed
  ultimately show "Q \<inter> R \<noteq> {}" by linarith
next
  fix M Q R
  assume Q: "majority M Q" and sub: "Q \<subseteq> R" "R \<subseteq> M"
  then have M: "finite M" "card M < 2 ^ 30" "Q \<subseteq> M"
    by (auto simp: majority_def)
  moreover from M sub have "card Q \<le> card R"
    by (meson card_mono finite_subset)
  ultimately show "majority M R"
    using Q sub by (auto simp: majority_nat)
qed

section \<open>Properties\<close>

text \<open>
  Two sets of voters that both pass the candidate's majority test among the same fewer than
  \<open>2 ^ 30\<close> peers have a voter in common.
\<close>

theorem majorities_intersect:
  assumes "finite M" and "card M < 2 ^ 30" and "Q \<subseteq> M" and "R \<subseteq> M"
    and "wins (of_nat (card Q)) M" and "wins (of_nat (card R)) M"
  shows "Q \<inter> R \<noteq> {}"
  by (rule maj.quorum_intersect [of M]) (use assms in \<open>simp_all add: majority_def\<close>)

theorem majorities_intersect_witness:
  "{''a'', ''b''} \<inter> {''b'', ''c''} \<noteq> ({} :: string set)"
  by (rule majorities_intersect [of "{''a'', ''b'', ''c''}"]) (simp_all add: wins_def, code_simp+)

end
