(* ===== verification/Election_Safety.thy ===== *)
theory Election_Safety
  imports Cluster_Invariant Quorum
begin

text \<open>
  Election safety, and exactly when it holds.  A peer that clears its vote (\<open>vote_for_ = ""\<close>) may
  vote again in the same term, so the code does not keep to one leader per term in general.  It
  does as long as no vote is cleared: in a steady execution every peer casts at most one vote, the
  membership stays complete, a candidate counts votes that were cast for it, and the majority test
  is a quorum system; so at most one peer ever wins.
\<close>

section \<open>Steady executions\<close>

text \<open>
  A step clears a vote when a peer's \<open>vote_for_\<close> goes back to the empty string: a follower that
  gives its leader up, or a candidate that lost.  An execution is steady while no step does that.
\<close>

definition keeps_votes :: "cluster \<Rightarrow> cluster \<Rightarrow> bool" where
  "keeps_votes c c' \<longleftrightarrow> (\<forall>i p p'. procs c i = Some p \<longrightarrow> procs c' i = Some p' \<longrightarrow>
     vote_for (raft p) \<noteq> [] \<longrightarrow> vote_for (raft p') \<noteq> [])"

inductive steady :: "cluster \<Rightarrow> cluster \<Rightarrow> bool" for c0 where
  steady_start: "steady c0 c0"
| steady_step: "steady c0 c \<Longrightarrow> exec e c = Some c' \<Longrightarrow> keeps_votes c c' \<Longrightarrow> steady c0 c'"

lemma steady_reachable: "steady c0 c \<Longrightarrow> reachable c0 c"
  by (induction rule: steady.induct) (auto intro: reachable.intros)

section \<open>The invariant of steady executions\<close>

text \<open>The votes a campaign of \<open>i\<close> may have counted when it still has to ask \<open>ps\<close>.\<close>

definition tally :: "(string \<times> string) set \<Rightarrow> string \<Rightarrow> string list \<Rightarrow> cint \<Rightarrow> bool" where
  "tally V i ps n \<longleftrightarrow> (\<exists>k. n = of_nat k \<and> k \<le> card {v. (v, i) \<in> V \<and> (v = i \<or> v \<notin> set ps)})"

fun tally_pc :: "(string \<times> string) set \<Rightarrow> string \<Rightarrow> pc \<Rightarrow> bool" where
  "tally_pc V i (Pc_Election ps n) = tally V i ps n"
| "tally_pc V i (Pc_VoteWait c q ps n) = tally V i (q # ps) n"
| "tally_pc V i _ = True"

text \<open>Every request on the network carries its sender's id.\<close>

fun signed_by :: "string \<Rightarrow> Message \<Rightarrow> bool" where
  "signed_by i (VoteRequest_msg r) = (get_vreq_candidate_id r = i)"
| "signed_by i (AppendRequest_msg r) = (get_areq_candidate_id r = i)"
| "signed_by i _ = False"

definition net_ok :: "cluster \<Rightarrow> bool" where
  "net_ok c \<longleftrightarrow>
    (\<forall>cid. cid \<ge> next_call c \<longrightarrow> requests c cid = None \<and> responses c cid = None) \<and>
    (\<forall>i p cid. procs c i = Some p \<longrightarrow> pending_call p = Some cid \<longrightarrow> cid < next_call c) \<and>
    (\<forall>cid i call. requests c cid = Some (i, call) \<longrightarrow> i \<in> dom (procs c) \<and> signed_by i (ic_request call)) \<and>
    (\<forall>cid j call i p q ps n. requests c cid = Some (j, call) \<longrightarrow> procs c i = Some p \<longrightarrow>
       pc_of p = Pc_VoteWait cid q ps n \<longrightarrow> j = i \<and> ic_channel call = q) \<and>
    (\<forall>cid r i p q ps n. responses c cid = Some (VoteReply_msg r) \<longrightarrow> get_vrep_vote r \<longrightarrow>
       procs c i = Some p \<longrightarrow> pc_of p = Pc_VoteWait cid q ps n \<longrightarrow> (q, i) \<in> votes c)"

lemma net_okD:
  assumes "net_ok c"
  shows "cid \<ge> next_call c \<Longrightarrow> requests c cid = None"
    and "cid \<ge> next_call c \<Longrightarrow> responses c cid = None"
    and "procs c i = Some p \<Longrightarrow> pending_call p = Some cid \<Longrightarrow> cid < next_call c"
    and "requests c cid = Some (i, call) \<Longrightarrow> i \<in> dom (procs c)"
    and "requests c cid = Some (i, call) \<Longrightarrow> signed_by i (ic_request call)"
    and "requests c cid = Some (j, call) \<Longrightarrow> procs c i = Some p \<Longrightarrow>
      pc_of p = Pc_VoteWait cid q ps n \<Longrightarrow> j = i \<and> ic_channel call = q"
    and "responses c cid = Some (VoteReply_msg r) \<Longrightarrow> get_vrep_vote r \<Longrightarrow> procs c i = Some p \<Longrightarrow>
      pc_of p = Pc_VoteWait cid q ps n \<Longrightarrow> (q, i) \<in> votes c"
  using assms unfolding net_ok_def by (elim conjE; metis)+

definition votes_ok :: "cluster \<Rightarrow> bool" where
  "votes_ok c \<longleftrightarrow>
    (\<forall>v x. (v, x) \<in> votes c \<longrightarrow> (\<exists>p. procs c v = Some p \<and> vote_for (raft p) \<noteq> [])) \<and>
    (\<forall>v x y. (v, x) \<in> votes c \<longrightarrow> (v, y) \<in> votes c \<longrightarrow> x = y) \<and>
    (\<forall>i p. procs c i = Some p \<longrightarrow> tally_pc (votes c) i (pc_of p)) \<and>
    (\<forall>i. i \<in> won c \<longrightarrow> majority (dom (procs c)) {v. (v, i) \<in> votes c})"

definition full_peers :: "cluster \<Rightarrow> bool" where
  "full_peers c \<longleftrightarrow> [] \<notin> dom (procs c) \<and> card (dom (procs c)) < 2 ^ 30 \<and>
    (\<forall>i p. procs c i = Some p \<longrightarrow> peers (raft p) = dom (procs c))"

definition steady_inv :: "cluster \<Rightarrow> bool" where
  "steady_inv c \<longleftrightarrow> cluster_inv c \<and> full_peers c \<and> net_ok c \<and> votes_ok c"

lemma voters_subset: "votes_ok c \<Longrightarrow> {v. (v, i) \<in> votes c \<and> P v} \<subseteq> dom (procs c)"
  by (auto simp: votes_ok_def)

lemma voters_finite:
  assumes "cluster_inv c" and "votes_ok c"
  shows "finite {v. (v, i) \<in> votes c \<and> P v}"
  using voters_subset [OF assms(2)] assms(1) by (auto simp: cluster_inv_def intro: finite_subset)

lemma tally_mono:
  assumes "tally V i ps n" and "V \<subseteq> W" and "set qs \<subseteq> set ps"
    and "finite {v. (v, i) \<in> W \<and> (v = i \<or> v \<notin> set qs)}"
  shows "tally W i qs n"
proof -
  have "card {v. (v, i) \<in> V \<and> (v = i \<or> v \<notin> set ps)} \<le> card {v. (v, i) \<in> W \<and> (v = i \<or> v \<notin> set qs)}"
    using assms by (intro card_mono) auto
  then show ?thesis
    using assms(1) le_trans unfolding tally_def by blast
qed

lemma tally_count:
  assumes t: "tally V i (q # ps) n" and vote: "(q, i) \<in> V" and q: "q \<noteq> i" "q \<notin> set ps"
    and fin: "finite {v. (v, i) \<in> V \<and> (v = i \<or> v \<notin> set ps)}"
  shows "tally V i ps (n + 1)"
proof -
  let ?A = "{v. (v, i) \<in> V \<and> (v = i \<or> v \<notin> set (q # ps))}"
  let ?B = "{v. (v, i) \<in> V \<and> (v = i \<or> v \<notin> set ps)}"
  have sub: "insert q ?A \<subseteq> ?B" and nq: "q \<notin> ?A"
    using vote q by auto
  have "finite ?A" using fin by (rule rev_finite_subset) auto
  with nq have "Suc (card ?A) = card (insert q ?A)" by simp
  also have "\<dots> \<le> card ?B" using fin sub by (rule card_mono)
  finally have step: "Suc (card ?A) \<le> card ?B" .
  from t obtain k where k: "n = of_nat k" "k \<le> card ?A"
    unfolding tally_def by blast
  with step have "Suc k \<le> card ?B" by linarith
  moreover have "n + 1 = of_nat (Suc k)"
    using k by simp
  ultimately show ?thesis
    unfolding tally_def by blast
qed

lemma tally_wins:
  assumes t: "tally V i [] n" and wins: "wins n M" and M: "finite M" "card M < 2 ^ 30"
    and sub: "{v. (v, i) \<in> V} \<subseteq> M"
  shows "majority M {v. (v, i) \<in> V}"
proof -
  from t obtain k where k: "n = of_nat k" "k \<le> card {v. (v, i) \<in> V}"
    by (auto simp: tally_def)
  moreover have "card {v. (v, i) \<in> V} \<le> card M"
    using M sub by (intro card_mono)
  ultimately have "card M div 2 + 1 \<le> k"
    using wins M wins_nat [of k M] by simp
  with k M sub show ?thesis
    by (simp add: majority_nat)
qed

section \<open>Steps that do not touch the network\<close>

lemma dom_update: "procs c i = Some p \<Longrightarrow> procs c' = (procs c)(i \<mapsto> p') \<Longrightarrow> dom (procs c') = dom (procs c)"
  by auto

lemma full_peers_update:
  assumes "full_peers c" and "procs c i = Some p" and "procs c' = (procs c)(i \<mapsto> p')"
    and "peers (raft p') = peers (raft p)"
  shows "full_peers c'"
  using assms dom_update [OF assms(2,3)] by (auto simp: full_peers_def)

definition quiet :: "cluster \<Rightarrow> cluster \<Rightarrow> bool" where
  "quiet c c' \<longleftrightarrow> requests c' = requests c \<and> responses c' = responses c \<and> next_call c' = next_call c \<and>
     votes c \<subseteq> votes c'"

lemma pending_VoteWait: "pc_of p = Pc_VoteWait cid q ps n \<Longrightarrow> pending_call p = Some cid"
  by (simp add: pending_call_def)

lemma net_ok_quiet:
  assumes net: "net_ok c" and p: "procs c i = Some p" and c': "procs c' = (procs c)(i \<mapsto> p')"
    and quiet: "quiet c c'" and pc: "pending_call p' = None \<or> pc_of p' = pc_of p"
  shows "net_ok c'"
proof -
  have old: "\<exists>p0. procs c j = Some p0 \<and> pc_of p0 = pc_of q0"
    if "procs c' j = Some q0" "pending_call q0 = Some cid" for j q0 cid
    using that c' p pc by (cases "j = i") auto
  have pend: "pending_call p0 = pending_call q0" if "pc_of p0 = pc_of q0" for p0 q0
    using that by (simp add: pending_call_def)
  show ?thesis
    unfolding net_ok_def
  proof (intro conjI allI impI)
    fix cid assume "next_call c' \<le> cid"
    then show "requests c' cid = None" "responses c' cid = None"
      using net_okD(1,2) [OF net] quiet by (auto simp: quiet_def)
  next
    fix j q0 cid assume "procs c' j = Some q0" "pending_call q0 = Some cid"
    with old [OF this] pend show "cid < next_call c'"
      using net_okD(3) [OF net] quiet unfolding quiet_def by metis
  next
    fix cid j call assume "requests c' cid = Some (j, call)"
    then show "j \<in> dom (procs c')" "signed_by j (ic_request call)"
      using net_okD(4,5) [OF net] quiet dom_update [OF p c'] by (auto simp: quiet_def)
  next
    fix cid j call k q0 q ps n
    assume "requests c' cid = Some (j, call)" "procs c' k = Some q0"
      and pcw: "pc_of q0 = Pc_VoteWait cid q ps n"
    moreover from calculation obtain p0 where "procs c k = Some p0" "pc_of p0 = Pc_VoteWait cid q ps n"
      using old [OF _ pending_VoteWait [OF pcw]] pcw by metis
    ultimately show "j = k" "ic_channel call = q"
      using net_okD(6) [OF net] quiet unfolding quiet_def by metis+
  next
    fix cid r k q0 q ps n
    assume "responses c' cid = Some (VoteReply_msg r)" "get_vrep_vote r" "procs c' k = Some q0"
      and pcw: "pc_of q0 = Pc_VoteWait cid q ps n"
    moreover from calculation obtain p0 where "procs c k = Some p0" "pc_of p0 = Pc_VoteWait cid q ps n"
      using old [OF _ pending_VoteWait [OF pcw]] pcw by metis
    ultimately have "(q, k) \<in> votes c"
      using net_okD(7) [OF net] quiet unfolding quiet_def by metis
    then show "(q, k) \<in> votes c'"
      using quiet by (auto simp: quiet_def)
  qed
qed

lemma tally_pc_mono:
  assumes "tally_pc V i k" and "V \<subseteq> W" and "\<And>P. finite {v. (v, i) \<in> W \<and> P v}"
  shows "tally_pc W i k"
  using assms by (cases k) (auto intro: tally_mono)

text \<open>One peer moves, and casts a vote only if it had none out.\<close>

lemma votes_ok_update:
  assumes inv: "votes_ok c" "cluster_inv c" and p: "procs c i = Some p"
    and c': "procs c' = (procs c)(i \<mapsto> p')"
    and keep: "vote_for (raft p) \<noteq> [] \<Longrightarrow> vote_for (raft p') \<noteq> []"
    and cast: "votes c' = votes c \<or>
      (\<exists>x. votes c' = insert (i, x) (votes c) \<and> vote_for (raft p) = [] \<and> vote_for (raft p') \<noteq> [])"
    and own: "tally_pc (votes c') i (pc_of p')"
    and won: "won c' = won c \<or> won c' = insert i (won c) \<and> majority (dom (procs c)) {v. (v, i) \<in> votes c'}"
  shows "votes_ok c'"
proof -
  have mono: "votes c \<subseteq> votes c'" using cast by auto
  have voted: "\<exists>p. procs c v = Some p \<and> vote_for (raft p) \<noteq> []" if "(v, x) \<in> votes c" for v x
    using that inv(1) unfolding votes_ok_def by blast
  have voters: "\<exists>p. procs c' v = Some p \<and> vote_for (raft p) \<noteq> []" if "(v, x) \<in> votes c'" for v x
    using that cast keep voted [of v x] p c' by (cases "v = i") auto
  have none: "(i, x) \<notin> votes c" if "vote_for (raft p) = []" for x
    using that voted [of i x] p by auto
  have single: "x = y" if "(v, x) \<in> votes c'" "(v, y) \<in> votes c'" for v x y
    using that cast none inv(1) unfolding votes_ok_def by auto
  have dom: "dom (procs c') = dom (procs c)" using p c' by (rule dom_update)
  have sub: "{v. (v, j) \<in> votes c' \<and> P v} \<subseteq> dom (procs c)" for j P
    using voters dom by blast
  then have fin: "finite {v. (v, j) \<in> votes c' \<and> P v}" for j P
    using inv(2) by (auto simp: cluster_inv_def intro: finite_subset)
  have tallies: "tally_pc (votes c') j (pc_of q)" if "procs c' j = Some q" for j q
  proof (cases "j = i")
    case False
    with that c' have "tally_pc (votes c) j (pc_of q)"
      using inv(1) by (simp add: votes_ok_def)
    then show ?thesis using mono fin by (rule tally_pc_mono)
  qed (use that c' own in simp)
  have maj: "majority (dom (procs c')) {v. (v, j) \<in> votes c'}" if "j \<in> won c'" for j
  proof (cases "j \<in> won c")
    case True
    then have "majority (dom (procs c)) {v. (v, j) \<in> votes c}"
      using inv(1) by (simp add: votes_ok_def)
    moreover have "{v. (v, j) \<in> votes c} \<subseteq> {v. (v, j) \<in> votes c'}" using mono by auto
    ultimately show ?thesis
      using sub [of j "\<lambda>_. True"] dom maj.quorum_mono by simp
  qed (use that won dom in auto)
  show ?thesis
    using voters single tallies maj unfolding votes_ok_def by blast
qed

lemma steady_update:
  assumes inv: "steady_inv c" and p: "procs c i = Some p" and inv': "cluster_inv c'"
    and c': "procs c' = (procs c)(i \<mapsto> p')" and quiet: "quiet c c'"
    and peers: "peers (raft p') = peers (raft p)"
    and pc: "pending_call p' = None \<or> pc_of p' = pc_of p"
    and keep: "vote_for (raft p) \<noteq> [] \<Longrightarrow> vote_for (raft p') \<noteq> []"
    and cast: "votes c' = votes c \<or>
      (\<exists>x. votes c' = insert (i, x) (votes c) \<and> vote_for (raft p) = [] \<and> vote_for (raft p') \<noteq> [])"
    and own: "tally_pc (votes c') i (pc_of p')"
    and won: "won c' = won c \<or> won c' = insert i (won c) \<and> majority (dom (procs c)) {v. (v, i) \<in> votes c'}"
  shows "steady_inv c'"
  using inv inv' full_peers_update [OF _ p c' peers] net_ok_quiet [OF _ p c' quiet pc]
    votes_ok_update [OF _ _ p c' keep cast own won]
  by (simp add: steady_inv_def)

section \<open>Every step of a steady execution keeps the invariant\<close>

lemma steady_invD:
  assumes "steady_inv c"
  shows "cluster_inv c" "full_peers c" "net_ok c" "votes_ok c"
  using assms by (simp_all add: steady_inv_def)

lemma steady_pc_ok:
  assumes "steady_inv c" and "procs c i = Some p"
  shows "pc_ok i (raft p) (pc_of p)" "self_id (raft p) = i" "i \<noteq> []"
    "peers (raft p) = dom (procs c)" "tally_pc (votes c) i (pc_of p)"
  using assms cluster_invD [OF steady_invD(1) [OF assms(1)] assms(2)]
  by (auto simp: steady_inv_def proc_inv_defs full_peers_def votes_ok_def)

lemma steady_voters_finite: "steady_inv c \<Longrightarrow> finite {v. (v, i) \<in> votes c \<and> P v}"
  by (rule voters_finite) (simp_all add: steady_inv_def)

lemma keeps_votesD:
  "keeps_votes c c' \<Longrightarrow> procs c i = Some p \<Longrightarrow> procs c' = (procs c)(i \<mapsto> p') \<Longrightarrow>
     vote_for (raft p) \<noteq> [] \<Longrightarrow> vote_for (raft p') \<noteq> []"
  by (simp add: keeps_votes_def)

lemma steady_at_proc:
  assumes inv: "steady_inv c" and inv': "cluster_inv c'" and keep: "keeps_votes c c'"
    and step: "at_proc i f c = Some c'"
    and local: "\<And>p p'. procs c i = Some p \<Longrightarrow> f p = Some p' \<Longrightarrow>
      (vote_for (raft p) \<noteq> [] \<Longrightarrow> vote_for (raft p') \<noteq> []) \<Longrightarrow>
      peers (raft p') = peers (raft p) \<and> (pending_call p' = None \<or> pc_of p' = pc_of p) \<and>
      tally_pc (votes c) i (pc_of p')"
  shows "steady_inv c'"
  using step
proof (rule at_procE)
  fix p p'
  assume p: "procs c i = Some p" "f p = Some p'" and c': "c' = c\<lparr>procs := (procs c)(i \<mapsto> p')\<rparr>"
  then have vf: "vote_for (raft p) \<noteq> [] \<Longrightarrow> vote_for (raft p') \<noteq> []"
    using keeps_votesD [OF keep p(1)] by simp
  from local [OF p this] show ?thesis
    by (intro steady_update [where p' = p', OF inv p(1) inv']) (simp_all add: c' quiet_def vf)
qed

lemma steady_setup:
  assumes "steady_inv c" "cluster_inv c'" "keeps_votes c c'" "at_proc i (p_setup order) c = Some c'"
  shows "steady_inv c'"
  using assms by (rule steady_at_proc) (auto simp: p_setup_def pending_call_def split: if_splits)

lemma steady_follower:
  assumes "steady_inv c" "cluster_inv c'" "keeps_votes c c'" "at_proc i (p_follower draw now) c = Some c'"
  shows "steady_inv c'"
  using assms
  by (rule steady_at_proc)
    (auto simp: p_follower_def runnable_def daemon_follower_def forget_leader_def split: if_splits)

lemma steady_beat_begin:
  assumes "steady_inv c" "cluster_inv c'" "keeps_votes c c'" "at_proc i (p_beat_begin order) c = Some c'"
  shows "steady_inv c'"
  using assms by (rule steady_at_proc) (auto simp: p_beat_begin_def pending_call_def split: if_splits)

lemma steady_beat_end:
  assumes "steady_inv c" "cluster_inv c'" "keeps_votes c c'" "at_proc i p_beat_end c = Some c'"
  shows "steady_inv c'"
  using assms
  by (rule steady_at_proc) (auto simp: p_beat_end_def pending_call_def split: pc.splits list.splits)

lemma steady_kill_steps:
  assumes "steady_inv c" "cluster_inv c'" "keeps_votes c c'"
  shows "at_proc i p_kill c = Some c' \<Longrightarrow> steady_inv c'"
    and "at_proc i p_exit c = Some c' \<Longrightarrow> steady_inv c'"
    and "at_proc i p_killed c = Some c' \<Longrightarrow> steady_inv c'"
  by (erule steady_at_proc [OF assms];
      use steady_pc_ok(5) [OF assms(1)] in \<open>auto simp: p_kill_def p_exit_def p_killed_def Kill_request_def
        Kill_complete_def daemon_exit_def pending_call_def split: if_splits\<close>)+

text \<open>A call returns: a granted vote was cast, and was not counted before.\<close>

lemma p_return_tally:
  assumes inv: "steady_inv c" and p: "procs c i = Some p" "p_return now outcome p = Some p'"
    and granted: "\<And>cid q ps n r. pc_of p = Pc_VoteWait cid q ps n \<Longrightarrow> outcome = Inr (VoteReply_msg r) \<Longrightarrow>
      get_vrep_vote r \<Longrightarrow> (q, i) \<in> votes c"
  shows "peers (raft p') = peers (raft p) \<and> pending_call p' = None \<and> tally_pc (votes c) i (pc_of p')"
proof (cases "pc_of p")
  case (Pc_VoteWait cid q ps n)
  note ok = steady_pc_ok [OF inv p(1)] and fin = steady_voters_finite [OF inv]
  from ok Pc_VoteWait have q: "q \<noteq> i" "q \<notin> set ps" and t: "tally (votes c) i (q # ps) n"
    by simp_all
  from t have skip: "tally (votes c) i ps n"
    by (rule tally_mono) (auto intro: fin)
  have count: "tally (votes c) i ps (n + 1)" if "(q, i) \<in> votes c"
    using t that q fin by (rule tally_count)
  from p(2) Pc_VoteWait skip count granted show ?thesis
    by (auto simp: p_return_def count_vote_grants grants_def pending_call_def
        split: sum.splits Message.splits if_splits)
next
  case (Pc_BeatWait cid q ps)
  with p(2) show ?thesis
    by (auto simp: p_return_def step_down_def pending_call_def split: sum.splits Message.splits if_splits)
qed (use p(2) in \<open>simp_all add: p_return_def\<close>)

lemma steady_rpc_error:
  assumes "steady_inv c" "cluster_inv c'" "keeps_votes c c'"
    "at_proc i (p_return now (Inl e)) c = Some c'"
  shows "steady_inv c'"
  using assms by (rule steady_at_proc) (use p_return_tally [OF assms(1)] in blast)

lemma steady_response:
  assumes inv: "steady_inv c" "cluster_inv c'" "keeps_votes c c'" and step: "do_response i now c = Some c'"
  shows "steady_inv c'"
proof -
  from step obtain p cid m where p: "procs c i = Some p" and pend: "pending_call p = Some cid"
    and m: "responses c cid = Some m" and at: "at_proc i (p_return now (Inr m)) c = Some c'"
    by (auto simp: do_response_def split: option.splits bind_splits)
  have granted: "(q, i) \<in> votes c" if "pc_of p = Pc_VoteWait cid' q ps n" "m = VoteReply_msg r" "get_vrep_vote r"
    for cid' q ps n r
    using that p pend m steady_invD(3) [OF inv(1)] pending_VoteWait [OF that(1)]
    unfolding net_ok_def by auto
  show ?thesis
    using inv at
  proof (rule steady_at_proc)
    fix p0 p'
    assume "procs c i = Some p0" "p_return now (Inr m) p0 = Some p'"
    with p granted p_return_tally [OF inv(1), of i p0 now "Inr m" p']
    show "peers (raft p') = peers (raft p0) \<and> (pending_call p' = None \<or> pc_of p' = pc_of p0) \<and>
        tally_pc (votes c) i (pc_of p')"
      by auto
  qed
qed

lemma steady_campaign:
  assumes inv: "steady_inv c" "cluster_inv c'" and step: "do_campaign i order c = Some c'"
  shows "steady_inv c'"
proof -
  from step obtain p p' where p: "procs c i = Some p" "p_campaign order p = Some p'"
    and c': "c' = c\<lparr>procs := (procs c)(i \<mapsto> p'), votes := insert (i, i) (votes c)\<rparr>"
    by (auto simp: do_campaign_def elim!: at_procE)
  note ok = steady_pc_ok [OF inv(1) p(1)]
  from p(2) ok have p': "peers (raft p') = peers (raft p)" "pc_of p' = Pc_Election order 1"
    "vote_for (raft p) = []" "vote_for (raft p') = i"
    by (auto simp: p_campaign_def runnable_def campaign_begin_def split: if_splits)
  let ?W = "{v. (v, i) \<in> insert (i, i) (votes c) \<and> (v = i \<or> v \<notin> set order)}"
  have "finite ?W"
    using steady_voters_finite [OF inv(1), of i "\<lambda>_. True"]
    by (intro finite_subset [of ?W "insert i {v. (v, i) \<in> votes c \<and> True}"]) auto
  moreover have "i \<in> ?W" by simp
  ultimately have "0 < card ?W" by (subst card_gt_0_iff) blast
  then have tly: "tally (insert (i, i) (votes c)) i order 1"
    unfolding tally_def by (intro exI [of _ 1]) simp
  show ?thesis
    by (rule steady_update [where p' = p', OF inv(1) p(1) inv(2)])
      (use p' ok(3) tly in \<open>auto simp: c' quiet_def pending_call_def\<close>)
qed

lemma campaign_won:
  "wins n (peers s) \<Longrightarrow> status (campaign_finish n now s) = LEADER \<and>
     peers (campaign_finish n now s) = peers s"
  by (simp add: campaign_finish_def become_leader_def Let_def)

lemma steady_decide:
  assumes inv: "steady_inv c" "cluster_inv c'" "keeps_votes c c'" and step: "do_decide i now c = Some c'"
  shows "steady_inv c'"
proof -
  from step obtain p p' where p: "procs c i = Some p" "p_decide now p = Some p'"
    and c': "c' = c\<lparr>procs := (procs c)(i \<mapsto> p'),
                    won := (if status (raft p') = LEADER then insert i (won c) else won c)\<rparr>"
    by (auto simp: do_decide_def elim!: at_procE)
  note ok = steady_pc_ok [OF inv(1) p(1)]
  from p(2) obtain n where pc: "pc_of p = Pc_Election [] n"
    and p': "p' = p\<lparr>raft := (campaign_finish n now (raft p))\<lparr>lock := False\<rparr>, pc_of := Pc_Loop\<rparr>"
    by (auto simp: p_decide_def split: pc.splits list.splits)
  have "vote_for (raft p) \<noteq> []" using ok pc by simp
  then have vf: "vote_for (raft p') \<noteq> []"
    using keeps_votesD [OF inv(3) p(1)] c' by simp
  then have wins: "wins n (peers (raft p))"
    using p' by (auto simp: campaign_finish_def split: if_splits)
  have "majority (dom (procs c)) {v. (v, i) \<in> votes c}"
  proof (rule tally_wins)
    show "tally (votes c) i [] n" using ok(5) pc by simp
    show "wins n (dom (procs c))" using wins ok(4) by simp
    show "finite (dom (procs c))" using steady_invD(1) [OF inv(1)] by (simp add: cluster_inv_def)
    show "card (dom (procs c)) < 2 ^ 30" using steady_invD(2) [OF inv(1)] by (simp add: full_peers_def)
    show "{v. (v, i) \<in> votes c} \<subseteq> dom (procs c)"
      using voters_subset [OF steady_invD(4) [OF inv(1)], of i "\<lambda>_. True"] by simp
  qed
  moreover have "status (raft p') = LEADER" "peers (raft p') = peers (raft p)" "pc_of p' = Pc_Loop"
    using p' campaign_won [OF wins] by simp_all
  ultimately show ?thesis
    using vf by (intro steady_update [where p' = p', OF inv(1) p(1) inv(2)])
      (auto simp: c' quiet_def pending_call_def)
qed

text \<open>The next peer of a loop.  An issued call gets an id that is in no use.\<close>

lemma p_next_cases:
  assumes inv: "steady_inv c" and p: "procs c i = Some p"
  shows "p_next p = Some (Skip k) \<Longrightarrow>
      pending_call (p\<lparr>pc_of := k\<rparr>) = None \<and> tally_pc (votes c) i k"
    and "p_next p = Some (Issue call f) \<Longrightarrow>
      signed_by i (ic_request call) \<and> tally_pc (votes c) i (f cid) \<and> pending_call (p\<lparr>pc_of := f cid\<rparr>) = Some cid \<and>
      (\<forall>cid' q ps n. f cid = Pc_VoteWait cid' q ps n \<longrightarrow> cid' = cid \<and> ic_channel call = q)"
proof -
  note ok = steady_pc_ok [OF inv p]
  have stubs: "channel_ptr (chans p) q = Some (RaftService_Stub_new_default q True)"
    if "q \<in> peers (raft p)" "q \<noteq> i" "pc_of p \<noteq> Pc_Setup" for q
    using that cluster_invD [OF steady_invD(1) [OF inv] p] by (auto simp: proc_inv_defs)
  have skip: "tally (votes c) i ps n" if "tally (votes c) i (q # ps) n" for q ps n
    using that by (rule tally_mono) (auto intro: steady_voters_finite [OF inv])
  show "pending_call (p\<lparr>pc_of := k\<rparr>) = None \<and> tally_pc (votes c) i k" if "p_next p = Some (Skip k)"
    using that ok skip
    by (auto simp: p_next_def pending_call_def split: pc.splits list.splits if_splits option.splits)
  show "signed_by i (ic_request call) \<and> tally_pc (votes c) i (f cid) \<and> pending_call (p\<lparr>pc_of := f cid\<rparr>) = Some cid \<and>
      (\<forall>cid' q ps n. f cid = Pc_VoteWait cid' q ps n \<longrightarrow> cid' = cid \<and> ic_channel call = q)"
    if "p_next p = Some (Issue call f)"
    using that ok stubs
    by (auto simp: p_next_def pending_call_def stub_Vote_async_def stub_AppendMsg_async_def stub_async_def
        vote_request_def heartbeat_request_def msg_defs RaftService_Stub_new_default_def
        split: pc.splits list.splits if_splits option.splits)
qed

lemma net_ok_issue:
  assumes net: "net_ok c" and p: "procs c i = Some p"
    and c': "procs c' = (procs c)(i \<mapsto> p')" "requests c' = (requests c)(next_call c \<mapsto> (i, call))"
      "responses c' = responses c" "next_call c' = Suc (next_call c)" "votes c' = votes c"
    and signed: "signed_by i (ic_request call)" and pend: "pending_call p' = Some (next_call c)"
    and chan: "\<And>cid q ps n. pc_of p' = Pc_VoteWait cid q ps n \<Longrightarrow> ic_channel call = q"
  shows "net_ok c'"
proof -
  have old: "cid < next_call c" if "procs c j = Some q0" "pending_call q0 = Some cid" for j q0 cid
    using net that by (rule net_okD)
  have fresh: "requests c (next_call c) = None" "responses c (next_call c) = None"
    using net_okD(1,2) [OF net] by auto
  have wait: "cid = next_call c" if "pc_of p' = Pc_VoteWait cid q ps n" for cid q ps n
    using pending_VoteWait [OF that] pend by simp
  show ?thesis
    unfolding net_ok_def
  proof (intro conjI allI impI)
    fix cid assume "next_call c' \<le> cid"
    then show "requests c' cid = None" "responses c' cid = None"
      using net_okD(1,2) [OF net, of cid] c' by auto
  next
    fix j q0 cid assume "procs c' j = Some q0" "pending_call q0 = Some cid"
    then show "cid < next_call c'"
      using old [of j q0 cid] pend c' by (cases "j = i") auto
  next
    fix cid j cl assume "requests c' cid = Some (j, cl)"
    then show "j \<in> dom (procs c')" "signed_by j (ic_request cl)"
      using net_okD(4,5) [OF net, of cid j cl] dom_update [OF p c'(1)] c'(2) signed p
      by (cases "cid = next_call c"; auto)+
  next
    fix cid j cl k q0 q ps n
    assume req: "requests c' cid = Some (j, cl)" and q0: "procs c' k = Some q0"
      and pcw: "pc_of q0 = Pc_VoteWait cid q ps n"
    have "j = k \<and> ic_channel cl = q"
    proof (cases "k = i")
      case True
      with q0 c' have "q0 = p'" by simp
      with pcw wait have "cid = next_call c" by blast
      with True req c' \<open>q0 = p'\<close> chan [of cid q ps n] pcw show ?thesis by simp
    next
      case False
      with q0 c' have k: "procs c k = Some q0" by simp
      then have "cid < next_call c" using old pending_VoteWait [OF pcw] by blast
      with req c' have "requests c cid = Some (j, cl)" by simp
      with net_okD(6) [OF net _ k pcw] show ?thesis by blast
    qed
    then show "j = k" "ic_channel cl = q" by simp_all
  next
    fix cid r k q0 q ps n
    assume res: "responses c' cid = Some (VoteReply_msg r)" "get_vrep_vote r" and q0: "procs c' k = Some q0"
      and pcw: "pc_of q0 = Pc_VoteWait cid q ps n"
    show "(q, k) \<in> votes c'"
    proof (cases "k = i")
      case True
      with q0 c' have "q0 = p'" by simp
      with pcw wait fresh res c' show ?thesis by auto
    next
      case False
      with q0 c' res net_okD(7) [OF net _ _ _ pcw] show ?thesis by simp
    qed
  qed
qed

lemma steady_next:
  assumes inv: "steady_inv c" "cluster_inv c'" and step: "do_next i c = Some c'"
  shows "steady_inv c'"
proof -
  from step obtain p x where p: "procs c i = Some p" and x: "p_next p = Some x"
    by (auto simp: do_next_def split: option.splits)
  show ?thesis
  proof (cases x)
    case (Skip k)
    with p x step have c': "c' = c\<lparr>procs := (procs c)(i \<mapsto> p\<lparr>pc_of := k\<rparr>)\<rparr>"
      by (simp add: do_next_def)
    from p_next_cases(1) [OF inv(1) p] x Skip show ?thesis
      by (intro steady_update [where p' = "p\<lparr>pc_of := k\<rparr>", OF inv(1) p inv(2)])
        (simp_all add: c' quiet_def)
  next
    case Crash
    have "proc_inv (dom (procs c)) i p"
      using inv(1) p by (auto simp: steady_inv_def dest: cluster_invD)
    with x Crash show ?thesis by (simp add: p_next_inv(2))
  next
    case (Issue call f)
    let ?p' = "p\<lparr>pc_of := f (next_call c)\<rparr>"
    from Issue p x step have c': "c' = c\<lparr>procs := (procs c)(i \<mapsto> ?p'),
        requests := (requests c)(next_call c \<mapsto> (i, call)), next_call := Suc (next_call c)\<rparr>"
      by (simp add: do_next_def)
    from p_next_cases(2) [OF inv(1) p] x Issue
    have iss: "signed_by i (ic_request call)" "tally_pc (votes c) i (f (next_call c))"
      "pending_call ?p' = Some (next_call c)"
      "\<And>cid q ps n. f (next_call c) = Pc_VoteWait cid q ps n \<Longrightarrow> ic_channel call = q"
      by blast+
    have "net_ok c'"
      by (rule net_ok_issue [where p' = ?p', OF steady_invD(3) [OF inv(1)] p])
        (use iss in \<open>simp_all add: c'\<close>)
    moreover have "full_peers c'"
      by (rule full_peers_update [OF steady_invD(2) [OF inv(1)] p, where p' = ?p']) (simp_all add: c')
    moreover have "votes_ok c'"
      by (rule votes_ok_update [OF steady_invD(4,1) [OF inv(1)] p, where p' = ?p'])
        (simp_all add: c' iss(2))
    ultimately show ?thesis
      using inv(2) by (simp add: steady_inv_def)
  qed
qed

text \<open>A handled request.  The response goes to the caller that waits for it, if it still does.\<close>

lemma call_method_vote_reply:
  assumes "RaftService_call_method (Raft_service now) mth request s = Inr (Some (s', Reply_send (VoteReply_msg v)))"
  obtains r where "request = VoteRequest_msg r" "Vote now r s = Some (s', Reply_send v)"
  using assms
  by (auto simp: rpc_defs Raft_service_def map_reply_send split: Message.splits if_splits)

lemma Vote_grant_state:
  assumes "Vote now r s = Some (s', Reply_send v)" and "get_vrep_vote v"
  shows "vote_for s = [] \<and> vote_for s' = get_vreq_candidate_id r"
proof -
  have "\<not> lock s" using assms(1) by (auto simp: Vote_def split: if_splits)
  with assms show ?thesis
    by (cases "may_vote s") (auto simp: Vote_granted Vote_refused may_vote_def msg_defs)
qed

lemma vote_cast_cases:
  assumes "RaftService_call_method (Raft_service now) mth request s = Inr (Some (s', Reply_send m))"
    and "signed_by j request" and "j \<noteq> []"
  shows "vote_cast i request m = {} \<and> (\<forall>v. m = VoteReply_msg v \<longrightarrow> \<not> get_vrep_vote v) \<or>
    vote_cast i request m = {(i, j)} \<and> vote_for s = [] \<and> vote_for s' \<noteq> []"
proof (cases "\<exists>v. m = VoteReply_msg v \<and> get_vrep_vote v")
  case True
  then obtain v where v: "m = VoteReply_msg v" "get_vrep_vote v" by blast
  with assms(1) obtain r where r: "request = VoteRequest_msg r" "Vote now r s = Some (s', Reply_send v)"
    by (auto elim: call_method_vote_reply)
  from Vote_grant_state [OF r(2) v(2)] r(1) v assms(2,3) show ?thesis
    by (simp add: vote_cast_def)
next
  case False
  then show ?thesis
    by (auto simp: vote_cast_def split: Message.splits)
qed

lemma net_ok_handle:
  assumes net: "net_ok c" and p: "procs c i = Some p" and req: "requests c cid = Some (j, call)"
    and c': "procs c' = (procs c)(i \<mapsto> p')" "requests c' = (requests c)(cid := None)"
      "responses c' = (responses c)(cid \<mapsto> m)" "next_call c' = next_call c"
    and mono: "votes c \<subseteq> votes c'" and pc: "pc_of p' = pc_of p"
    and granted: "\<And>v. m = VoteReply_msg v \<Longrightarrow> get_vrep_vote v \<Longrightarrow> (ic_channel call, j) \<in> votes c'"
  shows "net_ok c'"
proof -
  have old: "\<exists>p0. procs c k = Some p0 \<and> pc_of p0 = pc_of q0" if "procs c' k = Some q0" for k q0
    using that c' p pc by (cases "k = i") auto
  have pend: "pending_call p0 = pending_call q0" if "pc_of p0 = pc_of q0" for p0 q0
    using that by (simp add: pending_call_def)
  have less: "cid < next_call c"
    using net_okD(1) [OF net, of cid] req by (cases "next_call c \<le> cid") auto
  show ?thesis
    unfolding net_ok_def
  proof (intro conjI allI impI)
    fix d assume "next_call c' \<le> d"
    then show "requests c' d = None" "responses c' d = None"
      using net_okD(1,2) [OF net, of d] c' less by auto
  next
    fix k q0 d assume "procs c' k = Some q0" "pending_call q0 = Some d"
    with old [OF this(1)] pend show "d < next_call c'"
      using net_okD(3) [OF net] c'(4) by metis
  next
    fix d k cl assume "requests c' d = Some (k, cl)"
    then show "k \<in> dom (procs c')" "signed_by k (ic_request cl)"
      using net_okD(4,5) [OF net, of d k cl] dom_update [OF p c'(1)] c'(2) by (auto split: if_splits)
  next
    fix d k cl l q0 q ps n
    assume d: "requests c' d = Some (k, cl)" and q0: "procs c' l = Some q0"
      and pcw: "pc_of q0 = Pc_VoteWait d q ps n"
    obtain p0 where "procs c l = Some p0" "pc_of p0 = Pc_VoteWait d q ps n"
      using old [OF q0] pcw by auto
    moreover have "requests c d = Some (k, cl)"
      using d c'(2) by (auto split: if_splits)
    ultimately show "k = l" "ic_channel cl = q"
      using net_okD(6) [OF net] by blast+
  next
    fix d r l q0 q ps n
    assume d: "responses c' d = Some (VoteReply_msg r)" "get_vrep_vote r" and q0: "procs c' l = Some q0"
      and pcw: "pc_of q0 = Pc_VoteWait d q ps n"
    obtain p0 where p0: "procs c l = Some p0" "pc_of p0 = Pc_VoteWait d q ps n"
      using old [OF q0] pcw by auto
    show "(q, l) \<in> votes c'"
    proof (cases "d = cid")
      case True
      with req p0 have "j = l" "ic_channel call = q"
        using net_okD(6) [OF net] by blast+
      with True d c'(3) granted show ?thesis by simp
    next
      case False
      with d c'(3) p0 have "(q, l) \<in> votes c"
        using net_okD(7) [OF net, of d r l p0 q ps n] by simp
      with mono show ?thesis by blast
    qed
  qed
qed

lemma steady_handle:
  assumes inv: "steady_inv c" "cluster_inv c'" "keeps_votes c c'" and step: "do_handle cid now c = Some c'"
  shows "steady_inv c'"
  using step
proof (rule do_handleE)
  fix j call p s' m
  assume req: "requests c cid = Some (j, call)" and p: "procs c (ic_channel call) = Some p"
    and call: "RaftService_call_method (Raft_service now) (ic_method call) (ic_request call) (raft p) =
       Inr (Some (s', Reply_send m))"
    and c': "c' = c\<lparr>procs := (procs c)(ic_channel call \<mapsto> p\<lparr>raft := s'\<rparr>),
            requests := (requests c)(cid := None), responses := (responses c)(cid \<mapsto> m),
            votes := votes c \<union> vote_cast (ic_channel call) (ic_request call) m\<rparr>"
  let ?i = "ic_channel call" and ?p' = "p\<lparr>raft := s'\<rparr>"
  note net = steady_invD(3) [OF inv(1)] and ok = steady_pc_ok [OF inv(1) p]
  have "signed_by j (ic_request call)" "j \<noteq> []"
    using net_okD(4,5) [OF net req] steady_invD(2) [OF inv(1)] by (auto simp: full_peers_def)
  note cast = vote_cast_cases [OF call this, of ?i]
  have srv: "served (raft p) s'"
    using call cluster_invD [OF steady_invD(1) [OF inv(1)] p]
    by (intro call_method_served) (auto simp: proc_inv_defs)
  have "net_ok c'"
    by (rule net_ok_handle [where p' = ?p', OF net p req]) (use cast in \<open>auto simp: c'\<close>)
  moreover have "full_peers c'"
    by (rule full_peers_update [OF steady_invD(2) [OF inv(1)] p, where p' = ?p'])
      (simp_all add: c' served_frame [OF srv])
  moreover have "votes_ok c'"
  proof (rule votes_ok_update [OF steady_invD(4,1) [OF inv(1)] p, where p' = ?p'])
    show "vote_for (raft p) \<noteq> [] \<Longrightarrow> vote_for (raft ?p') \<noteq> []"
      using keeps_votesD [OF inv(3) p, of ?p'] c' by simp
    show "votes c' = votes c \<or> (\<exists>x. votes c' = insert (?i, x) (votes c) \<and>
        vote_for (raft p) = [] \<and> vote_for (raft ?p') \<noteq> [])"
      using cast c' by auto
    have fin: "finite {v. (v, ?i) \<in> votes c' \<and> P v}" for P
    proof (rule finite_subset)
      show "{v. (v, ?i) \<in> votes c' \<and> P v} \<subseteq> insert ?i {v. (v, ?i) \<in> votes c \<and> True}"
        using cast c' by auto
      show "finite (insert ?i {v. (v, ?i) \<in> votes c \<and> True})"
        using steady_voters_finite [OF inv(1), of ?i "\<lambda>_. True"] by simp
    qed
    show "tally_pc (votes c') ?i (pc_of ?p')"
      by (rule tally_pc_mono [where V = "votes c"]) (use ok(5) fin in \<open>auto simp: c'\<close>)
  qed (simp_all add: c')
  ultimately show ?thesis
    using inv(2) by (simp add: steady_inv_def)
qed

section \<open>Election safety of steady executions\<close>

lemma steady_exec:
  assumes inv: "steady_inv c" and step: "exec e c = Some c'" and keep: "keeps_votes c c'"
  shows "steady_inv c'"
proof -
  have inv': "cluster_inv c'"
    using steady_invD(1) [OF inv] step by (rule exec_inv)
  note rules = steady_setup steady_follower steady_beat_begin steady_beat_end steady_rpc_error
    steady_response steady_decide steady_handle
  show ?thesis
    using step steady_kill_steps [OF inv inv' keep] rules [OF inv inv' keep]
      steady_campaign [OF inv inv'] steady_next [OF inv inv']
    by (cases e) (simp_all add: do_rpc_error_def)
qed

lemma steady_inv_boot:
  assumes "good_boot nodes" and "length nodes < 2 ^ 30"
  shows "steady_inv (boot nodes)"
proof -
  have "full_peers (boot nodes)"
    using assms card_length [of "map self_id nodes"]
    by (auto simp: full_peers_def boot_dom good_boot_def list_all_iff fresh_node_def boot_proc_def
        elim!: boot_proc_of)
  moreover have "net_ok (boot nodes)" "votes_ok (boot nodes)"
    by (auto simp: net_ok_def votes_ok_def boot_def boot_proc_def pending_call_def dest!: map_of_SomeD)
  ultimately show ?thesis
    using boot_inv [OF assms(1)] by (simp add: steady_inv_def)
qed

lemma steady_boot_inv:
  "steady (boot nodes) c \<Longrightarrow> good_boot nodes \<Longrightarrow> length nodes < 2 ^ 30 \<Longrightarrow> steady_inv c"
  by (induction rule: steady.induct) (auto intro: steady_inv_boot steady_exec)

lemma steady_unique_winner:
  assumes "steady_inv c" and "i \<in> won c" and "j \<in> won c"
  shows "i = j"
proof (rule maj.unique_winner)
  show "majority (dom (procs c)) {v. (v, i) \<in> votes c}" "majority (dom (procs c)) {v. (v, j) \<in> votes c}"
    using assms steady_invD(4) by (auto simp: votes_ok_def)
  show "x = y" if "(v, x) \<in> votes c" "(v, y) \<in> votes c" for v x y
    using that assms(1) steady_invD(4) unfolding votes_ok_def by blast
qed

section \<open>Who is leader has won\<close>

definition leaders_won :: "cluster \<Rightarrow> bool" where
  "leaders_won c \<longleftrightarrow> (\<forall>i p. procs c i = Some p \<longrightarrow> status (raft p) = LEADER \<longrightarrow> i \<in> won c)"

lemma steps_no_leader:
  shows "p_setup order p = Some p' \<Longrightarrow> status (raft p') = LEADER \<Longrightarrow> status (raft p) = LEADER"
    and "p_follower draw now p = Some p' \<Longrightarrow> status (raft p') = LEADER \<Longrightarrow> status (raft p) = LEADER"
    and "p_campaign order p = Some p' \<Longrightarrow> status (raft p') = LEADER \<Longrightarrow> status (raft p) = LEADER"
    and "p_beat_begin order p = Some p' \<Longrightarrow> status (raft p') = LEADER \<Longrightarrow> status (raft p) = LEADER"
    and "p_beat_end p = Some p' \<Longrightarrow> status (raft p') = LEADER \<Longrightarrow> status (raft p) = LEADER"
    and "p_return now outcome p = Some p' \<Longrightarrow> status (raft p') = LEADER \<Longrightarrow> status (raft p) = LEADER"
    and "p_kill p = Some p' \<Longrightarrow> status (raft p') = LEADER \<Longrightarrow> status (raft p) = LEADER"
    and "p_exit p = Some p' \<Longrightarrow> status (raft p') = LEADER \<Longrightarrow> status (raft p) = LEADER"
    and "p_killed p = Some p' \<Longrightarrow> status (raft p') = LEADER \<Longrightarrow> status (raft p) = LEADER"
  by (auto simp: p_setup_def p_follower_def p_campaign_def p_beat_begin_def p_beat_end_def p_return_def
      p_kill_def p_exit_def p_killed_def daemon_follower_def forget_leader_def campaign_begin_def
      step_down_def Kill_request_def Kill_complete_def daemon_exit_def
      split: if_splits pc.splits list.splits sum.splits Message.splits)

lemma leaders_won_update:
  assumes "leaders_won c" and "procs c i = Some p" and "procs c' = (procs c)(i \<mapsto> p')" and "won c \<subseteq> won c'"
    and "status (raft p') = LEADER \<Longrightarrow> status (raft p) = LEADER \<or> i \<in> won c'"
  shows "leaders_won c'"
  using assms by (auto simp: leaders_won_def split: if_splits)

lemma leaders_won_at_proc:
  assumes "leaders_won c" and "at_proc i f c = Some c'"
    and "\<And>p p'. f p = Some p' \<Longrightarrow> status (raft p') = LEADER \<Longrightarrow> status (raft p) = LEADER"
  shows "leaders_won c'"
  using assms(2)
proof (rule at_procE)
  fix p p'
  assume p: "procs c i = Some p" and f: "f p = Some p'" and c': "c' = c\<lparr>procs := (procs c)(i \<mapsto> p')\<rparr>"
  have "status (raft p') = LEADER \<Longrightarrow> status (raft p) = LEADER \<or> i \<in> won c'"
    using assms(3) [OF f] by blast
  then show ?thesis
    by (rule leaders_won_update [OF assms(1) p, rotated -1]) (simp_all add: c')
qed

lemma at_proc_leaders_won:
  assumes "leaders_won c"
  shows "at_proc i (p_setup order) c = Some c' \<Longrightarrow> leaders_won c'"
    and "at_proc i (p_follower draw now) c = Some c' \<Longrightarrow> leaders_won c'"
    and "at_proc i (p_campaign order) c = Some c' \<Longrightarrow> leaders_won c'"
    and "at_proc i (p_beat_begin order) c = Some c' \<Longrightarrow> leaders_won c'"
    and "at_proc i p_beat_end c = Some c' \<Longrightarrow> leaders_won c'"
    and "at_proc i (p_return now outcome) c = Some c' \<Longrightarrow> leaders_won c'"
    and "at_proc i p_kill c = Some c' \<Longrightarrow> leaders_won c'"
    and "at_proc i p_exit c = Some c' \<Longrightarrow> leaders_won c'"
    and "at_proc i p_killed c = Some c' \<Longrightarrow> leaders_won c'"
  by (erule leaders_won_at_proc [OF assms], erule (1) steps_no_leader)+

lemma do_next_shape:
  assumes "do_next i c = Some c'"
  obtains p k where "procs c i = Some p" "procs c' = (procs c)(i \<mapsto> p\<lparr>pc_of := k\<rparr>)" "won c' = won c"
proof -
  from assms obtain p x where p: "procs c i = Some p" "p_next p = Some x"
    by (auto simp: do_next_def split: option.splits)
  with assms that show ?thesis
    by (cases x) (auto simp: do_next_def)
qed

lemma do_decide_shape:
  assumes "do_decide i now c = Some c'"
  obtains p p' where "procs c i = Some p" "p_decide now p = Some p'"
    "c' = c\<lparr>procs := (procs c)(i \<mapsto> p'), won := (if status (raft p') = LEADER then insert i (won c) else won c)\<rparr>"
  using assms by (auto simp: do_decide_def elim!: at_procE)

lemma leaders_won_exec:
  assumes inv: "leaders_won c" "cluster_inv c" and step: "exec e c = Some c'"
  shows "leaders_won c'"
proof (cases e)
  case (Ev_campaign i order)
  with step obtain c1 where "at_proc i (p_campaign order) c = Some c1" "procs c' = procs c1" "won c' = won c1"
    by (auto simp: do_campaign_def)
  moreover from this have "leaders_won c1"
    using at_proc_leaders_won(3) [OF inv(1)] by blast
  ultimately show ?thesis by (simp add: leaders_won_def)
next
  case (Ev_next i)
  with step have "do_next i c = Some c'" by simp
  then obtain p k where p: "procs c i = Some p" and c': "procs c' = (procs c)(i \<mapsto> p\<lparr>pc_of := k\<rparr>)" "won c' = won c"
    by (rule do_next_shape)
  show ?thesis
    by (rule leaders_won_update [OF inv(1) p c'(1)]) (simp_all add: c'(2))
next
  case (Ev_response i now)
  with step obtain m where "at_proc i (p_return now (Inr m)) c = Some c'"
    by (auto simp: do_response_def split: option.splits)
  then show ?thesis
    by (rule at_proc_leaders_won(6) [OF inv(1)])
next
  case (Ev_decide i now)
  with step have "do_decide i now c = Some c'" by simp
  then obtain p p' where p: "procs c i = Some p" and c': "c' = c\<lparr>procs := (procs c)(i \<mapsto> p'),
      won := (if status (raft p') = LEADER then insert i (won c) else won c)\<rparr>"
    by (rule do_decide_shape)
  show ?thesis
    by (rule leaders_won_update [where p' = p', OF inv(1) p]) (simp_all add: c' subset_insertI)
next
  case (Ev_handle cid now)
  with step have "do_handle cid now c = Some c'" by simp
  then show ?thesis
  proof (rule do_handleE)
    fix j call p s' m
    assume p: "procs c (ic_channel call) = Some p"
      and call: "RaftService_call_method (Raft_service now) (ic_method call) (ic_request call) (raft p) =
         Inr (Some (s', Reply_send m))"
      and c': "c' = c\<lparr>procs := (procs c)(ic_channel call \<mapsto> p\<lparr>raft := s'\<rparr>),
            requests := (requests c)(cid := None), responses := (responses c)(cid \<mapsto> m),
            votes := votes c \<union> vote_cast (ic_channel call) (ic_request call) m\<rparr>"
    have "served (raft p) s'"
      using call cluster_invD [OF inv(2) p] by (intro call_method_served) (auto simp: proc_inv_defs)
    from served_status(1) [OF this] show ?thesis
      by (intro leaders_won_update [where p' = "p\<lparr>raft := s'\<rparr>", OF inv(1) p]) (auto simp: c')
  qed
qed (use step at_proc_leaders_won [OF inv(1)] in \<open>simp_all add: do_rpc_error_def\<close>)

lemma reachable_leaders_won:
  assumes "good_boot nodes"
  shows "reachable (boot nodes) c \<Longrightarrow> leaders_won c"
proof (induction rule: reachable.induct)
  case start
  show ?case
    using assms by (auto simp: leaders_won_def good_boot_def list_all_iff fresh_node_def boot_proc_def
        elim!: boot_proc_of)
next
  case (step c e c')
  then show ?case
    using reachable_inv [OF step.hyps(1) boot_inv [OF assms]] by (auto intro: leaders_won_exec)
qed

end
