(* ===== verification/Scenarios.thy ===== *)
theory Scenarios
  imports Main_Config Election_Safety
begin

text \<open>
  Runs of a cluster of three peers started by \<open>main\<close> from a configuration file, evaluated event by
  event.  They show that the hypotheses of the cluster properties can hold, and they are the
  executions in which the code leaves the behaviour of the protocol.
\<close>

section \<open>Checked steady runs\<close>

definition keeps_votes_in :: "string list \<Rightarrow> cluster \<Rightarrow> cluster \<Rightarrow> bool" where
  "keeps_votes_in ids c c' \<longleftrightarrow> list_all (\<lambda>i.
     case (procs c i, procs c' i) of
       (Some p, Some p') \<Rightarrow> vote_for (raft p) = [] \<or> vote_for (raft p') \<noteq> []
     | _ \<Rightarrow> True) ids"

fun steady_run :: "string list \<Rightarrow> event list \<Rightarrow> cluster \<Rightarrow> cluster option" where
  "steady_run ids [] c = Some c"
| "steady_run ids (e # es) c =
    (case exec e c of
       None \<Rightarrow> None
     | Some c' \<Rightarrow> if keeps_votes_in ids c c' then steady_run ids es c' else None)"

lemma steady_run_run: "steady_run ids es c = Some c' \<Longrightarrow> run es c = Some c'"
  by (induction es arbitrary: c) (auto split: option.splits if_splits)

lemma at_proc_dom: "at_proc i f c = Some c' \<Longrightarrow> dom (procs c') = dom (procs c)"
  by (auto elim!: at_procE split: if_splits)

lemma exec_dom: "exec e c = Some c' \<Longrightarrow> dom (procs c') = dom (procs c)"
proof (cases e)
  case (Ev_campaign i order)
  moreover assume "exec e c = Some c'"
  ultimately show ?thesis
    using at_proc_dom [of i "p_campaign order" c] by (fastforce simp: do_campaign_def)
next
  case (Ev_decide i now)
  moreover assume "exec e c = Some c'"
  ultimately show ?thesis
    by (auto elim!: do_decide_shape split: if_splits)
next
  case (Ev_next i)
  moreover assume "exec e c = Some c'"
  ultimately show ?thesis
    by (auto elim!: do_next_shape split: if_splits)
next
  case (Ev_handle cid now)
  moreover assume "exec e c = Some c'"
  ultimately show ?thesis
    by (auto elim!: do_handleE split: if_splits)
next
  case (Ev_response i now)
  moreover assume "exec e c = Some c'"
  ultimately show ?thesis
    by (simp add: do_response_def at_proc_dom split: option.splits)
qed (simp_all add: do_rpc_error_def at_proc_dom)

lemma reachable_dom: "reachable c0 c \<Longrightarrow> dom (procs c) = dom (procs c0)"
  by (induction rule: reachable.induct) (simp_all add: exec_dom)

lemma run_append: "run (es @ fs) c = Option.bind (run es c) (run fs)"
  by (induction es arbitrary: c) (auto split: option.splits)

lemma keeps_votes_in_sound:
  "keeps_votes_in ids c c' \<Longrightarrow> dom (procs c) \<subseteq> set ids \<Longrightarrow> keeps_votes c c'"
  by (fastforce simp: keeps_votes_in_def keeps_votes_def list_all_iff split: option.splits)

lemma steady_run_steady:
  assumes "steady_run ids es c = Some c'" and "steady c0 c" and "dom (procs c) \<subseteq> set ids"
  shows "steady c0 c'"
  using assms
proof (induction es arbitrary: c)
  case (Cons e es)
  then obtain c1 where c1: "exec e c = Some c1" "keeps_votes_in ids c c1" "steady_run ids es c1 = Some c'"
    by (auto split: option.splits if_splits)
  with Cons.prems have "steady c0 c1"
    by (auto intro: steady_step keeps_votes_in_sound)
  with Cons c1 exec_dom [OF c1(1)] show ?case by blast
qed simp

section \<open>A cluster of three\<close>

definition config3 :: string where
  "config3 = ''a 1'' @ [newline] @ ''b 2'' @ [newline] @ ''c 3''"

definition nodes3 :: "Raft list" where
  "nodes3 = (case main config3 (\<lambda>_. 0) of Inr ns \<Rightarrow> ns | Inl _ \<Rightarrow> [])"

definition pA :: string where "pA = ''tcp://a:1''"
definition pB :: string where "pB = ''tcp://b:2''"
definition pC :: string where "pC = ''tcp://c:3''"

definition setup3 :: "event list" where
  "setup3 = map (\<lambda>i. Ev_setup i [pA, pB, pC]) [pA, pB, pC]"

text \<open>The first peer times out, asks the other two, and wins.\<close>

definition elect_A :: "event list" where
  "elect_A = setup3 @
    [Ev_follower pA 200 6000, Ev_campaign pA [pA, pB, pC], Ev_next pA,
     Ev_next pA, Ev_handle 0 6000, Ev_response pA 6000,
     Ev_next pA, Ev_handle 1 6000, Ev_response pA 6000, Ev_decide pA 6000]"

text \<open>The others hear nothing for six seconds, drop the leader and elect the second peer.\<close>

definition elect_B_too :: "event list" where
  "elect_B_too = elect_A @
    [Ev_follower pB 200 12000, Ev_follower pB 200 12000, Ev_follower pC 200 12000,
     Ev_campaign pB [pB, pC], Ev_next pB, Ev_next pB, Ev_handle 2 12000, Ev_response pB 12000,
     Ev_decide pB 12000]"

text \<open>The first heartbeat of the first leader.\<close>

definition first_beat :: "event list" where
  "first_beat = elect_A @
    [Ev_beat_begin pA [pB, pC, pA], Ev_next pA, Ev_handle 2 7000, Ev_response pA 7000]"

text \<open>Two peers time out together and ask each other.\<close>

definition both_campaign :: "event list" where
  "both_campaign = setup3 @
    [Ev_follower pA 200 6000, Ev_follower pB 200 6000,
     Ev_campaign pA [pB, pC, pA], Ev_campaign pB [pA, pC, pB], Ev_next pA, Ev_next pB]"

definition outcome :: "event list \<Rightarrow> cluster" where
  "outcome es = (case run es (boot nodes3) of Some c \<Rightarrow> c | None \<Rightarrow> boot nodes3)"

lemma read_config3: "read_config config3 = [(''a'', 1), (''b'', 2), (''c'', 3)]"
  by code_simp

lemma main_config3: "main config3 (\<lambda>_. 0) = Inr nodes3"
  by (rule main_peers [of config3 "\<lambda>_. 0"]) (simp_all add: read_config3 nodes3_def)

lemma nodes3_good: "good_boot nodes3"
  by (rule main_good_boot [OF main_config3]) (simp_all add: read_config3)

lemma nodes3_ids: "map self_id nodes3 = [pA, pB, pC]"
  by code_simp

lemma outcome_run:
  assumes "\<not> Option.is_none (run es (boot nodes3))"
  shows "run es (boot nodes3) = Some (outcome es)"
  using assms by (auto simp: outcome_def Option.is_none_def)

lemma outcome_reachable:
  "\<not> Option.is_none (run es (boot nodes3)) \<Longrightarrow> reachable (boot nodes3) (outcome es)"
  by (rule run_reachable [OF reachable.start outcome_run])

lemma outcome_continues:
  assumes "\<not> Option.is_none (run (es @ fs) (boot nodes3))"
  shows "reachable (outcome es) (outcome (es @ fs))"
proof -
  note all = outcome_run [OF assms]
  then obtain c where c: "run es (boot nodes3) = Some c" "run fs c = Some (outcome (es @ fs))"
    by (auto simp: run_append bind_eq_Some_conv)
  then have "outcome es = c"
    by (simp add: outcome_def)
  with c(2) show ?thesis
    using run_reachable [OF reachable.start] by blast
qed

lemma outcome_steady:
  assumes "\<not> Option.is_none (steady_run [pA, pB, pC] es (boot nodes3))"
  shows "steady (boot nodes3) (outcome es)"
proof -
  from assms obtain c where c: "steady_run [pA, pB, pC] es (boot nodes3) = Some c"
    by (auto simp: Option.is_none_def)
  then have "outcome es = c"
    by (simp add: outcome_def steady_run_run)
  moreover have "dom (procs (boot nodes3)) \<subseteq> set [pA, pB, pC]"
    using boot_dom [of nodes3] nodes3_ids by simp
  ultimately show ?thesis
    using steady_run_steady [OF c steady_start] by simp
qed

text \<open>What an observer sees of a peer.\<close>

definition observe :: "cluster \<Rightarrow> string \<Rightarrow> (RaftStatus \<times> uint64 \<times> string) option" where
  "observe c i = map_option (\<lambda>p. (status (raft p), node_term (raft p), vote_for (raft p))) (procs c i)"

lemma elect_A_steady: "steady (boot nodes3) (outcome elect_A)"
  by (rule outcome_steady) code_simp

lemma observe_elect_A: "map (observe (outcome elect_A)) [pA, pB, pC] =
    [Some (LEADER, 0, pA), Some (FOLLOWER, - 1, pA), Some (FOLLOWER, - 1, pA)]"
  by code_simp

lemma elect_B_too_reachable: "reachable (boot nodes3) (outcome elect_B_too)"
  by (rule outcome_reachable) code_simp

lemma observe_elect_B_too: "map (observe (outcome elect_B_too)) [pA, pB, pC] =
    [Some (LEADER, 0, pA), Some (LEADER, 0, pB), Some (FOLLOWER, - 1, pB)]"
  by code_simp

lemma first_beat_reachable: "reachable (boot nodes3) (outcome first_beat)"
  by (rule outcome_reachable) code_simp

lemma first_beat_continues: "reachable (outcome elect_A) (outcome first_beat)"
  unfolding first_beat_def by (rule outcome_continues) code_simp

lemma observe_first_beat: "map (observe (outcome first_beat)) [pA, pB, pC] =
    [Some (FOLLOWER, - 1, pA), Some (FOLLOWER, - 1, pA), Some (FOLLOWER, - 1, pA)]"
  by code_simp

lemma both_campaign_reachable: "reachable (boot nodes3) (outcome both_campaign)"
  by (rule outcome_reachable) code_simp

text \<open>Each waits for the other, under its own lock.\<close>

lemma both_campaign_wait:
  "map_option (\<lambda>p. (pc_of p, lock (raft p))) (procs (outcome both_campaign) pA) = Some (Pc_VoteWait 0 pB [pC, pA] 1, True)"
  "map_option (\<lambda>p. (pc_of p, lock (raft p))) (procs (outcome both_campaign) pB) = Some (Pc_VoteWait 1 pA [pC, pB] 1, True)"
  by code_simp+

lemma both_campaign_requests:
  "map_option (\<lambda>(i, call). (ic_channel call, md_index (ic_method call))) (requests (outcome both_campaign) 0) = Some (pB, 2)"
  "map_option (\<lambda>(i, call). (ic_channel call, md_index (ic_method call))) (requests (outcome both_campaign) 1) = Some (pA, 2)"
  by code_simp+

lemma locked_vote_blocks:
  assumes "map_option (\<lambda>(i, call). (ic_channel call, md_index (ic_method call))) (requests c cid) = Some (q, 2)"
    and "map_option (\<lambda>p. (pc_of p, lock (raft p))) (procs c q) = Some (k, True)"
  shows "exec (Ev_handle cid now) c = None"
  using assms by (auto simp: do_handle_def rpc_defs Raft_service_def split: Message.splits)

end
