(* ===== verification/Demangle_Base.thy ===== *)
theory Demangle_Base
  imports Cpp_Strings
begin

text \<open>
  The lower half of \<open>lib/glog/src/demangle.cc\<close>, the demangler of the logging library the program
  prints its stack traces with: its \<open>State\<close>, the output buffer, and the helpers that read the
  mangled name and append to the output.

  The mangled name is the list \<open>M\<close> of its characters; a pointer into it is an index, the index
  \<open>length M\<close> reads the terminating NUL and any other access is the fault \<open>Read_Mangled\<close>.  The
  output buffer is a list beside the state, because \<open>*state = copy\<close> restores the cursors and not
  the bytes; accesses outside it are \<open>Read_Out\<close> and \<open>Write_Out\<close>.  Signed overflow of \<open>int\<close> and
  \<open>short\<close> wraps.
\<close>

section \<open>Tables\<close>

definition kOperatorList :: "(string \<times> string) list" where
  "kOperatorList =
    [(''nw'', ''new''), (''na'', ''new[]''), (''dl'', ''delete''), (''da'', ''delete[]''),
     (''ps'', ''+''), (''ng'', ''-''), (''ad'', ''&''), (''de'', ''*''), (''co'', ''~''),
     (''pl'', ''+''), (''mi'', ''-''), (''ml'', ''*''), (''dv'', ''/''), (''rm'', ''%''),
     (''an'', ''&''), (''or'', ''|''), (''eo'', ''^''), (''aS'', ''=''), (''pL'', ''+=''),
     (''mI'', ''-=''), (''mL'', ''*=''), (''dV'', ''/=''), (''rM'', ''%=''), (''aN'', ''&=''),
     (''oR'', ''|=''), (''eO'', ''^=''), (''ls'', ''<<''), (''rs'', ''>>''), (''lS'', ''<<=''),
     (''rS'', ''>>=''), (''eq'', ''==''), (''ne'', ''!=''), (''lt'', ''<''), (''gt'', ''>''),
     (''le'', ''<=''), (''ge'', ''>=''), (''nt'', ''!''), (''aa'', ''&&''), (''oo'', ''||''),
     (''pp'', ''++''), (''mm'', ''--''), (''cm'', '',''), (''pm'', ''->*''), (''pt'', ''->''),
     (''cl'', ''()''), (''ix'', ''[]''), (''qu'', ''?''), (''st'', ''sizeof''), (''sz'', ''sizeof'')]"

definition kBuiltinTypeList :: "(string \<times> string) list" where
  "kBuiltinTypeList =
    [(''v'', ''void''), (''w'', ''wchar_t''), (''b'', ''bool''), (''c'', ''char''),
     (''a'', ''signed char''), (''h'', ''unsigned char''), (''s'', ''short''),
     (''t'', ''unsigned short''), (''i'', ''int''), (''j'', ''unsigned int''), (''l'', ''long''),
     (''m'', ''unsigned long''), (''x'', ''long long''), (''y'', ''unsigned long long''),
     (''n'', ''__int128''), (''o'', ''unsigned __int128''), (''f'', ''float''), (''d'', ''double''),
     (''e'', ''long double''), (''g'', ''__float128''), (''z'', ''ellipsis'')]"

definition kSubstitutionList :: "(string \<times> string) list" where
  "kSubstitutionList =
    [(''St'', ''''), (''Sa'', ''allocator''), (''Sb'', ''basic_string''), (''Ss'', ''string''),
     (''Si'', ''istream''), (''So'', ''ostream''), (''Sd'', ''iostream'')]"

section \<open>State\<close>

record State =
  mangled_cur :: int
  out_cur :: int
  out_begin :: int
  out_end :: int
  prev_name :: "int option"
  prev_name_length :: cint
  nest_level :: "16 word"
  append_flag :: bool
  overflowed :: bool

text \<open>What ends a run abnormally; \<open>No_Fuel\<close> is a run that was cut off.\<close>

datatype fault = Read_Mangled | Read_Out | Write_Out | No_Fuel

type_synonym dstate = "State \<times> string"
type_synonym parser = "dstate \<Rightarrow> fault + bool \<times> dstate"

definition InitState :: "int \<Rightarrow> State" where
  "InitState out_size = \<lparr>mangled_cur = 0, out_cur = 0, out_begin = 0, out_end = out_size,
     prev_name = None, prev_name_length = - 1, nest_level = - 1, append_flag = True,
     overflowed = False\<rparr>"

text \<open>Reading the mangled name, through the cursor.\<close>

definition nul :: char where
  "nul = CHR 0x00"

definition read_at :: "string \<Rightarrow> int \<Rightarrow> char option" where
  "read_at M i =
    (if 0 \<le> i \<and> i < int (length M) then Some (M ! nat i)
     else if i = int (length M) then Some nul else None)"

definition read_buf :: "string \<Rightarrow> int \<Rightarrow> char option" where
  "read_buf m i = (if 0 \<le> i \<and> i < int (length m) then Some (m ! nat i) else None)"

definition reading :: "string \<Rightarrow> int \<Rightarrow> (char \<Rightarrow> fault + 'a) \<Rightarrow> fault + 'a" where
  "reading M i k = (case read_at M i of None \<Rightarrow> Inl Read_Mangled | Some c \<Rightarrow> k c)"

section \<open>Characters\<close>

definition IsLower :: "char \<Rightarrow> bool" where
  "IsLower c \<longleftrightarrow> (let n = (of_char c :: nat) in 97 \<le> n \<and> n \<le> 122)"

definition IsAlpha :: "char \<Rightarrow> bool" where
  "IsAlpha c \<longleftrightarrow> (let n = (of_char c :: nat) in 97 \<le> n \<and> n \<le> 122 \<or> 65 \<le> n \<and> n \<le> 90)"

definition IsDigit :: "char \<Rightarrow> bool" where
  "IsDigit c \<longleftrightarrow> (let n = (of_char c :: nat) in 48 \<le> n \<and> n \<le> 57)"

section \<open>C strings\<close>

text \<open>These walk the characters from a pointer on; the end of the list is the NUL.\<close>

fun StrLen :: "string \<Rightarrow> nat" where
  "StrLen [] = 0"
| "StrLen (c # cs) = (if c = nul then 0 else Suc (StrLen cs))"

fun StrPrefix :: "string \<Rightarrow> string \<Rightarrow> bool" where
  "StrPrefix str [] = True"
| "StrPrefix [] (p # ps) = (p = nul)"
| "StrPrefix (c # cs) (p # ps) =
    (if p = nul then True else if c \<noteq> nul \<and> c = p then StrPrefix cs ps else False)"

text \<open>\<open>AtLeastNumCharsRemaining\<close> reads at most up to the NUL.\<close>

fun at_least_chars :: "string \<Rightarrow> nat \<Rightarrow> bool" where
  "at_least_chars str 0 = True"
| "at_least_chars [] (Suc n) = False"
| "at_least_chars (c # cs) (Suc n) = (if c = nul then False else at_least_chars cs n)"

text \<open>The characters from the cursor on, where it is inside the name.\<close>

definition at_cursor :: "string \<Rightarrow> int \<Rightarrow> (string \<Rightarrow> fault + 'a) \<Rightarrow> fault + 'a" where
  "at_cursor M i k = (if 0 \<le> i \<and> i \<le> int (length M) then k (drop (nat i) M) else Inl Read_Mangled)"

definition AtLeastNumCharsRemaining :: "string \<Rightarrow> int \<Rightarrow> int \<Rightarrow> fault + bool" where
  "AtLeastNumCharsRemaining M i n =
    (if n \<le> 0 then Inr True else at_cursor M i (\<lambda>str. Inr (at_least_chars str (nat n))))"

text \<open>
  \<open>IsFunctionCloneSuffix\<close>: any sequence of \<open>.<alpha>+.<digit>+\<close>.
\<close>

function IsFunctionCloneSuffix :: "string \<Rightarrow> bool" where
  "IsFunctionCloneSuffix [] = True"
| "IsFunctionCloneSuffix (c # cs) =
    (if c = nul then True
     else
       (case cs of
          a # r1 \<Rightarrow>
            if c \<noteq> CHR ''.'' \<or> \<not> IsAlpha a then False
            else
              (case dropWhile IsAlpha r1 of
                 d # e # r2 \<Rightarrow>
                   if d \<noteq> CHR ''.'' \<or> \<not> IsDigit e then False
                   else IsFunctionCloneSuffix (dropWhile IsDigit r2)
               | _ \<Rightarrow> False)
        | [] \<Rightarrow> False))"
  by pat_completeness auto

termination
proof (relation "measure length", goal_cases)
  case (2 c cs a r1 d l e r2)
  then have "length (dropWhile IsAlpha r1) = Suc (Suc (length r2))"
    by simp
  then show ?case
    using length_dropWhile_le [of IsAlpha r1] length_dropWhile_le [of IsDigit r2] 2
    by simp
qed simp

section \<open>Appending\<close>

text \<open>Where the characters to append are: a literal, the mangled name, or the output itself.\<close>

datatype cptr = Lit string | In_Mangled int | In_Out int

definition cptr_read :: "string \<Rightarrow> string \<Rightarrow> cptr \<Rightarrow> int \<Rightarrow> fault + char" where
  "cptr_read M m p i =
    (case p of
       Lit s \<Rightarrow> (case read_at s i of None \<Rightarrow> Inl Read_Out | Some c \<Rightarrow> Inr c)
     | In_Mangled j \<Rightarrow> (case read_at M (j + i) of None \<Rightarrow> Inl Read_Mangled | Some c \<Rightarrow> Inr c)
     | In_Out j \<Rightarrow> (case read_buf m (j + i) of None \<Rightarrow> Inl Read_Out | Some c \<Rightarrow> Inr c))"

definition write_buf :: "string \<Rightarrow> int \<Rightarrow> char \<Rightarrow> fault + string" where
  "write_buf m i c = (if 0 \<le> i \<and> i < int (length m) then Inr (m[nat i := c]) else Inl Write_Out)"

text \<open>The loop of \<open>Append\<close>: \<open>n\<close> characters are left, the next is \<open>str[i]\<close>.\<close>

fun append_loop :: "string \<Rightarrow> cptr \<Rightarrow> nat \<Rightarrow> int \<Rightarrow> dstate \<Rightarrow> fault + dstate" where
  "append_loop M str 0 i d = Inr d"
| "append_loop M str (Suc n) i (s, m) =
    (if out_cur s + 1 < out_end s then
       (case cptr_read M m str i of
          Inl e \<Rightarrow> Inl e
        | Inr c \<Rightarrow>
           (case write_buf m (out_cur s) c of
              Inl e \<Rightarrow> Inl e
            | Inr m' \<Rightarrow> append_loop M str n (i + 1) (s\<lparr>out_cur := out_cur s + 1\<rparr>, m')))
     else Inr (s\<lparr>overflowed := True\<rparr>, m))"

definition Append :: "string \<Rightarrow> cptr \<Rightarrow> int \<Rightarrow> dstate \<Rightarrow> fault + dstate" where
  "Append M str len d =
    (case append_loop M str (nat len) 0 d of
       Inl e \<Rightarrow> Inl e
     | Inr (s, m) \<Rightarrow>
        if \<not> overflowed s then
          (case write_buf m (out_cur s) nul of Inl e \<Rightarrow> Inl e | Inr m' \<Rightarrow> Inr (s, m'))
        else Inr (s, m))"

definition MaybeAppendWithLength :: "string \<Rightarrow> cptr \<Rightarrow> int \<Rightarrow> dstate \<Rightarrow> fault + dstate" where
  "MaybeAppendWithLength M str len d =
    (if append_flag (fst d) \<and> 0 < len then
       (case cptr_read M (snd d) str 0 of
          Inl e \<Rightarrow> Inl e
        | Inr c \<Rightarrow>
           (case
              (if c = CHR ''<'' \<and> out_begin (fst d) < out_cur (fst d) then
                 (case read_buf (snd d) (out_cur (fst d) - 1) of
                    None \<Rightarrow> Inl Read_Out
                  | Some b \<Rightarrow> if b = CHR ''<'' then Append M (Lit '' '') 1 d else Inr d)
               else Inr d) of
              Inl e \<Rightarrow> Inl e
            | Inr (s, m) \<Rightarrow>
               Append M str len
                 (if IsAlpha c \<or> c = CHR ''_''
                  then s\<lparr>prev_name := Some (out_cur s), prev_name_length := of_int len\<rparr> else s, m)))
     else Inr d)"

definition StrLen_at :: "string \<Rightarrow> cptr \<Rightarrow> fault + int" where
  "StrLen_at M p =
    (case p of
       Lit s \<Rightarrow> Inr (int (StrLen s))
     | In_Mangled i \<Rightarrow> at_cursor M i (\<lambda>str. Inr (int (StrLen str)))
     | In_Out i \<Rightarrow> Inl Read_Out)"

definition MaybeAppend :: "string \<Rightarrow> cptr \<Rightarrow> dstate \<Rightarrow> fault + dstate" where
  "MaybeAppend M str d =
    (if append_flag (fst d) then
       (case StrLen_at M str of Inl e \<Rightarrow> Inl e | Inr n \<Rightarrow> MaybeAppendWithLength M str n d)
     else Inr d)"

section \<open>Parsers and their combination\<close>

text \<open>A step that always succeeds, in a chain of \<open>&&\<close>.\<close>

definition doing :: "(dstate \<Rightarrow> fault + dstate) \<Rightarrow> parser" where
  "doing f d = (case f d of Inl e \<Rightarrow> Inl e | Inr d' \<Rightarrow> Inr (True, d'))"

definition setting :: "(State \<Rightarrow> State) \<Rightarrow> parser" where
  "setting f d = Inr (True, (f (fst d), snd d))"

text \<open>\<open>a && b && \<dots>\<close> and \<open>a || b || \<dots>\<close>, which stop at the first false or true.\<close>

fun seqp :: "parser list \<Rightarrow> parser" where
  "seqp [] d = Inr (True, d)"
| "seqp (p # ps) d =
    (case p d of
       Inl e \<Rightarrow> Inl e
     | Inr (b, d') \<Rightarrow> if b then seqp ps d' else Inr (False, d'))"

fun altp :: "parser list \<Rightarrow> parser" where
  "altp [] d = Inr (False, d)"
| "altp (p # ps) d =
    (case p d of
       Inl e \<Rightarrow> Inl e
     | Inr (b, d') \<Rightarrow> if b then Inr (True, d') else altp ps d')"

text \<open>
  \<open>State copy = *state; if (p) return true; *state = copy;\<close>, for a \<open>p\<close> that may mention the copy.
\<close>

definition attempt :: "(State \<Rightarrow> parser) \<Rightarrow> parser" where
  "attempt p d =
    (case p (fst d) d of
       Inl e \<Rightarrow> Inl e
     | Inr (b, d') \<Rightarrow> if b then Inr (True, d') else Inr (False, (fst d, snd d')))"

definition Optional :: "parser \<Rightarrow> parser" where
  "Optional p d = (case p d of Inl e \<Rightarrow> Inl e | Inr (b, d') \<Rightarrow> Inr (True, d'))"

definition appending :: "string \<Rightarrow> string \<Rightarrow> parser" where
  "appending M str d = doing (MaybeAppend M (Lit str)) d"

section \<open>Tokens\<close>

definition advance :: "int \<Rightarrow> State \<Rightarrow> State" where
  "advance k s = s\<lparr>mangled_cur := mangled_cur s + k\<rparr>"

definition ParseOneCharToken :: "string \<Rightarrow> char \<Rightarrow> parser" where
  "ParseOneCharToken M one_char_token d =
     reading M (mangled_cur (fst d)) (\<lambda>c.
       if c = one_char_token then Inr (True, (advance 1 (fst d), snd d)) else Inr (False, d))"

definition ParseTwoCharToken :: "string \<Rightarrow> string \<Rightarrow> parser" where
  "ParseTwoCharToken M two_char_token d =
     reading M (mangled_cur (fst d)) (\<lambda>c.
       if c = two_char_token ! 0 then
         reading M (mangled_cur (fst d) + 1) (\<lambda>c'.
           if c' = two_char_token ! 1 then Inr (True, (advance 2 (fst d), snd d))
           else Inr (False, d))
       else Inr (False, d))"

definition ParseCharClass :: "string \<Rightarrow> string \<Rightarrow> parser" where
  "ParseCharClass M char_class d =
     reading M (mangled_cur (fst d)) (\<lambda>c.
       if c \<in> set char_class then Inr (True, (advance 1 (fst d), snd d)) else Inr (False, d))"

section \<open>Nesting and append mode\<close>

definition EnterNestedName :: parser where
  "EnterNestedName d = setting (\<lambda>s. s\<lparr>nest_level := 0\<rparr>) d"

definition LeaveNestedName :: "16 word \<Rightarrow> parser" where
  "LeaveNestedName prev_value d = setting (\<lambda>s. s\<lparr>nest_level := prev_value\<rparr>) d"

definition DisableAppend :: parser where
  "DisableAppend d = setting (\<lambda>s. s\<lparr>append_flag := False\<rparr>) d"

definition RestoreAppend :: "bool \<Rightarrow> parser" where
  "RestoreAppend prev_value d = setting (\<lambda>s. s\<lparr>append_flag := prev_value\<rparr>) d"

definition MaybeIncreaseNestLevel :: parser where
  "MaybeIncreaseNestLevel d =
     setting (\<lambda>s. if - 1 < sint (nest_level s) then s\<lparr>nest_level := nest_level s + 1\<rparr> else s) d"

definition MaybeAppendSeparator :: "string \<Rightarrow> parser" where
  "MaybeAppendSeparator M d =
    (if 1 \<le> sint (nest_level (fst d)) then appending M ''::'' d else Inr (True, d))"

definition MaybeCancelLastSeparator :: parser where
  "MaybeCancelLastSeparator d =
    (case d of (s, m) \<Rightarrow>
       if 1 \<le> sint (nest_level s) \<and> append_flag s \<and> out_begin s \<le> out_cur s - 2 then
         (case write_buf m (out_cur s - 2) nul of
            Inl e \<Rightarrow> Inl e
          | Inr m' \<Rightarrow> Inr (True, (s\<lparr>out_cur := out_cur s - 2\<rparr>, m')))
       else Inr (True, d))"

definition IdentifierIsAnonymousNamespace :: "string \<Rightarrow> State \<Rightarrow> int \<Rightarrow> fault + bool" where
  "IdentifierIsAnonymousNamespace M s len =
    (if int (length ''_GLOBAL__N_'') < len
     then at_cursor M (mangled_cur s) (\<lambda>str. Inr (StrPrefix str ''_GLOBAL__N_''))
     else Inr False)"

end
