(* ===== verification/Demangle.thy ===== *)
theory Demangle
  imports Demangle_Base
begin

text \<open>
  The recursive descent parser of \<open>lib/glog/src/demangle.cc\<close>, one definition per parsing function.
  The functions call each other in cycles; a definition therefore takes the parsers it calls
  recursively as an argument \<open>P\<close>, indexed by \<open>grammar_symbol\<close>, and \<open>parse\<close> ties the knot with a
  bound on the depth of recursion and of loops, \<open>No_Fuel\<close> where the bound is reached.  Theory
  \<open>Demangle_Safety\<close> shows a bound that is enough.
\<close>

section \<open>Numbers and identifiers\<close>

text \<open>The run of digits at the cursor, and its value in an \<open>int\<close>.\<close>

definition number_value :: "string \<Rightarrow> cint" where
  "number_value ds = foldl (\<lambda>number c. number * 10 + (of_nat (of_char c) - 48)) 0 ds"

definition run_length :: "(char \<Rightarrow> bool) \<Rightarrow> string \<Rightarrow> nat" where
  "run_length Q str = length (takeWhile (\<lambda>c. c \<noteq> nul \<and> Q c) str)"

text \<open>\<open>ParseNumber\<close>: the value it stores through \<open>number_out\<close> is given to \<open>k\<close>.\<close>

definition ParseNumber_out :: "string \<Rightarrow> (cint \<Rightarrow> parser) \<Rightarrow> parser" where
  "ParseNumber_out M k d =
    (case ParseOneCharToken M (CHR ''n'') d of
       Inl e \<Rightarrow> Inl e
     | Inr (neg, (s, m)) \<Rightarrow>
        at_cursor M (mangled_cur s) (\<lambda>str.
          let n = run_length IsDigit str;
              number = number_value (take n str)
          in if n \<noteq> 0 then k (if neg then - number else number) (advance (int n) s, m)
             else Inr (False, (s, m))))"

definition ParseNumber :: "string \<Rightarrow> parser" where
  "ParseNumber M d = ParseNumber_out M (\<lambda>number d. Inr (True, d)) d"

definition parse_run :: "string \<Rightarrow> (char \<Rightarrow> bool) \<Rightarrow> parser" where
  "parse_run M Q d =
     at_cursor M (mangled_cur (fst d)) (\<lambda>str.
       let n = run_length Q str
       in if n \<noteq> 0 then Inr (True, (advance (int n) (fst d), snd d)) else Inr (False, d))"

definition ParseFloatNumber :: "string \<Rightarrow> parser" where
  "ParseFloatNumber M d =
     parse_run M (\<lambda>c. IsDigit c \<or> (let n = (of_char c :: nat) in 97 \<le> n \<and> n \<le> 102)) d"

definition ParseSeqId :: "string \<Rightarrow> parser" where
  "ParseSeqId M d =
     parse_run M (\<lambda>c. IsDigit c \<or> (let n = (of_char c :: nat) in 65 \<le> n \<and> n \<le> 90)) d"

definition ParseIdentifier :: "string \<Rightarrow> int \<Rightarrow> parser" where
  "ParseIdentifier M len d =
    (if len = - 1 then Inr (False, d)
     else
       (case AtLeastNumCharsRemaining M (mangled_cur (fst d)) len of
          Inl e \<Rightarrow> Inl e
        | Inr False \<Rightarrow> Inr (False, d)
        | Inr True \<Rightarrow>
           (case IdentifierIsAnonymousNamespace M (fst d) len of
              Inl e \<Rightarrow> Inl e
            | Inr anon \<Rightarrow>
               (case (if anon then MaybeAppend M (Lit ''(anonymous namespace)'') d
                      else MaybeAppendWithLength M (In_Mangled (mangled_cur (fst d))) len d) of
                  Inl e \<Rightarrow> Inl e
                | Inr (s, m) \<Rightarrow> Inr (True, (advance len s, m))))))"

definition ParseSourceName :: "string \<Rightarrow> parser" where
  "ParseSourceName M d =
     attempt (\<lambda>copy. ParseNumber_out M (\<lambda>len. ParseIdentifier M (sint len))) d"

definition ParseDiscriminator :: "string \<Rightarrow> parser" where
  "ParseDiscriminator M d =
     attempt (\<lambda>copy. seqp [ParseOneCharToken M (CHR ''_''), ParseNumber M]) d"

definition ParseLocalSourceName :: "string \<Rightarrow> parser" where
  "ParseLocalSourceName M d =
     attempt (\<lambda>copy. seqp [ParseOneCharToken M (CHR ''L''), ParseSourceName M,
       Optional (ParseDiscriminator M)]) d"

section \<open>Offsets, constructors, qualifiers, substitutions\<close>

definition ParseNVOffset :: "string \<Rightarrow> parser" where
  "ParseNVOffset M d = ParseNumber M d"

definition ParseVOffset :: "string \<Rightarrow> parser" where
  "ParseVOffset M d =
     attempt (\<lambda>copy. seqp [ParseNumber M, ParseOneCharToken M (CHR ''_''), ParseNumber M]) d"

definition ParseCallOffset :: "string \<Rightarrow> parser" where
  "ParseCallOffset M d =
     altp [attempt (\<lambda>copy. seqp [ParseOneCharToken M (CHR ''h''), ParseNVOffset M,
             ParseOneCharToken M (CHR ''_'')]),
           attempt (\<lambda>copy. seqp [ParseOneCharToken M (CHR ''v''), ParseVOffset M,
             ParseOneCharToken M (CHR ''_'')])] d"

text \<open>A constructor or destructor repeats the name remembered in the output.\<close>

definition append_prev_name :: "string \<Rightarrow> State \<Rightarrow> parser" where
  "append_prev_name M copy d =
     doing (MaybeAppendWithLength M
       (case prev_name copy of None \<Rightarrow> Lit [] | Some p \<Rightarrow> In_Out p) (sint (prev_name_length copy))) d"

definition ParseCtorDtorName :: "string \<Rightarrow> parser" where
  "ParseCtorDtorName M d =
     altp [attempt (\<lambda>copy. seqp [ParseOneCharToken M (CHR ''C''), ParseCharClass M ''123'',
             append_prev_name M copy]),
           attempt (\<lambda>copy. seqp [ParseOneCharToken M (CHR ''D''), ParseCharClass M ''012'',
             appending M ''~'', append_prev_name M copy])] d"

text \<open>The three optional qualifiers; true when there was one.\<close>

definition ParseCVQualifiers :: "string \<Rightarrow> parser" where
  "ParseCVQualifiers M d =
    (case ParseOneCharToken M (CHR ''r'') d of
       Inl e \<Rightarrow> Inl e
     | Inr (b1, d1) \<Rightarrow>
        (case ParseOneCharToken M (CHR ''V'') d1 of
           Inl e \<Rightarrow> Inl e
         | Inr (b2, d2) \<Rightarrow>
            (case ParseOneCharToken M (CHR ''K'') d2 of
               Inl e \<Rightarrow> Inl e
             | Inr (b3, d3) \<Rightarrow> Inr (b1 \<or> b2 \<or> b3, d3))))"

definition ParseTemplateParam :: "string \<Rightarrow> parser" where
  "ParseTemplateParam M d =
     altp [seqp [ParseTwoCharToken M ''T_'', appending M ''?''],
           attempt (\<lambda>copy. seqp [ParseOneCharToken M (CHR ''T''), ParseNumber M,
             ParseOneCharToken M (CHR ''_''), appending M ''?''])] d"

text \<open>The expansion of \<open>St\<close>, \<open>Sa\<close> and so on: a loop over the table.\<close>

fun expand_substitution :: "string \<Rightarrow> (string \<times> string) list \<Rightarrow> parser" where
  "expand_substitution M [] d = Inr (False, d)"
| "expand_substitution M ((abbrev, real_name) # ps) d =
     reading M (mangled_cur (fst d)) (\<lambda>c.
       if c = abbrev ! 1 then
         seqp ([appending M ''std''] @
               (if real_name \<noteq> [] then [appending M ''::'', appending M real_name] else []) @
               [setting (advance 1)]) d
       else expand_substitution M ps d)"

definition ParseSubstitution :: "string \<Rightarrow> parser" where
  "ParseSubstitution M d =
     altp [seqp [ParseTwoCharToken M ''S_'', appending M ''?''],
           attempt (\<lambda>copy. seqp [ParseOneCharToken M (CHR ''S''), ParseSeqId M,
             ParseOneCharToken M (CHR ''_''), appending M ''?'']),
           attempt (\<lambda>copy. seqp [ParseOneCharToken M (CHR ''S''),
             expand_substitution M kSubstitutionList])] d"

definition ParseTemplateTemplateParam :: "string \<Rightarrow> parser" where
  "ParseTemplateTemplateParam M d = altp [ParseTemplateParam M, ParseSubstitution M] d"

text \<open>The table of builtin types, then the vendor extended ones.\<close>

fun builtin_type :: "string \<Rightarrow> (string \<times> string) list \<Rightarrow> parser" where
  "builtin_type M [] d = Inr (False, d)"
| "builtin_type M ((abbrev, real_name) # ps) d =
     reading M (mangled_cur (fst d)) (\<lambda>c.
       if c = abbrev ! 0 then seqp [appending M real_name, setting (advance 1)] d
       else builtin_type M ps d)"

definition ParseBuiltinType :: "string \<Rightarrow> parser" where
  "ParseBuiltinType M d =
     altp [builtin_type M kBuiltinTypeList,
           attempt (\<lambda>copy. seqp [ParseOneCharToken M (CHR ''u''), ParseSourceName M])] d"

section \<open>The recursive part of the grammar\<close>

text \<open>
  \<open>NT_Types\<close> and \<open>NT_Args\<close> are the loops \<open>while (ParseType(state))\<close> and
  \<open>while (ParseTemplateArg(state))\<close>, and \<open>NT_Prefix b\<close> the loop of \<open>ParsePrefix\<close> with
  \<open>has_something = b\<close>.
\<close>

datatype grammar_symbol = NT_Encoding | NT_Name | NT_Prefix bool | NT_Type | NT_Types
  | NT_TemplateArg | NT_Args | NT_Expression

type_synonym parsers = "grammar_symbol \<Rightarrow> parser"

fun operator_table :: "string \<Rightarrow> (string \<times> string) list \<Rightarrow> parser" where
  "operator_table M [] d = Inr (False, d)"
| "operator_table M ((abbrev, real_name) # ps) d =
     reading M (mangled_cur (fst d)) (\<lambda>c. reading M (mangled_cur (fst d) + 1) (\<lambda>c'.
       if c = abbrev ! 0 \<and> c' = abbrev ! 1 then
         seqp ([appending M ''operator''] @
               (if IsLower (real_name ! 0) then [appending M '' ''] else []) @
               [appending M real_name, setting (advance 2)]) d
       else operator_table M ps d))"

definition two_chars :: "string \<Rightarrow> parser" where
  "two_chars M d =
    (case AtLeastNumCharsRemaining M (mangled_cur (fst d)) 2 of Inl e \<Rightarrow> Inl e | Inr b \<Rightarrow> Inr (b, d))"

definition lower_alpha :: "string \<Rightarrow> parser" where
  "lower_alpha M d =
     reading M (mangled_cur (fst d)) (\<lambda>c.
       if IsLower c then reading M (mangled_cur (fst d) + 1) (\<lambda>c'. Inr (IsAlpha c', d))
       else Inr (False, d))"

definition ParseOperatorName :: "string \<Rightarrow> parsers \<Rightarrow> parser" where
  "ParseOperatorName M P d =
     seqp [two_chars M,
       altp [attempt (\<lambda>copy. seqp [ParseTwoCharToken M ''cv'', appending M ''operator '',
               EnterNestedName, P NT_Type, LeaveNestedName (nest_level copy)]),
             attempt (\<lambda>copy. seqp [ParseOneCharToken M (CHR ''v''), ParseCharClass M ''0123456789'',
               ParseSourceName M]),
             seqp [lower_alpha M, operator_table M kOperatorList]]] d"

definition ParseUnqualifiedName :: "string \<Rightarrow> parsers \<Rightarrow> parser" where
  "ParseUnqualifiedName M P d =
     altp [ParseOperatorName M P, ParseCtorDtorName M, ParseSourceName M, ParseLocalSourceName M] d"

definition ParseUnscopedName :: "string \<Rightarrow> parsers \<Rightarrow> parser" where
  "ParseUnscopedName M P d =
     altp [ParseUnqualifiedName M P,
           attempt (\<lambda>copy. seqp [ParseTwoCharToken M ''St'', appending M ''std::'',
             ParseUnqualifiedName M P])] d"

definition ParseUnscopedTemplateName :: "string \<Rightarrow> parsers \<Rightarrow> parser" where
  "ParseUnscopedTemplateName M P d = altp [ParseUnscopedName M P, ParseSubstitution M] d"

definition ParseTemplateArgs :: "string \<Rightarrow> parsers \<Rightarrow> parser" where
  "ParseTemplateArgs M P d =
     attempt (\<lambda>copy. seqp [DisableAppend, ParseOneCharToken M (CHR ''I''), P NT_TemplateArg, P NT_Args,
       ParseOneCharToken M (CHR ''E''), RestoreAppend (append_flag copy), appending M ''<>'']) d"

text \<open>One turn of the loop of \<open>ParsePrefix\<close>.\<close>

definition ParsePrefix :: "string \<Rightarrow> parsers \<Rightarrow> bool \<Rightarrow> parser" where
  "ParsePrefix M P has_something d =
     seqp [MaybeAppendSeparator M,
       altp [seqp [altp [ParseTemplateParam M, ParseSubstitution M, ParseUnscopedName M P],
                   MaybeIncreaseNestLevel, P (NT_Prefix True)],
             seqp [MaybeCancelLastSeparator,
               altp [seqp [\<lambda>d. Inr (has_something, d), ParseTemplateArgs M P, P (NT_Prefix False)],
                     \<lambda>d. Inr (True, d)]]]] d"

definition ParseNestedName :: "string \<Rightarrow> parsers \<Rightarrow> parser" where
  "ParseNestedName M P d =
     attempt (\<lambda>copy. seqp [ParseOneCharToken M (CHR ''N''), EnterNestedName,
       Optional (ParseCVQualifiers M), P (NT_Prefix False), LeaveNestedName (nest_level copy),
       ParseOneCharToken M (CHR ''E'')]) d"

definition ParseLocalName :: "string \<Rightarrow> parsers \<Rightarrow> parser" where
  "ParseLocalName M P d =
     altp [attempt (\<lambda>copy. seqp [ParseOneCharToken M (CHR ''Z''), P NT_Encoding,
             ParseOneCharToken M (CHR ''E''), appending M ''::'', P NT_Name,
             Optional (ParseDiscriminator M)]),
           attempt (\<lambda>copy. seqp [ParseOneCharToken M (CHR ''Z''), P NT_Encoding,
             ParseTwoCharToken M ''Es'', Optional (ParseDiscriminator M)])] d"

definition ParseName :: "string \<Rightarrow> parsers \<Rightarrow> parser" where
  "ParseName M P d =
     altp [ParseNestedName M P, ParseLocalName M P,
           attempt (\<lambda>copy. seqp [ParseUnscopedTemplateName M P, ParseTemplateArgs M P]),
           ParseUnscopedName M P] d"

definition ParseBareFunctionType :: "string \<Rightarrow> parsers \<Rightarrow> parser" where
  "ParseBareFunctionType M P d =
     attempt (\<lambda>copy. seqp [DisableAppend, P NT_Type, P NT_Types,
       RestoreAppend (append_flag copy), appending M ''()'']) d"

definition ParseFunctionType :: "string \<Rightarrow> parsers \<Rightarrow> parser" where
  "ParseFunctionType M P d =
     attempt (\<lambda>copy. seqp [ParseOneCharToken M (CHR ''F''), Optional (ParseOneCharToken M (CHR ''Y'')),
       ParseBareFunctionType M P, ParseOneCharToken M (CHR ''E'')]) d"

definition ParseClassEnumType :: "string \<Rightarrow> parsers \<Rightarrow> parser" where
  "ParseClassEnumType M P d = P NT_Name d"

definition ParseArrayType :: "string \<Rightarrow> parsers \<Rightarrow> parser" where
  "ParseArrayType M P d =
     altp [attempt (\<lambda>copy. seqp [ParseOneCharToken M (CHR ''A''), ParseNumber M,
             ParseOneCharToken M (CHR ''_''), P NT_Type]),
           attempt (\<lambda>copy. seqp [ParseOneCharToken M (CHR ''A''), Optional (P NT_Expression),
             ParseOneCharToken M (CHR ''_''), P NT_Type])] d"

definition ParsePointerToMemberType :: "string \<Rightarrow> parsers \<Rightarrow> parser" where
  "ParsePointerToMemberType M P d =
     attempt (\<lambda>copy. seqp [ParseOneCharToken M (CHR ''M''), P NT_Type, P NT_Type]) d"

definition ParseType :: "string \<Rightarrow> parsers \<Rightarrow> parser" where
  "ParseType M P d =
     altp [attempt (\<lambda>copy. seqp [ParseCVQualifiers M, P NT_Type]),
           attempt (\<lambda>copy. seqp [ParseCharClass M ''OPRCG'', P NT_Type]),
           attempt (\<lambda>copy. seqp [ParseTwoCharToken M ''Dp'', P NT_Type]),
           attempt (\<lambda>copy. seqp [ParseOneCharToken M (CHR ''D''), ParseCharClass M ''tT'',
             P NT_Expression, ParseOneCharToken M (CHR ''E'')]),
           attempt (\<lambda>copy. seqp [ParseOneCharToken M (CHR ''U''), ParseSourceName M, P NT_Type]),
           ParseBuiltinType M, ParseFunctionType M P, ParseClassEnumType M P, ParseArrayType M P,
           ParsePointerToMemberType M P, ParseSubstitution M,
           attempt (\<lambda>copy. seqp [ParseTemplateTemplateParam M, ParseTemplateArgs M P]),
           ParseTemplateParam M] d"

definition ParseSpecialName :: "string \<Rightarrow> parsers \<Rightarrow> parser" where
  "ParseSpecialName M P d =
     altp [attempt (\<lambda>copy. seqp [ParseOneCharToken M (CHR ''T''), ParseCharClass M ''VTIS'', P NT_Type]),
           attempt (\<lambda>copy. seqp [ParseTwoCharToken M ''Tc'', ParseCallOffset M, ParseCallOffset M,
             P NT_Encoding]),
           attempt (\<lambda>copy. seqp [ParseTwoCharToken M ''GV'', P NT_Name]),
           attempt (\<lambda>copy. seqp [ParseOneCharToken M (CHR ''T''), ParseCallOffset M, P NT_Encoding]),
           attempt (\<lambda>copy. seqp [ParseTwoCharToken M ''TC'', P NT_Type, ParseNumber M,
             ParseOneCharToken M (CHR ''_''), DisableAppend, P NT_Type,
             RestoreAppend (append_flag copy)]),
           attempt (\<lambda>copy. seqp [ParseOneCharToken M (CHR ''T''), ParseCharClass M ''FJ'', P NT_Type]),
           attempt (\<lambda>copy. seqp [ParseTwoCharToken M ''GR'', P NT_Name]),
           attempt (\<lambda>copy. seqp [ParseTwoCharToken M ''GA'', P NT_Encoding]),
           attempt (\<lambda>copy. seqp [ParseOneCharToken M (CHR ''T''), ParseCharClass M ''hv'',
             ParseCallOffset M, P NT_Encoding])] d"

definition ParseEncoding :: "string \<Rightarrow> parsers \<Rightarrow> parser" where
  "ParseEncoding M P d =
     altp [attempt (\<lambda>copy. seqp [P NT_Name, ParseBareFunctionType M P]),
           P NT_Name, ParseSpecialName M P] d"

definition ParseMangledName :: "string \<Rightarrow> parsers \<Rightarrow> parser" where
  "ParseMangledName M P d = seqp [ParseTwoCharToken M ''_Z'', P NT_Encoding] d"

definition ParseExprPrimary :: "string \<Rightarrow> parsers \<Rightarrow> parser" where
  "ParseExprPrimary M P d =
     altp [attempt (\<lambda>copy. seqp [ParseOneCharToken M (CHR ''L''), P NT_Type, ParseNumber M,
             ParseOneCharToken M (CHR ''E'')]),
           attempt (\<lambda>copy. seqp [ParseOneCharToken M (CHR ''L''), P NT_Type, ParseFloatNumber M,
             ParseOneCharToken M (CHR ''E'')]),
           attempt (\<lambda>copy. seqp [ParseOneCharToken M (CHR ''L''), ParseMangledName M P,
             ParseOneCharToken M (CHR ''E'')]),
           attempt (\<lambda>copy. seqp [ParseTwoCharToken M ''LZ'', P NT_Encoding,
             ParseOneCharToken M (CHR ''E'')])] d"

definition ParseTemplateArg :: "string \<Rightarrow> parsers \<Rightarrow> parser" where
  "ParseTemplateArg M P d =
     altp [attempt (\<lambda>copy. seqp [ParseOneCharToken M (CHR ''I''), P NT_Args,
             ParseOneCharToken M (CHR ''E'')]),
           attempt (\<lambda>copy. altp [P NT_Type, ParseExprPrimary M P]),
           attempt (\<lambda>copy. seqp [ParseOneCharToken M (CHR ''X''), P NT_Expression,
             ParseOneCharToken M (CHR ''E'')])] d"

definition ParseExpression :: "string \<Rightarrow> parsers \<Rightarrow> parser" where
  "ParseExpression M P d =
     altp [ParseTemplateParam M, ParseExprPrimary M P,
           attempt (\<lambda>copy. seqp [ParseOperatorName M P, P NT_Expression, P NT_Expression,
             P NT_Expression]),
           attempt (\<lambda>copy. seqp [ParseOperatorName M P, P NT_Expression, P NT_Expression]),
           attempt (\<lambda>copy. seqp [ParseOperatorName M P, P NT_Expression]),
           attempt (\<lambda>copy. seqp [ParseTwoCharToken M ''st'', P NT_Type]),
           attempt (\<lambda>copy. seqp [ParseTwoCharToken M ''sr'', P NT_Type, ParseUnqualifiedName M P,
             ParseTemplateArgs M P]),
           attempt (\<lambda>copy. seqp [ParseTwoCharToken M ''sr'', P NT_Type, ParseUnqualifiedName M P])] d"

text \<open>\<open>while (p(state)) { }\<close>: one turn.\<close>

definition ZeroOrMore :: "parser \<Rightarrow> parser \<Rightarrow> parser" where
  "ZeroOrMore p loop d = altp [seqp [p, loop], \<lambda>d. Inr (True, d)] d"

section \<open>Tying the knot\<close>

fun parse_step :: "string \<Rightarrow> parsers \<Rightarrow> parsers" where
  "parse_step M P NT_Encoding d = ParseEncoding M P d"
| "parse_step M P NT_Name d = ParseName M P d"
| "parse_step M P (NT_Prefix b) d = ParsePrefix M P b d"
| "parse_step M P NT_Type d = ParseType M P d"
| "parse_step M P NT_Types d = ZeroOrMore (P NT_Type) (P NT_Types) d"
| "parse_step M P NT_TemplateArg d = ParseTemplateArg M P d"
| "parse_step M P NT_Args d = ZeroOrMore (P NT_TemplateArg) (P NT_Args) d"
| "parse_step M P NT_Expression d = ParseExpression M P d"

fun parse :: "string \<Rightarrow> nat \<Rightarrow> parsers" where
  "parse M 0 nt d = Inl No_Fuel"
| "parse M (Suc n) nt d = parse_step M (parse M n) nt d"

declare parse.simps(2) [simp del]

text \<open>The entry points.\<close>

definition ParseTopLevelMangledName :: "string \<Rightarrow> parsers \<Rightarrow> parser" where
  "ParseTopLevelMangledName M P d =
    (case ParseMangledName M P d of
       Inl e \<Rightarrow> Inl e
     | Inr (b, d') \<Rightarrow>
        if b then
          reading M (mangled_cur (fst d')) (\<lambda>c.
            if c \<noteq> nul then
              at_cursor M (mangled_cur (fst d')) (\<lambda>str.
                if IsFunctionCloneSuffix str then Inr (True, d')
                else if c = CHR ''@'' then doing (MaybeAppend M (In_Mangled (mangled_cur (fst d')))) d'
                else Inr (False, d'))
            else Inr (True, d'))
        else Inr (False, d'))"

definition Demangle :: "nat \<Rightarrow> string \<Rightarrow> string \<Rightarrow> fault + bool \<times> string" where
  "Demangle fuel mangled out =
    (case ParseTopLevelMangledName mangled (parse mangled fuel) (InitState (int (length out)), out) of
       Inl e \<Rightarrow> Inl e
     | Inr (b, (s, m)) \<Rightarrow> Inr (b \<and> \<not> overflowed s, m))"

end
