(* ===== verification/Demangle_Safety.thy ===== *)
theory Demangle_Safety
  imports Demangle
begin

text \<open>
  Termination and memory safety of the demangler.  A parser is \<open>safe\<close> for at most \<open>B\<close> remaining
  characters when it ends in a well formed state, has consumed at least \<open>k\<close> characters if it
  succeeds, and faults at most by reading the output buffer through a stale \<open>prev_name\<close>.
  Safety is closed under sequence, choice and backtracking, so every parsing function inherits it
  from the functions it calls; the recursion is well founded on the remaining input.
\<close>

section \<open>Well formed states\<close>

definition wf_dstate :: "string \<Rightarrow> dstate \<Rightarrow> bool" where
  "wf_dstate M d \<longleftrightarrow>
     0 \<le> mangled_cur (fst d) \<and> mangled_cur (fst d) \<le> int (length M) \<and>
     out_begin (fst d) = 0 \<and> 0 \<le> out_cur (fst d) \<and>
     (out_cur (fst d) < out_end (fst d) \<or> out_cur (fst d) = 0 \<and> out_end (fst d) = 0) \<and>
     out_end (fst d) = int (length (snd d))"

definition remaining :: "string \<Rightarrow> dstate \<Rightarrow> nat" where
  "remaining M d = nat (int (length M) - mangled_cur (fst d))"

text \<open>Steps that touch the output and the flags only.\<close>

definition same_input :: "string \<Rightarrow> dstate \<Rightarrow> dstate \<Rightarrow> bool" where
  "same_input M d d' \<longleftrightarrow> wf_dstate M d' \<and> mangled_cur (fst d') = mangled_cur (fst d) \<and>
     out_end (fst d') = out_end (fst d)"

definition output_ok :: "string \<Rightarrow> dstate \<Rightarrow> fault + dstate \<Rightarrow> bool" where
  "output_ok M d r \<longleftrightarrow> (case r of Inl e \<Rightarrow> e = Read_Out | Inr d' \<Rightarrow> same_input M d d')"

lemma same_input_refl: "wf_dstate M d \<Longrightarrow> same_input M d d"
  by (simp add: same_input_def)

lemma same_input_trans: "same_input M a b \<Longrightarrow> same_input M b c \<Longrightarrow> same_input M a c"
  by (simp add: same_input_def)

lemma output_ok_trans: "same_input M a b \<Longrightarrow> output_ok M b r \<Longrightarrow> output_ok M a r"
  by (auto simp: output_ok_def split: sum.splits intro: same_input_trans)

text \<open>Where the characters of an append come from: inside the name, if they come from it.\<close>

definition readable :: "string \<Rightarrow> cptr \<Rightarrow> int \<Rightarrow> int \<Rightarrow> bool" where
  "readable M p i j \<longleftrightarrow> (case p of In_Mangled c \<Rightarrow> 0 \<le> c + i \<and> c + j \<le> int (length M) + 1 | _ \<Rightarrow> True)"

lemma cptr_read_fault: "readable M p i j \<Longrightarrow> i < j \<Longrightarrow> cptr_read M m p i = Inl e \<Longrightarrow> e = Read_Out"
  by (auto simp: cptr_read_def readable_def read_at_def split: cptr.splits option.splits if_splits)

lemma append_loop_ok:
  "wf_dstate M d \<Longrightarrow> readable M str i (i + int n) \<Longrightarrow>
     output_ok M d (append_loop M str n i d) \<and>
     (\<forall>d'. append_loop M str n i d = Inr d' \<longrightarrow> 0 < n \<longrightarrow> out_end (fst d) = 0 \<longrightarrow> overflowed (fst d'))"
proof (induction M str n i d rule: append_loop.induct)
  case (1 M str i d)
  then show ?case by (simp add: output_ok_def same_input_refl)
next
  case (2 M str n i s m)
  show ?case
  proof (cases "out_cur s + 1 < out_end s")
    case False
    with 2 show ?thesis
      by (auto simp: output_ok_def same_input_def wf_dstate_def)
  next
    case True
    note room = this
    show ?thesis
    proof (cases "cptr_read M m str i")
      case (Inl e)
      with True 2 cptr_read_fault [of M str i "i + int (Suc n)" m e] show ?thesis
        by (simp add: output_ok_def)
    next
      case (Inr c)
      from 2 room have w: "write_buf m (out_cur s) c = Inr (m[nat (out_cur s) := c])"
        by (auto simp: write_buf_def wf_dstate_def)
      let ?d = "(s\<lparr>out_cur := out_cur s + 1\<rparr>, m[nat (out_cur s) := c])"
      from 2 room have wf: "wf_dstate M ?d" and si: "same_input M (s, m) ?d"
        by (auto simp: wf_dstate_def same_input_def)
      from 2 have "readable M str (i + 1) (i + 1 + int n)"
        by (auto simp: readable_def split: cptr.splits)
      with 2 room Inr w wf have "output_ok M ?d (append_loop M str n (i + 1) ?d)"
        by simp
      moreover have "out_end s \<noteq> 0"
        using 2 room by (auto simp: wf_dstate_def)
      ultimately show ?thesis
        using room Inr w output_ok_trans [OF si] by simp
    qed
  qed
qed

lemma Append_ok:
  assumes wf: "wf_dstate M d" and src: "readable M str 0 len" and len: "0 < len"
  shows "output_ok M d (Append M str len d)"
proof (cases "append_loop M str (nat len) 0 d")
  case (Inl e)
  with append_loop_ok [OF wf, of str 0 "nat len"] src len show ?thesis
    by (simp add: Append_def output_ok_def)
next
  case (Inr d')
  obtain s m where d': "d' = (s, m)" by (cases d')
  from append_loop_ok [OF wf, of str 0 "nat len"] src len Inr d'
  have si: "same_input M d (s, m)" and full: "out_end (fst d) = 0 \<Longrightarrow> overflowed s"
    by (auto simp: output_ok_def)
  show ?thesis
  proof (cases "overflowed s")
    case True
    with si Inr d' show ?thesis
      by (simp add: Append_def output_ok_def)
  next
    case False
    with full si have "0 \<le> out_cur s" "out_cur s < int (length m)"
      by (auto simp: same_input_def wf_dstate_def)
    then have "write_buf m (out_cur s) nul = Inr (m[nat (out_cur s) := nul])"
      by (simp add: write_buf_def)
    moreover from si have "same_input M d (s, m[nat (out_cur s) := nul])"
      by (auto simp: same_input_def wf_dstate_def)
    ultimately show ?thesis
      using False Inr d' by (simp add: Append_def output_ok_def)
  qed
qed

lemma MaybeAppendWithLength_ok:
  assumes wf: "wf_dstate M d" and src: "readable M str 0 len"
  shows "output_ok M d (MaybeAppendWithLength M str len d)"
proof (cases "append_flag (fst d) \<and> 0 < len")
  case True
  show ?thesis
  proof (cases "cptr_read M (snd d) str 0")
    case (Inl e)
    with True cptr_read_fault [OF src _ Inl] show ?thesis
      by (simp add: MaybeAppendWithLength_def output_ok_def)
  next
    case (Inr c)
    let ?sp = "if c = CHR ''<'' \<and> out_begin (fst d) < out_cur (fst d) then
                 (case read_buf (snd d) (out_cur (fst d) - 1) of
                    None \<Rightarrow> Inl Read_Out
                  | Some b \<Rightarrow> if b = CHR ''<'' then Append M (Lit '' '') 1 d else Inr d)
               else Inr d"
    have sp: "output_ok M d ?sp"
      using Append_ok [OF wf, of "Lit '' ''" 1] same_input_refl [OF wf]
      by (auto simp: output_ok_def readable_def split: option.splits sum.splits)
    show ?thesis
    proof (cases ?sp)
      case (Inl e)
      with sp have "e = Read_Out" by (simp add: output_ok_def)
      with True Inr Inl show ?thesis
        by (simp add: MaybeAppendWithLength_def output_ok_def)
    next
      case sp': (Inr d')
      obtain s m where d': "d' = (s, m)" by (cases d')
      let ?d = "(if IsAlpha c \<or> c = CHR ''_''
                  then s\<lparr>prev_name := Some (out_cur s), prev_name_length := of_int len\<rparr> else s, m)"
      from sp sp' d' have "same_input M d (s, m)"
        by (simp add: output_ok_def)
      then have si: "same_input M d ?d"
        by (auto simp: same_input_def wf_dstate_def)
      then have wf': "wf_dstate M ?d"
        by (simp add: same_input_def)
      have "output_ok M ?d (Append M str len ?d)"
        using Append_ok [OF wf' src] True by simp
      with si have "output_ok M d (Append M str len ?d)"
        by (rule output_ok_trans)
      moreover have "MaybeAppendWithLength M str len d = Append M str len ?d"
        using True Inr sp' d' by (simp add: MaybeAppendWithLength_def)
      ultimately show ?thesis by simp
    qed
  qed
qed (auto simp: MaybeAppendWithLength_def output_ok_def same_input_refl [OF wf])

lemma MaybeAppend_Lit_ok: "wf_dstate M d \<Longrightarrow> output_ok M d (MaybeAppend M (Lit str) d)"
  using MaybeAppendWithLength_ok [of M d "Lit str"]
  by (auto simp: MaybeAppend_def StrLen_at_def readable_def output_ok_def same_input_refl)


section \<open>Safe parsers\<close>

definition fine :: "string \<Rightarrow> nat \<Rightarrow> dstate \<Rightarrow> fault + bool \<times> dstate \<Rightarrow> bool" where
  "fine M k d r \<longleftrightarrow>
    (case r of
       Inl e \<Rightarrow> e = Read_Out
     | Inr (b, d') \<Rightarrow> wf_dstate M d' \<and> out_end (fst d') = out_end (fst d) \<and>
         remaining M d' \<le> remaining M d \<and> (b \<longrightarrow> remaining M d' + k \<le> remaining M d))"

definition safe :: "string \<Rightarrow> nat \<Rightarrow> nat \<Rightarrow> parser \<Rightarrow> bool" where
  "safe M B k p \<longleftrightarrow> (\<forall>d. wf_dstate M d \<and> remaining M d \<le> B \<longrightarrow> fine M k d (p d))"

lemma safeI: "(\<And>d. wf_dstate M d \<Longrightarrow> remaining M d \<le> B \<Longrightarrow> fine M k d (p d)) \<Longrightarrow> safe M B k p"
  by (simp add: safe_def)

lemma safeD: "safe M B k p \<Longrightarrow> wf_dstate M d \<Longrightarrow> remaining M d \<le> B \<Longrightarrow> fine M k d (p d)"
  unfolding safe_def by blast

lemma fine_Inr [simp]:
  "fine M k d (Inr (b, d')) \<longleftrightarrow> wf_dstate M d' \<and> out_end (fst d') = out_end (fst d) \<and>
     remaining M d' \<le> remaining M d \<and> (b \<longrightarrow> remaining M d' + k \<le> remaining M d)"
  by (simp add: fine_def)

lemma fine_Inl [simp]: "fine M k d (Inl e) \<longleftrightarrow> e = Read_Out"
  by (simp add: fine_def)

lemma safe_weaken: "safe M B k p \<Longrightarrow> B' \<le> B \<Longrightarrow> k' \<le> k \<Longrightarrow> safe M B' k' p"
  by (rule safeI, drule safeD) (auto simp: fine_def split: sum.splits)

lemma safe_seq_Nil: "safe M B 0 (seqp [])"
  by (simp add: safe_def)

lemma safe_seq_Cons:
  assumes p: "safe M B k1 p" and ps: "k1 \<le> B \<Longrightarrow> safe M (B - k1) (k - k1) (seqp ps)"
  shows "safe M B k (seqp (p # ps))"
proof (rule safeI)
  fix d assume d: "wf_dstate M d" "remaining M d \<le> B"
  note f = safeD [OF p d]
  show "fine M k d (seqp (p # ps) d)"
  proof (cases "p d")
    case (Inr r)
    obtain b d' where r: "r = (b, d')" by (cases r)
    show ?thesis
    proof (cases b)
      case True
      with f Inr r have d': "wf_dstate M d'" "out_end (fst d') = out_end (fst d)"
        "remaining M d' + k1 \<le> remaining M d"
        by auto
      with d have "k1 \<le> B" "remaining M d' \<le> B - k1" by auto
      with ps d' have "fine M (k - k1) d' (seqp ps d')" by (auto intro: safeD)
      with d' Inr r True show ?thesis
        by (auto simp: fine_def split: sum.splits)
    qed (use f Inr r in auto)
  qed (use f in auto)
qed

lemma safe_alt_Nil: "safe M B k (altp [])"
  by (simp add: safe_def)

lemma safe_alt_Cons:
  assumes p: "safe M B k p" and ps: "safe M B k (altp ps)"
  shows "safe M B k (altp (p # ps))"
proof (rule safeI)
  fix d assume d: "wf_dstate M d" "remaining M d \<le> B"
  note f = safeD [OF p d]
  show "fine M k d (altp (p # ps) d)"
  proof (cases "p d")
    case (Inr r)
    obtain b d' where r: "r = (b, d')" by (cases r)
    with f Inr d have d': "wf_dstate M d'" "remaining M d' \<le> B" "out_end (fst d') = out_end (fst d)"
      "remaining M d' \<le> remaining M d"
      by auto
    with safeD [OF ps d'(1,2)] f Inr r show ?thesis
      by (auto simp: fine_def split: sum.splits)
  qed (use f in auto)
qed

lemma safe_attempt:
  assumes "\<And>copy. safe M B k (p copy)"
  shows "safe M B k (attempt p)"
proof (rule safeI)
  fix d assume d: "wf_dstate M d" "remaining M d \<le> B"
  note f = safeD [OF assms d, of "fst d"]
  show "fine M k d (attempt p d)"
  proof (cases "p (fst d) d")
    case (Inr r)
    then show ?thesis
      using f d by (cases r) (auto simp: attempt_def wf_dstate_def remaining_def)
  qed (use f in \<open>simp add: attempt_def\<close>)
qed

lemma safe_Optional: "safe M B k p \<Longrightarrow> safe M B 0 (Optional p)"
  by (rule safeI, drule safeD) (auto simp: fine_def Optional_def split: sum.splits)

lemma safe_doing:
  assumes "\<And>d. wf_dstate M d \<Longrightarrow> output_ok M d (f d)"
  shows "safe M B 0 (doing f)"
proof (rule safeI)
  fix d assume "wf_dstate M d"
  then have "output_ok M d (f d)" by (rule assms)
  then show "fine M 0 d (doing f d)"
    by (cases "f d") (auto simp: doing_def output_ok_def same_input_def remaining_def)
qed

lemma safe_const: "safe M B 0 (\<lambda>d. Inr (b, d))"
  by (simp add: safe_def)

lemma safe_appending: "safe M B 0 (appending M str)"
  unfolding appending_def [abs_def] by (rule safe_doing) (rule MaybeAppend_Lit_ok)

lemma safe_modes:
  "safe M B 0 EnterNestedName" "safe M B 0 (LeaveNestedName v)" "safe M B 0 DisableAppend"
  "safe M B 0 (RestoreAppend b)" "safe M B 0 MaybeIncreaseNestLevel"
  by (auto simp: safe_def EnterNestedName_def LeaveNestedName_def DisableAppend_def RestoreAppend_def
      MaybeIncreaseNestLevel_def setting_def wf_dstate_def remaining_def)

lemma safe_MaybeAppendSeparator: "safe M B 0 (MaybeAppendSeparator M)"
  using safe_appending [of M B "''::''"] by (auto simp: safe_def MaybeAppendSeparator_def)

lemma safe_MaybeCancelLastSeparator: "safe M B 0 MaybeCancelLastSeparator"
  by (auto simp: safe_def MaybeCancelLastSeparator_def write_buf_def wf_dstate_def remaining_def)

section \<open>Tokens\<close>

lemma read_at_wf: "wf_dstate M d \<Longrightarrow> \<exists>c. read_at M (mangled_cur (fst d)) = Some c"
  by (auto simp: wf_dstate_def read_at_def)

lemma read_at_not_nul:
  "read_at M i = Some c \<Longrightarrow> c \<noteq> nul \<Longrightarrow> 0 \<le> i \<and> i < int (length M)"
  by (auto simp: read_at_def split: if_splits)

lemma wf_advance:
  "wf_dstate M d \<Longrightarrow> 0 \<le> k \<Longrightarrow> mangled_cur (fst d) + k \<le> int (length M) \<Longrightarrow>
     wf_dstate M (advance k (fst d), snd d) \<and> remaining M (advance k (fst d), snd d) + nat k = remaining M d"
  by (auto simp: wf_dstate_def advance_def remaining_def)

lemma advance_out_end [simp]: "out_end (advance k s) = out_end s"
  by (simp add: advance_def)

lemma safe_ParseOneCharToken:
  assumes "c \<noteq> nul"
  shows "safe M B 1 (ParseOneCharToken M c)"
proof (rule safeI)
  fix d assume d: "wf_dstate M d"
  then obtain x where x: "read_at M (mangled_cur (fst d)) = Some x"
    using read_at_wf by blast
  show "fine M 1 d (ParseOneCharToken M c d)"
  proof (cases "x = c")
    case True
    with x assms have "mangled_cur (fst d) + 1 \<le> int (length M)"
      using read_at_not_nul by fastforce
    with wf_advance [OF d, of 1] x True show ?thesis
      by (simp add: ParseOneCharToken_def reading_def)
  qed (use x d in \<open>simp add: ParseOneCharToken_def reading_def\<close>)
qed

lemma safe_ParseCharClass:
  assumes "nul \<notin> set cs"
  shows "safe M B 1 (ParseCharClass M cs)"
proof (rule safeI)
  fix d assume d: "wf_dstate M d"
  then obtain x where x: "read_at M (mangled_cur (fst d)) = Some x"
    using read_at_wf by blast
  show "fine M 1 d (ParseCharClass M cs d)"
  proof (cases "x \<in> set cs")
    case True
    with x assms have "mangled_cur (fst d) + 1 \<le> int (length M)"
      using read_at_not_nul by fastforce
    with wf_advance [OF d, of 1] x True show ?thesis
      by (simp add: ParseCharClass_def reading_def)
  qed (use x d in \<open>simp add: ParseCharClass_def reading_def\<close>)
qed

lemma read_next:
  assumes "wf_dstate M d" and "read_at M (mangled_cur (fst d)) = Some x" and "x \<noteq> nul"
  obtains y where "read_at M (mangled_cur (fst d) + 1) = Some y"
    "y \<noteq> nul \<Longrightarrow> mangled_cur (fst d) + 2 \<le> int (length M)"
proof -
  from assms have "0 \<le> mangled_cur (fst d)" "mangled_cur (fst d) < int (length M)"
    using read_at_not_nul by auto
  then obtain y where y: "read_at M (mangled_cur (fst d) + 1) = Some y"
    by (cases "mangled_cur (fst d) + 1 < int (length M)") (auto simp: read_at_def)
  with read_at_not_nul [of M "mangled_cur (fst d) + 1" y] that show ?thesis by fastforce
qed

lemma safe_ParseTwoCharToken:
  assumes "a \<noteq> nul" and "b \<noteq> nul"
  shows "safe M B 2 (ParseTwoCharToken M [a, b])"
proof (rule safeI)
  fix d assume d: "wf_dstate M d"
  then obtain x where x: "read_at M (mangled_cur (fst d)) = Some x"
    using read_at_wf by blast
  show "fine M 2 d (ParseTwoCharToken M [a, b] d)"
  proof (cases "x = a")
    case True
    with d x assms(1) obtain y where y: "read_at M (mangled_cur (fst d) + 1) = Some y"
      "y \<noteq> nul \<Longrightarrow> mangled_cur (fst d) + 2 \<le> int (length M)"
      using read_next by blast
    with wf_advance [OF d, of 2] d x True assms(2) show ?thesis
      by (auto simp: ParseTwoCharToken_def reading_def)
  qed (use x d in \<open>simp add: ParseTwoCharToken_def reading_def\<close>)
qed


section \<open>Numbers and identifiers\<close>

text \<open>
  Names whose numbers the code reads right: no \<open>n\<close> directly before a digit, which would be a
  negative number, and at most nine digits in a row, so that a number fits an \<open>int\<close>.
\<close>

fun no_negative :: "string \<Rightarrow> bool" where
  "no_negative (a # b # cs) = (\<not> (a = CHR ''n'' \<and> IsDigit b) \<and> no_negative (b # cs))"
| "no_negative _ = True"

fun short_runs :: "string \<Rightarrow> bool" where
  "short_runs [] = True"
| "short_runs (c # cs) = (run_length IsDigit (c # cs) \<le> 9 \<and> short_runs cs)"

definition tame :: "string \<Rightarrow> bool" where
  "tame M \<longleftrightarrow> no_negative M \<and> short_runs M"

lemma tame_drop: "tame M \<Longrightarrow> tame (drop i M)"
proof (induction i arbitrary: M)
  case (Suc i)
  show ?case
  proof (cases M)
    case (Cons c cs)
    with Suc.prems have "tame cs"
      by (cases cs) (auto simp: tame_def)
    with Suc.IH [of cs] Cons show ?thesis by simp
  qed (use Suc in simp)
qed simp

lemma run_length_le: "run_length Q str \<le> length str"
  by (simp add: run_length_def length_takeWhile_le)

lemma tame_run: "tame str \<Longrightarrow> run_length IsDigit str \<le> 9"
  by (cases str) (auto simp: tame_def run_length_def)

lemma number_value_digits:
  assumes "\<forall>c \<in> set ds. IsDigit c"
  shows "number_value ds = of_nat (digits_val ds) \<and> digits_val ds < 10 ^ length ds"
  using assms
proof (induction ds rule: rev_induct)
  case (snoc c ds)
  then have IH: "number_value ds = of_nat (digits_val ds)" "digits_val ds < 10 ^ length ds"
    and c: "48 \<le> (of_char c :: nat)" "(of_char c :: nat) \<le> 57"
    by (simp_all add: IsDigit_def Let_def)
  from c have "(of_nat (of_char c) - 48 :: cint) = of_nat (digit_val c)"
    by (simp add: digit_val_def of_nat_diff)
  with IH(1) have "number_value (ds @ [c]) = of_nat (digits_val (ds @ [c]))"
    by (simp add: number_value_def mult.commute)
  moreover have "digits_val (ds @ [c]) < 10 ^ length (ds @ [c])"
    using IH(2) c by (simp add: digit_val_def)
  ultimately show ?case by blast
qed (simp add: number_value_def digits_val_def)

lemma number_value_nonneg:
  assumes "\<forall>c \<in> set ds. IsDigit c" and "length ds \<le> 9"
  shows "0 \<le> sint (number_value ds)"
proof -
  have "digits_val ds < 10 ^ length ds" and v: "number_value ds = of_nat (digits_val ds)"
    using number_value_digits [OF assms(1)] by auto
  moreover have "(10 :: nat) ^ length ds \<le> 10 ^ 9"
    using assms(2) by (intro power_increasing) auto
  ultimately have "digits_val ds < 2 ^ 31" by simp
  then have "signed_take_bit 31 (int (digits_val ds)) = int (digits_val ds)"
    by (intro signed_take_bit_int_eq_self) auto
  then show ?thesis
    by (simp add: v signed_of_nat)
qed

lemma take_run_digits: "\<forall>c \<in> set (take (run_length Q str) str). Q c \<and> c \<noteq> nul"
proof -
  have "take (run_length Q str) str = takeWhile (\<lambda>c. c \<noteq> nul \<and> Q c) str"
    unfolding run_length_def by (rule takeWhile_eq_take [symmetric])
  then show ?thesis
    by (auto dest: set_takeWhileD)
qed

lemma at_cursor_wf: "wf_dstate M d \<Longrightarrow> at_cursor M (mangled_cur (fst d)) k = k (drop (nat (mangled_cur (fst d))) M)"
  by (simp add: at_cursor_def wf_dstate_def)

lemma safe_parse_run: "safe M B 1 (parse_run M Q)"
proof (rule safeI)
  fix d assume d: "wf_dstate M d"
  let ?n = "run_length Q (drop (nat (mangled_cur (fst d))) M)"
  have "mangled_cur (fst d) + int ?n \<le> int (length M)"
    using run_length_le [of Q "drop (nat (mangled_cur (fst d))) M"] d by (auto simp: wf_dstate_def)
  with wf_advance [OF d, of "int ?n"] d show "fine M 1 d (parse_run M Q d)"
    by (auto simp: parse_run_def at_cursor_wf Let_def)
qed

lemma neg_not_tame:
  assumes d: "wf_dstate M d" and e: "ParseOneCharToken M (CHR ''n'') d = Inr (True, e)"
    and run: "run_length IsDigit (drop (nat (mangled_cur (fst e))) M) \<noteq> 0"
  shows "\<not> tame M"
proof
  assume "tame M"
  from e obtain r: "read_at M (mangled_cur (fst d)) = Some (CHR ''n'')"
    and e': "mangled_cur (fst e) = mangled_cur (fst d) + 1"
    by (auto simp: ParseOneCharToken_def reading_def advance_def split: option.splits if_splits)
  let ?i = "nat (mangled_cur (fst d))"
  from r have i: "0 \<le> mangled_cur (fst d)" "?i < length M"
    using read_at_not_nul [OF r] by (auto simp: nul_def)
  then have "mangled_cur (fst d) < int (length M)" by linarith
  with r i have "M ! ?i = CHR ''n''"
    by (simp add: read_at_def)
  with i have split: "drop ?i M = CHR ''n'' # drop (nat (mangled_cur (fst e))) M"
    using Cons_nth_drop_Suc [of ?i M] by (simp add: e' nat_add_distrib)
  from run obtain c cs where "drop (nat (mangled_cur (fst e))) M = c # cs" "IsDigit c"
    by (cases "drop (nat (mangled_cur (fst e))) M") (auto simp: run_length_def split: if_splits)
  with tame_drop [OF \<open>tame M\<close>, of ?i] split show False
    by (simp add: tame_def)
qed

text \<open>\<open>ParseNumber\<close> followed by a use of the number, which is not negative in a tame name.\<close>

lemma ParseNumber_out_cases:
  assumes d: "wf_dstate M d"
  obtains (fail) e where "ParseNumber_out M k d = Inr (False, e)" "wf_dstate M e"
      "out_end (fst e) = out_end (fst d)" "remaining M e \<le> remaining M d"
    | (number) n e where "ParseNumber_out M k d = k n e" "wf_dstate M e"
      "out_end (fst e) = out_end (fst d)" "remaining M e + 1 \<le> remaining M d"
      "tame M \<Longrightarrow> 0 \<le> sint n"
proof -
  have tok: "fine M 1 d (ParseOneCharToken M (CHR ''n'') d)"
    using safe_ParseOneCharToken [of "CHR ''n''" M "remaining M d"] d by (auto simp: nul_def intro: safeD)
  then obtain neg e where e: "ParseOneCharToken M (CHR ''n'') d = Inr (neg, e)"
    by (cases "ParseOneCharToken M (CHR ''n'') d")
      (auto simp: ParseOneCharToken_def reading_def read_at_def split: option.splits if_splits)
  with tok have we: "wf_dstate M e" "out_end (fst e) = out_end (fst d)" "remaining M e \<le> remaining M d"
    by auto
  let ?str = "drop (nat (mangled_cur (fst e))) M"
  let ?n = "run_length IsDigit ?str"
  let ?v = "number_value (take ?n ?str)"
  have unfold: "ParseNumber_out M k d =
      (if ?n \<noteq> 0 then k (if neg then - ?v else ?v) (advance (int ?n) (fst e), snd e) else Inr (False, e))"
    using e we by (cases e) (simp add: ParseNumber_out_def at_cursor_def wf_dstate_def Let_def)
  show ?thesis
  proof (cases "?n = 0")
    case True
    with unfold fail we show ?thesis by simp
  next
    case False
    have "mangled_cur (fst e) + int ?n \<le> int (length M)"
      using run_length_le [of IsDigit ?str] we by (auto simp: wf_dstate_def)
    with wf_advance [OF we(1), of "int ?n"] have adv: "wf_dstate M (advance (int ?n) (fst e), snd e)"
      "remaining M (advance (int ?n) (fst e), snd e) + 1 \<le> remaining M d"
      using False we by auto
    have "0 \<le> sint (if neg then - ?v else ?v)" if "tame M"
    proof -
      have "\<not> neg"
      proof
        assume neg
        with e have "ParseOneCharToken M (CHR ''n'') d = Inr (True, e)" by simp
        from neg_not_tame [OF d this False] that show False by contradiction
      qed
      moreover have "0 \<le> sint ?v"
        using take_run_digits [of IsDigit ?str] tame_run [OF tame_drop [OF that]]
        by (intro number_value_nonneg) (auto intro: min.coboundedI2)
      ultimately show ?thesis by simp
    qed
    with unfold number [of "if neg then - ?v else ?v" "(advance (int ?n) (fst e), snd e)"] adv we False
    show ?thesis by simp
  qed
qed


lemma safe_ParseNumber: "safe M B 1 (ParseNumber M)"
proof (rule safeI)
  fix d assume d: "wf_dstate M d"
  show "fine M 1 d (ParseNumber M d)"
    using ParseNumber_out_cases [OF d, of "\<lambda>number d. Inr (True, d)"]
    unfolding ParseNumber_def by cases auto
qed

lemma at_least_chars_length: "at_least_chars str n \<Longrightarrow> n \<le> length str"
  by (induction str n rule: at_least_chars.induct) (auto split: if_splits)

lemma ParseIdentifier_fine:
  assumes d: "wf_dstate M d" and len: "0 \<le> len"
  shows "fine M 0 d (ParseIdentifier M len d)"
proof (cases "len = 0 \<or> at_least_chars (drop (nat (mangled_cur (fst d))) M) (nat len)")
  case False
  with len d show ?thesis
    by (auto simp: ParseIdentifier_def AtLeastNumCharsRemaining_def at_cursor_def wf_dstate_def)
next
  case True
  have room: "mangled_cur (fst d) + len \<le> int (length M)"
    using True at_least_chars_length [of "drop (nat (mangled_cur (fst d))) M" "nat len"] len d
    by (auto simp: wf_dstate_def)
  have least: "AtLeastNumCharsRemaining M (mangled_cur (fst d)) len = Inr True"
    using True len d by (auto simp: AtLeastNumCharsRemaining_def at_cursor_def wf_dstate_def)
  obtain anon where anon: "IdentifierIsAnonymousNamespace M (fst d) len = Inr anon"
    using d by (cases "11 < len") (auto simp: IdentifierIsAnonymousNamespace_def at_cursor_wf)
  let ?r = "if anon then MaybeAppend M (Lit ''(anonymous namespace)'') d
            else MaybeAppendWithLength M (In_Mangled (mangled_cur (fst d))) len d"
  have "readable M (In_Mangled (mangled_cur (fst d))) 0 len"
    using room d by (simp add: readable_def wf_dstate_def)
  then have ok: "output_ok M d ?r"
    using MaybeAppendWithLength_ok [OF d] MaybeAppend_Lit_ok [OF d] by simp
  have pi: "ParseIdentifier M len d =
      (case ?r of Inl e \<Rightarrow> Inl e | Inr (s, m) \<Rightarrow> Inr (True, (advance len s, m)))"
    using len least anon by (simp add: ParseIdentifier_def)
  show ?thesis
  proof (cases ?r)
    case (Inl e)
    with ok pi show ?thesis by (simp add: output_ok_def)
  next
    case (Inr e)
    with ok have e: "wf_dstate M e" "mangled_cur (fst e) = mangled_cur (fst d)"
      "out_end (fst e) = out_end (fst d)" "remaining M e = remaining M d"
      by (auto simp: output_ok_def same_input_def remaining_def)
    with wf_advance [OF e(1) len] room pi Inr show ?thesis
      by (cases e) simp
  qed
qed

lemma safe_ParseSourceName:
  assumes "tame M"
  shows "safe M B 1 (ParseSourceName M)"
  unfolding ParseSourceName_def [abs_def]
proof (rule safe_attempt, rule safeI)
  fix d assume d: "wf_dstate M d"
  show "fine M 1 d (ParseNumber_out M (\<lambda>len. ParseIdentifier M (sint len)) d)"
  proof (cases rule: ParseNumber_out_cases [OF d, of "\<lambda>len. ParseIdentifier M (sint len)"])
    case (2 n e)
    note number = 2
    from ParseIdentifier_fine [OF number(2) number(5) [OF assms]] have
      "fine M 0 e (ParseIdentifier M (sint n) e)" .
    with number show ?thesis
      by (auto simp: fine_def split: sum.splits)
  qed auto
qed


lemmas safe_combine = safe_seq_Cons safe_alt_Cons safe_alt_Nil safe_attempt safe_Optional

lemma safe_seq_Nil': "k = 0 \<Longrightarrow> safe M B k (seqp [])"
  by (simp add: safe_seq_Nil)

lemma safe_ParseTwoCharToken': "s = [a, b] \<Longrightarrow> a \<noteq> nul \<Longrightarrow> b \<noteq> nul \<Longrightarrow> safe M B 2 (ParseTwoCharToken M s)"
  by (simp add: safe_ParseTwoCharToken)

lemmas safe_tokens = safe_ParseOneCharToken safe_ParseTwoCharToken safe_ParseCharClass safe_ParseNumber
  safe_parse_run safe_modes safe_appending safe_MaybeAppendSeparator safe_MaybeCancelLastSeparator

lemma safe_ParseDiscriminator: "safe M B 2 (ParseDiscriminator M)"
  unfolding ParseDiscriminator_def [abs_def]
  by (rule safe_combine safe_tokens safe_seq_Nil' | simp add: nul_def)+


section \<open>The functions without recursion\<close>

lemma safe_le: "safe M B k p \<Longrightarrow> k' \<le> k \<Longrightarrow> safe M B k' p"
  by (erule safe_weaken) simp_all

lemma safe_runs: "safe M B 1 (ParseFloatNumber M)" "safe M B 1 (ParseSeqId M)" "safe M B 1 (ParseNVOffset M)"
  unfolding ParseFloatNumber_def [abs_def] ParseSeqId_def [abs_def] ParseNVOffset_def [abs_def]
  by (rule safe_tokens)+

lemma safe_ParseVOffset: "safe M B 3 (ParseVOffset M)"
  unfolding ParseVOffset_def [abs_def]
  by (rule safe_combine safe_tokens safe_seq_Nil' | simp add: nul_def)+

lemma safe_ParseCallOffset: "safe M B 3 (ParseCallOffset M)"
  unfolding ParseCallOffset_def [abs_def]
  by (rule safe_combine safe_tokens safe_runs safe_ParseVOffset safe_seq_Nil' | simp add: nul_def)+

lemma safe_append_prev_name: "safe M B 0 (append_prev_name M copy)"
  unfolding append_prev_name_def [abs_def]
  by (rule safe_doing, rule MaybeAppendWithLength_ok) (auto simp: readable_def split: option.splits)

lemma safe_ParseCtorDtorName: "safe M B 2 (ParseCtorDtorName M)"
  unfolding ParseCtorDtorName_def [abs_def]
  by (rule safe_combine safe_tokens safe_append_prev_name safe_seq_Nil' | simp add: nul_def)+

lemma safe_ParseLocalSourceName: "tame M \<Longrightarrow> safe M B 2 (ParseLocalSourceName M)"
  unfolding ParseLocalSourceName_def [abs_def]
  by (rule safe_combine safe_tokens safe_ParseSourceName safe_ParseDiscriminator safe_seq_Nil' | simp add: nul_def)+

lemma safe_ParseTemplateParam: "safe M B 2 (ParseTemplateParam M)"
  unfolding ParseTemplateParam_def [abs_def]
  by (rule safe_combine safe_tokens safe_seq_Nil' | simp add: nul_def)+

lemma ParseOneCharToken_cases:
  assumes d: "wf_dstate M d" and c: "c \<noteq> nul"
  obtains b e where "ParseOneCharToken M c d = Inr (b, e)" "wf_dstate M e"
    "out_end (fst e) = out_end (fst d)" "remaining M e \<le> remaining M d" "b \<Longrightarrow> remaining M e + 1 \<le> remaining M d"
proof -
  have "fine M 1 d (ParseOneCharToken M c d)"
    using safeD [OF safe_ParseOneCharToken [OF c] d order_refl] .
  moreover obtain x where x: "read_at M (mangled_cur (fst d)) = Some x"
    using read_at_wf [OF d] by blast
  obtain r where "ParseOneCharToken M c d = Inr r"
    by (cases "x = c") (simp_all add: ParseOneCharToken_def reading_def x)
  ultimately show ?thesis
    using that by (cases r) auto
qed

lemma safe_ParseCVQualifiers: "safe M B 1 (ParseCVQualifiers M)"
proof (rule safeI)
  fix d assume d: "wf_dstate M d"
  obtain b1 d1 where 1: "ParseOneCharToken M (CHR ''r'') d = Inr (b1, d1)" "wf_dstate M d1"
    "out_end (fst d1) = out_end (fst d)" "remaining M d1 \<le> remaining M d" "b1 \<Longrightarrow> remaining M d1 + 1 \<le> remaining M d"
    by (rule ParseOneCharToken_cases [OF d, of "CHR ''r''"]) (simp_all add: nul_def)
  obtain b2 d2 where 2: "ParseOneCharToken M (CHR ''V'') d1 = Inr (b2, d2)" "wf_dstate M d2"
    "out_end (fst d2) = out_end (fst d1)" "remaining M d2 \<le> remaining M d1" "b2 \<Longrightarrow> remaining M d2 + 1 \<le> remaining M d1"
    by (rule ParseOneCharToken_cases [OF 1(2), of "CHR ''V''"]) (simp_all add: nul_def)
  obtain b3 d3 where 3: "ParseOneCharToken M (CHR ''K'') d2 = Inr (b3, d3)" "wf_dstate M d3"
    "out_end (fst d3) = out_end (fst d2)" "remaining M d3 \<le> remaining M d2" "b3 \<Longrightarrow> remaining M d3 + 1 \<le> remaining M d2"
    by (rule ParseOneCharToken_cases [OF 2(2), of "CHR ''K''"]) (simp_all add: nul_def)
  have "ParseCVQualifiers M d = Inr (b1 \<or> b2 \<or> b3, d3)"
    by (simp add: ParseCVQualifiers_def 1(1) 2(1) 3(1))
  with 1 2 3 show "fine M 1 d (ParseCVQualifiers M d)"
    by auto
qed

text \<open>The loops over the tables append some strings and then move the cursor.\<close>

lemma fine_append_advance:
  assumes "wf_dstate M d" and "0 \<le> j" and "mangled_cur (fst d) + j \<le> int (length M)"
  shows "fine M (nat j) d (seqp (map (appending M) strs @ [setting (advance j)]) d)"
  using assms
proof (induction strs arbitrary: d)
  case Nil
  with wf_advance [OF Nil(1,2,3)] show ?case
    by (simp add: setting_def)
next
  case (Cons str strs)
  have ok: "output_ok M d (MaybeAppend M (Lit str) d)"
    by (rule MaybeAppend_Lit_ok) (rule Cons)
  show ?case
  proof (cases "MaybeAppend M (Lit str) d")
    case (Inl e)
    with ok show ?thesis
      by (simp add: appending_def doing_def output_ok_def)
  next
    case (Inr e)
    with ok have e: "wf_dstate M e" "mangled_cur (fst e) = mangled_cur (fst d)"
      "out_end (fst e) = out_end (fst d)" "remaining M e = remaining M d"
      by (auto simp: output_ok_def same_input_def remaining_def)
    with Cons.IH [of e] Cons.prems Inr show ?thesis
      by (auto simp: appending_def doing_def fine_def split: sum.splits)
  qed
qed

lemma fine_expand_substitution:
  assumes d: "wf_dstate M d" and ps: "\<forall>(a, r) \<in> set ps. a ! 1 \<noteq> nul"
  shows "fine M 1 d (expand_substitution M ps d)"
  using ps
proof (induction ps)
  case (Cons p ps)
  obtain a r where p: "p = (a, r)" by (cases p)
  obtain c where c: "read_at M (mangled_cur (fst d)) = Some c"
    using read_at_wf [OF d] by blast
  show ?case
  proof (cases "c = a ! 1")
    case True
    with c Cons p have "mangled_cur (fst d) + 1 \<le> int (length M)"
      using read_at_not_nul [OF c] by auto
    then have "fine M (nat 1) d (seqp (map (appending M) (''std'' # (if r \<noteq> [] then [''::'', r] else []))
        @ [setting (advance 1)]) d)"
      by (intro fine_append_advance [OF d]) simp_all
    moreover have "map (appending M) (''std'' # (if r \<noteq> [] then [''::'', r] else [])) =
        [appending M ''std''] @ (if r \<noteq> [] then [appending M ''::'', appending M r] else [])"
      by simp
    ultimately show ?thesis
      using True p c by (simp add: reading_def del: seqp.simps)
  qed (use Cons p c in \<open>simp add: reading_def\<close>)
qed (use d in simp)

lemma safe_expand_substitution: "safe M B 1 (expand_substitution M kSubstitutionList)"
  by (rule safeI, erule fine_expand_substitution) (simp add: kSubstitutionList_def nul_def)

lemma safe_ParseSubstitution: "safe M B 2 (ParseSubstitution M)"
  unfolding ParseSubstitution_def [abs_def]
  by (rule safe_combine safe_tokens safe_runs safe_expand_substitution safe_seq_Nil' | simp add: nul_def)+

lemma safe_ParseTemplateTemplateParam: "safe M B 2 (ParseTemplateTemplateParam M)"
  unfolding ParseTemplateTemplateParam_def [abs_def]
  by (rule safe_combine safe_ParseTemplateParam safe_ParseSubstitution)+

lemma fine_builtin_type:
  assumes d: "wf_dstate M d" and ps: "\<forall>(a, r) \<in> set ps. a ! 0 \<noteq> nul"
  shows "fine M 1 d (builtin_type M ps d)"
  using ps
proof (induction ps)
  case (Cons p ps)
  obtain a r where p: "p = (a, r)" by (cases p)
  obtain c where c: "read_at M (mangled_cur (fst d)) = Some c"
    using read_at_wf [OF d] by blast
  show ?case
  proof (cases "c = a ! 0")
    case True
    with c Cons p have "mangled_cur (fst d) + 1 \<le> int (length M)"
      using read_at_not_nul [OF c] by auto
    with fine_append_advance [OF d, of 1 "[r]"] True p c show ?thesis
      by (simp add: reading_def)
  qed (use Cons p c in \<open>simp add: reading_def\<close>)
qed (use d in simp)

lemma safe_ParseBuiltinType:
  assumes "tame M"
  shows "safe M B 1 (ParseBuiltinType M)"
proof -
  have "safe M B 1 (builtin_type M kBuiltinTypeList)" for B
    by (rule safeI, erule fine_builtin_type) (simp add: kBuiltinTypeList_def nul_def)
  with assms show ?thesis
    unfolding ParseBuiltinType_def [abs_def]
    by - (rule safe_combine safe_tokens safe_ParseSourceName safe_seq_Nil' | assumption | simp add: nul_def)+
qed


section \<open>The recursive functions\<close>

text \<open>What a symbol consumes at least, and the order of calls that consume nothing before.\<close>

fun consumes :: "grammar_symbol \<Rightarrow> nat" where
  "consumes (NT_Prefix b) = 0"
| "consumes NT_Types = 0"
| "consumes NT_Args = 0"
| "consumes _ = 1"

fun rank :: "grammar_symbol \<Rightarrow> nat" where
  "rank NT_Encoding = 1"
| "rank NT_Type = 1"
| "rank NT_Types = 2"
| "rank NT_TemplateArg = 2"
| "rank NT_Args = 3"
| "rank _ = 0"

text \<open>The parsers a function may call once it has consumed something.\<close>

definition callable :: "string \<Rightarrow> nat \<Rightarrow> parsers \<Rightarrow> bool" where
  "callable M B P \<longleftrightarrow> (\<forall>nt B'. B' < B \<longrightarrow> safe M B' (consumes nt) (P nt))"

lemma callable_call:
  assumes "callable M B P" and "B' < B"
  shows "safe M B' 1 (P NT_Encoding)" "safe M B' 1 (P NT_Name)" "safe M B' 0 (P (NT_Prefix b))"
    "safe M B' 1 (P NT_Type)" "safe M B' 0 (P NT_Types)" "safe M B' 1 (P NT_TemplateArg)"
    "safe M B' 0 (P NT_Args)" "safe M B' 1 (P NT_Expression)"
  using assms by (metis callable_def consumes.simps)+

lemma safe_two_chars: "safe M B 0 (two_chars M)"
  by (rule safeI) (simp add: two_chars_def AtLeastNumCharsRemaining_def at_cursor_wf)

lemma fine_operator_table:
  assumes d: "wf_dstate M d" and x: "read_at M (mangled_cur (fst d)) = Some x" "x \<noteq> nul"
    and ps: "\<forall>(a, r) \<in> set ps. a ! 1 \<noteq> nul"
  shows "fine M 2 d (operator_table M ps d)"
  using ps
proof (induction ps)
  case (Cons p ps)
  obtain a r where p: "p = (a, r)" by (cases p)
  obtain y where y: "read_at M (mangled_cur (fst d) + 1) = Some y"
    "y \<noteq> nul \<Longrightarrow> mangled_cur (fst d) + 2 \<le> int (length M)"
    using read_next [OF d x] by blast
  show ?case
  proof (cases "x = a ! 0 \<and> y = a ! 1")
    case True
    with y Cons p have "mangled_cur (fst d) + 2 \<le> int (length M)"
      by auto
    then have "fine M (nat 2) d (seqp (map (appending M)
        (''operator'' # (if IsLower (r ! 0) then ['' ''] else []) @ [r]) @ [setting (advance 2)]) d)"
      by (intro fine_append_advance [OF d]) simp_all
    moreover have "map (appending M) (''operator'' # (if IsLower (r ! 0) then ['' ''] else []) @ [r]) @
          [setting (advance 2)] =
        [appending M ''operator''] @ (if IsLower (r ! 0) then [appending M '' ''] else []) @
          [appending M r, setting (advance 2)]"
      by simp
    ultimately show ?thesis
      using True p x y by (simp add: reading_def del: seqp.simps)
  qed (use Cons p x y in \<open>auto simp: reading_def\<close>)
qed (use d in simp)

lemma safe_operators: "safe M B 2 (seqp [lower_alpha M, operator_table M kOperatorList])"
proof (rule safeI)
  fix d assume d: "wf_dstate M d"
  obtain x where x: "read_at M (mangled_cur (fst d)) = Some x"
    using read_at_wf [OF d] by blast
  show "fine M 2 d (seqp [lower_alpha M, operator_table M kOperatorList] d)"
  proof (cases "IsLower x")
    case True
    then have nn: "x \<noteq> nul" by (auto simp: IsLower_def nul_def)
    obtain y where y: "read_at M (mangled_cur (fst d) + 1) = Some y"
      using read_next [OF d x nn] by blast
    have "\<forall>(a, r) \<in> set kOperatorList. a ! 1 \<noteq> nul"
      by (simp add: kOperatorList_def nul_def)
    from fine_operator_table [OF d x nn this] d x y True show ?thesis
      by (auto simp: lower_alpha_def reading_def fine_def split: sum.splits)
  qed (use d x in \<open>simp add: lower_alpha_def reading_def\<close>)
qed

lemmas safe_leaves = safe_combine safe_tokens safe_runs safe_append_prev_name safe_const safe_two_chars
  safe_operators safe_ParseDiscriminator safe_ParseVOffset safe_ParseCallOffset safe_ParseCtorDtorName
  safe_ParseTemplateParam safe_ParseSubstitution safe_ParseTemplateTemplateParam safe_ParseCVQualifiers
  safe_seq_Nil'

lemmas safe_names = safe_ParseSourceName safe_ParseLocalSourceName safe_ParseBuiltinType

lemma safe_ParseOperatorName:
  assumes "tame M" and "callable M B P"
  shows "safe M B 2 (ParseOperatorName M P)"
proof -
  have "safe M B 2 (altp [attempt (\<lambda>copy. seqp [ParseTwoCharToken M ''cv'', appending M ''operator '',
               EnterNestedName, P NT_Type, LeaveNestedName (nest_level copy)]),
             attempt (\<lambda>copy. seqp [ParseOneCharToken M (CHR ''v''), ParseCharClass M ''0123456789'',
               ParseSourceName M]),
             seqp [lower_alpha M, operator_table M kOperatorList]])"
    by (rule safe_leaves safe_names [OF assms(1)] callable_call [OF assms(2)] | simp add: nul_def)+
  then show ?thesis
    unfolding ParseOperatorName_def [abs_def]
    by - (rule safe_two_chars safe_seq_Cons safe_seq_Nil' | simp)+
qed

lemma safe_ParseUnqualifiedName:
  assumes "tame M" and "callable M B P"
  shows "safe M B 1 (ParseUnqualifiedName M P)"
  unfolding ParseUnqualifiedName_def [abs_def]
  by (rule safe_alt_Cons safe_alt_Nil safe_le [OF safe_ParseOperatorName [OF assms]]
      safe_le [OF safe_ParseCtorDtorName] safe_ParseSourceName [OF assms(1)]
      safe_le [OF safe_ParseLocalSourceName [OF assms(1)]] | simp)+

lemma callable_mono: "callable M B P \<Longrightarrow> B' \<le> B \<Longrightarrow> callable M B' P"
  by (simp add: callable_def)

lemma safe_ParseUnscopedName:
  assumes "tame M" and "callable M B P"
  shows "safe M B 1 (ParseUnscopedName M P)"
  unfolding ParseUnscopedName_def [abs_def]
  by (rule safe_leaves safe_ParseUnqualifiedName [OF assms(1) callable_mono [OF assms(2)]] | simp add: nul_def)+

lemma safe_ParseTemplateArgs:
  assumes "callable M B P"
  shows "safe M B 3 (ParseTemplateArgs M P)"
  unfolding ParseTemplateArgs_def [abs_def]
  by (rule safe_leaves callable_call [OF assms] | simp add: nul_def)+

lemma safe_ParseUnscopedTemplateName:
  assumes "tame M" and "callable M B P"
  shows "safe M B 1 (ParseUnscopedTemplateName M P)"
  unfolding ParseUnscopedTemplateName_def [abs_def]
  by (rule safe_alt_Cons safe_alt_Nil safe_ParseUnscopedName [OF assms] safe_le [OF safe_ParseSubstitution] | simp)+

lemma safe_ParseNestedName:
  assumes "callable M B P"
  shows "safe M B 2 (ParseNestedName M P)"
  unfolding ParseNestedName_def [abs_def]
  by (rule safe_leaves callable_call [OF assms] | simp add: nul_def)+

lemma safe_ParseLocalName:
  assumes "callable M B P"
  shows "safe M B 3 (ParseLocalName M P)"
  unfolding ParseLocalName_def [abs_def]
  by (rule safe_leaves callable_call [OF assms] | simp add: nul_def)+

lemma safe_ParseName:
  assumes "tame M" and "callable M B P"
  shows "safe M B 1 (ParseName M P)"
proof -
  have "safe M B 1 (attempt (\<lambda>copy. seqp [ParseUnscopedTemplateName M P, ParseTemplateArgs M P]))"
    by (rule safe_attempt safe_seq_Cons safe_seq_Nil' safe_ParseUnscopedTemplateName [OF assms]
        safe_ParseTemplateArgs [OF callable_mono [OF assms(2)]] | simp)+
  then show ?thesis
    unfolding ParseName_def [abs_def]
    by - (rule safe_alt_Cons safe_alt_Nil safe_ParseUnscopedName [OF assms]
        safe_le [OF safe_ParseNestedName [OF assms(2)]] safe_le [OF safe_ParseLocalName [OF assms(2)]]
        | assumption | simp)+
qed

lemma safe_ParsePrefix:
  assumes "tame M" and "callable M B P"
  shows "safe M B 0 (ParsePrefix M P b)"
proof -
  have head: "safe M B 1 (altp [ParseTemplateParam M, ParseSubstitution M, ParseUnscopedName M P])"
    by (rule safe_alt_Cons safe_alt_Nil safe_ParseUnscopedName [OF assms]
        safe_le [OF safe_ParseTemplateParam] safe_le [OF safe_ParseSubstitution] | simp)+
  have "safe M B 0 (seqp [altp [ParseTemplateParam M, ParseSubstitution M, ParseUnscopedName M P],
      MaybeIncreaseNestLevel, P (NT_Prefix True)])"
    by (rule head safe_seq_Cons safe_seq_Nil' safe_modes callable_call [OF assms(2)] | simp)+
  moreover have args: "safe M B 0 (altp [seqp [\<lambda>d. Inr (b, d), ParseTemplateArgs M P, P (NT_Prefix False)],
      \<lambda>d. Inr (True, d)])"
    by (rule safe_alt_Cons safe_alt_Nil safe_const safe_seq_Cons safe_seq_Nil'
        safe_ParseTemplateArgs [OF callable_mono [OF assms(2)]] callable_call [OF assms(2)] | simp)+
  have "safe M B 0 (seqp [MaybeCancelLastSeparator,
      altp [seqp [\<lambda>d. Inr (b, d), ParseTemplateArgs M P, P (NT_Prefix False)], \<lambda>d. Inr (True, d)]])"
    by (rule safe_seq_Cons [where ?k1.0 = 0], rule safe_MaybeCancelLastSeparator,
        rule safe_seq_Cons [where ?k1.0 = 0]) (use args safe_seq_Nil in simp_all)
  ultimately have "safe M B 0 (altp [seqp [altp [ParseTemplateParam M, ParseSubstitution M, ParseUnscopedName M P],
      MaybeIncreaseNestLevel, P (NT_Prefix True)], seqp [MaybeCancelLastSeparator,
      altp [seqp [\<lambda>d. Inr (b, d), ParseTemplateArgs M P, P (NT_Prefix False)], \<lambda>d. Inr (True, d)]]])"
    by (intro safe_alt_Cons safe_alt_Nil)
  then show ?thesis
    unfolding ParsePrefix_def [abs_def]
    by - (rule safe_seq_Cons [where ?k1.0 = 0], rule safe_MaybeAppendSeparator,
        rule safe_seq_Cons [where ?k1.0 = 0], simp_all add: safe_seq_Nil)
qed


lemma safe_ParseBareFunctionType:
  assumes "callable M B P" and "safe M B 1 (P NT_Type)"
  shows "safe M B 1 (ParseBareFunctionType M P)"
proof -
  have "safe M (B - 0) 1 (P NT_Type)" using assms(2) by simp
  then show ?thesis
    unfolding ParseBareFunctionType_def [abs_def]
    by - (rule safe_leaves callable_call(5) [OF assms(1)] | assumption | simp add: nul_def)+
qed

lemma safe_ParseFunctionType:
  assumes "callable M B P"
  shows "safe M B 3 (ParseFunctionType M P)"
  unfolding ParseFunctionType_def [abs_def]
  by (rule safe_leaves safe_ParseBareFunctionType [OF callable_mono [OF assms] callable_call(4) [OF assms]]
      | simp add: nul_def)+

lemma safe_ParseArrayType:
  assumes "callable M B P"
  shows "safe M B 3 (ParseArrayType M P)"
  unfolding ParseArrayType_def [abs_def]
  by (rule safe_leaves callable_call [OF assms] | simp add: nul_def)+

lemma safe_ParsePointerToMemberType:
  assumes "callable M B P"
  shows "safe M B 3 (ParsePointerToMemberType M P)"
  unfolding ParsePointerToMemberType_def [abs_def]
  by (rule safe_leaves callable_call [OF assms] | simp add: nul_def)+

lemma safe_ParseMangledName:
  assumes "callable M B P"
  shows "safe M B 3 (ParseMangledName M P)"
  unfolding ParseMangledName_def [abs_def]
  by (rule safe_leaves callable_call [OF assms] | simp add: nul_def)+

lemma safe_ParseExprPrimary:
  assumes "callable M B P"
  shows "safe M B 3 (ParseExprPrimary M P)"
  unfolding ParseExprPrimary_def [abs_def]
  by (rule safe_leaves callable_call [OF assms] safe_ParseMangledName [OF callable_mono [OF assms]]
      | simp add: nul_def)+

lemma safe_ParseType:
  assumes "tame M" and "callable M B P" and "safe M B 1 (P NT_Name)"
  shows "safe M B 1 (ParseType M P)"
  unfolding ParseType_def [abs_def] ParseClassEnumType_def [abs_def]
  by (rule safe_alt_Cons safe_alt_Nil assms(3)
      safe_le [OF safe_ParseFunctionType [OF assms(2)]] safe_le [OF safe_ParseArrayType [OF assms(2)]]
      safe_le [OF safe_ParsePointerToMemberType [OF assms(2)]] safe_le [OF safe_ParseSubstitution]
      safe_ParseBuiltinType [OF assms(1)] safe_le [OF safe_ParseTemplateParam]
      safe_attempt safe_seq_Cons safe_ParseCVQualifiers safe_ParseTemplateTemplateParam
      safe_ParseTemplateArgs [OF callable_mono [OF assms(2)]] safe_tokens
      safe_ParseSourceName [OF assms(1)] callable_call [OF assms(2)] safe_seq_Nil'
      | simp add: nul_def)+

lemma safe_ParseTemplateArg:
  assumes "callable M B P" and "safe M B 1 (P NT_Type)"
  shows "safe M B 1 (ParseTemplateArg M P)"
  unfolding ParseTemplateArg_def [abs_def]
  by (rule safe_alt_Cons safe_alt_Nil safe_attempt safe_seq_Cons safe_seq_Nil' safe_tokens assms(2)
      safe_le [OF safe_ParseExprPrimary [OF assms(1)]] callable_call [OF assms(1)] | simp add: nul_def)+

lemma safe_ParseExpression:
  assumes "tame M" and "callable M B P"
  shows "safe M B 1 (ParseExpression M P)"
  unfolding ParseExpression_def [abs_def]
  by (rule safe_alt_Cons safe_alt_Nil safe_le [OF safe_ParseTemplateParam]
      safe_le [OF safe_ParseExprPrimary [OF assms(2)]] safe_attempt safe_seq_Cons safe_seq_Nil' safe_tokens
      safe_ParseOperatorName [OF assms] safe_ParseUnqualifiedName [OF assms(1) callable_mono [OF assms(2)]]
      safe_ParseTemplateArgs [OF callable_mono [OF assms(2)]] callable_call [OF assms(2)] | simp add: nul_def)+

lemma safe_ParseSpecialName:
  assumes "callable M B P"
  shows "safe M B 3 (ParseSpecialName M P)"
  unfolding ParseSpecialName_def [abs_def]
  by (rule safe_leaves callable_call [OF assms] | simp add: nul_def)+

lemma safe_ParseEncoding:
  assumes "callable M B P" and "safe M B 1 (P NT_Name)"
  shows "safe M B 1 (ParseEncoding M P)"
  unfolding ParseEncoding_def [abs_def]
  by (rule safe_alt_Cons safe_alt_Nil safe_attempt safe_seq_Cons safe_seq_Nil' assms(2)
      safe_ParseBareFunctionType [OF callable_mono [OF assms(1)] callable_call(4) [OF assms(1)]]
      safe_le [OF safe_ParseSpecialName [OF assms(1)]] | simp)+

lemma safe_ZeroOrMore:
  assumes "safe M B 1 p" and "1 \<le> B \<Longrightarrow> safe M (B - 1) 0 loop"
  shows "safe M B 0 (ZeroOrMore p loop)"
  unfolding ZeroOrMore_def [abs_def]
  by (rule safe_alt_Cons safe_alt_Nil safe_const safe_seq_Cons safe_seq_Nil' assms | simp)+

section \<open>Enough fuel\<close>

lemma parse_step_safe:
  assumes tame: "tame M" and call: "callable M B P"
    and lower: "\<And>nt'. rank nt' < rank nt \<Longrightarrow> safe M B (consumes nt') (P nt')"
  shows "safe M B (consumes nt) (parse_step M P nt)"
proof (cases nt)
  case NT_Encoding
  with lower [of NT_Name] safe_ParseEncoding [OF call] show ?thesis
    by (simp add: safe_def)
next
  case NT_Name
  with safe_ParseName [OF tame call] show ?thesis by (simp add: safe_def)
next
  case (NT_Prefix b)
  with safe_ParsePrefix [OF tame call] show ?thesis by (simp add: safe_def)
next
  case NT_Type
  with lower [of NT_Name] safe_ParseType [OF tame call] show ?thesis by (simp add: safe_def)
next
  case NT_Types
  with lower [of NT_Type] safe_ZeroOrMore [of M B "P NT_Type" "P NT_Types"] callable_call(5) [OF call, of "B - 1"]
  show ?thesis by (simp add: safe_def)
next
  case NT_TemplateArg
  with lower [of NT_Type] safe_ParseTemplateArg [OF call] show ?thesis by (simp add: safe_def)
next
  case NT_Args
  with lower [of NT_TemplateArg] safe_ZeroOrMore [of M B "P NT_TemplateArg" "P NT_Args"]
    callable_call(7) [OF call, of "B - 1"]
  show ?thesis by (simp add: safe_def)
next
  case NT_Expression
  with safe_ParseExpression [OF tame call] show ?thesis by (simp add: safe_def)
qed

lemma rank_bound: "rank nt < 4"
  by (cases nt) simp_all

lemma parse_safe:
  assumes "tame M"
  shows "4 * B + rank nt < n \<Longrightarrow> safe M B (consumes nt) (parse M n nt)"
proof (induction n arbitrary: B nt)
  case (Suc n)
  have "callable M B (parse M n)"
    unfolding callable_def
  proof (intro allI impI)
    fix nt' B' assume "B' < B"
    with Suc.prems rank_bound [of nt'] show "safe M B' (consumes nt') (parse M n nt')"
      by (intro Suc.IH) linarith
  qed
  moreover have "safe M B (consumes nt') (parse M n nt')" if "rank nt' < rank nt" for nt'
    using that Suc.prems by (intro Suc.IH) linarith
  ultimately have "safe M B (consumes nt) (parse_step M (parse M n) nt)"
    by (rule parse_step_safe [OF assms])
  then show ?case
    by (simp add: safe_def parse.simps)
qed simp

definition demangle_fuel :: "string \<Rightarrow> nat" where
  "demangle_fuel M = 4 * length M + 2"

lemma InitState_wf: "wf_dstate M (InitState (int (length out)), out)"
  by (auto simp: wf_dstate_def InitState_def)

lemma callable_parse: "tame M \<Longrightarrow> demangle_fuel M \<le> n \<Longrightarrow> callable M (length M) (parse M n)"
  unfolding callable_def demangle_fuel_def
proof (intro allI impI)
  fix nt B'
  assume "tame M" "4 * length M + 2 \<le> n" "B' < length M"
  with rank_bound [of nt] show "safe M B' (consumes nt) (parse M n nt)"
    by (intro parse_safe) linarith+
qed

end
