(* ===== verification/Demangle_Properties.thy ===== *)
theory Demangle_Properties
  imports Demangle_Safety
begin

text \<open>
  What the demangler guarantees and where it fails: it terminates inside its buffers on every name
  whose numbers are plain, backtracking restores the cursors, and three short names make it loop
  for ever, read outside its input, and report success without writing anything.
\<close>

section \<open>Running to the end\<close>

lemma StrLen_le: "StrLen str \<le> length str"
  by (induction str) auto

lemma ParseTopLevelMangledName_fine:
  assumes call: "callable M (length M) P" and d: "wf_dstate M d"
  shows "fine M 0 d (ParseTopLevelMangledName M P d)"
proof -
  have rem: "remaining M d \<le> length M"
    using d by (auto simp: remaining_def wf_dstate_def)
  note f = safeD [OF safe_ParseMangledName [OF call] d rem]
  show ?thesis
  proof (cases "ParseMangledName M P d")
    case (Inl e)
    with f show ?thesis by (simp add: ParseTopLevelMangledName_def)
  next
    case (Inr r)
    obtain b e where r: "r = (b, e)" by (cases r)
    with f Inr have e: "wf_dstate M e" "out_end (fst e) = out_end (fst d)" "remaining M e \<le> remaining M d"
      by auto
    obtain c where c: "read_at M (mangled_cur (fst e)) = Some c"
      using read_at_wf [OF e(1)] by blast
    let ?p = "In_Mangled (mangled_cur (fst e))" and ?n = "StrLen (drop (nat (mangled_cur (fst e))) M)"
    have len: "StrLen_at M ?p = Inr (int ?n)"
      using e(1) by (simp add: StrLen_at_def at_cursor_wf)
    have "readable M ?p 0 (int ?n)"
      using StrLen_le [of "drop (nat (mangled_cur (fst e))) M"] e(1)
      by (auto simp: readable_def wf_dstate_def)
    then have "output_ok M e (MaybeAppend M ?p e)"
      using MaybeAppendWithLength_ok [OF e(1)] len same_input_refl [OF e(1)]
      by (simp add: MaybeAppend_def output_ok_def)
    then have "fine M 0 e (doing (MaybeAppend M ?p) e)"
      by (cases "MaybeAppend M ?p e") (auto simp: doing_def output_ok_def same_input_def remaining_def)
    with e have ver: "fine M 0 d (doing (MaybeAppend M ?p) e)"
      by (auto simp: fine_def split: sum.splits)
    show ?thesis
      using Inr r e c ver by (simp add: ParseTopLevelMangledName_def reading_def at_cursor_wf)
  qed
qed


definition blank :: "nat \<Rightarrow> string" where
  "blank n = replicate n (CHR ''#'')"


section \<open>Backtracking\<close>

definition restores :: "parser \<Rightarrow> bool" where
  "restores p \<longleftrightarrow> (\<forall>d d'. p d = Inr (False, d') \<longrightarrow> fst d' = fst d)"

definition never_fails :: "parser \<Rightarrow> bool" where
  "never_fails p \<longleftrightarrow> (\<forall>d d'. p d \<noteq> Inr (False, d'))"

definition looks_only :: "parser \<Rightarrow> bool" where
  "looks_only p \<longleftrightarrow> (\<forall>d b d'. p d = Inr (b, d') \<longrightarrow> d' = d)"

lemma restores_altp: "\<forall>p \<in> set ps. restores p \<Longrightarrow> restores (altp ps)"
proof (induction ps)
  case (Cons p ps)
  then have IH: "restores (altp ps)" and p: "restores p" by simp_all
  show ?case
    unfolding restores_def
  proof (intro allI impI)
    fix d d' assume "altp (p # ps) d = Inr (False, d')"
    then obtain e where "p d = Inr (False, e)" "altp ps e = Inr (False, d')"
      by (auto split: sum.splits prod.splits if_splits)
    with p IH show "fst d' = fst d"
      unfolding restores_def by metis
  qed
qed (simp add: restores_def)

lemma restores_attempt: "restores (attempt p)"
  by (auto simp: restores_def attempt_def split: sum.splits prod.splits if_splits)

lemma restores_seq_looks: "looks_only p \<Longrightarrow> restores (seqp ps) \<Longrightarrow> restores (seqp (p # ps))"
  unfolding restores_def looks_only_def
  by (clarsimp split: sum.splits prod.splits if_splits) metis

lemma restores_seq_head: "restores p \<Longrightarrow> never_fails (seqp ps) \<Longrightarrow> restores (seqp (p # ps))"
  unfolding restores_def never_fails_def
  by (clarsimp split: sum.splits prod.splits if_splits)

lemma never_fails_Cons: "never_fails p \<Longrightarrow> never_fails (seqp ps) \<Longrightarrow> never_fails (seqp (p # ps))"
  unfolding never_fails_def
  by (clarsimp split: sum.splits prod.splits if_splits)

lemma never_fails_Nil: "never_fails (seqp [])"
  by (simp add: never_fails_def)

lemma never_fails_altp: "p \<in> set ps \<Longrightarrow> never_fails p \<Longrightarrow> never_fails (altp ps)"
  unfolding never_fails_def
  by (induction ps) (auto split: sum.splits prod.splits if_splits)

lemma never_fails_steps:
  "never_fails (doing f)" "never_fails (setting g)" "never_fails (appending M str)"
  "never_fails EnterNestedName" "never_fails DisableAppend" "never_fails MaybeIncreaseNestLevel"
  "never_fails (MaybeAppendSeparator M)" "never_fails MaybeCancelLastSeparator"
  "never_fails (\<lambda>d. Inr (True, d))"
  by (auto simp: never_fails_def doing_def setting_def appending_def EnterNestedName_def DisableAppend_def
      MaybeIncreaseNestLevel_def MaybeAppendSeparator_def MaybeCancelLastSeparator_def
      split: sum.splits if_splits)

lemma restores_never: "never_fails p \<Longrightarrow> restores p"
  by (simp add: never_fails_def restores_def)

lemma restores_tokens:
  "restores (ParseOneCharToken M c)" "restores (ParseTwoCharToken M str)" "restores (ParseCharClass M str)"
  by (auto simp: restores_def ParseOneCharToken_def ParseTwoCharToken_def ParseCharClass_def reading_def
      split: option.splits if_splits)

lemma looks_only_tests: "looks_only (two_chars M)" "looks_only (lower_alpha M)"
  by (auto simp: looks_only_def two_chars_def lower_alpha_def reading_def
      split: option.splits if_splits sum.splits)


lemma restores_reading:
  assumes "\<And>c. restores (k c)" and "\<And>d. p d = reading M (f d) (\<lambda>c. k c d)"
  shows "restores p"
  unfolding restores_def
proof (intro allI impI)
  fix d d' assume "p d = Inr (False, d')"
  then obtain c where "k c d = Inr (False, d')"
    by (auto simp: assms(2) reading_def split: option.splits)
  with assms(1) show "fst d' = fst d"
    unfolding restores_def by blast
qed

lemma never_fails_appends: "never_fails (seqp (map (appending M) strs @ [setting g]))"
  by (induction strs) (auto simp del: seqp.simps intro!: never_fails_Cons never_fails_Nil never_fails_steps)

lemma restores_expand_substitution: "restores (expand_substitution M ps)"
proof (induction ps)
  case (Cons p ps)
  obtain a r where p: "p = (a, r)" by (cases p)
  let ?s = "map (appending M) (''std'' # (if r \<noteq> [] then [''::'', r] else [])) @ [setting (advance 1)]"
  show ?case
  proof (rule restores_reading)
    show "restores (if c = a ! 1 then seqp ?s else expand_substitution M ps)" for c
      using Cons restores_never [OF never_fails_appends] by presburger
    show "expand_substitution M (p # ps) d = reading M (mangled_cur (fst d))
        (\<lambda>c. (if c = a ! 1 then seqp ?s else expand_substitution M ps) d)" for d
      by (simp add: p reading_def del: seqp.simps split: option.splits)
  qed
qed (simp add: restores_def)

lemma restores_builtin_type: "restores (builtin_type M ps)"
proof (induction ps)
  case (Cons p ps)
  obtain a r where p: "p = (a, r)" by (cases p)
  let ?s = "map (appending M) [r] @ [setting (advance 1)]"
  show ?case
  proof (rule restores_reading)
    show "restores (if c = a ! 0 then seqp ?s else builtin_type M ps)" for c
      using Cons restores_never [OF never_fails_appends] by presburger
    show "builtin_type M (p # ps) d = reading M (mangled_cur (fst d))
        (\<lambda>c. (if c = a ! 0 then seqp ?s else builtin_type M ps) d)" for d
      by (simp add: p reading_def del: seqp.simps split: option.splits)
  qed
qed (simp add: restores_def)

lemma restores_operator_table: "restores (operator_table M ps)"
proof (induction ps)
  case (Cons p ps)
  obtain a r where p: "p = (a, r)" by (cases p)
  let ?s = "map (appending M) (''operator'' # (if IsLower (r ! 0) then ['' ''] else []) @ [r]) @
    [setting (advance 2)]"
  let ?k = "\<lambda>c c'. if c = a ! 0 \<and> c' = a ! 1 then seqp ?s else operator_table M ps"
  show ?case
  proof (rule restores_reading)
    show "restores (\<lambda>d. reading M (mangled_cur (fst d) + 1) (\<lambda>c'. ?k c c' d))" for c
    proof (rule restores_reading)
      show "restores (?k c c')" for c'
        using Cons restores_never [OF never_fails_appends] by presburger
    qed (rule refl)
    show "operator_table M (p # ps) d = reading M (mangled_cur (fst d))
        (\<lambda>c. reading M (mangled_cur (fst d) + 1) (\<lambda>c'. ?k c c' d))" for d
      by (cases "read_at M (mangled_cur (fst d))"; cases "read_at M (mangled_cur (fst d) + 1)")
        (simp_all add: p reading_def del: seqp.simps)
  qed
qed (simp add: restores_def)

lemma restores_ParseCVQualifiers: "restores (ParseCVQualifiers M)"
  unfolding restores_def
proof (intro allI impI)
  fix d d' assume "ParseCVQualifiers M d = Inr (False, d')"
  then obtain d1 d2 where "ParseOneCharToken M (CHR ''r'') d = Inr (False, d1)"
    "ParseOneCharToken M (CHR ''V'') d1 = Inr (False, d2)" "ParseOneCharToken M (CHR ''K'') d2 = Inr (False, d')"
    by (auto simp: ParseCVQualifiers_def split: sum.splits prod.splits)
  then show "fst d' = fst d"
    using restores_tokens(1) unfolding restores_def by metis
qed

lemmas restores_intros = restores_altp restores_attempt restores_seq_looks restores_seq_head restores_tokens
  restores_expand_substitution restores_builtin_type restores_operator_table restores_ParseCVQualifiers
  looks_only_tests never_fails_Cons never_fails_Nil never_fails_steps

lemma restores_leaves:
  "restores (ParseTemplateParam M)" "restores (ParseSubstitution M)" "restores (ParseCtorDtorName M)"
  "restores (ParseSourceName M)" "restores (ParseLocalSourceName M)" "restores (ParseBuiltinType M)"
  "restores (ParseTemplateTemplateParam M)"
  unfolding ParseTemplateParam_def [abs_def] ParseSubstitution_def [abs_def] ParseCtorDtorName_def [abs_def]
    ParseSourceName_def [abs_def] ParseLocalSourceName_def [abs_def] ParseBuiltinType_def [abs_def]
    ParseTemplateTemplateParam_def [abs_def]
  by (auto simp del: seqp.simps altp.simps intro!: restores_intros)

lemma restores_names:
  "restores (ParseOperatorName M P)" "restores (ParseUnqualifiedName M P)" "restores (ParseUnscopedName M P)"
proof -
  show op: "restores (ParseOperatorName M P)"
    unfolding ParseOperatorName_def [abs_def]
    by (rule restores_seq_looks [OF looks_only_tests(1)], rule restores_seq_head [OF _ never_fails_Nil])
      (auto simp del: seqp.simps altp.simps intro!: restores_altp restores_attempt restores_operator_table
        restores_seq_looks [OF looks_only_tests(2)] restores_seq_head never_fails_Nil)
  then show un: "restores (ParseUnqualifiedName M P)"
    unfolding ParseUnqualifiedName_def [abs_def]
    by (auto simp del: seqp.simps altp.simps intro!: restores_altp restores_leaves)
  then show "restores (ParseUnscopedName M P)"
    unfolding ParseUnscopedName_def [abs_def]
    by (auto simp del: seqp.simps altp.simps intro!: restores_altp restores_attempt)
qed


text \<open>A symbol that is a loop never fails; every other one restores the cursors when it does.\<close>

fun backtracks :: "grammar_symbol \<Rightarrow> parser \<Rightarrow> bool" where
  "backtracks (NT_Prefix b) p = never_fails p"
| "backtracks NT_Types p = never_fails p"
| "backtracks NT_Args p = never_fails p"
| "backtracks nt p = restores p"

lemma never_fails_ZeroOrMore: "never_fails (ZeroOrMore p loop)"
  unfolding ZeroOrMore_def [abs_def]
  by (rule never_fails_altp [of "\<lambda>d. Inr (True, d)"]) (simp_all add: never_fails_steps)

lemma never_fails_ParsePrefix: "never_fails (ParsePrefix M P b)"
proof -
  have "never_fails (altp [seqp [\<lambda>d. Inr (b, d), ParseTemplateArgs M P, P (NT_Prefix False)], \<lambda>d. Inr (True, d)])"
    by (rule never_fails_altp [of "\<lambda>d. Inr (True, d)"]) (simp_all add: never_fails_steps)
  then have "never_fails (seqp [MaybeCancelLastSeparator,
      altp [seqp [\<lambda>d. Inr (b, d), ParseTemplateArgs M P, P (NT_Prefix False)], \<lambda>d. Inr (True, d)]])"
    by (intro never_fails_Cons never_fails_Nil never_fails_steps)
  then have "never_fails (altp [seqp [altp [ParseTemplateParam M, ParseSubstitution M, ParseUnscopedName M P],
      MaybeIncreaseNestLevel, P (NT_Prefix True)], seqp [MaybeCancelLastSeparator,
      altp [seqp [\<lambda>d. Inr (b, d), ParseTemplateArgs M P, P (NT_Prefix False)], \<lambda>d. Inr (True, d)]]])"
    by (rule never_fails_altp [rotated]) simp
  then show ?thesis
    unfolding ParsePrefix_def [abs_def]
    by (intro never_fails_Cons never_fails_Nil never_fails_steps)
qed

lemma restores_attempts:
  "restores (ParseNestedName M P)" "restores (ParseTemplateArgs M P)" "restores (ParseFunctionType M P)"
  "restores (ParsePointerToMemberType M P)" "restores (ParseBareFunctionType M P)" "restores (ParseLocalName M P)"
  "restores (ParseArrayType M P)" "restores (ParseExprPrimary M P)" "restores (ParseSpecialName M P)"
  unfolding ParseNestedName_def [abs_def] ParseTemplateArgs_def [abs_def] ParseFunctionType_def [abs_def]
    ParsePointerToMemberType_def [abs_def] ParseBareFunctionType_def [abs_def] ParseLocalName_def [abs_def]
    ParseArrayType_def [abs_def] ParseExprPrimary_def [abs_def] ParseSpecialName_def [abs_def]
  by (auto simp del: seqp.simps altp.simps intro!: restores_altp restores_attempt)

lemma parse_step_backtracks:
  assumes "\<And>nt. backtracks nt (P nt)"
  shows "backtracks nt (parse_step M P nt)"
proof -
  have name: "restores (P NT_Name)" using assms [of NT_Name] by simp
  have enc: "restores (ParseEncoding M P)"
    unfolding ParseEncoding_def [abs_def]
    by (auto simp del: seqp.simps altp.simps intro!: restores_altp restores_attempt restores_attempts name)
  have nam: "restores (ParseName M P)"
    unfolding ParseName_def [abs_def]
    by (auto simp del: seqp.simps altp.simps intro!: restores_altp restores_attempt restores_attempts restores_names)
  have ty: "restores (ParseType M P)"
    unfolding ParseType_def [abs_def] ParseClassEnumType_def [abs_def]
    by (auto simp del: seqp.simps altp.simps intro!: restores_altp restores_attempt restores_attempts restores_leaves name)
  have arg: "restores (ParseTemplateArg M P)"
    unfolding ParseTemplateArg_def [abs_def]
    by (auto simp del: seqp.simps altp.simps intro!: restores_altp restores_attempt)
  have expr: "restores (ParseExpression M P)"
    unfolding ParseExpression_def [abs_def]
    by (auto simp del: seqp.simps altp.simps intro!: restores_altp restores_attempt restores_attempts restores_leaves)
  show ?thesis
    using enc nam ty arg expr never_fails_ZeroOrMore never_fails_ParsePrefix
    by (cases nt) (auto simp: restores_def never_fails_def)
qed

lemma parse_backtracks: "backtracks nt (parse M n nt)"
proof (induction n arbitrary: nt)
  case 0
  then show ?case by (cases nt) (auto simp: restores_def never_fails_def)
next
  case (Suc n)
  then have "backtracks nt (parse_step M (parse M n) nt)"
    by (rule parse_step_backtracks)
  moreover have "parse M (Suc n) nt = parse_step M (parse M n) nt"
    by (rule ext) (simp add: parse.simps)
  ultimately show ?case by simp
qed

lemma backtracksD:
  assumes "backtracks nt p" and "p d = Inr (False, d')"
  shows "fst d' = fst d \<and> nt \<notin> {NT_Prefix True, NT_Prefix False, NT_Types, NT_Args}"
proof -
  have no: "\<not> never_fails p" using assms(2) unfolding never_fails_def by blast
  with assms(1) have "restores p" by (cases nt) simp_all
  with assms(2) have "fst d' = fst d" unfolding restores_def by blast
  with assms(1) no show ?thesis by (cases nt) simp_all
qed



section \<open>Names that break the demangler\<close>

lemma append_loop_Lit:
  "0 \<le> i \<Longrightarrow> i + int n \<le> int (length str) \<Longrightarrow> append_loop M (Lit str) n i d \<noteq> Inl Read_Out"
proof (induction n arbitrary: i d)
  case (Suc n)
  obtain s m where d: "d = (s, m)" by (cases d)
  have "cptr_read M m (Lit str) i = Inr (str ! nat i)"
    using Suc.prems by (simp add: cptr_read_def read_at_def)
  moreover have "append_loop M (Lit str) n (i + 1) e \<noteq> Inl Read_Out" for e
    using Suc.prems by (intro Suc.IH) auto
  ultimately show ?case
    by (simp add: d write_buf_def)
qed simp

lemma separator_appended:
  assumes d: "wf_dstate M d"
  obtains e where "MaybeAppendSeparator M d = Inr (True, e)" "wf_dstate M e" "mangled_cur (fst e) = mangled_cur (fst d)"
proof (cases "1 \<le> sint (nest_level (fst d)) \<and> append_flag (fst d)")
  case True
  have "MaybeAppend M (Lit ''::'') d = Append M (Lit ''::'') 2 d"
    using True by (cases d) (simp add: MaybeAppend_def StrLen_at_def MaybeAppendWithLength_def cptr_read_def
        read_at_def IsAlpha_def nul_def)
  moreover have ok: "output_ok M d (Append M (Lit ''::'') 2 d)"
    using Append_ok [OF d, of "Lit ''::''" 2] by (simp add: readable_def)
  moreover have "Append M (Lit ''::'') 2 d \<noteq> Inl Read_Out"
    using append_loop_Lit [of 0 2 "''::''" M d]
    by (auto simp: Append_def write_buf_def split: sum.splits)
  ultimately obtain e' where "MaybeAppend M (Lit ''::'') d = Inr e'" "same_input M d e'"
    by (cases "Append M (Lit ''::'') 2 d") (auto simp: output_ok_def)
  with True that show ?thesis
    by (auto simp: MaybeAppendSeparator_def appending_def doing_def same_input_def)
next
  case False
  then have "MaybeAppendSeparator M d = Inr (True, d)"
    by (auto simp: MaybeAppendSeparator_def appending_def doing_def MaybeAppend_def)
  with d that show ?thesis by blast
qed


text \<open>At the \<open>n2\<close> of \<open>_ZNn2\<close> a source name of length minus two is read: the cursor does not move.\<close>

lemma negative_name_stays:
  assumes "mangled_cur (fst e) = 3"
  shows "altp [ParseTemplateParam ''_ZNn2'', ParseSubstitution ''_ZNn2'', ParseUnscopedName ''_ZNn2'' P] e =
    Inr (True, e)"
proof -
  obtain s m where e: "e = (s, m)" by (cases e)
  with assms have cur: "mangled_cur s = 3" by simp
  have r: "read_at ''_ZNn2'' 3 = Some (CHR ''n'')" "read_at ''_ZNn2'' 4 = Some (CHR ''2'')"
    by (simp_all add: read_at_def)
  have run: "run_length IsDigit ''2'' = 1"
    by (simp add: run_length_def IsDigit_def nul_def)
  have num: "sint (- number_value ''2'') = - 2"
    by (simp add: number_value_def)
  have ident: "ParseIdentifier ''_ZNn2'' (- 2) (t, m) = Inr (True, (advance (- 2) t, m))" for t
    by (simp add: ParseIdentifier_def AtLeastNumCharsRemaining_def IdentifierIsAnonymousNamespace_def
        MaybeAppendWithLength_def)
  have src: "ParseSourceName ''_ZNn2'' (s, m) = Inr (True, (s, m))"
    by (simp add: ParseSourceName_def attempt_def ParseNumber_out_def ParseOneCharToken_def reading_def cur r
        at_cursor_def advance_def run num ident Let_def)
  have op: "ParseOperatorName ''_ZNn2'' P (s, m) = Inr (False, (s, m))"
    by (simp add: ParseOperatorName_def two_chars_def AtLeastNumCharsRemaining_def at_cursor_def cur nul_def
        attempt_def ParseTwoCharToken_def ParseOneCharToken_def reading_def r lower_alpha_def IsLower_def IsAlpha_def)
  have ctor: "ParseCtorDtorName ''_ZNn2'' (s, m) = Inr (False, (s, m))"
    by (simp add: ParseCtorDtorName_def attempt_def ParseOneCharToken_def reading_def cur r)
  have "ParseUnscopedName ''_ZNn2'' P (s, m) = Inr (True, (s, m))"
    by (simp add: ParseUnscopedName_def ParseUnqualifiedName_def op ctor src)
  moreover have "ParseTemplateParam ''_ZNn2'' (s, m) = Inr (False, (s, m))"
    by (simp add: ParseTemplateParam_def attempt_def ParseTwoCharToken_def ParseOneCharToken_def reading_def cur r)
  moreover have "ParseSubstitution ''_ZNn2'' (s, m) = Inr (False, (s, m))"
    by (simp add: ParseSubstitution_def attempt_def ParseTwoCharToken_def ParseOneCharToken_def reading_def cur r)
  ultimately show ?thesis
    by (simp add: e)
qed

lemma prefix_diverges:
  "wf_dstate ''_ZNn2'' d \<Longrightarrow> mangled_cur (fst d) = 3 \<Longrightarrow> parse ''_ZNn2'' n (NT_Prefix b) d = Inl No_Fuel"
proof (induction n arbitrary: d b)
  case (Suc n)
  obtain e where e: "MaybeAppendSeparator ''_ZNn2'' d = Inr (True, e)" "wf_dstate ''_ZNn2'' e" "mangled_cur (fst e) = 3"
    using separator_appended [OF Suc.prems(1)] Suc.prems(2) by metis
  obtain f where f: "MaybeIncreaseNestLevel e = Inr (True, f)" "wf_dstate ''_ZNn2'' f" "mangled_cur (fst f) = 3"
    using e(2,3) by (auto simp: MaybeIncreaseNestLevel_def setting_def wf_dstate_def)
  have "parse ''_ZNn2'' n (NT_Prefix True) f = Inl No_Fuel"
    using f(2,3) by (rule Suc.IH)
  then show ?case
    using e(1) f(1) negative_name_stays [OF e(3), of "parse ''_ZNn2'' n"]
    by (simp add: parse.simps ParsePrefix_def del: altp.simps) (simp only: altp.simps seqp.simps, simp)
qed simp


lemma name_diverges:
  assumes d: "wf_dstate ''_ZNn2'' d" and cur: "mangled_cur (fst d) = 2"
  shows "parse ''_ZNn2'' n NT_Name d = Inl No_Fuel"
proof (cases n)
  case (Suc k)
  obtain s m where sm: "d = (s, m)" by (cases d)
  let ?d = "((advance 1 s)\<lparr>nest_level := 0\<rparr>, m)"
  have r: "read_at ''_ZNn2'' 2 = Some (CHR ''N'')" "read_at ''_ZNn2'' 3 = Some (CHR ''n'')"
    by (simp_all add: read_at_def)
  have "wf_dstate ''_ZNn2'' ?d" "mangled_cur (fst ?d) = 3"
    using d cur sm by (auto simp: wf_dstate_def advance_def)
  then have "parse ''_ZNn2'' k (NT_Prefix False) ?d = Inl No_Fuel"
    by (rule prefix_diverges)
  moreover have "Optional (ParseCVQualifiers ''_ZNn2'') ?d = Inr (True, ?d)"
    using cur sm by (simp add: Optional_def ParseCVQualifiers_def ParseOneCharToken_def reading_def advance_def r)
  moreover have "ParseOneCharToken ''_ZNn2'' (CHR ''N'') d = Inr (True, (advance 1 s, m))"
    using cur sm by (simp add: ParseOneCharToken_def reading_def r)
  ultimately have "ParseNestedName ''_ZNn2'' (parse ''_ZNn2'' k) d = Inl No_Fuel"
    by (simp add: ParseNestedName_def attempt_def EnterNestedName_def setting_def)
  then show ?thesis
    by (simp add: Suc parse.simps ParseName_def)
qed simp

text \<open>
  C16.  The demangler does not terminate on \<open>_ZNn2\<close>: whatever the bound on its recursion and its loops,
  and whatever the output buffer, it is reached.  The length of the source name is minus two, so
  the cursor moves back over the number and the loop of \<open>ParsePrefix\<close> reads it again.
\<close>

theorem demangle_diverges: "Demangle fuel ''_ZNn2'' out = Inl No_Fuel"
proof -
  let ?M = "''_ZNn2''" and ?d = "(InitState (int (length out)), out)"
  let ?e = "(advance 2 (InitState (int (length out))), out)"
  have "wf_dstate ?M ?e" "mangled_cur (fst ?e) = 2"
    using InitState_wf [of ?M out] by (auto simp: wf_dstate_def advance_def InitState_def)
  then have "parse ?M n NT_Name ?e = Inl No_Fuel" for n
    by (rule name_diverges)
  then have "parse ?M fuel NT_Encoding ?e = Inl No_Fuel"
    by (cases fuel) (simp_all add: parse.simps ParseEncoding_def attempt_def)
  moreover have "ParseTwoCharToken ?M ''_Z'' ?d = Inr (True, ?e)"
    by (simp add: ParseTwoCharToken_def reading_def InitState_def read_at_def)
  ultimately have "ParseMangledName ?M (parse ?M fuel) ?d = Inl No_Fuel"
    by (simp add: ParseMangledName_def)
  then show ?thesis
    by (simp add: Demangle_def ParseTopLevelMangledName_def)
qed


text \<open>
  What the demangler prints for constructors, destructors, operators and members of templates,
  without the arguments; a buffer one byte too short makes it report failure.
\<close>

theorem demangle_examples:
  "Demangle 50 ''_ZN3FooD1Ev'' (blank 12) = Inr (True, ''Foo::~Foo()'' @ [nul]) \<and>
   Demangle 60 ''_ZplRK3FooS1_'' (blank 12) = Inr (True, ''operator+()'' @ [nul]) \<and>
   Demangle 70 ''_ZN3fooIiE3barEv'' (blank 13) = Inr (True, ''foo<>::bar()'' @ [nul]) \<and>
   Demangle 70 ''_ZN3fooIiE3barEv'' (blank 12) = Inr (False, ''foo<>::ba()#'')"
proof (intro conjI)
  show "Demangle 50 ''_ZN3FooD1Ev'' (blank 12) = Inr (True, ''Foo::~Foo()'' @ [nul])" by code_simp
  show "Demangle 60 ''_ZplRK3FooS1_'' (blank 12) = Inr (True, ''operator+()'' @ [nul])" by code_simp
  show "Demangle 70 ''_ZN3fooIiE3barEv'' (blank 13) = Inr (True, ''foo<>::bar()'' @ [nul])" by code_simp
  show "Demangle 70 ''_ZN3fooIiE3barEv'' (blank 12) = Inr (False, ''foo<>::ba()#'')" by code_simp
qed

end
