(* ===== verification/C_Strings.thy ===== *)
theory C_Strings
  imports Cpp_Strings
begin

text \<open>
  The C library string functions that the vendored libraries use.  A \<open>const char*\<close> is the list of
  bytes up to its NUL, the empty list standing for a pointer at the NUL; a pointer into a string is
  the suffix it points to, and \<open>NULL\<close> is \<open>None\<close>.
\<close>

section \<open>Searching and comparing\<close>

text \<open>\<open>std::string::c_str()\<close> read as a C string ends at the first NUL byte.\<close>

definition c_str :: "string \<Rightarrow> string" where
  "c_str s = takeWhile (\<lambda>c. c \<noteq> CHR 0x00) s"

text \<open>\<open>strchr(s, c)\<close> and \<open>strrchr(s, c)\<close> for a \<open>c\<close> other than NUL.\<close>

fun strchr :: "string \<Rightarrow> char \<Rightarrow> string option" where
  "strchr [] c = None"
| "strchr (a # s) c = (if a = c then Some (a # s) else strchr s c)"

fun strrchr :: "string \<Rightarrow> char \<Rightarrow> string option" where
  "strrchr [] c = None"
| "strrchr (a # s) c =
    (case strrchr s c of Some t \<Rightarrow> Some t | None \<Rightarrow> if a = c then Some (a # s) else None)"

text \<open>\<open>std::string(s, t)\<close> for a pointer \<open>t\<close> into \<open>s\<close>: the characters before \<open>t\<close>.\<close>

definition upto_ptr :: "string \<Rightarrow> string \<Rightarrow> string" where
  "upto_ptr s t = take (length s - length t) s"

text \<open>\<open>strncmp(s, t, strlen(t)) == 0\<close>.\<close>

fun has_prefix :: "string \<Rightarrow> string \<Rightarrow> bool" where
  "has_prefix [] s \<longleftrightarrow> True"
| "has_prefix (c # p) [] \<longleftrightarrow> False"
| "has_prefix (c # p) (d # s) \<longleftrightarrow> c = d \<and> has_prefix p s"

text \<open>\<open>toupper\<close> and \<open>tolower\<close> in the "C" locale.\<close>

definition toupper :: "char \<Rightarrow> char" where
  "toupper c = (let n = (of_char c :: nat) in if 97 \<le> n \<and> n \<le> 122 then char_of (n - 32) else c)"

definition tolower :: "char \<Rightarrow> char" where
  "tolower c = (let n = (of_char c :: nat) in if 65 \<le> n \<and> n \<le> 90 then char_of (n + 32) else c)"

text \<open>
  \<open>strtol(s, &end, 10)\<close>: the value, clamped to \<open>long\<close>, and \<open>end\<close>.  Without digits the value is 0
  and \<open>end\<close> is \<open>s\<close>.
\<close>

definition strtol :: "string \<Rightarrow> int \<times> string" where
  "strtol s =
    (let (neg, t) = split_sign (dropWhile is_space s);
         ds = takeWhile is_digit t;
         v = (if neg then - int (digits_val ds) else int (digits_val ds))
     in if ds = [] then (0, s)
        else (max (- (2 ^ 63)) (min (2 ^ 63 - 1) v), dropWhile is_digit t))"

section \<open>Laws\<close>

lemma strchr_None_iff: "strchr s c = None \<longleftrightarrow> c \<notin> set s"
  by (induction s) auto

lemma strchr_SomeD:
  "strchr s c = Some t \<Longrightarrow> \<exists>u r. s = u @ t \<and> t = c # r \<and> c \<notin> set u"
proof (induction s)
  case (Cons a s)
  show ?case
  proof (cases "a = c")
    case True
    with Cons.prems show ?thesis by auto
  next
    case False
    with Cons obtain u r where "s = u @ t" "t = c # r" "c \<notin> set u" by auto
    with False have "a # s = (a # u) @ t \<and> t = c # r \<and> c \<notin> set (a # u)" by simp
    then show ?thesis by blast
  qed
qed simp

lemma strchr_append: "c \<notin> set u \<Longrightarrow> strchr (u @ c # r) c = Some (c # r)"
  by (induction u) auto

lemma strchr_length: "strchr s c = Some t \<Longrightarrow> length t \<le> length s \<and> t \<noteq> []"
  by (auto dest!: strchr_SomeD)

lemma strchr_drop: "strchr s c = Some t \<Longrightarrow> length t - Suc 0 < length s"
  by (auto dest!: strchr_SomeD)

lemma upto_ptr_append [simp]: "upto_ptr (u @ t) t = u"
  by (simp add: upto_ptr_def)

lemma has_prefix_iff: "has_prefix p s \<longleftrightarrow> (\<exists>r. s = p @ r)"
  by (induction p s rule: has_prefix.induct) auto

lemma has_prefix_append [simp]: "has_prefix p (p @ r)"
  by (simp add: has_prefix_iff)

lemma strtol_print:
  assumes "- (2 ^ 63) \<le> i" and "i < 2 ^ 63" and "stops is_digit r"
  shows "strtol (int_to_string i @ r) = (i, r)"
proof -
  have run: "\<forall>c \<in> set (nat_to_string n). is_digit c" for n
    by (rule nat_to_string_all) simp
  show ?thesis
    using assms takeWhile_run [OF run assms(3)]
    by (auto simp: strtol_def dropWhile_space_int split_sign_int Let_def)
qed

section \<open>Time and streams\<close>

text \<open>\<open>struct tm\<close> of \<open>time.h\<close>, the fields that are read.\<close>

record tm =
  tm_year :: int
  tm_mon :: int
  tm_mday :: int
  tm_hour :: int
  tm_min :: int
  tm_sec :: int

text \<open>\<open>stream << setfill(c) << setw(w) << n\<close>.\<close>

definition setw :: "nat \<Rightarrow> char \<Rightarrow> int \<Rightarrow> string" where
  "setw w c n = (let s = int_to_string n in replicate (w - length s) c @ s)"

lemma length_setw: "w \<le> length (setw w c n)"
  by (simp add: setw_def Let_def)

end
