(* ===== verification/Glob.thy ===== *)
theory Glob
  imports C_Strings
begin

text \<open>
  Wildcard patterns.  Two of the vendored libraries match names against patterns with \<open>*\<close> and \<open>?\<close>:
  \<open>UnitTestOptions::PatternMatchesString\<close> of googletest and \<open>SafeFNMatch_\<close> of glog.  Here is what
  such a pattern means, and the locale of the matchers that compute it.
\<close>

text \<open>The strings one pattern character stands for, and a pattern as a concatenation of these.\<close>

definition piece :: "char \<Rightarrow> string \<Rightarrow> bool" where
  "piece c w \<longleftrightarrow>
    (if c = CHR ''*'' then True else if c = CHR ''?'' then length w = 1 else w = [c])"

definition glob :: "string \<Rightarrow> string \<Rightarrow> bool" where
  "glob p s \<longleftrightarrow> (\<exists>ws. list_all2 piece p ws \<and> concat ws = s)"

lemma glob_Nil [simp]: "glob [] s \<longleftrightarrow> s = []"
  by (auto simp: glob_def)

lemma glob_Cons: "glob (c # p) s \<longleftrightarrow> (\<exists>u v. s = u @ v \<and> piece c u \<and> glob p v)"
proof
  assume "glob (c # p) s"
  then obtain ws where "list_all2 piece (c # p) ws" "concat ws = s"
    unfolding glob_def by blast
  then show "\<exists>u v. s = u @ v \<and> piece c u \<and> glob p v"
    by (cases ws) (auto simp: glob_def)
next
  assume "\<exists>u v. s = u @ v \<and> piece c u \<and> glob p v"
  then obtain u v ws where "s = u @ v" "piece c u" "list_all2 piece p ws" "concat ws = v"
    unfolding glob_def by blast
  then show "glob (c # p) s"
    unfolding glob_def by (intro exI [of _ "u # ws"]) simp
qed

lemma glob_star: "glob (CHR ''*'' # p) s \<longleftrightarrow> (\<exists>u v. s = u @ v \<and> glob p v)"
  by (simp add: glob_Cons piece_def)

lemma glob_star_Nil [simp]: "glob (CHR ''*'' # p) [] \<longleftrightarrow> glob p []"
  by (simp add: glob_star)

lemma glob_star_Cons:
  "glob (CHR ''*'' # p) (c # s) \<longleftrightarrow> glob p (c # s) \<or> glob (CHR ''*'' # p) s"
  by (auto simp: glob_star Cons_eq_append_conv)

lemma glob_any [simp]: "glob (CHR ''?'' # p) s \<longleftrightarrow> (\<exists>c t. s = c # t \<and> glob p t)"
proof -
  have "piece (CHR ''?'') u \<longleftrightarrow> (\<exists>c. u = [c])" for u
    by (simp add: piece_def length_Suc_conv)
  then have "glob (CHR ''?'' # p) s \<longleftrightarrow> (\<exists>c v. s = [c] @ v \<and> glob p v)"
    by (auto simp only: glob_Cons)
  then show ?thesis by simp
qed

lemma glob_char:
  "c \<noteq> CHR ''*'' \<Longrightarrow> c \<noteq> CHR ''?'' \<Longrightarrow> glob (c # p) s \<longleftrightarrow> (\<exists>t. s = c # t \<and> glob p t)"
  by (auto simp: glob_Cons piece_def)

lemma glob_star_all: "glob ''*'' s"
  by (simp add: glob_star)

lemma glob_literal:
  "CHR ''*'' \<notin> set p \<Longrightarrow> CHR ''?'' \<notin> set p \<Longrightarrow> glob p s \<longleftrightarrow> s = p"
proof (induction p arbitrary: s)
  case (Cons c p)
  then have "c \<noteq> CHR ''*''" "c \<noteq> CHR ''?''" "\<And>s. glob p s \<longleftrightarrow> s = p" by auto
  then show ?case by (simp add: glob_char)
qed simp

lemma glob_stars: "glob p [] \<longleftrightarrow> (\<forall>c \<in> set p. c = CHR ''*'')"
proof (induction p)
  case (Cons c p)
  consider "c = CHR ''*''" | "c = CHR ''?''" | "c \<noteq> CHR ''*''" "c \<noteq> CHR ''?''" by blast
  then show ?case
    using Cons.IH by cases (simp_all add: glob_char)
qed simp

lemma glob_prefix: "glob (p @ ''*'') (p @ s)"
proof (induction p)
  case Nil
  show ?case by (simp add: glob_star_all)
next
  case (Cons c p)
  have "piece c [c]" by (simp add: piece_def)
  then show ?case
    unfolding append_Cons glob_Cons using Cons by (intro exI [of _ "[c]"] exI [of _ "p @ s"]) simp
qed

section \<open>Matchers\<close>

text \<open>
  A matcher computes \<open>glob\<close> on the patterns it accepts and the subjects it accepts.
\<close>

locale wildcard_matcher =
  fixes matches :: "string \<Rightarrow> string \<Rightarrow> bool"
    and pattern_ok :: "string \<Rightarrow> bool"
    and subject_ok :: "string \<Rightarrow> bool"
  assumes matches_glob: "pattern_ok p \<Longrightarrow> subject_ok s \<Longrightarrow> matches p s \<longleftrightarrow> glob p s"
begin

lemma matches_star: "pattern_ok ''*'' \<Longrightarrow> subject_ok s \<Longrightarrow> matches ''*'' s"
  by (simp add: matches_glob glob_star_all)

lemma matches_literal:
  assumes "pattern_ok p" and "subject_ok s" and "CHR ''*'' \<notin> set p" and "CHR ''?'' \<notin> set p"
  shows "matches p s \<longleftrightarrow> s = p"
  using assms by (simp add: matches_glob glob_literal)

lemma matches_prefix: "pattern_ok (p @ ''*'') \<Longrightarrow> subject_ok (p @ s) \<Longrightarrow> matches (p @ ''*'') (p @ s)"
  by (simp add: matches_glob glob_prefix)

end

end
