(* ===== verification/Glog_Vlog.thy ===== *)
theory Glog_Vlog
  imports Glob
begin

text \<open>
  Verbose logging levels per module, \<open>lib/glog/src/vlog_is_on.cc\<close>: the wildcard matcher
  \<open>SafeFNMatch_\<close>, the list of module patterns that \<open>--vmodule\<close> and \<open>SetVLOGLevel\<close> build, and the
  lookup \<open>InitVLOG3__\<close> that a logging site performs once and caches as a pointer to a level.
\<close>

section \<open>The matcher\<close>

text \<open>
  \<open>SafeFNMatch_\<close>: the loop over both strings; \<open>star_loop\<close> is the \<open>do ... while\<close> loop that tries the
  rest of the pattern on every non-empty suffix.
\<close>

function (sequential) SafeFNMatch :: "string \<Rightarrow> string \<Rightarrow> bool"
  and star_loop :: "string \<Rightarrow> string \<Rightarrow> bool"
where
  "SafeFNMatch [] [] = True"
| "SafeFNMatch [] (d # str) = False"
| "SafeFNMatch (c # pattern) [] = (pattern = [] \<and> c = CHR ''*'')"
| "SafeFNMatch (c # pattern) (d # str) =
    (if c = d \<or> c = CHR ''?'' then SafeFNMatch pattern str
     else if c = CHR ''*'' then (if pattern = [] then True else star_loop pattern (d # str))
     else False)"
| "star_loop pattern str =
    (if SafeFNMatch pattern str then True
     else (case str of [] \<Rightarrow> False | _ # [] \<Rightarrow> False | _ # str' \<Rightarrow> star_loop pattern str'))"
  by pat_completeness auto
termination
  by (relation "measures [case_sum (length \<circ> fst) (length \<circ> fst),
        case_sum (length \<circ> snd) (length \<circ> snd), case_sum (\<lambda>_. 0) (\<lambda>_. 1)]") auto

declare star_loop.simps [simp del]

text \<open>
  It computes the language of the pattern when the pattern has no two stars in a row and the
  subject has no star.
\<close>

fun single_stars :: "string \<Rightarrow> bool" where
  "single_stars (c # d # p) \<longleftrightarrow> \<not> (c = CHR ''*'' \<and> d = CHR ''*'') \<and> single_stars (d # p)"
| "single_stars p \<longleftrightarrow> True"

lemma single_stars_tl: "single_stars (c # p) \<Longrightarrow> single_stars p"
  by (cases p) auto

lemma glob_star_suffix:
  assumes "p \<noteq> []" "single_stars (CHR ''*'' # p)"
  shows "\<not> glob p []"
  using assms by (cases p) (auto simp: glob_stars)

lemma SafeFNMatch_glob:
  "single_stars p \<Longrightarrow> CHR ''*'' \<notin> set s \<Longrightarrow> SafeFNMatch p s \<longleftrightarrow> glob p s"
  "single_stars (CHR ''*'' # p) \<Longrightarrow> p \<noteq> [] \<Longrightarrow> CHR ''*'' \<notin> set s \<Longrightarrow>
     star_loop p s \<longleftrightarrow> glob (CHR ''*'' # p) s"
proof (induction p s and p s rule: SafeFNMatch_star_loop.induct)
  case (3 c p)
  then show ?case
    by (cases p) (auto simp: glob_stars)
next
  case (4 c p d s)
  from 4(3) have tl: "single_stars p" by (rule single_stars_tl)
  from 4(4) have d: "d \<noteq> CHR ''*''" and s: "CHR ''*'' \<notin> set s" by auto
  consider "c = CHR ''?''" | "c = CHR ''*''" | "c \<noteq> CHR ''?''" "c \<noteq> CHR ''*''" by blast
  then show ?case
  proof cases
    case 1
    with 4(1) tl s show ?thesis by simp
  next
    case 2
    show ?thesis
    proof (cases "p = []")
      case True
      with 2 d show ?thesis by (simp add: glob_star_all)
    next
      case False
      with 2 4(2-4) d show ?thesis by simp
    qed
  next
    case 3
    with 4(1) tl s show ?thesis by (auto simp: glob_char)
  qed
next
  case (5 p s)
  from 5(3) have tl: "single_stars p" by (rule single_stars_tl)
  have empty: "\<not> glob p []" by (rule glob_star_suffix) fact+
  show ?case
  proof (cases s)
    case Nil
    with 5(1) tl empty show ?thesis by (simp add: star_loop.simps)
  next
    case (Cons d s')
    have head: "SafeFNMatch p s \<longleftrightarrow> glob p s" using 5(1) tl "5.prems" by simp
    show ?thesis
    proof (cases s')
      case Nil
      with Cons head empty show ?thesis
        by (subst star_loop.simps) (simp add: glob_star_Cons)
    next
      case (Cons e s'')
      with \<open>s = d # s'\<close> head 5(2) "5.prems" show ?thesis
        by (subst star_loop.simps) (auto simp: glob_star_Cons)
    qed
  qed
qed simp_all

interpretation glog_matcher: wildcard_matcher SafeFNMatch
  single_stars "\<lambda>s. CHR ''*'' \<notin> set s"
  by unfold_locales (simp add: SafeFNMatch_glob(1))

lemma SafeFNMatch_refl: "SafeFNMatch p p"
  by (induction p) auto

section \<open>The list of module levels\<close>

record VModuleInfo =
  module_pattern :: string
  vlog_level :: cint

record VlogState =
  FLAGS_v :: cint
  FLAGS_vmodule :: string
  vmodule_list :: "VModuleInfo list"
  inited_vmodule :: bool

text \<open>\<open>sscanf(sep, "=%d", ...)\<close> after the equals sign; a value beyond \<open>int\<close> is truncated.\<close>

definition sscanf_int :: "string \<Rightarrow> cint option" where
  "sscanf_int s = (let (v, e) = strtol s in if e = s then None else Some (of_int v))"

function parse_vmodule :: "string \<Rightarrow> VModuleInfo list" where
  "parse_vmodule vmodule =
    (case strchr vmodule (CHR ''='') of
       None \<Rightarrow> []
     | Some sep \<Rightarrow>
        (case sscanf_int (drop 1 sep) of
           Some module_level \<Rightarrow>
             [\<lparr>module_pattern = upto_ptr vmodule sep, vlog_level = module_level\<rparr>]
         | None \<Rightarrow> []) @
        (case strchr sep (CHR '','') of None \<Rightarrow> [] | Some comma \<Rightarrow> parse_vmodule (drop 1 comma)))"
  by pat_completeness auto
termination
proof (relation "measure length")
  fix vmodule sep comma
  assume "strchr vmodule (CHR ''='') = Some sep" "strchr sep (CHR '','') = Some comma"
  from strchr_length [OF this(1)] strchr_drop [OF this(2)]
  show "(drop 1 comma, vmodule) \<in> measure length" by simp
qed simp

declare parse_vmodule.simps [simp del]

definition VLOG2Initializer :: "VlogState \<Rightarrow> VlogState" where
  "VLOG2Initializer st =
     st\<lparr>vmodule_list := parse_vmodule (c_str (FLAGS_vmodule st)) @ vmodule_list st,
        inited_vmodule := True\<rparr>"

text \<open>The loop of \<open>SetVLOGLevel\<close> with its variables \<open>result\<close> and \<open>found\<close>.\<close>

fun set_level_loop ::
  "string \<Rightarrow> cint \<Rightarrow> cint \<Rightarrow> bool \<Rightarrow> VModuleInfo list \<Rightarrow> cint \<times> bool \<times> VModuleInfo list"
where
  "set_level_loop pat log_level result found [] = (result, found, [])"
| "set_level_loop pat log_level result found (info # infos) =
    (if module_pattern info = pat then
       (case set_level_loop pat log_level (if found then result else vlog_level info) True infos of
          (r, f, infos') \<Rightarrow> (r, f, info\<lparr>vlog_level := log_level\<rparr> # infos'))
     else if \<not> found \<and> SafeFNMatch (module_pattern info) pat then
       (case set_level_loop pat log_level (vlog_level info) True infos of
          (r, f, infos') \<Rightarrow> (r, f, info # infos'))
     else
       (case set_level_loop pat log_level result found infos of
          (r, f, infos') \<Rightarrow> (r, f, info # infos')))"

definition SetVLOGLevel :: "string \<Rightarrow> cint \<Rightarrow> VlogState \<Rightarrow> cint \<times> VlogState" where
  "SetVLOGLevel pat log_level st =
    (case set_level_loop pat log_level (FLAGS_v st) False (vmodule_list st) of
       (result, found, infos) \<Rightarrow>
         (result, st\<lparr>vmodule_list :=
           (if found then infos
            else \<lparr>module_pattern = pat, vlog_level = log_level\<rparr> # infos)\<rparr>))"

section \<open>Logging sites\<close>

text \<open>
  A site caches a pointer to a level: the flag \<open>FLAGS_v\<close>, or the level of an entry of the list.
  Entries are only ever added in front, so the number of entries behind one is its address.
\<close>

datatype level_ptr = Default_Level | Entry_Level nat

definition deref :: "VlogState \<Rightarrow> level_ptr \<Rightarrow> cint" where
  "deref st p =
    (case p of
       Default_Level \<Rightarrow> FLAGS_v st
     | Entry_Level k \<Rightarrow> vlog_level (rev (vmodule_list st) ! k))"

text \<open>The file name without directory, extension and \<open>-inl\<close>.\<close>

definition module_base :: "string \<Rightarrow> string" where
  "module_base fname =
    (let base = (case strrchr fname (CHR ''/'') of None \<Rightarrow> fname | Some s \<Rightarrow> drop 1 s);
         stem = (case strchr base (CHR ''.'') of None \<Rightarrow> base | Some e \<Rightarrow> upto_ptr base e)
     in if 4 \<le> length stem \<and> drop (length stem - 4) stem = ''-inl'' then take (length stem - 4) stem
        else stem)"

fun find_module :: "string \<Rightarrow> VModuleInfo list \<Rightarrow> level_ptr option" where
  "find_module base [] = None"
| "find_module base (info # infos) =
    (if SafeFNMatch (module_pattern info) base then Some (Entry_Level (length infos))
     else find_module base infos)"

text \<open>\<open>InitVLOG3__\<close> with \<open>site_default\<close> pointing to \<open>FLAGS_v\<close>; \<open>site_flag\<close> is the cached pointer.\<close>

definition InitVLOG3 ::
  "level_ptr option \<Rightarrow> string \<Rightarrow> cint \<Rightarrow> VlogState \<Rightarrow> bool \<times> level_ptr option \<times> VlogState"
where
  "InitVLOG3 site_flag fname verbose_level st =
    (let read_vmodule_flag = inited_vmodule st;
         st' = (if read_vmodule_flag then st else VLOG2Initializer st);
         site_flag_value =
           (case find_module (module_base fname) (vmodule_list st') of
              None \<Rightarrow> Default_Level | Some p \<Rightarrow> p)
     in (verbose_level \<le>s deref st' site_flag_value,
         if read_vmodule_flag then Some site_flag_value else site_flag, st'))"

section \<open>What the levels are after a change\<close>

text \<open>The level that applies to a module, as a new site would find it.\<close>

definition level_of :: "string \<Rightarrow> VlogState \<Rightarrow> cint" where
  "level_of base st =
     deref st (case find_module base (vmodule_list st) of None \<Rightarrow> Default_Level | Some p \<Rightarrow> p)"

definition applies :: "string \<Rightarrow> VModuleInfo \<Rightarrow> bool" where
  "applies base info \<longleftrightarrow> SafeFNMatch (module_pattern info) base"

definition relevel :: "string \<Rightarrow> cint \<Rightarrow> VModuleInfo \<Rightarrow> VModuleInfo" where
  "relevel pat l info = (if module_pattern info = pat then info\<lparr>vlog_level := l\<rparr> else info)"

lemma applies_self [simp]: "applies pat \<lparr>module_pattern = pat, vlog_level = l\<rparr>"
  by (simp add: applies_def SafeFNMatch_refl)

lemma applies_relevel [simp]: "applies base (relevel pat l info) = applies base info"
  by (simp add: applies_def relevel_def)

lemma find_module_find:
  "find_module base infos = None \<longleftrightarrow> find (applies base) infos = None"
  "find_module base infos = Some p \<Longrightarrow>
     \<exists>k < length infos. p = Entry_Level k \<and> find (applies base) infos = Some (rev infos ! k)"
proof -
  show "find_module base infos = None \<longleftrightarrow> find (applies base) infos = None"
    by (induction infos) (simp_all add: applies_def)
next
  show "\<exists>k < length infos. p = Entry_Level k \<and> find (applies base) infos = Some (rev infos ! k)"
    if "find_module base infos = Some p"
    using that
  proof (induction infos)
    case (Cons i infos)
    show ?case
    proof (cases "applies base i")
      case True
      with Cons.prems show ?thesis
        by (intro exI [of _ "length infos"]) (simp add: applies_def nth_append)
    next
      case False
      with Cons.prems have "find_module base infos = Some p" by (simp add: applies_def)
      with Cons.IH obtain k where "k < length infos" "p = Entry_Level k"
          "find (applies base) infos = Some (rev infos ! k)"
        by blast
      with False show ?thesis by (intro exI [of _ k]) (simp add: nth_append)
    qed
  qed simp
qed

lemma level_of_find:
  "level_of base st =
    (case find (applies base) (vmodule_list st) of None \<Rightarrow> FLAGS_v st | Some info \<Rightarrow> vlog_level info)"
proof (cases "find_module base (vmodule_list st)")
  case None
  moreover from this have "find (applies base) (vmodule_list st) = None"
    by (simp only: find_module_find(1))
  ultimately show ?thesis by (simp add: level_of_def deref_def)
next
  case (Some p)
  from find_module_find(2) [OF this] Some show ?thesis by (auto simp: level_of_def deref_def)
qed

lemma set_level_loop_found:
  "set_level_loop pat l r True infos = (r, True, map (relevel pat l) infos)"
  by (induction infos) (simp_all add: relevel_def)

lemma set_level_loop_eq:
  "set_level_loop pat l r False infos =
    (case find (applies pat) infos of
       None \<Rightarrow> (r, False, map (relevel pat l) infos)
     | Some info \<Rightarrow> (vlog_level info, True, map (relevel pat l) infos))"
proof (induction infos)
  case (Cons i infos)
  consider "module_pattern i = pat" | "module_pattern i \<noteq> pat" "applies pat i"
    | "module_pattern i \<noteq> pat" "\<not> applies pat i" by blast
  then show ?case
  proof cases
    case 1
    then have "applies pat i" by (auto simp: applies_def SafeFNMatch_refl)
    with 1 show ?thesis by (simp add: set_level_loop_found relevel_def)
  next
    case 2
    then show ?thesis by (simp add: set_level_loop_found relevel_def applies_def)
  next
    case 3
    with Cons show ?thesis by (simp add: relevel_def applies_def split: option.splits)
  qed
qed simp

lemma find_relevel:
  "find (applies base) (map (relevel pat l) infos) =
     map_option (relevel pat l) (find (applies base) infos)"
  by (induction infos) simp_all

lemma vlog_level_relevel:
  "vlog_level (relevel pat l i) = (if module_pattern i = pat then l else vlog_level i)"
  by (simp add: relevel_def)

lemma relevel_none:
  assumes "find (applies pat) infos = None"
  shows "map (relevel pat l) infos = infos"
proof (rule map_idI)
  fix i assume "i \<in> set infos"
  with assms have "\<not> applies pat i" by (simp add: find_None_iff)
  then have "module_pattern i \<noteq> pat" by (auto simp: applies_def SafeFNMatch_refl)
  then show "relevel pat l i = i" by (simp add: relevel_def)
qed

text \<open>
  \<open>SetVLOGLevel\<close> returns the level that applied to the pattern before.  Afterwards the new level
  applies to it exactly when the first entry that matches it is the pattern itself, or when there
  is none; a site that has cached the level of an entry reads the new level exactly when that entry
  is for the very same pattern.
\<close>

theorem set_vlog_level:
  assumes "SetVLOGLevel pat l st = (r, st')"
  shows "r = level_of pat st \<and>
    level_of pat st' =
      (case find (applies pat) (vmodule_list st) of
         None \<Rightarrow> l
       | Some info \<Rightarrow> if module_pattern info = pat then l else vlog_level info) \<and>
    (\<forall>k < length (vmodule_list st).
       deref st' (Entry_Level k) =
         (if module_pattern (rev (vmodule_list st) ! k) = pat then l
          else deref st (Entry_Level k)))"
proof (cases "find (applies pat) (vmodule_list st)")
  case None
  with assms have r: "r = FLAGS_v st"
    and st': "st' = st\<lparr>vmodule_list := \<lparr>module_pattern = pat, vlog_level = l\<rparr> # vmodule_list st\<rparr>"
    by (simp_all add: SetVLOGLevel_def set_level_loop_eq relevel_none)
  have other: "module_pattern (rev (vmodule_list st) ! k) \<noteq> pat"
    if "k < length (vmodule_list st)" for k
  proof -
    have "rev (vmodule_list st) ! k \<in> set (vmodule_list st)"
      using that by (metis length_rev nth_mem set_rev)
    with None have "\<not> applies pat (rev (vmodule_list st) ! k)" by (simp add: find_None_iff)
    then show ?thesis by (auto simp: applies_def SafeFNMatch_refl)
  qed
  with None r st' show ?thesis by (simp add: level_of_find deref_def nth_append)
next
  case (Some info)
  with assms have "r = vlog_level info"
    and "st' = st\<lparr>vmodule_list := map (relevel pat l) (vmodule_list st)\<rparr>"
    by (simp_all add: SetVLOGLevel_def set_level_loop_eq)
  with Some show ?thesis
    by (simp add: level_of_find find_relevel vlog_level_relevel deref_def rev_map)
qed

definition two_modules :: VlogState where
  "two_modules = \<lparr>FLAGS_v = 0, FLAGS_vmodule = [],
     vmodule_list = [\<lparr>module_pattern = ''ra*'', vlog_level = 1\<rparr>,
                     \<lparr>module_pattern = ''raft'', vlog_level = 2\<rparr>], inited_vmodule = True\<rparr>"

theorem set_vlog_level_witness:
  "fst (SetVLOGLevel ''raft'' 5 two_modules) = level_of ''raft'' two_modules \<and>
   level_of ''raft'' two_modules = 1 \<and>
   level_of ''raft'' (snd (SetVLOGLevel ''raft'' 5 two_modules)) = 1 \<and>
   deref (snd (SetVLOGLevel ''raft'' 5 two_modules)) (Entry_Level 0) = 5"
proof -
  have "find (applies ''raft'') (vmodule_list two_modules) =
      Some \<lparr>module_pattern = ''ra*'', vlog_level = 1\<rparr>"
    by code_simp
  then show ?thesis
    using set_vlog_level [OF prod.collapse [symmetric], of "''raft''" 5 two_modules]
    by (simp add: level_of_find two_modules_def)
qed

section \<open>The flag\<close>

fun print_vmodule :: "VModuleInfo list \<Rightarrow> string" where
  "print_vmodule [] = []"
| "print_vmodule (i # is) =
     module_pattern i @ ''='' @ to_string (vlog_level i) @
     (if is = [] then [] else CHR '','' # print_vmodule is)"

lemma sscanf_int_print:
  assumes "stops is_digit r"
  shows "sscanf_int (to_string w @ r) = Some w"
proof -
  have "strtol (to_string w @ r) = (sint w, r)"
    unfolding to_string_def using sint_cint_range [of w]
    by (intro strtol_print assms) simp_all
  then show ?thesis by (simp add: sscanf_int_def)
qed

lemma to_string_no_comma: "CHR '','' \<notin> set (to_string w)"
proof -
  have "\<forall>c \<in> set (to_string w). c \<noteq> CHR '',''"
    by (rule to_string_all) (simp_all add: digit_char_neq)
  then show ?thesis by blast
qed

text \<open>
  Reading the \<open>--vmodule\<close> flag gives back the entries written into it, in their order, when the
  patterns have neither an equals sign nor a comma.
\<close>

theorem vmodule_roundtrip:
  assumes "\<forall>i \<in> set infos. CHR ''='' \<notin> set (module_pattern i) \<and> CHR '','' \<notin> set (module_pattern i)"
  shows "parse_vmodule (print_vmodule infos) = infos"
  using assms
proof (induction infos)
  case Nil
  show ?case by (simp add: parse_vmodule.simps)
next
  case (Cons i infos)
  let ?rest = "if infos = [] then [] else CHR '','' # print_vmodule infos"
  let ?sep = "CHR ''='' # to_string (vlog_level i) @ ?rest"
  from Cons.prems have "strchr (module_pattern i @ ?sep) (CHR ''='') = Some ?sep"
    by (intro strchr_append) simp
  moreover have "sscanf_int (to_string (vlog_level i) @ ?rest) = Some (vlog_level i)"
    by (rule sscanf_int_print) (simp add: is_digit_def)
  moreover have "strchr ?sep (CHR '','') =
      (if infos = [] then None else Some (CHR '','' # print_vmodule infos))"
    using to_string_no_comma strchr_append [of "CHR '',''" "CHR ''='' # to_string (vlog_level i)"]
    by (simp add: strchr_None_iff)
  ultimately show ?case
    using Cons by (subst parse_vmodule.simps) simp
qed

theorem vmodule_roundtrip_witness:
  "parse_vmodule ''raft=2,con*=-1'' =
     [\<lparr>module_pattern = ''raft'', vlog_level = 2\<rparr>, \<lparr>module_pattern = ''con*'', vlog_level = - 1\<rparr>]"
proof -
  have "print_vmodule [\<lparr>module_pattern = ''raft'', vlog_level = 2\<rparr>,
      \<lparr>module_pattern = ''con*'', vlog_level = - 1\<rparr>] = ''raft=2,con*=-1''"
    by code_simp
  with vmodule_roundtrip [of "[\<lparr>module_pattern = ''raft'', vlog_level = 2\<rparr>,
      \<lparr>module_pattern = ''con*'', vlog_level = - 1\<rparr>]"]
  show ?thesis by simp
qed



end
