(* ===== verification/Gtest_Filter.thy ===== *)
theory Gtest_Filter
  imports Glob
begin

text \<open>
  The name filters of googletest (\<open>lib/googletest/src/gtest.cc\<close>, class \<open>UnitTestOptions\<close>):
  \<open>PatternMatchesString\<close>, \<open>MatchesFilter\<close>, \<open>FilterMatchesTest\<close> and \<open>GetOutputFormat\<close>, and the proof
  that the recursive matchers select exactly the names their patterns denote.  The flags are
  arguments.
\<close>

definition kDisableTestFilter :: string where
  "kDisableTestFilter = ''DISABLED_*:*/DISABLED_*''"

definition kDeathTestCaseFilter :: string where
  "kDeathTestCaseFilter = ''*DeathTest:*DeathTest/*''"

definition kUniversalFilter :: string where
  "kUniversalFilter = ''*''"

text \<open>\<open>PatternMatchesString\<close>: a colon or the end of the string ends the pattern.\<close>

fun PatternMatchesString :: "string \<Rightarrow> string \<Rightarrow> bool" where
  "PatternMatchesString [] str = (str = [])"
| "PatternMatchesString (c # pattern) str =
    (if c = CHR '':'' then str = []
     else if c = CHR ''?'' then
       (case str of [] \<Rightarrow> False | _ # str' \<Rightarrow> PatternMatchesString pattern str')
     else if c = CHR ''*'' then
       (case str of [] \<Rightarrow> False | _ # str' \<Rightarrow> PatternMatchesString (c # pattern) str') \<or>
       PatternMatchesString pattern str
     else (case str of [] \<Rightarrow> False | d # str' \<Rightarrow> c = d \<and> PatternMatchesString pattern str'))"

function MatchesFilter :: "string \<Rightarrow> string \<Rightarrow> bool" where
  "MatchesFilter name cur_pattern \<longleftrightarrow>
    PatternMatchesString cur_pattern (c_str name) \<or>
    (case strchr cur_pattern (CHR '':'') of
       None \<Rightarrow> False
     | Some colon \<Rightarrow> MatchesFilter name (drop 1 colon))"
  by pat_completeness auto
termination
  by (relation "measure (\<lambda>(name, p). length p)") (simp_all add: strchr_drop)

declare MatchesFilter.simps [simp del]

definition FilterMatchesTest :: "string \<Rightarrow> string \<Rightarrow> string \<Rightarrow> bool" where
  "FilterMatchesTest filter_flag test_case_name test_name =
    (let full_name = test_case_name @ ''.'' @ c_str test_name;
         p = c_str filter_flag;
         (positive, negative) =
           (case strchr p (CHR ''-'') of
              None \<Rightarrow> (p, [])
            | Some dash \<Rightarrow>
               (let positive = upto_ptr p dash
                in (if positive = [] then kUniversalFilter else positive, drop 1 dash)))
     in MatchesFilter full_name positive \<and> \<not> MatchesFilter full_name negative)"

definition GetOutputFormat :: "string \<Rightarrow> string" where
  "GetOutputFormat flag_output =
    (let gtest_output_flag = c_str flag_output
     in case strchr gtest_output_flag (CHR '':'') of
          None \<Rightarrow> gtest_output_flag
        | Some colon \<Rightarrow> upto_ptr gtest_output_flag colon)"

section \<open>The patterns of a filter\<close>

text \<open>What the manual of the flag says: patterns separated by colons.\<close>

fun patterns :: "string \<Rightarrow> string list" where
  "patterns [] = [[]]"
| "patterns (c # f) =
    (if c = CHR '':'' then [] # patterns f
     else (case patterns f of [] \<Rightarrow> [[c]] | p # ps \<Rightarrow> (c # p) # ps))"

lemma patterns_nonempty [simp]: "patterns f \<noteq> []"
  by (induction f) (auto split: list.splits)

lemma patterns_no_colon: "p \<in> set (patterns f) \<Longrightarrow> CHR '':'' \<notin> set p"
proof (induction f arbitrary: p)
  case (Cons c f)
  show ?case
  proof (cases "c = CHR '':''")
    case True
    with Cons show ?thesis by auto
  next
    case False
    obtain q qs where f: "patterns f = q # qs" using patterns_nonempty by (metis list.exhaust)
    with Cons.prems False have "p = c # q \<or> p \<in> set qs" by auto
    with Cons.IH f False show ?thesis by auto
  qed
qed simp

lemma patterns_plain: "CHR '':'' \<notin> set f \<Longrightarrow> patterns f = [f]"
  by (induction f) auto

lemma patterns_append:
  "CHR '':'' \<notin> set u \<Longrightarrow> patterns (u @ CHR '':'' # r) = u # patterns r"
  by (induction u) auto

section \<open>The matchers compute what their patterns denote\<close>

lemma PatternMatchesString_glob:
  "CHR '':'' \<notin> set p \<Longrightarrow> PatternMatchesString p s \<longleftrightarrow> glob p s"
proof (induction p s rule: PatternMatchesString.induct)
  case (2 c p s)
  then have colon: "c \<noteq> CHR '':''" by auto
  consider "c = CHR ''?''" | "c = CHR ''*''" | "c \<noteq> CHR ''?''" "c \<noteq> CHR ''*''" by blast
  then show ?case
  proof cases
    case 1
    with 2 show ?thesis by (cases s) auto
  next
    case 2
    with "2.IH" "2.prems" show ?thesis by (cases s) (auto simp: glob_star_Cons)
  next
    case 3
    with "2.IH" "2.prems" colon show ?thesis by (cases s) (auto simp: glob_char)
  qed
qed simp

lemma PatternMatchesString_colon:
  "CHR '':'' \<notin> set p \<Longrightarrow> PatternMatchesString (p @ CHR '':'' # r) s \<longleftrightarrow> PatternMatchesString p s"
proof (induction p s rule: PatternMatchesString.induct)
  case (2 c p s)
  then have colon: "c \<noteq> CHR '':''" by auto
  consider "c = CHR ''?''" | "c = CHR ''*''" | "c \<noteq> CHR ''?''" "c \<noteq> CHR ''*''" by blast
  then show ?case
    using "2.IH" "2.prems" colon by cases (cases s; simp)+
qed simp

interpretation gtest_matcher: wildcard_matcher PatternMatchesString
  "\<lambda>p. CHR '':'' \<notin> set p" "\<lambda>_. True"
  by unfold_locales (simp add: PatternMatchesString_glob)

lemma MatchesFilter_patterns:
  "MatchesFilter name f \<longleftrightarrow> list_ex (\<lambda>p. glob p (c_str name)) (patterns f)"
proof (induction name f rule: MatchesFilter.induct)
  case (1 name f)
  show ?case
  proof (cases "strchr f (CHR '':'')")
    case None
    then have "CHR '':'' \<notin> set f" by (simp add: strchr_None_iff)
    with None show ?thesis
      by (subst MatchesFilter.simps) (simp add: patterns_plain PatternMatchesString_glob)
  next
    case (Some t)
    from strchr_SomeD [OF this] obtain u r
      where f: "f = u @ t" "t = CHR '':'' # r" "CHR '':'' \<notin> set u" by blast
    from 1 [OF Some] f Some show ?thesis
      by (subst MatchesFilter.simps)
        (simp add: patterns_append PatternMatchesString_colon PatternMatchesString_glob)
  qed
qed

text \<open>The two parts of the filter flag around its first dash.\<close>

definition flag_parts :: "string \<Rightarrow> string \<times> string" where
  "flag_parts f =
    (let pos = takeWhile (\<lambda>c. c \<noteq> CHR ''-'') f
     in (if pos = [] \<and> f \<noteq> [] then ''*'' else pos, drop 1 (dropWhile (\<lambda>c. c \<noteq> CHR ''-'') f)))"

lemma takeWhile_dash: "x \<notin> set u \<Longrightarrow> takeWhile (\<lambda>c. c \<noteq> x) (u @ x # r) = u"
  "x \<notin> set u \<Longrightarrow> dropWhile (\<lambda>c. c \<noteq> x) (u @ x # r) = x # r"
  by (induction u) auto

lemma takeWhile_absent: "x \<notin> set u \<Longrightarrow> takeWhile (\<lambda>c. c \<noteq> x) u = u"
  "x \<notin> set u \<Longrightarrow> dropWhile (\<lambda>c. c \<noteq> x) u = []"
  by (induction u) auto

lemma FilterMatchesTest_parts:
  "FilterMatchesTest flag tc tn \<longleftrightarrow>
    (let full = tc @ ''.'' @ c_str tn; (pos, neg) = flag_parts (c_str flag)
     in MatchesFilter full pos \<and> \<not> MatchesFilter full neg)"
proof (cases "strchr (c_str flag) (CHR ''-'')")
  case None
  then have "CHR ''-'' \<notin> set (c_str flag)" by (simp add: strchr_None_iff)
  with None show ?thesis
    by (auto simp: FilterMatchesTest_def flag_parts_def Let_def takeWhile_absent)
next
  case (Some t)
  from strchr_SomeD [OF this] obtain u r
    where f: "c_str flag = u @ t" "t = CHR ''-'' # r" "CHR ''-'' \<notin> set u" by blast
  then have "upto_ptr (c_str flag) t = u" by (metis upto_ptr_append)
  with f Some show ?thesis
    by (simp add: FilterMatchesTest_def flag_parts_def Let_def takeWhile_dash kUniversalFilter_def)
qed

text \<open>
  C26.  A test is selected by the filter flag exactly when its full name is in the language of one of
  the colon-separated patterns before the first dash (all names when nothing stands before it) and
  of none of those after it, where a pattern denotes the concatenations of one string per
  character: any string for a star, any character for a question mark, itself otherwise.
\<close>

theorem filter_selects:
  "FilterMatchesTest flag test_case test_name \<longleftrightarrow>
    list_ex (\<lambda>p. glob p (c_str (test_case @ ''.'' @ c_str test_name)))
      (patterns (fst (flag_parts (c_str flag)))) \<and>
    \<not> list_ex (\<lambda>p. glob p (c_str (test_case @ ''.'' @ c_str test_name)))
      (patterns (snd (flag_parts (c_str flag))))"
  by (simp add: FilterMatchesTest_parts MatchesFilter_patterns Let_def split: prod.split)

end
