(* ===== verification/Gtest_Flags.thy ===== *)
theory Gtest_Flags
  imports Gtest_Filter
begin

text \<open>
  The flags of googletest: their defaults from the environment (\<open>lib/googletest/src/gtest-port.cc\<close>)
  and their parsing from the command line (\<open>lib/googletest/src/gtest.cc\<close>).  The environment is a
  function from names to values and the file system one from paths to contents; \<open>None\<close> in a result
  of a whole-program step is the exit with a failure code.  Warnings printed on the way are not part
  of the model.
\<close>

section \<open>Integers and the environment\<close>

text \<open>\<open>ParseInt32\<close>: all characters consumed, no overflow of \<open>long\<close>, and the narrowed value the same.\<close>

definition ParseInt32 :: "string \<Rightarrow> cint option" where
  "ParseInt32 str =
    (let (long_value, endp) = strtol str; result = (of_int long_value :: cint)
     in if endp \<noteq> [] then None
        else if long_value = 2 ^ 63 - 1 \<or> long_value = - (2 ^ 63) \<or> sint result \<noteq> long_value then None
        else Some result)"

definition GTEST_FLAG_PREFIX :: string where
  "GTEST_FLAG_PREFIX = ''gtest_''"

definition FlagToEnvVar :: "string \<Rightarrow> string" where
  "FlagToEnvVar flag = map toupper (GTEST_FLAG_PREFIX @ flag)"

type_synonym environment = "string \<Rightarrow> string option"

definition BoolFromGTestEnv :: "environment \<Rightarrow> string \<Rightarrow> bool \<Rightarrow> bool" where
  "BoolFromGTestEnv getenv flag default_value =
    (case getenv (FlagToEnvVar flag) of
       None \<Rightarrow> default_value
     | Some string_value \<Rightarrow> string_value \<noteq> ''0'')"

definition Int32FromGTestEnv :: "environment \<Rightarrow> string \<Rightarrow> cint \<Rightarrow> cint" where
  "Int32FromGTestEnv getenv flag default_value =
    (case getenv (FlagToEnvVar flag) of
       None \<Rightarrow> default_value
     | Some string_value \<Rightarrow>
        (case ParseInt32 string_value of None \<Rightarrow> default_value | Some result \<Rightarrow> result))"

definition StringFromGTestEnv :: "environment \<Rightarrow> string \<Rightarrow> string \<Rightarrow> string" where
  "StringFromGTestEnv getenv flag default_value =
    (case getenv (FlagToEnvVar flag) of
       Some v \<Rightarrow> v
     | None \<Rightarrow>
        if flag = ''output'' then
          (case getenv ''XML_OUTPUT_FILE'' of Some v \<Rightarrow> ''xml:'' @ v | None \<Rightarrow> default_value)
        else default_value)"

text \<open>\<open>Int32FromEnvOrDie\<close>: \<open>None\<close> where the program exits.\<close>

definition Int32FromEnvOrDie :: "environment \<Rightarrow> string \<Rightarrow> cint \<Rightarrow> cint option" where
  "Int32FromEnvOrDie getenv var default_val =
    (case getenv var of None \<Rightarrow> Some default_val | Some str_val \<Rightarrow> ParseInt32 str_val)"

section \<open>The flags\<close>

record GtestFlags =
  also_run_disabled_tests :: bool
  break_on_failure :: bool
  catch_exceptions :: bool
  color :: string
  death_test_style :: string
  death_test_use_fork :: bool
  filter_flag :: string
  internal_run_death_test :: string
  list_tests :: bool
  output_flag :: string
  print_time :: bool
  random_seed :: cint
  repeat :: cint
  shuffle :: bool
  stack_trace_depth :: cint
  stream_result_to :: string
  throw_on_failure :: bool
  flagfile :: string

definition default_flags :: "environment \<Rightarrow> GtestFlags" where
  "default_flags getenv =
    \<lparr>also_run_disabled_tests = BoolFromGTestEnv getenv ''also_run_disabled_tests'' False,
     break_on_failure = BoolFromGTestEnv getenv ''break_on_failure'' False,
     catch_exceptions = BoolFromGTestEnv getenv ''catch_exceptions'' True,
     color = StringFromGTestEnv getenv ''color'' ''auto'',
     death_test_style = StringFromGTestEnv getenv ''death_test_style'' ''fast'',
     death_test_use_fork = BoolFromGTestEnv getenv ''death_test_use_fork'' False,
     filter_flag = StringFromGTestEnv getenv ''filter'' kUniversalFilter,
     internal_run_death_test = [],
     list_tests = False,
     output_flag = StringFromGTestEnv getenv ''output'' [],
     print_time = BoolFromGTestEnv getenv ''print_time'' True,
     random_seed = Int32FromGTestEnv getenv ''random_seed'' 0,
     repeat = Int32FromGTestEnv getenv ''repeat'' 1,
     shuffle = BoolFromGTestEnv getenv ''shuffle'' False,
     stack_trace_depth = Int32FromGTestEnv getenv ''stack_trace_depth'' 100,
     stream_result_to = StringFromGTestEnv getenv ''stream_result_to'' [],
     throw_on_failure = BoolFromGTestEnv getenv ''throw_on_failure'' False,
     flagfile = StringFromGTestEnv getenv ''flagfile'' []\<rparr>"

section \<open>Parsing one argument\<close>

text \<open>\<open>SkipPrefix\<close>: the advanced pointer, when the string starts with the prefix.\<close>

definition SkipPrefix :: "string \<Rightarrow> string \<Rightarrow> string option" where
  "SkipPrefix prefix pstr =
     (if has_prefix prefix pstr then Some (drop (length prefix) pstr) else None)"

definition ParseFlagValue :: "string \<Rightarrow> string \<Rightarrow> bool \<Rightarrow> string option" where
  "ParseFlagValue str flag def_optional =
    (let flag_str = ''--'' @ GTEST_FLAG_PREFIX @ flag
     in if \<not> has_prefix flag_str str then None
        else
          (let flag_end = drop (length flag_str) str
           in if def_optional \<and> flag_end = [] then Some flag_end
              else (case flag_end of
                      c # v \<Rightarrow> if c = CHR ''='' then Some v else None
                    | [] \<Rightarrow> None)))"

definition ParseBoolFlag :: "string \<Rightarrow> string \<Rightarrow> bool option" where
  "ParseBoolFlag str flag =
    (case ParseFlagValue str flag True of
       None \<Rightarrow> None
     | Some value_str \<Rightarrow>
        Some (\<not> (case value_str of
                   c # _ \<Rightarrow> c = CHR ''0'' \<or> c = CHR ''f'' \<or> c = CHR ''F'' | [] \<Rightarrow> False)))"

definition ParseInt32Flag :: "string \<Rightarrow> string \<Rightarrow> cint option" where
  "ParseInt32Flag str flag =
    (case ParseFlagValue str flag False of None \<Rightarrow> None | Some value_str \<Rightarrow> ParseInt32 value_str)"

definition ParseStringFlag :: "string \<Rightarrow> string \<Rightarrow> string option" where
  "ParseStringFlag str flag = ParseFlagValue str flag False"

definition HasGoogleTestFlagPrefix :: "string \<Rightarrow> bool" where
  "HasGoogleTestFlagPrefix str =
    (case (case SkipPrefix ''--'' str of
             Some s \<Rightarrow> Some s
           | None \<Rightarrow> (case SkipPrefix ''-'' str of Some s \<Rightarrow> Some s | None \<Rightarrow> SkipPrefix ''/'' str)) of
       None \<Rightarrow> False
     | Some s \<Rightarrow>
        SkipPrefix (GTEST_FLAG_PREFIX @ ''internal_'') s = None \<and>
        (SkipPrefix GTEST_FLAG_PREFIX s \<noteq> None \<or> SkipPrefix ''gtest-'' s \<noteq> None))"

text \<open>The alternatives of \<open>ParseGoogleTestFlag\<close>, each the flags with one of them set.\<close>

fun first_some :: "'a option list \<Rightarrow> 'a option" where
  "first_some [] = None"
| "first_some (x # xs) = (case x of Some v \<Rightarrow> Some v | None \<Rightarrow> first_some xs)"

definition ParseGoogleTestFlag :: "string \<Rightarrow> GtestFlags \<Rightarrow> GtestFlags option" where
  "ParseGoogleTestFlag arg fl =
     first_some
      [map_option (\<lambda>v. fl\<lparr>also_run_disabled_tests := v\<rparr>) (ParseBoolFlag arg ''also_run_disabled_tests''),
       map_option (\<lambda>v. fl\<lparr>break_on_failure := v\<rparr>) (ParseBoolFlag arg ''break_on_failure''),
       map_option (\<lambda>v. fl\<lparr>catch_exceptions := v\<rparr>) (ParseBoolFlag arg ''catch_exceptions''),
       map_option (\<lambda>v. fl\<lparr>color := v\<rparr>) (ParseStringFlag arg ''color''),
       map_option (\<lambda>v. fl\<lparr>death_test_style := v\<rparr>) (ParseStringFlag arg ''death_test_style''),
       map_option (\<lambda>v. fl\<lparr>death_test_use_fork := v\<rparr>) (ParseBoolFlag arg ''death_test_use_fork''),
       map_option (\<lambda>v. fl\<lparr>filter_flag := v\<rparr>) (ParseStringFlag arg ''filter''),
       map_option (\<lambda>v. fl\<lparr>internal_run_death_test := v\<rparr>) (ParseStringFlag arg ''internal_run_death_test''),
       map_option (\<lambda>v. fl\<lparr>list_tests := v\<rparr>) (ParseBoolFlag arg ''list_tests''),
       map_option (\<lambda>v. fl\<lparr>output_flag := v\<rparr>) (ParseStringFlag arg ''output''),
       map_option (\<lambda>v. fl\<lparr>print_time := v\<rparr>) (ParseBoolFlag arg ''print_time''),
       map_option (\<lambda>v. fl\<lparr>random_seed := v\<rparr>) (ParseInt32Flag arg ''random_seed''),
       map_option (\<lambda>v. fl\<lparr>repeat := v\<rparr>) (ParseInt32Flag arg ''repeat''),
       map_option (\<lambda>v. fl\<lparr>shuffle := v\<rparr>) (ParseBoolFlag arg ''shuffle''),
       map_option (\<lambda>v. fl\<lparr>stack_trace_depth := v\<rparr>) (ParseInt32Flag arg ''stack_trace_depth''),
       map_option (\<lambda>v. fl\<lparr>stream_result_to := v\<rparr>) (ParseStringFlag arg ''stream_result_to''),
       map_option (\<lambda>v. fl\<lparr>throw_on_failure := v\<rparr>) (ParseBoolFlag arg ''throw_on_failure'')]"

section \<open>Parsing the command line\<close>

function SplitString :: "string \<Rightarrow> char \<Rightarrow> string list" where
  "SplitString str delimiter =
    (case strchr str delimiter of
       None \<Rightarrow> [str]
     | Some colon \<Rightarrow> upto_ptr str colon # SplitString (drop 1 colon) delimiter)"
  by pat_completeness auto
termination
  by (relation "measure (\<lambda>(s, _). length s)") (simp_all add: strchr_drop)

declare SplitString.simps [simp del]

text \<open>The flags and \<open>g_help_flag\<close> after the lines of a flag file.\<close>

fun load_lines :: "string list \<Rightarrow> GtestFlags \<times> bool \<Rightarrow> GtestFlags \<times> bool" where
  "load_lines [] fh = fh"
| "load_lines (l # ls) (fl, help) =
    (if l = [] then load_lines ls (fl, help)
     else (case ParseGoogleTestFlag (c_str l) fl of
             Some fl' \<Rightarrow> load_lines ls (fl', help)
           | None \<Rightarrow> load_lines ls (fl, True)))"

definition LoadFlagsFromFile ::
  "(string \<Rightarrow> string option) \<Rightarrow> string \<Rightarrow> GtestFlags \<times> bool \<Rightarrow> (GtestFlags \<times> bool) option"
where
  "LoadFlagsFromFile read_file path fh =
    (case read_file (c_str path) of
       None \<Rightarrow> None
     | Some contents \<Rightarrow> Some (load_lines (SplitString contents newline) fh))"

text \<open>One argument: whether it is removed, the flags and \<open>g_help_flag\<close>.\<close>

definition parse_arg ::
  "(string \<Rightarrow> string option) \<Rightarrow> string \<Rightarrow> GtestFlags \<times> bool \<Rightarrow> (bool \<times> GtestFlags \<times> bool) option"
where
  "parse_arg read_file arg_string fh =
    (let arg = c_str arg_string
     in case ParseGoogleTestFlag arg (fst fh) of
          Some fl' \<Rightarrow> Some (True, fl', snd fh)
        | None \<Rightarrow>
           (case ParseStringFlag arg ''flagfile'' of
              Some path \<Rightarrow>
                (case LoadFlagsFromFile read_file path ((fst fh)\<lparr>flagfile := path\<rparr>, snd fh) of
                   None \<Rightarrow> None
                 | Some fh' \<Rightarrow> Some (True, fh'))
            | None \<Rightarrow>
               Some (False, fst fh,
                 snd fh \<or> arg_string = ''--help'' \<or> arg_string = ''-h'' \<or> arg_string = ''-?'' \<or>
                 arg_string = ''/?'' \<or> HasGoogleTestFlagPrefix arg)))"

text \<open>The loop over \<open>argv\<close>: a recognised argument is shifted out and the index stays.\<close>

function ParseGoogleTestFlagsOnlyImpl ::
  "(string \<Rightarrow> string option) \<Rightarrow> nat \<Rightarrow> string list \<Rightarrow> GtestFlags \<times> bool \<Rightarrow>
     (string list \<times> GtestFlags \<times> bool) option"
where
  "ParseGoogleTestFlagsOnlyImpl read_file i argv fh =
    (if i < length argv then
       (case parse_arg read_file (argv ! i) fh of
          None \<Rightarrow> None
        | Some (remove_flag, fh') \<Rightarrow>
           if remove_flag then
             ParseGoogleTestFlagsOnlyImpl read_file i (take i argv @ drop (i + 1) argv) fh'
           else ParseGoogleTestFlagsOnlyImpl read_file (i + 1) argv fh')
     else Some (argv, fh))"
  by pat_completeness auto
termination
  by (relation "measure (\<lambda>(_, i, argv, _). length argv - i)") auto

declare ParseGoogleTestFlagsOnlyImpl.simps [simp del]

section \<open>Colored help text\<close>

datatype GTestColor = COLOR_DEFAULT | COLOR_RED | COLOR_GREEN | COLOR_YELLOW

text \<open>\<open>PrintColorEncoded\<close>: the calls of \<open>ColoredPrintf\<close> it makes.\<close>

function PrintColorEncoded :: "GTestColor \<Rightarrow> string \<Rightarrow> (GTestColor \<times> string) list" where
  "PrintColorEncoded col str =
    (case strchr str (CHR ''@'') of
       None \<Rightarrow> [(col, str)]
     | Some p \<Rightarrow>
        (col, upto_ptr str p) #
        (case drop 1 p of
           [] \<Rightarrow> PrintColorEncoded col []
         | ch # s \<Rightarrow>
            if ch = CHR ''@'' then (col, ''@'') # PrintColorEncoded col s
            else if ch = CHR ''D'' then PrintColorEncoded COLOR_DEFAULT s
            else if ch = CHR ''R'' then PrintColorEncoded COLOR_RED s
            else if ch = CHR ''G'' then PrintColorEncoded COLOR_GREEN s
            else if ch = CHR ''Y'' then PrintColorEncoded COLOR_YELLOW s
            else PrintColorEncoded col (ch # s)))"
  by pat_completeness auto
termination
  by (relation "measure (\<lambda>(_, s). length s)") (auto dest!: strchr_SomeD)

declare PrintColorEncoded.simps [simp del]

section \<open>The loop over the arguments\<close>

text \<open>Each argument in turn: the ones that stay, and the flags.\<close>

fun parse_args ::
  "(string \<Rightarrow> string option) \<Rightarrow> string list \<Rightarrow> GtestFlags \<times> bool \<Rightarrow>
     (string list \<times> GtestFlags \<times> bool) option"
where
  "parse_args read_file [] fh = Some ([], fh)"
| "parse_args read_file (a # args) fh =
    (case parse_arg read_file a fh of
       None \<Rightarrow> None
     | Some (remove_flag, fh') \<Rightarrow>
        map_option (\<lambda>(kept, fh''). (if remove_flag then kept else a # kept, fh''))
          (parse_args read_file args fh'))"

lemma ParseGoogleTestFlagsOnlyImpl_eq:
  "ParseGoogleTestFlagsOnlyImpl rf (length pre) (pre @ args) fh =
     map_option (\<lambda>(kept, fh'). (pre @ kept, fh')) (parse_args rf args fh)"
proof (induction args arbitrary: pre fh)
  case Nil
  show ?case by (subst ParseGoogleTestFlagsOnlyImpl.simps) simp
next
  case (Cons a args)
  show ?case
  proof (cases "parse_arg rf a fh")
    case None
    then show ?thesis by (subst ParseGoogleTestFlagsOnlyImpl.simps) simp
  next
    case (Some r)
    obtain rm fh' where r: "r = (rm, fh')" by (cases r)
    show ?thesis
    proof (cases rm)
      case True
      with Some r Cons.IH [of pre fh'] show ?thesis
        by (subst ParseGoogleTestFlagsOnlyImpl.simps) (simp add: case_prod_beta' option.map_ident)
    next
      case False
      with Some r Cons.IH [of "pre @ [a]" fh'] show ?thesis
        by (subst ParseGoogleTestFlagsOnlyImpl.simps) (simp add: case_prod_beta' option.map_comp comp_def)
    qed
  qed
qed

section \<open>Printing and reading the flags\<close>

lemma ParseInt32_print [simp]: "ParseInt32 (to_string w) = Some w"
proof -
  have "strtol (to_string w @ []) = (sint w, [])"
    unfolding to_string_def using sint_cint_range [of w] by (intro strtol_print) simp_all
  moreover have "sint w \<noteq> 2 ^ 63 - 1" "sint w \<noteq> - (2 ^ 63)"
    using sint_cint_range [of w] by auto
  ultimately show ?thesis by (simp add: ParseInt32_def)
qed

lemmas flag_defs = ParseGoogleTestFlag_def ParseBoolFlag_def ParseInt32Flag_def ParseStringFlag_def
  ParseFlagValue_def GTEST_FLAG_PREFIX_def

definition bool_text :: "bool \<Rightarrow> string" where
  "bool_text b = (if b then ''1'' else ''0'')"

definition print_flags :: "GtestFlags \<Rightarrow> string list" where
  "print_flags fl =
    [''--gtest_also_run_disabled_tests='' @ bool_text (also_run_disabled_tests fl),
     ''--gtest_break_on_failure='' @ bool_text (break_on_failure fl),
     ''--gtest_catch_exceptions='' @ bool_text (catch_exceptions fl),
     ''--gtest_color='' @ color fl,
     ''--gtest_death_test_style='' @ death_test_style fl,
     ''--gtest_death_test_use_fork='' @ bool_text (death_test_use_fork fl),
     ''--gtest_filter='' @ filter_flag fl,
     ''--gtest_internal_run_death_test='' @ internal_run_death_test fl,
     ''--gtest_list_tests='' @ bool_text (list_tests fl),
     ''--gtest_output='' @ output_flag fl,
     ''--gtest_print_time='' @ bool_text (print_time fl),
     ''--gtest_random_seed='' @ to_string (random_seed fl),
     ''--gtest_repeat='' @ to_string (repeat fl),
     ''--gtest_shuffle='' @ bool_text (shuffle fl),
     ''--gtest_stack_trace_depth='' @ to_string (stack_trace_depth fl),
     ''--gtest_stream_result_to='' @ stream_result_to fl,
     ''--gtest_throw_on_failure='' @ bool_text (throw_on_failure fl)]"

lemma parse_arg_recognised:
  assumes "CHR 0x00 \<notin> set a" and "ParseGoogleTestFlag a fl = Some fl'"
  shows "parse_arg rf a (fl, h) = Some (True, fl', h)"
proof -
  have "c_str a = a"
    using assms(1) by (simp add: c_str_def takeWhile_absent)
  with assms(2) show ?thesis by (simp add: parse_arg_def)
qed

lemma ParseGoogleTestFlag_bool:
  "ParseGoogleTestFlag (''--gtest_also_run_disabled_tests='' @ bool_text b) fl = Some (fl\<lparr>also_run_disabled_tests := b\<rparr>)"
  "ParseGoogleTestFlag (''--gtest_break_on_failure='' @ bool_text b) fl = Some (fl\<lparr>break_on_failure := b\<rparr>)"
  "ParseGoogleTestFlag (''--gtest_catch_exceptions='' @ bool_text b) fl = Some (fl\<lparr>catch_exceptions := b\<rparr>)"
  "ParseGoogleTestFlag (''--gtest_death_test_use_fork='' @ bool_text b) fl = Some (fl\<lparr>death_test_use_fork := b\<rparr>)"
  "ParseGoogleTestFlag (''--gtest_list_tests='' @ bool_text b) fl = Some (fl\<lparr>list_tests := b\<rparr>)"
  "ParseGoogleTestFlag (''--gtest_print_time='' @ bool_text b) fl = Some (fl\<lparr>print_time := b\<rparr>)"
  "ParseGoogleTestFlag (''--gtest_shuffle='' @ bool_text b) fl = Some (fl\<lparr>shuffle := b\<rparr>)"
  "ParseGoogleTestFlag (''--gtest_throw_on_failure='' @ bool_text b) fl = Some (fl\<lparr>throw_on_failure := b\<rparr>)"
  by (simp_all add: flag_defs bool_text_def)

lemma ParseGoogleTestFlag_string:
  "ParseGoogleTestFlag (''--gtest_color='' @ v) fl = Some (fl\<lparr>color := v\<rparr>)"
  "ParseGoogleTestFlag (''--gtest_death_test_style='' @ v) fl = Some (fl\<lparr>death_test_style := v\<rparr>)"
  "ParseGoogleTestFlag (''--gtest_filter='' @ v) fl = Some (fl\<lparr>filter_flag := v\<rparr>)"
  "ParseGoogleTestFlag (''--gtest_internal_run_death_test='' @ v) fl = Some (fl\<lparr>internal_run_death_test := v\<rparr>)"
  "ParseGoogleTestFlag (''--gtest_output='' @ v) fl = Some (fl\<lparr>output_flag := v\<rparr>)"
  "ParseGoogleTestFlag (''--gtest_stream_result_to='' @ v) fl = Some (fl\<lparr>stream_result_to := v\<rparr>)"
  by (simp_all add: flag_defs)

lemma ParseGoogleTestFlag_int:
  "ParseGoogleTestFlag (''--gtest_random_seed='' @ to_string w) fl = Some (fl\<lparr>random_seed := w\<rparr>)"
  "ParseGoogleTestFlag (''--gtest_repeat='' @ to_string w) fl = Some (fl\<lparr>repeat := w\<rparr>)"
  "ParseGoogleTestFlag (''--gtest_stack_trace_depth='' @ to_string w) fl = Some (fl\<lparr>stack_trace_depth := w\<rparr>)"
  by (simp_all add: flag_defs)

lemmas ParseGoogleTestFlag_printed =
  ParseGoogleTestFlag_bool ParseGoogleTestFlag_string ParseGoogleTestFlag_int

text \<open>Every text flag of the record, for the condition that none has a NUL byte.\<close>

definition text_flags :: "GtestFlags \<Rightarrow> string list" where
  "text_flags fl = [color fl, death_test_style fl, filter_flag fl, internal_run_death_test fl,
     output_flag fl, stream_result_to fl]"

lemma no_nul_printed: "CHR 0x00 \<notin> set (to_string w)" "CHR 0x00 \<notin> set (bool_text b)"
proof -
  have "\<forall>c \<in> set (to_string w). c \<noteq> CHR 0x00"
    by (rule to_string_all) (simp_all add: digit_char_neq)
  then show "CHR 0x00 \<notin> set (to_string w)" by blast
  show "CHR 0x00 \<notin> set (bool_text b)" by (simp add: bool_text_def)
qed

lemma parse_args_recognised:
  assumes "CHR 0x00 \<notin> set a" and "ParseGoogleTestFlag a fl = Some fl'"
  shows "parse_args rf (a # args) (fl, h) = parse_args rf args (fl', h)"
  using parse_arg_recognised [OF assms] by (simp add: case_prod_beta' option.map_ident)

lemmas printed_steps =
  ParseGoogleTestFlag_printed [THEN parse_args_recognised [rotated], unfolded append_Cons append_Nil]

lemma parse_args_print_flags:
  assumes "\<forall>v \<in> set (text_flags fl). CHR 0x00 \<notin> set v"
  shows "parse_args rf (print_flags fl) (fl0, h) = Some ([], fl\<lparr>flagfile := flagfile fl0\<rparr>, h)"
  using assms
  by (simp add: print_flags_def text_flags_def printed_steps no_nul_printed del: parse_args.simps(2))



end
