(* ===== verification/Gtest_Model.thy ===== *)
theory Gtest_Model
  imports Gtest_Flags "HOL-Library.Signed_Division"
begin

text \<open>
  The data model of a googletest program: part results, test results, tests, test cases and
  \<open>UnitTestImpl\<close> (\<open>lib/googletest/include/gtest/gtest.h\<close>, \<open>src/gtest-internal-inl.h\<close>,
  \<open>src/gtest.cc\<close>), with the operations that register tests, count them, record properties and
  select what runs.  Elapsed times and time stamps are not part of the model.

  User code is what it reports: a function from the events so far to a list of actions.
\<close>

section \<open>Part results and test results\<close>

datatype TestPartResult_Type = kSuccess | kNonFatalFailure | kFatalFailure

record TestPartResult =
  part_type :: TestPartResult_Type
  file_name :: string
  line_number :: int
  part_message :: string

definition part_failed :: "TestPartResult \<Rightarrow> bool" where
  "part_failed r \<longleftrightarrow> part_type r \<noteq> kSuccess"

definition fatally_failed :: "TestPartResult \<Rightarrow> bool" where
  "fatally_failed r \<longleftrightarrow> part_type r = kFatalFailure"

definition nonfatally_failed :: "TestPartResult \<Rightarrow> bool" where
  "nonfatally_failed r \<longleftrightarrow> part_type r = kNonFatalFailure"

record TestResult =
  test_part_results :: "TestPartResult list"
  test_properties :: "(string \<times> string) list"
  death_test_count :: int

definition TestResult_new :: TestResult where
  "TestResult_new = \<lparr>test_part_results = [], test_properties = [], death_test_count = 0\<rparr>"

definition total_part_count :: "TestResult \<Rightarrow> int" where
  "total_part_count r = int (length (test_part_results r))"

definition test_property_count :: "TestResult \<Rightarrow> int" where
  "test_property_count r = int (length (test_properties r))"

text \<open>\<open>None\<close> is \<open>posix::Abort()\<close>.\<close>

definition GetTestPartResult :: "TestResult \<Rightarrow> int \<Rightarrow> TestPartResult option" where
  "GetTestPartResult r i =
     (if i < 0 \<or> total_part_count r \<le> i then None else Some (test_part_results r ! nat i))"

definition GetTestProperty :: "TestResult \<Rightarrow> int \<Rightarrow> (string \<times> string) option" where
  "GetTestProperty r i =
     (if i < 0 \<or> test_property_count r \<le> i then None else Some (test_properties r ! nat i))"

definition AddTestPartResult :: "TestPartResult \<Rightarrow> TestResult \<Rightarrow> TestResult" where
  "AddTestPartResult p r = r\<lparr>test_part_results := test_part_results r @ [p]\<rparr>"

definition ClearTestPartResults :: "TestResult \<Rightarrow> TestResult" where
  "ClearTestPartResults r = r\<lparr>test_part_results := []\<rparr>"

definition TestResult_Clear :: "TestResult \<Rightarrow> TestResult" where
  "TestResult_Clear r = r\<lparr>test_part_results := [], test_properties := [], death_test_count := 0\<rparr>"

text \<open>\<open>CountIf\<close>, the loop of the counting functions.\<close>

fun CountIf :: "('a \<Rightarrow> bool) \<Rightarrow> 'a list \<Rightarrow> int" where
  "CountIf predicate [] = 0"
| "CountIf predicate (x # xs) = (if predicate x then 1 else 0) + CountIf predicate xs"

definition TestResult_Failed :: "TestResult \<Rightarrow> bool" where
  "TestResult_Failed r \<longleftrightarrow>
     list_ex (\<lambda>i. case GetTestPartResult r (int i) of Some p \<Rightarrow> part_failed p | None \<Rightarrow> False)
       [0 ..< nat (total_part_count r)]"

definition TestResult_HasFatalFailure :: "TestResult \<Rightarrow> bool" where
  "TestResult_HasFatalFailure r \<longleftrightarrow> 0 < CountIf fatally_failed (test_part_results r)"

definition TestResult_HasNonfatalFailure :: "TestResult \<Rightarrow> bool" where
  "TestResult_HasNonfatalFailure r \<longleftrightarrow> 0 < CountIf nonfatally_failed (test_part_results r)"

subsection \<open>Properties and reserved keys\<close>

definition kReservedTestSuitesAttributes :: "string list" where
  "kReservedTestSuitesAttributes = [''disabled'', ''errors'', ''failures'', ''name'', ''random_seed'',
     ''tests'', ''time'', ''timestamp'']"

definition kReservedTestSuiteAttributes :: "string list" where
  "kReservedTestSuiteAttributes = [''disabled'', ''errors'', ''failures'', ''name'', ''tests'', ''time'']"

definition kReservedTestCaseAttributes :: "string list" where
  "kReservedTestCaseAttributes = [''classname'', ''name'', ''status'', ''time'', ''type_param'',
     ''value_param'']"

text \<open>\<open>None\<close> is the failed \<open>GTEST_CHECK_\<close> on an unknown element.\<close>

definition GetReservedAttributesForElement :: "string \<Rightarrow> string list option" where
  "GetReservedAttributesForElement xml_element =
    (if xml_element = ''testsuites'' then Some kReservedTestSuitesAttributes
     else if xml_element = ''testsuite'' then Some kReservedTestSuiteAttributes
     else if xml_element = ''testcase'' then Some kReservedTestCaseAttributes
     else None)"

fun format_words :: "nat \<Rightarrow> nat \<Rightarrow> string list \<Rightarrow> string" where
  "format_words n i [] = []"
| "format_words n i (w # ws) =
    (if 0 < i \<and> 2 < n then '', '' else []) @ (if i + 1 = n then ''and '' else []) @
    [CHR 0x27] @ w @ [CHR 0x27] @ format_words n (i + 1) ws"

definition FormatWordList :: "string list \<Rightarrow> string" where
  "FormatWordList words = format_words (length words) 0 words"

text \<open>The failure message of a reserved key, \<open>None\<close> when the key may be used.\<close>

definition ValidateTestPropertyName :: "string \<Rightarrow> string list \<Rightarrow> string option" where
  "ValidateTestPropertyName property_name reserved_names =
    (if List.member reserved_names property_name then
       Some (''Reserved key used in RecordProperty(): '' @ property_name @ '' ('' @
             FormatWordList reserved_names @ '' are reserved by Google Test)'')
     else None)"

fun set_property :: "string \<Rightarrow> string \<Rightarrow> (string \<times> string) list \<Rightarrow> (string \<times> string) list" where
  "set_property key v [] = [(key, v)]"
| "set_property key v ((k, w) # ps) =
     (if k = key then (k, v) # ps else (k, w) # set_property key v ps)"

text \<open>
  \<open>TestResult::RecordProperty\<close>: the failure message it adds, or the result with the property;
  \<open>None\<close> is the failed check of the element's name.
\<close>

definition RecordProperty ::
  "string \<Rightarrow> string \<Rightarrow> string \<Rightarrow> TestResult \<Rightarrow> (string + TestResult) option"
where
  "RecordProperty xml_element key v r =
    (case GetReservedAttributesForElement xml_element of
       None \<Rightarrow> None
     | Some reserved \<Rightarrow>
        Some (case ValidateTestPropertyName key reserved of
                Some msg \<Rightarrow> Inl msg
              | None \<Rightarrow> Inr (r\<lparr>test_properties := set_property key v (test_properties r)\<rparr>)))"

section \<open>Tests and test cases\<close>

datatype TypeId = Test_Class | Fixture_Class nat

datatype exn = Gtest_Failure | Std_Exception string | Unknown_Exception

text \<open>
  What user code does: assertions report a part result, \<open>SCOPED_TRACE\<close> encloses actions, and an
  exception ends the code.
\<close>

datatype action =
    Assert TestPartResult_Type string int string string
  | Scoped_Trace string int string "action list"
  | Throw exn

datatype event =
    OnTestProgramStart
  | OnTestIterationStart int
  | OnEnvironmentsSetUpStart
  | OnEnvironmentsSetUpEnd
  | OnTestCaseStart string
  | OnTestStart string string
  | OnTestPartResult TestPartResult
  | OnTestEnd string string
  | OnTestCaseEnd string
  | OnEnvironmentsTearDownStart
  | OnEnvironmentsTearDownEnd
  | OnTestIterationEnd int
  | OnTestProgramEnd

type_synonym user_code = "event list \<Rightarrow> action list"

text \<open>The code of a test: the fixture's constructor, its three methods and its destructor.\<close>

record test_code =
  constructor :: user_code
  SetUp :: user_code
  TestBody :: user_code
  TearDown :: user_code
  destructor :: user_code

record TestInfo =
  ti_test_case_name :: string
  ti_name :: string
  ti_type_param :: "string option"
  ti_value_param :: "string option"
  fixture_class_id :: TypeId
  ti_should_run :: bool
  is_disabled :: bool
  matches_filter :: bool
  ti_code :: test_code
  ti_result :: TestResult

definition TestInfo_new ::
  "string \<Rightarrow> string \<Rightarrow> string option \<Rightarrow> string option \<Rightarrow> TypeId \<Rightarrow> test_code \<Rightarrow> TestInfo"
where
  "TestInfo_new a_test_case_name a_name a_type_param a_value_param fixture factory =
    \<lparr>ti_test_case_name = a_test_case_name, ti_name = a_name, ti_type_param = a_type_param,
     ti_value_param = a_value_param, fixture_class_id = fixture, ti_should_run = False, is_disabled = False, matches_filter = False, ti_code = factory,
     ti_result = TestResult_new\<rparr>"

record TestCase =
  tc_name :: string
  tc_type_param :: "string option"
  test_info_list :: "TestInfo list"
  test_indices :: "nat list"
  set_up_tc :: user_code
  tear_down_tc :: user_code
  tc_should_run :: bool
  tc_ad_hoc_test_result :: TestResult

definition TestCase_new :: "string \<Rightarrow> string option \<Rightarrow> user_code \<Rightarrow> user_code \<Rightarrow> TestCase" where
  "TestCase_new a_name a_type_param set_up tear_down =
    \<lparr>tc_name = a_name, tc_type_param = a_type_param, test_info_list = [], test_indices = [], set_up_tc = set_up,
     tear_down_tc = tear_down, tc_should_run = False, tc_ad_hoc_test_result = TestResult_new\<rparr>"

text \<open>\<open>GetElementOr\<close>, and \<open>GetTestInfo\<close> through the (shuffled) indices.\<close>

definition GetElementOr :: "'a list \<Rightarrow> int \<Rightarrow> 'a \<Rightarrow> 'a" where
  "GetElementOr v i default_value =
     (if i < 0 \<or> int (length v) \<le> i then default_value else v ! nat i)"

definition GetTestInfo_index :: "TestCase \<Rightarrow> int \<Rightarrow> nat option" where
  "GetTestInfo_index tc i =
    (let index = GetElementOr (map int (test_indices tc)) i (- 1)
     in if index < 0 then None else Some (nat index))"

definition TestCase_AddTestInfo :: "TestInfo \<Rightarrow> TestCase \<Rightarrow> TestCase" where
  "TestCase_AddTestInfo test_info tc =
     tc\<lparr>test_info_list := test_info_list tc @ [test_info],
        test_indices := test_indices tc @ [length (test_indices tc)]\<rparr>"

definition TestCase_ClearResult :: "TestCase \<Rightarrow> TestCase" where
  "TestCase_ClearResult tc =
     tc\<lparr>tc_ad_hoc_test_result := TestResult_Clear (tc_ad_hoc_test_result tc),
        test_info_list := map (\<lambda>t. t\<lparr>ti_result := TestResult_Clear (ti_result t)\<rparr>) (test_info_list tc)\<rparr>"

subsection \<open>Counting\<close>

definition TestPassed :: "TestInfo \<Rightarrow> bool" where
  "TestPassed t \<longleftrightarrow> ti_should_run t \<and> \<not> TestResult_Failed (ti_result t)"

definition TestFailed :: "TestInfo \<Rightarrow> bool" where
  "TestFailed t \<longleftrightarrow> ti_should_run t \<and> TestResult_Failed (ti_result t)"

definition successful_test_count :: "TestCase \<Rightarrow> int" where
  "successful_test_count tc = CountIf TestPassed (test_info_list tc)"

definition failed_test_count :: "TestCase \<Rightarrow> int" where
  "failed_test_count tc = CountIf TestFailed (test_info_list tc)"

definition reportable_disabled_test_count :: "TestCase \<Rightarrow> int" where
  "reportable_disabled_test_count tc =
     CountIf (\<lambda>t. matches_filter t \<and> is_disabled t) (test_info_list tc)"

definition disabled_test_count :: "TestCase \<Rightarrow> int" where
  "disabled_test_count tc = CountIf is_disabled (test_info_list tc)"

definition reportable_test_count :: "TestCase \<Rightarrow> int" where
  "reportable_test_count tc = CountIf matches_filter (test_info_list tc)"

definition test_to_run_count :: "TestCase \<Rightarrow> int" where
  "test_to_run_count tc = CountIf ti_should_run (test_info_list tc)"

definition total_test_count :: "TestCase \<Rightarrow> int" where
  "total_test_count tc = int (length (test_info_list tc))"

definition TestCase_Failed :: "TestCase \<Rightarrow> bool" where
  "TestCase_Failed tc \<longleftrightarrow> 0 < failed_test_count tc"

section \<open>UnitTestImpl\<close>

record UnitTestImpl =
  test_cases :: "TestCase list"
  test_case_indices :: "nat list"
  last_death_test_case :: int
  environments :: "(user_code \<times> user_code) list"
  ut_ad_hoc_test_result :: TestResult
  current_test_case :: "nat option"
  current_test_info :: "(nat \<times> nat) option"
  gtest_trace_stack :: "(string \<times> int \<times> string) list"
  ut_random_seed :: int
  random_state :: uint32
  events :: "event list"

definition UnitTestImpl_new :: UnitTestImpl where
  "UnitTestImpl_new =
    \<lparr>test_cases = [], test_case_indices = [], last_death_test_case = - 1, environments = [],
     ut_ad_hoc_test_result = TestResult_new, current_test_case = None, current_test_info = None,
     gtest_trace_stack = [], ut_random_seed = 0, random_state = 0, events = []\<rparr>"

fun SumOverTestCaseList :: "(TestCase \<Rightarrow> int) \<Rightarrow> TestCase list \<Rightarrow> int" where
  "SumOverTestCaseList method [] = 0"
| "SumOverTestCaseList method (tc # tcs) = method tc + SumOverTestCaseList method tcs"

definition TestCasePassed :: "TestCase \<Rightarrow> bool" where
  "TestCasePassed tc \<longleftrightarrow> tc_should_run tc \<and> \<not> TestCase_Failed tc"

definition TestCaseFailed :: "TestCase \<Rightarrow> bool" where
  "TestCaseFailed tc \<longleftrightarrow> tc_should_run tc \<and> TestCase_Failed tc"

definition successful_test_case_count :: "UnitTestImpl \<Rightarrow> int" where
  "successful_test_case_count u = CountIf TestCasePassed (test_cases u)"

definition failed_test_case_count :: "UnitTestImpl \<Rightarrow> int" where
  "failed_test_case_count u = CountIf TestCaseFailed (test_cases u)"

definition total_test_case_count :: "UnitTestImpl \<Rightarrow> int" where
  "total_test_case_count u = int (length (test_cases u))"

definition test_case_to_run_count :: "UnitTestImpl \<Rightarrow> int" where
  "test_case_to_run_count u = CountIf tc_should_run (test_cases u)"

definition ut_successful_test_count :: "UnitTestImpl \<Rightarrow> int" where
  "ut_successful_test_count u = SumOverTestCaseList successful_test_count (test_cases u)"

definition ut_failed_test_count :: "UnitTestImpl \<Rightarrow> int" where
  "ut_failed_test_count u = SumOverTestCaseList failed_test_count (test_cases u)"

definition ut_reportable_disabled_test_count :: "UnitTestImpl \<Rightarrow> int" where
  "ut_reportable_disabled_test_count u =
     SumOverTestCaseList reportable_disabled_test_count (test_cases u)"

definition ut_disabled_test_count :: "UnitTestImpl \<Rightarrow> int" where
  "ut_disabled_test_count u = SumOverTestCaseList disabled_test_count (test_cases u)"

definition ut_reportable_test_count :: "UnitTestImpl \<Rightarrow> int" where
  "ut_reportable_test_count u = SumOverTestCaseList reportable_test_count (test_cases u)"

definition ut_total_test_count :: "UnitTestImpl \<Rightarrow> int" where
  "ut_total_test_count u = SumOverTestCaseList total_test_count (test_cases u)"

definition ut_test_to_run_count :: "UnitTestImpl \<Rightarrow> int" where
  "ut_test_to_run_count u = SumOverTestCaseList test_to_run_count (test_cases u)"

definition UnitTest_Failed :: "UnitTestImpl \<Rightarrow> bool" where
  "UnitTest_Failed u \<longleftrightarrow>
     0 < failed_test_case_count u \<or> TestResult_Failed (ut_ad_hoc_test_result u)"

text \<open>\<open>GetTestCase(int)\<close> and \<open>GetMutableTestCase(int)\<close>: the position in \<open>test_cases_\<close> each reads.\<close>

definition GetTestCase_index :: "UnitTestImpl \<Rightarrow> int \<Rightarrow> nat option" where
  "GetTestCase_index u i =
    (let index = GetElementOr (map int (test_case_indices u)) i (- 1)
     in if index < 0 then None else Some (nat i))"

definition GetMutableTestCase_index :: "UnitTestImpl \<Rightarrow> int \<Rightarrow> nat option" where
  "GetMutableTestCase_index u i =
    (let index = GetElementOr (map int (test_case_indices u)) i (- 1)
     in if index < 0 then None else Some (nat index))"

section \<open>Registration\<close>

fun find_test_case :: "string \<Rightarrow> nat \<Rightarrow> TestCase list \<Rightarrow> nat option" where
  "find_test_case n i [] = None"
| "find_test_case n i (tc # tcs) = (if tc_name tc = n then Some i else find_test_case n (i + 1) tcs)"

text \<open>\<open>GetTestCase(name, ...)\<close>: the position of the test case, created when there is none.\<close>

definition GetTestCase ::
  "string \<Rightarrow> string option \<Rightarrow> user_code \<Rightarrow> user_code \<Rightarrow> UnitTestImpl \<Rightarrow> nat \<times> UnitTestImpl"
where
  "GetTestCase test_case_name type_param set_up tear_down u =
    (case find_test_case test_case_name 0 (test_cases u) of
       Some i \<Rightarrow> (i, u)
     | None \<Rightarrow>
        (let new_test_case = TestCase_new test_case_name type_param set_up tear_down;
             indices = test_case_indices u @ [length (test_case_indices u)]
         in if MatchesFilter test_case_name kDeathTestCaseFilter then
              (let p = nat (last_death_test_case u + 1)
               in (p, u\<lparr>last_death_test_case := last_death_test_case u + 1,
                        test_cases := take p (test_cases u) @ new_test_case # drop p (test_cases u),
                        test_case_indices := indices\<rparr>))
            else
              (length (test_cases u),
               u\<lparr>test_cases := test_cases u @ [new_test_case], test_case_indices := indices\<rparr>)))"

definition AddTestInfo :: "user_code \<Rightarrow> user_code \<Rightarrow> TestInfo \<Rightarrow> UnitTestImpl \<Rightarrow> UnitTestImpl" where
  "AddTestInfo set_up tear_down test_info u =
    (case GetTestCase (ti_test_case_name test_info) (ti_type_param test_info) set_up tear_down u of
       (i, u') \<Rightarrow>
         u'\<lparr>test_cases := (test_cases u')[i := TestCase_AddTestInfo test_info (test_cases u' ! i)]\<rparr>)"

definition MakeAndRegisterTestInfo ::
  "string \<Rightarrow> string \<Rightarrow> string option \<Rightarrow> string option \<Rightarrow> TypeId \<Rightarrow> user_code \<Rightarrow> user_code \<Rightarrow>
     test_code \<Rightarrow> UnitTestImpl \<Rightarrow> UnitTestImpl"
where
  "MakeAndRegisterTestInfo test_case_name name type_param value_param fixture set_up tear_down factory u =
     AddTestInfo set_up tear_down
       (TestInfo_new test_case_name name type_param value_param fixture factory) u"

definition AddEnvironment :: "(user_code \<times> user_code) option \<Rightarrow> UnitTestImpl \<Rightarrow> UnitTestImpl" where
  "AddEnvironment env u =
    (case env of None \<Rightarrow> u | Some e \<Rightarrow> u\<lparr>environments := environments u @ [e]\<rparr>)"

section \<open>Selecting the tests to run\<close>

definition kTestShardIndex :: string where
  "kTestShardIndex = ''GTEST_SHARD_INDEX''"

definition kTestTotalShards :: string where
  "kTestTotalShards = ''GTEST_TOTAL_SHARDS''"

text \<open>\<open>ShouldShard\<close>: \<open>None\<close> where the program exits.\<close>

definition ShouldShard :: "environment \<Rightarrow> bool \<Rightarrow> bool option" where
  "ShouldShard getenv in_subprocess_for_death_test =
    (if in_subprocess_for_death_test then Some False
     else
       (case Int32FromEnvOrDie getenv kTestTotalShards (- 1) of
          None \<Rightarrow> None
        | Some total_shards \<Rightarrow>
           (case Int32FromEnvOrDie getenv kTestShardIndex (- 1) of
              None \<Rightarrow> None
            | Some shard_index \<Rightarrow>
               if total_shards = - 1 \<and> shard_index = - 1 then Some False
               else if total_shards = - 1 \<and> shard_index \<noteq> - 1 then None
               else if total_shards \<noteq> - 1 \<and> shard_index = - 1 then None
               else if shard_index <s 0 \<or> total_shards \<le>s shard_index then None
               else Some (1 <s total_shards))))"

definition ShouldRunTestOnShard :: "int \<Rightarrow> int \<Rightarrow> int \<Rightarrow> bool" where
  "ShouldRunTestOnShard total_shards shard_index test_id \<longleftrightarrow> test_id smod total_shards = shard_index"

text \<open>
  The body of the inner loop of \<open>FilterTests\<close>; \<open>shard\<close> is \<open>None\<close> for \<open>IGNORE_SHARDING_PROTOCOL\<close> and
  the two environment variables otherwise.
\<close>

definition test_is_disabled :: "string \<Rightarrow> string \<Rightarrow> bool" where
  "test_is_disabled test_case_name test_name \<longleftrightarrow>
     MatchesFilter test_case_name kDisableTestFilter \<or> MatchesFilter test_name kDisableTestFilter"

definition test_is_runnable :: "GtestFlags \<Rightarrow> string \<Rightarrow> string \<Rightarrow> bool" where
  "test_is_runnable fl test_case_name test_name \<longleftrightarrow>
     (also_run_disabled_tests fl \<or> \<not> test_is_disabled test_case_name test_name) \<and>
     FilterMatchesTest (filter_flag fl) test_case_name test_name"

definition filter_test ::
  "GtestFlags \<Rightarrow> (int \<times> int) option \<Rightarrow> string \<Rightarrow> int \<Rightarrow> TestInfo \<Rightarrow> TestInfo"
where
  "filter_test fl shard test_case_name num_runnable_tests t =
     t\<lparr>is_disabled := test_is_disabled test_case_name (ti_name t),
       matches_filter := FilterMatchesTest (filter_flag fl) test_case_name (ti_name t),
       ti_should_run :=
         test_is_runnable fl test_case_name (ti_name t) \<and>
         (case shard of
            None \<Rightarrow> True
          | Some (total_shards, shard_index) \<Rightarrow> ShouldRunTestOnShard total_shards shard_index num_runnable_tests)\<rparr>"

fun filter_tests ::
  "GtestFlags \<Rightarrow> (int \<times> int) option \<Rightarrow> string \<Rightarrow> int \<Rightarrow> int \<Rightarrow> TestInfo list \<Rightarrow> TestInfo list \<times> int \<times> int"
where
  "filter_tests fl shard tcn runnable selected [] = ([], runnable, selected)"
| "filter_tests fl shard tcn runnable selected (t # ts) =
    (let t' = filter_test fl shard tcn runnable t
     in case filter_tests fl shard tcn
               (runnable + (if test_is_runnable fl tcn (ti_name t) then 1 else 0))
               (selected + (if ti_should_run t' then 1 else 0)) ts of
          (ts', r, s) \<Rightarrow> (t' # ts', r, s))"

fun filter_cases ::
  "GtestFlags \<Rightarrow> (int \<times> int) option \<Rightarrow> int \<Rightarrow> int \<Rightarrow> TestCase list \<Rightarrow> TestCase list \<times> int \<times> int"
where
  "filter_cases fl shard runnable selected [] = ([], runnable, selected)"
| "filter_cases fl shard runnable selected (tc # tcs) =
    (case filter_tests fl shard (c_str (tc_name tc)) runnable selected (test_info_list tc) of
       (ts', r, s) \<Rightarrow>
         (case filter_cases fl shard r s tcs of
            (tcs', r', s') \<Rightarrow>
              (tc\<lparr>test_info_list := ts', tc_should_run := list_ex ti_should_run ts'\<rparr> # tcs', r', s')))"

text \<open>\<open>FilterTests\<close>: the number of selected tests and the updated object; \<open>None\<close> is the exit.\<close>

definition FilterTests ::
  "environment \<Rightarrow> GtestFlags \<Rightarrow> bool \<Rightarrow> UnitTestImpl \<Rightarrow> (int \<times> UnitTestImpl) option"
where
  "FilterTests getenv fl honor_sharding u =
    (let run = (\<lambda>shard. case filter_cases fl shard 0 0 (test_cases u) of
                          (tcs, _, selected) \<Rightarrow> (selected, u\<lparr>test_cases := tcs\<rparr>))
     in if honor_sharding then
          (case (Int32FromEnvOrDie getenv kTestTotalShards (- 1),
                 Int32FromEnvOrDie getenv kTestShardIndex (- 1)) of
             (Some total_shards, Some shard_index) \<Rightarrow>
               Some (run (Some (sint total_shards, sint shard_index)))
           | _ \<Rightarrow> None)
        else Some (run None))"

section \<open>Listing the tests\<close>

text \<open>\<open>PrintOnOneLine\<close> with its counter \<open>i\<close>.\<close>

fun PrintOnOneLine :: "int \<Rightarrow> int \<Rightarrow> string \<Rightarrow> string" where
  "PrintOnOneLine i max_length [] = []"
| "PrintOnOneLine i max_length (c # str) =
    (if max_length \<le> i then ''...''
     else if c = newline then CHR 0x5C # CHR ''n'' # PrintOnOneLine (i + 2) max_length str
     else c # PrintOnOneLine (i + 1) max_length str)"

definition kMaxParamLength :: int where
  "kMaxParamLength = 250"

definition print_param :: "string \<Rightarrow> string option \<Rightarrow> string" where
  "print_param label param =
    (case param of
       None \<Rightarrow> []
     | Some p \<Rightarrow> ''  # '' @ label @ '' = '' @ PrintOnOneLine 0 kMaxParamLength (c_str p))"

definition list_test_case :: "TestCase \<Rightarrow> string" where
  "list_test_case tc =
    (let ts = filter matches_filter (test_info_list tc)
     in if ts = [] then []
        else c_str (tc_name tc) @ ''.'' @ print_param ''TypeParam'' (tc_type_param tc) @ [newline] @
          concat (map (\<lambda>t. ''  '' @ c_str (ti_name t) @ print_param ''GetParam()'' (ti_value_param t) @
            [newline]) ts))"

definition ListTestsMatchingFilter :: "UnitTestImpl \<Rightarrow> string" where
  "ListTestsMatchingFilter u = concat (map list_test_case (test_cases u))"

text \<open>\<open>UnitTestImpl::RecordProperty\<close>: the result the property goes to, and its element.\<close>

definition UnitTest_RecordProperty ::
  "string \<Rightarrow> string \<Rightarrow> UnitTestImpl \<Rightarrow> (string + UnitTestImpl) option"
where
  "UnitTest_RecordProperty key v u =
    (case current_test_info u of
       Some (i, j) \<Rightarrow>
         (let tc = test_cases u ! i; t = test_info_list tc ! j
          in map_option (map_sum (\<lambda>msg. msg) (\<lambda>r. u\<lparr>test_cases := (test_cases u)[i :=
                 tc\<lparr>test_info_list := (test_info_list tc)[j := t\<lparr>ti_result := r\<rparr>]\<rparr>]\<rparr>))
               (RecordProperty ''testcase'' key v (ti_result t)))
     | None \<Rightarrow>
         (case current_test_case u of
            Some i \<Rightarrow>
              (let tc = test_cases u ! i
               in map_option (map_sum (\<lambda>msg. msg) (\<lambda>r. u\<lparr>test_cases := (test_cases u)[i :=
                      tc\<lparr>tc_ad_hoc_test_result := r\<rparr>]\<rparr>))
                    (RecordProperty ''testsuite'' key v (tc_ad_hoc_test_result tc)))
          | None \<Rightarrow>
              map_option (map_sum (\<lambda>msg. msg) (\<lambda>r. u\<lparr>ut_ad_hoc_test_result := r\<rparr>))
                (RecordProperty ''testsuites'' key v (ut_ad_hoc_test_result u))))"

end
