(* ===== verification/Gtest_Selection.thy ===== *)
theory Gtest_Selection
  imports Gtest_Model
begin

text \<open>
  What \<open>FilterTests\<close> and the registration of tests guarantee: the shards of a run partition the
  runnable tests, death test cases come before the others, and the counters add up.
\<close>

section \<open>Counting\<close>

lemma CountIf_filter: "CountIf P xs = int (length (filter P xs))"
  by (induction xs) auto

lemma CountIf_nonneg [simp]: "0 \<le> CountIf P xs"
  by (simp add: CountIf_filter)

lemma CountIf_pos: "0 < CountIf P xs \<longleftrightarrow> list_ex P xs"
  by (induction xs) (simp_all add: CountIf_filter)

lemma CountIf_append [simp]: "CountIf P (xs @ ys) = CountIf P xs + CountIf P ys"
  by (simp add: CountIf_filter)

definition trues :: "bool list \<Rightarrow> int" where
  "trues bs = CountIf (\<lambda>b. b) bs"

lemma trues_simps [simp]:
  "trues [] = 0" "trues (b # bs) = (if b then 1 else 0) + trues bs"
  "trues (as @ bs) = trues as + trues bs" "0 \<le> trues bs"
  by (simp_all add: trues_def)

section \<open>Sharding\<close>

text \<open>One flag per registered test, in order: may it run, and was it selected.\<close>

definition runnable_flags :: "GtestFlags \<Rightarrow> UnitTestImpl \<Rightarrow> bool list" where
  "runnable_flags fl u =
     concat (map (\<lambda>tc. map (\<lambda>t. test_is_runnable fl (c_str (tc_name tc)) (ti_name t))
       (test_info_list tc)) (test_cases u))"

definition selected_flags :: "UnitTestImpl \<Rightarrow> bool list" where
  "selected_flags u = concat (map (\<lambda>tc. map ti_should_run (test_info_list tc)) (test_cases u))"

fun picks :: "(int \<times> int) option \<Rightarrow> int \<Rightarrow> bool list \<Rightarrow> bool list" where
  "picks shard r [] = []"
| "picks shard r (b # bs) =
    (b \<and> (case shard of None \<Rightarrow> True | Some (n, k) \<Rightarrow> ShouldRunTestOnShard n k r)) #
    picks shard (r + (if b then 1 else 0)) bs"

lemma picks_append:
  "picks shard r (as @ bs) = picks shard r as @ picks shard (r + trues as) bs"
  by (induction as arbitrary: r) (simp_all add: add.assoc)

lemma length_picks [simp]: "length (picks shard r bs) = length bs"
  by (induction bs arbitrary: r) simp_all

lemma picks_nth:
  "p < length bs \<Longrightarrow> picks (Some (n, k)) r bs ! p \<longleftrightarrow>
     bs ! p \<and> ShouldRunTestOnShard n k (r + trues (take p bs))"
proof (induction bs arbitrary: r p)
  case (Cons b bs)
  then show ?case by (cases p) (simp_all add: add.assoc)
qed simp

lemma filter_tests_picks:
  assumes "filter_tests fl shard tcn r s ts = (ts', r', s')"
  shows "map ti_should_run ts' = picks shard r (map (\<lambda>t. test_is_runnable fl tcn (ti_name t)) ts) \<and>
    r' = r + trues (map (\<lambda>t. test_is_runnable fl tcn (ti_name t)) ts) \<and>
    s' = s + trues (map ti_should_run ts')"
  using assms
proof (induction ts arbitrary: r s ts')
  case (Cons t ts)
  from Cons.prems obtain us where ts': "ts' = filter_test fl shard tcn r t # us"
    and us: "filter_tests fl shard tcn
        (r + (if test_is_runnable fl tcn (ti_name t) then 1 else 0))
        (s + (if ti_should_run (filter_test fl shard tcn r t) then 1 else 0)) ts = (us, r', s')"
    by (auto simp: Let_def split: prod.splits)
  from Cons.IH [OF us] ts' show ?case
    by (simp add: filter_test_def)
qed simp

lemma filter_cases_picks:
  assumes "filter_cases fl shard r s tcs = (tcs', r', s')"
  shows "concat (map (\<lambda>tc. map ti_should_run (test_info_list tc)) tcs') =
      picks shard r (concat (map (\<lambda>tc. map (\<lambda>t. test_is_runnable fl (c_str (tc_name tc)) (ti_name t))
        (test_info_list tc)) tcs)) \<and>
    s' = s + trues (concat (map (\<lambda>tc. map ti_should_run (test_info_list tc)) tcs'))"
  using assms
proof (induction tcs arbitrary: r s tcs')
  case (Cons tc tcs)
  from Cons.prems obtain ts1 r1 s1 tcs1
    where one: "filter_tests fl shard (c_str (tc_name tc)) r s (test_info_list tc) = (ts1, r1, s1)"
      and rest: "filter_cases fl shard r1 s1 tcs = (tcs1, r', s')"
      and tcs': "tcs' = tc\<lparr>test_info_list := ts1, tc_should_run := list_ex ti_should_run ts1\<rparr> # tcs1"
    by (auto split: prod.splits)
  from filter_tests_picks [OF one] Cons.IH [OF rest] tcs' show ?case
    by (simp add: picks_append)
qed simp

text \<open>The environment of shard \<open>k\<close> of \<open>n\<close>.\<close>

definition shard_env :: "cint \<Rightarrow> cint \<Rightarrow> environment" where
  "shard_env n k =
    (\<lambda>v. if v = kTestTotalShards then Some (to_string n)
         else if v = kTestShardIndex then Some (to_string k) else None)"

lemma Int32FromEnvOrDie_shard:
  "Int32FromEnvOrDie (shard_env n k) kTestTotalShards d = Some n"
  "Int32FromEnvOrDie (shard_env n k) kTestShardIndex d = Some k"
  by (simp_all add: Int32FromEnvOrDie_def shard_env_def kTestTotalShards_def kTestShardIndex_def)

lemma FilterTests_shard:
  "\<exists>u' c. FilterTests (shard_env n k) fl True u = Some (c, u') \<and>
     selected_flags u' = picks (Some (sint n, sint k)) 0 (runnable_flags fl u) \<and>
     c = trues (selected_flags u')"
proof -
  obtain tcs r s where "filter_cases fl (Some (sint n, sint k)) 0 0 (test_cases u) = (tcs, r, s)"
    by (metis prod_cases3)
  from this filter_cases_picks [OF this] show ?thesis
    by (simp add: FilterTests_def Int32FromEnvOrDie_shard selected_flags_def runnable_flags_def)
qed

lemma ShouldShard_shard:
  assumes "0 \<le> sint k" and "sint k < sint n"
  shows "ShouldShard (shard_env n k) False = Some (1 < sint n)"
proof -
  from assms have "n \<noteq> - 1" "k \<noteq> - 1" by auto
  with assms show ?thesis
    by (simp add: ShouldShard_def Int32FromEnvOrDie_shard word_sless_alt word_sle_eq)
qed

text \<open>
  C24.  The shards of a run partition the runnable tests.  With \<open>GTEST_TOTAL_SHARDS\<close> set to \<open>n\<close> and
  \<open>GTEST_SHARD_INDEX\<close> to any \<open>k\<close> below it the program does not exit, each shard counts the tests it
  selects, a test that is filtered out or disabled runs on no shard, and every other test runs on
  exactly one: the one of its rank among the runnable tests modulo \<open>n\<close>.
\<close>

theorem shards_partition:
  assumes "0 < sint n"
  shows "(\<forall>k. 0 \<le> sint k \<and> sint k < sint n \<longrightarrow>
      ShouldShard (shard_env n k) False = Some (1 < sint n) \<and>
      (\<exists>u'. FilterTests (shard_env n k) fl True u = Some (trues (selected_flags u'), u'))) \<and>
    (\<forall>p < length (runnable_flags fl u).
      {sint k | k. 0 \<le> sint k \<and> sint k < sint n \<and>
         (\<exists>c u'. FilterTests (shard_env n k) fl True u = Some (c, u') \<and> selected_flags u' ! p)} =
      (if runnable_flags fl u ! p then {trues (take p (runnable_flags fl u)) mod sint n} else {}))"
    (is "?defined \<and> ?unique")
proof
  show ?defined
    using FilterTests_shard ShouldShard_shard by metis
  have run: "(\<exists>c u'. FilterTests (shard_env n k) fl True u = Some (c, u') \<and> selected_flags u' ! p) \<longleftrightarrow>
      runnable_flags fl u ! p \<and> trues (take p (runnable_flags fl u)) mod sint n = sint k"
    if "p < length (runnable_flags fl u)" for p k
  proof -
    have "trues xs smod sint n = trues xs mod sint n" for xs
    proof -
      have "trues xs = 0 \<or> 0 < trues xs" using trues_simps(4) [of xs] by linarith
      with assms show ?thesis
        by (auto simp: signed_modulo_int_def signed_divide_int_def sgn_if minus_mult_div_eq_mod)
    qed
    with FilterTests_shard [of n k fl u] picks_nth [OF that] show ?thesis
      by (auto simp: ShouldRunTestOnShard_def)
  qed
  have word: "\<exists>k :: cint. sint k = i" if "0 \<le> i" "i < sint n" for i
  proof
    from that sint_cint_range(2) [of n] have "signed_take_bit 31 i = i"
      by (intro signed_take_bit_int_eq_self) simp_all
    then show "sint (word_of_int i :: cint) = i"
      by (simp add: sint_sbintrunc')
  qed
  have mod: "0 \<le> i mod sint n" "i mod sint n < sint n" for i
    using assms by simp_all
  show ?unique
    using word mod by (auto simp: run) (metis mod)
qed

definition no_code :: test_code where
  "no_code = \<lparr>constructor = \<lambda>_. [], SetUp = \<lambda>_. [], TestBody = \<lambda>_. [], TearDown = \<lambda>_. [],
     destructor = \<lambda>_. []\<rparr>"

theorem shards_partition_witness:
  "(let u = MakeAndRegisterTestInfo ''Raft'' ''DISABLED_slow'' None None Test_Class (\<lambda>_. []) (\<lambda>_. []) no_code
             (MakeAndRegisterTestInfo ''Raft'' ''vote'' None None Test_Class (\<lambda>_. []) (\<lambda>_. []) no_code
               (MakeAndRegisterTestInfo ''Raft'' ''append'' None None Test_Class (\<lambda>_. []) (\<lambda>_. []) no_code
                 UnitTestImpl_new));
        fl = default_flags (\<lambda>_. None)
    in runnable_flags fl u = [True, True, False] \<and>
       {sint k | k. 0 \<le> sint k \<and> sint k < sint (2 :: cint) \<and>
          (\<exists>c u'. FilterTests (shard_env 2 k) fl True u = Some (c, u') \<and> selected_flags u' ! 1)} = {1})"
proof -
  let ?u = "MakeAndRegisterTestInfo ''Raft'' ''DISABLED_slow'' None None Test_Class (\<lambda>_. []) (\<lambda>_. []) no_code
             (MakeAndRegisterTestInfo ''Raft'' ''vote'' None None Test_Class (\<lambda>_. []) (\<lambda>_. []) no_code
               (MakeAndRegisterTestInfo ''Raft'' ''append'' None None Test_Class (\<lambda>_. []) (\<lambda>_. []) no_code
                 UnitTestImpl_new))"
  have runnable: "runnable_flags (default_flags (\<lambda>_. None)) ?u = [True, True, False]"
    by code_simp
  have "0 < sint (2 :: cint)" by simp
  from shards_partition [OF this, of "default_flags (\<lambda>_. None)" ?u, THEN conjunct2, rule_format, of 1]
  show ?thesis by (simp add: runnable)
qed

end
