(* ===== verification/Gtest_Shuffle.thy ===== *)
theory Gtest_Shuffle
  imports Gtest_Selection "HOL-Library.Multiset"
begin

text \<open>
  The order of tests: the random number generator of googletest, its Fisher-Yates shuffle
  (\<open>ShuffleRange\<close> in \<open>src/gtest-internal-inl.h\<close>), \<open>ShuffleTests\<close> and \<open>UnshuffleTests\<close>, and the
  invariant of registration they keep: death test cases run before all others.
\<close>

section \<open>Random numbers and seeds\<close>

definition kMaxRange :: uint32 where
  "kMaxRange = push_bit 31 1"

text \<open>\<open>Random::Generate\<close>: the next state and the number; \<open>None\<close> is a failed \<open>GTEST_CHECK_\<close>.\<close>

definition Generate :: "uint32 \<Rightarrow> uint32 \<Rightarrow> (uint32 \<times> uint32) option" where
  "Generate rng state =
    (let state' = (1103515245 * state + 12345) mod kMaxRange
     in if rng > 0 \<and> rng \<le> kMaxRange then Some (state', state' mod rng) else None)"

definition kMaxRandomSeed :: int where
  "kMaxRandomSeed = 99999"

text \<open>\<open>time_ms\<close> is what \<open>GetTimeInMillis()\<close> returns.\<close>

definition GetRandomSeedFromFlag :: "int \<Rightarrow> cint \<Rightarrow> int" where
  "GetRandomSeedFromFlag time_ms random_seed_flag =
    (let raw_seed = (if random_seed_flag = 0 then of_int time_ms else random_seed_flag) :: uint32
     in uint ((raw_seed - 1) mod of_int kMaxRandomSeed) + 1)"

definition GetNextRandomSeed :: "int \<Rightarrow> int option" where
  "GetNextRandomSeed seed =
    (if 1 \<le> seed \<and> seed \<le> kMaxRandomSeed then
       Some (let next_seed = seed + 1 in if next_seed > kMaxRandomSeed then 1 else next_seed)
     else None)"

section \<open>Shuffling\<close>

definition swap :: "nat \<Rightarrow> nat \<Rightarrow> 'a list \<Rightarrow> 'a list" where
  "swap i j v = v[i := v ! j, j := v ! i]"

text \<open>The loop of \<open>ShuffleRange\<close> at a given \<open>range_width\<close>.\<close>

fun shuffle_loop :: "nat \<Rightarrow> nat \<Rightarrow> uint32 \<Rightarrow> 'a list \<Rightarrow> (uint32 \<times> 'a list) option" where
  "shuffle_loop begin (Suc (Suc w)) random v =
    (case Generate (of_nat (Suc (Suc w))) random of
       None \<Rightarrow> None
     | Some (random', g) \<Rightarrow> shuffle_loop begin (Suc w) random' (swap (begin + unat g) (begin + Suc w) v))"
| "shuffle_loop begin w random v = Some (random, v)"

definition ShuffleRange :: "uint32 \<Rightarrow> int \<Rightarrow> int \<Rightarrow> 'a list \<Rightarrow> (uint32 \<times> 'a list) option" where
  "ShuffleRange random begin end' v =
    (let len = int (length v)
     in if 0 \<le> begin \<and> begin \<le> len \<and> begin \<le> end' \<and> end' \<le> len
        then shuffle_loop (nat begin) (nat (end' - begin)) random v
        else None)"

definition Shuffle :: "uint32 \<Rightarrow> 'a list \<Rightarrow> (uint32 \<times> 'a list) option" where
  "Shuffle random v = ShuffleRange random 0 (int (length v)) v"

fun shuffle_cases :: "uint32 \<Rightarrow> TestCase list \<Rightarrow> (uint32 \<times> TestCase list) option" where
  "shuffle_cases random [] = Some (random, [])"
| "shuffle_cases random (tc # tcs) =
    (case Shuffle random (test_indices tc) of
       None \<Rightarrow> None
     | Some (random', indices) \<Rightarrow>
        (case shuffle_cases random' tcs of
           None \<Rightarrow> None
         | Some (random'', tcs') \<Rightarrow> Some (random'', tc\<lparr>test_indices := indices\<rparr> # tcs')))"

definition ShuffleTests :: "UnitTestImpl \<Rightarrow> UnitTestImpl option" where
  "ShuffleTests u =
    (case ShuffleRange (random_state u) 0 (last_death_test_case u + 1) (test_case_indices u) of
       None \<Rightarrow> None
     | Some (r1, indices1) \<Rightarrow>
        (case ShuffleRange r1 (last_death_test_case u + 1) (int (length (test_cases u))) indices1 of
           None \<Rightarrow> None
         | Some (r2, indices2) \<Rightarrow>
            (case shuffle_cases r2 (test_cases u) of
               None \<Rightarrow> None
             | Some (r3, tcs) \<Rightarrow>
                Some (u\<lparr>test_case_indices := indices2, test_cases := tcs, random_state := r3\<rparr>))))"

definition UnshuffleTests :: "UnitTestImpl \<Rightarrow> UnitTestImpl" where
  "UnshuffleTests u =
     u\<lparr>test_cases := map (\<lambda>tc. tc\<lparr>test_indices := [0 ..< length (test_indices tc)]\<rparr>) (test_cases u),
       test_case_indices :=
         [0 ..< length (test_cases u)] @ drop (length (test_cases u)) (test_case_indices u)\<rparr>"

section \<open>Shuffling a range permutes it\<close>

lemma unat_kMaxRange: "unat kMaxRange = 2 ^ 31"
  by (simp add: kMaxRange_def)

lemma Generate_bounds:
  assumes "Generate rng st = Some (st', g)"
  shows "unat g < unat rng" and "unat st' < 2 ^ 31"
proof -
  from assms have pos: "0 < rng" and st': "st' = (1103515245 * st + 12345) mod kMaxRange"
    and g: "g = st' mod rng"
    by (auto simp: Generate_def Let_def split: if_splits)
  from pos show "unat g < unat rng"
    unfolding g by (simp add: unat_mod word_less_nat_alt)
  show "unat st' < 2 ^ 31"
    unfolding st' unat_mod unat_kMaxRange by simp
qed

lemma Generate_defined:
  assumes "0 < w" and "w \<le> 2 ^ 31"
  obtains st' g where "Generate (of_nat w) st = Some (st', g)" "unat g < w"
proof -
  have w: "unat (of_nat w :: uint32) = w"
    using assms(2) by (simp add: unsigned_of_nat take_bit_nat_eq_self)
  have "of_nat w > (0 :: uint32)" "of_nat w \<le> kMaxRange"
    using assms by (simp_all add: word_less_nat_alt word_le_nat_alt w unat_kMaxRange)
  then obtain st' g where "Generate (of_nat w) st = Some (st', g)"
    by (auto simp: Generate_def Let_def)
  with Generate_bounds(1) [OF this] w that show ?thesis by simp
qed

lemma mset_swap: "i < length v \<Longrightarrow> j < length v \<Longrightarrow> mset (swap i j v) = mset v"
  by (simp add: swap_def mset_swap)

text \<open>A vector is reordered only between two positions.\<close>

definition reorders :: "nat \<Rightarrow> nat \<Rightarrow> 'a list \<Rightarrow> 'a list \<Rightarrow> bool" where
  "reorders b e v v' \<longleftrightarrow> take b v' = take b v \<and> drop e v' = drop e v \<and> mset v' = mset v"

lemma reorders_refl [simp]: "reorders b e v v"
  by (simp add: reorders_def)

lemma reorders_trans: "reorders b e v v' \<Longrightarrow> reorders b e v' v'' \<Longrightarrow> reorders b e v v''"
  by (simp add: reorders_def)

lemma reorders_swap:
  "b \<le> i \<Longrightarrow> i < e \<Longrightarrow> b \<le> j \<Longrightarrow> j < e \<Longrightarrow> e \<le> length v \<Longrightarrow> reorders b e v (swap i j v)"
  by (simp add: reorders_def mset_swap) (simp add: swap_def)

lemma reorders_widen:
  assumes "reorders b e v v'" and "e \<le> e'"
  shows "reorders b e' v v'"
proof -
  from assms have "drop e' v' = drop (e' - e) (drop e v')" "drop e' v = drop (e' - e) (drop e v)"
    by simp_all
  with assms(1) show ?thesis by (simp only: reorders_def simp_thms)
qed

lemma reorders_length: "reorders b e v v' \<Longrightarrow> length v' = length v"
  unfolding reorders_def by (metis size_mset)

lemma shuffle_loop_reorders:
  assumes "b + w \<le> length v" and "w \<le> 2 ^ 31"
  shows "\<exists>random' v'. shuffle_loop b w random v = Some (random', v') \<and> reorders b (b + w) v v'"
  using assms
proof (induction b w random v rule: shuffle_loop.induct)
  case (1 b w random v)
  obtain random' g where gen: "Generate (of_nat (Suc (Suc w))) random = Some (random', g)"
    and g: "unat g < Suc (Suc w)"
    using Generate_defined [of "Suc (Suc w)" random] "1.prems"(2) by blast
  let ?v = "swap (b + unat g) (b + Suc w) v"
  have sw: "reorders b (b + Suc (Suc w)) v ?v"
    using g "1.prems"(1) by (intro reorders_swap) simp_all
  from "1.IH" [OF gen refl] "1.prems" reorders_length [OF sw]
  obtain r v' where "shuffle_loop b (Suc w) random' ?v = Some (r, v')"
    and "reorders b (b + Suc w) ?v v'" by auto
  moreover from this(2) have "reorders b (b + Suc (Suc w)) ?v v'"
    by (rule reorders_widen) simp
  ultimately show ?case
    using gen reorders_trans [OF sw] by simp
qed simp_all

lemma ShuffleRange_reorders:
  assumes "0 \<le> b" and "b \<le> e" and "e \<le> int (length v)" and "length v \<le> 2 ^ 31"
  shows "\<exists>random' v'. ShuffleRange random b e v = Some (random', v') \<and> reorders (nat b) (nat e) v v'"
proof -
  have "nat b + nat (e - b) = nat e" using assms by simp
  with shuffle_loop_reorders [of "nat b" "nat (e - b)" v random] assms show ?thesis
    by (simp add: ShuffleRange_def)
qed

section \<open>The invariant of registration\<close>

definition is_death :: "TestCase \<Rightarrow> bool" where
  "is_death tc \<longleftrightarrow> MatchesFilter (tc_name tc) kDeathTestCaseFilter"

definition registered :: "UnitTestImpl \<Rightarrow> bool" where
  "registered u \<longleftrightarrow>
     test_case_indices u = [0 ..< length (test_cases u)] \<and>
     - 1 \<le> last_death_test_case u \<and> last_death_test_case u < int (length (test_cases u)) \<and>
     (\<forall>i < length (test_cases u). is_death (test_cases u ! i) \<longleftrightarrow> int i \<le> last_death_test_case u) \<and>
     (\<forall>tc \<in> set (test_cases u). test_indices tc = [0 ..< length (test_info_list tc)]) \<and>
     distinct (map tc_name (test_cases u))"

lemma registered_new: "registered UnitTestImpl_new"
  by (simp add: registered_def UnitTestImpl_new_def)

lemma find_test_case_Some:
  "find_test_case n i tcs = Some j \<Longrightarrow> i \<le> j \<and> j < i + length tcs \<and> tc_name (tcs ! (j - i)) = n"
  by (induction tcs arbitrary: i) (force simp: nth_Cons' split: if_splits)+

lemma find_test_case_None: "find_test_case n i tcs = None \<longleftrightarrow> n \<notin> tc_name ` set tcs"
  by (induction tcs arbitrary: i) auto

lemma registered_GetTestCase:
  assumes "registered u" and "GetTestCase n tp set_up tear_down u = (i, u')"
  shows "registered u' \<and> i < length (test_cases u') \<and> tc_name (test_cases u' ! i) = n"
proof (cases "find_test_case n 0 (test_cases u)")
  case (Some j)
  with assms find_test_case_Some [OF this] show ?thesis by (simp add: GetTestCase_def)
next
  case None
  then have new: "n \<notin> tc_name ` set (test_cases u)" by (simp only: find_test_case_None not_False_eq_True)
  let ?l = "last_death_test_case u" and ?tc = "TestCase_new n tp set_up tear_down"
  have tc: "tc_name ?tc = n" "test_indices ?tc = []" "test_info_list ?tc = []"
    by (simp_all add: TestCase_new_def)
  show ?thesis
  proof (cases "MatchesFilter n kDeathTestCaseFilter")
    case True
    let ?p = "nat (?l + 1)"
    from True None assms(2)
    have u': "test_cases u' = take ?p (test_cases u) @ ?tc # drop ?p (test_cases u)"
        "test_case_indices u' = test_case_indices u @ [length (test_case_indices u)]"
        "last_death_test_case u' = ?l + 1" and i: "i = ?p"
      by (auto simp: GetTestCase_def Let_def)
    from assms(1) have l: "- 1 \<le> ?l" "?l < int (length (test_cases u))"
      and idx: "test_case_indices u = [0 ..< length (test_cases u)]"
      by (auto simp: registered_def)
    from l have p: "?p \<le> length (test_cases u)" "int ?p = ?l + 1" by simp_all
    have "is_death (test_cases u' ! k) \<longleftrightarrow> int k \<le> ?l + 1" if "k < length (test_cases u')" for k
    proof -
      consider "k < ?p" | "k = ?p" | "?p < k" by linarith
      then show ?thesis
        using assms(1) that p True tc
        by cases (auto simp: registered_def u' nth_append is_death_def nth_Cons')
    qed
    moreover have "distinct (map tc_name (test_cases u'))"
      using assms(1) new tc p
      by (simp add: registered_def u' take_map [symmetric] drop_map [symmetric])
        (metis append_take_drop_id distinct_append image_set in_set_dropD in_set_takeD list.set_map)
    moreover have "\<forall>tc \<in> set (test_cases u'). test_indices tc = [0 ..< length (test_info_list tc)]"
      using assms(1) tc by (auto simp: registered_def u' dest: in_set_takeD in_set_dropD)
    moreover have "- 1 \<le> ?l + 1" using l(1) by linarith
    moreover have "?l + 1 < int (length (test_cases u'))" using l(2) p(1) by (simp add: u')
    moreover have "test_case_indices u' = [0 ..< length (test_cases u')]"
      using p by (simp add: u' idx)
    moreover have "i < length (test_cases u')" "test_cases u' ! i = ?tc"
      using p by (simp_all add: u' i nth_append)
    ultimately show ?thesis
      using tc unfolding registered_def u'(3) by simp
  next
    case False
    with None assms(2)
    have u': "test_cases u' = test_cases u @ [?tc]"
        "test_case_indices u' = test_case_indices u @ [length (test_case_indices u)]"
        "last_death_test_case u' = ?l" and i: "i = length (test_cases u)"
      by (auto simp: GetTestCase_def Let_def)
    with assms(1) False new tc show ?thesis
      by (auto simp: registered_def nth_append is_death_def less_Suc_eq)
  qed
qed

lemma registered_register:
  assumes "registered u"
  shows "registered (MakeAndRegisterTestInfo tcn n tp vp fixture set_up tear_down factory u)"
proof -
  obtain i u' where get: "GetTestCase tcn tp set_up tear_down u = (i, u')" by fastforce
  from registered_GetTestCase [OF assms get] have u': "registered u'" and i: "i < length (test_cases u')"
    by auto
  let ?t = "TestInfo_new tcn n tp vp fixture factory"
  let ?tcs = "(test_cases u')[i := TestCase_AddTestInfo ?t (test_cases u' ! i)]"
  have names: "map tc_name ?tcs = map tc_name (test_cases u')"
    using i by (intro nth_equalityI) (auto simp: nth_list_update TestCase_AddTestInfo_def)
  have "is_death (?tcs ! k) = is_death (test_cases u' ! k)" for k
    using i by (cases "k = i") (simp_all add: is_death_def TestCase_AddTestInfo_def)
  moreover have "\<forall>tc \<in> set ?tcs. test_indices tc = [0 ..< length (test_info_list tc)]"
    using u' i by (auto simp: registered_def TestCase_AddTestInfo_def dest!: subsetD [OF set_update_subset_insert])
  ultimately have "registered (u'\<lparr>test_cases := ?tcs\<rparr>)"
    using u' names unfolding registered_def by simp
  then show ?thesis
    by (simp add: MakeAndRegisterTestInfo_def AddTestInfo_def TestInfo_new_def get)
qed

section \<open>Shuffled programs\<close>

text \<open>The test cases in the order they run.\<close>

definition run_order :: "UnitTestImpl \<Rightarrow> TestCase list" where
  "run_order u = map (\<lambda>i. test_cases u ! i) (test_case_indices u)"

lemma shuffle_cases_shape:
  assumes "\<forall>tc \<in> set tcs. length (test_indices tc) \<le> 2 ^ 31"
  shows "\<exists>random' tcs'. shuffle_cases random tcs = Some (random', tcs') \<and>
    list_all2 (\<lambda>tc tc'. tc' = tc\<lparr>test_indices := test_indices tc'\<rparr> \<and>
      mset (test_indices tc') = mset (test_indices tc)) tcs tcs'"
  using assms
proof (induction tcs arbitrary: random)
  case (Cons tc tcs)
  obtain r v where sh: "Shuffle random (test_indices tc) = Some (r, v)"
    and v: "mset v = mset (test_indices tc)"
    using ShuffleRange_reorders [of 0 "int (length (test_indices tc))" "test_indices tc" random]
      Cons.prems by (auto simp: Shuffle_def reorders_def)
  from Cons obtain r' tcs' where "shuffle_cases r tcs = Some (r', tcs')"
    "list_all2 (\<lambda>tc tc'. tc' = tc\<lparr>test_indices := test_indices tc'\<rparr> \<and>
      mset (test_indices tc') = mset (test_indices tc)) tcs tcs'"
    by fastforce
  with sh v show ?case by simp
qed simp

lemma reorders_parts:
  assumes "reorders 0 k v v1" and "reorders k n v1 v2" and "k \<le> n" and "length v = n"
  shows "mset v2 = mset v \<and> mset (take k v2) = mset (take k v) \<and> mset (drop k v2) = mset (drop k v)"
proof -
  from assms have drop1: "drop k v1 = drop k v" and take2: "take k v2 = take k v1"
    and all: "mset v1 = mset v" "mset v2 = mset v" by (auto simp: reorders_def)
  have split: "mset xs = mset (take k xs) + mset (drop k xs)" for xs :: "'a list"
    by (metis append_take_drop_id mset_append)
  have "mset (take k v1) = mset (take k v)"
    using split [of v1] split [of v] drop1 all(1) by simp
  moreover from this have "mset (drop k v2) = mset (drop k v)"
    using split [of v2] split [of v] take2 all(2) by simp
  ultimately show ?thesis using take2 all(2) by simp
qed

lemma list_all2_map_eq:
  "list_all2 R xs ys \<Longrightarrow> (\<And>x y. R x y \<Longrightarrow> f y = g x) \<Longrightarrow> map f ys = map g xs"
  by (induction rule: list_all2_induct) auto

text \<open>A shuffled program, compared with the one before.\<close>

definition shuffled :: "UnitTestImpl \<Rightarrow> UnitTestImpl \<Rightarrow> bool" where
  "shuffled u u' \<longleftrightarrow>
    u' = u\<lparr>test_case_indices := test_case_indices u', test_cases := test_cases u',
           random_state := random_state u'\<rparr> \<and>
    list_all2 (\<lambda>tc tc'. tc' = tc\<lparr>test_indices := test_indices tc'\<rparr> \<and>
      mset (test_indices tc') = mset (test_indices tc)) (test_cases u) (test_cases u') \<and>
    mset (test_case_indices u') = mset (test_case_indices u) \<and>
    (let k = nat (last_death_test_case u + 1)
     in mset (take k (test_case_indices u')) = mset (take k (test_case_indices u)) \<and>
        mset (drop k (test_case_indices u')) = mset (drop k (test_case_indices u)))"

lemma ShuffleTests_shuffled:
  assumes "registered u" and "length (test_cases u) \<le> 2 ^ 31"
    and "\<forall>tc \<in> set (test_cases u). length (test_info_list tc) \<le> 2 ^ 31"
  shows "\<exists>u'. ShuffleTests u = Some u' \<and> shuffled u u'"
proof -
  let ?l = "last_death_test_case u" and ?v = "test_case_indices u" and ?n = "length (test_cases u)"
  from assms(1) have l: "0 \<le> ?l + 1" "?l + 1 \<le> int ?n" and v: "length ?v = ?n"
    by (auto simp: registered_def)
  obtain r1 v1 where one: "ShuffleRange (random_state u) 0 (?l + 1) ?v = Some (r1, v1)"
    and ro1: "reorders 0 (nat (?l + 1)) ?v v1"
    using ShuffleRange_reorders [of 0 "?l + 1" ?v "random_state u"] l v assms(2) by auto
  from reorders_length [OF ro1] v have v1: "length v1 = ?n" by simp
  obtain r2 v2 where two: "ShuffleRange r1 (?l + 1) (int ?n) v1 = Some (r2, v2)"
    and ro2: "reorders (nat (?l + 1)) ?n v1 v2"
    using ShuffleRange_reorders [of "?l + 1" "int ?n" v1 r1] l v1 assms(2) by auto
  have "\<forall>tc \<in> set (test_cases u). length (test_indices tc) \<le> 2 ^ 31"
    using assms(1,3) by (auto simp: registered_def)
  from shuffle_cases_shape [OF this] obtain r3 tcs
    where three: "shuffle_cases r2 (test_cases u) = Some (r3, tcs)"
      and tcs: "list_all2 (\<lambda>tc tc'. tc' = tc\<lparr>test_indices := test_indices tc'\<rparr> \<and>
        mset (test_indices tc') = mset (test_indices tc)) (test_cases u) tcs" by blast
  have "ShuffleTests u = Some (u\<lparr>test_case_indices := v2, test_cases := tcs, random_state := r3\<rparr>)"
    by (simp add: ShuffleTests_def one two three)
  moreover have "nat (?l + 1) \<le> ?n" using l by simp
  ultimately show ?thesis
    using tcs reorders_parts [OF ro1 ro2 _ v] by (simp add: shuffled_def Let_def)
qed

lemma shuffled_death:
  assumes "shuffled u u'" and "i < length (test_cases u)"
  shows "is_death (test_cases u' ! i) \<longleftrightarrow> is_death (test_cases u ! i)"
proof -
  from assms have "test_cases u' ! i =
      (test_cases u ! i)\<lparr>test_indices := test_indices (test_cases u' ! i)\<rparr>"
    by (auto simp: shuffled_def dest: list_all2_nthD)
  then have "tc_name (test_cases u' ! i) = tc_name (test_cases u ! i)"
    by (metis (no_types, lifting) TestCase.select_convs(1) TestCase.surjective TestCase.update_convs(4))
  then show ?thesis by (simp add: is_death_def)
qed

lemma shuffled_tests:
  assumes "shuffled u u'"
  shows "map (\<lambda>tc. mset (test_indices tc)) (test_cases u') =
    map (\<lambda>tc. mset (test_indices tc)) (test_cases u)"
proof (rule list_all2_map_eq)
  show "list_all2 (\<lambda>tc tc'. tc' = tc\<lparr>test_indices := test_indices tc'\<rparr> \<and>
      mset (test_indices tc') = mset (test_indices tc)) (test_cases u) (test_cases u')"
    using assms by (simp add: shuffled_def)
qed simp

lemma unshuffle_case:
  assumes "tc' = tc\<lparr>test_indices := test_indices tc'\<rparr> \<and> mset (test_indices tc') = mset (test_indices tc)"
  shows "tc'\<lparr>test_indices := [0 ..< length (test_indices tc')]\<rparr> =
    tc\<lparr>test_indices := [0 ..< length (test_indices tc)]\<rparr>"
  using assms
  by (metis TestCase.unfold_congs(4) TestCase.update_convs(4) TestCase.surjective size_mset)

lemma unshuffle_restores:
  assumes "registered u" and "shuffled u u'"
  shows "UnshuffleTests u' = u\<lparr>random_state := random_state u'\<rparr>"
proof -
  from assms(2) have tcs: "list_all2 (\<lambda>tc tc'. tc' = tc\<lparr>test_indices := test_indices tc'\<rparr> \<and>
      mset (test_indices tc') = mset (test_indices tc)) (test_cases u) (test_cases u')"
    and m: "mset (test_case_indices u') = mset (test_case_indices u)"
    and frame: "u' = u\<lparr>test_case_indices := test_case_indices u', test_cases := test_cases u',
           random_state := random_state u'\<rparr>"
    by (simp_all add: shuffled_def)
  have "map (\<lambda>tc. tc\<lparr>test_indices := [0 ..< length (test_indices tc)]\<rparr>) (test_cases u') =
      map (\<lambda>tc. tc\<lparr>test_indices := [0 ..< length (test_indices tc)]\<rparr>) (test_cases u)"
    by (rule list_all2_map_eq [OF tcs]) (rule unshuffle_case)
  also have "\<dots> = test_cases u"
    using assms(1) by (intro map_idI) (simp add: registered_def)
  finally have "map (\<lambda>tc. tc\<lparr>test_indices := [0 ..< length (test_indices tc)]\<rparr>) (test_cases u') =
    test_cases u" .
  moreover have "length (test_cases u') = length (test_cases u)"
    "length (test_case_indices u') = length (test_cases u)"
    using assms(1) list_all2_lengthD [OF tcs] mset_eq_length [OF m] by (simp_all add: registered_def)
  ultimately show ?thesis
    using assms(1) by (subst frame) (simp add: UnshuffleTests_def registered_def)
qed

text \<open>
  C25.  Shuffling a registered program never fails a check; it permutes the test cases and the tests
  inside each, the death test cases still run before all others, and \<open>UnshuffleTests\<close> restores the
  order of registration.
\<close>

theorem shuffle_keeps_death_tests_first:
  assumes "registered u" and "length (test_cases u) \<le> 2 ^ 31"
    and "\<forall>tc \<in> set (test_cases u). length (test_info_list tc) \<le> 2 ^ 31"
  shows "\<exists>u'. ShuffleTests u = Some u' \<and>
    mset (test_case_indices u') = mset [0 ..< length (test_cases u)] \<and>
    (let k = nat (last_death_test_case u + 1)
     in list_all is_death (take k (run_order u')) \<and>
        list_all (\<lambda>tc. \<not> is_death tc) (drop k (run_order u'))) \<and>
    map (\<lambda>tc. mset (test_indices tc)) (test_cases u') =
      map (\<lambda>tc. mset [0 ..< length (test_info_list tc)]) (test_cases u) \<and>
    UnshuffleTests u' = u\<lparr>random_state := random_state u'\<rparr>"
proof -
  from ShuffleTests_shuffled [OF assms] obtain u'
    where sh: "ShuffleTests u = Some u'" and sd: "shuffled u u'" by blast
  let ?n = "length (test_cases u)" and ?k = "nat (last_death_test_case u + 1)"
  from assms(1) have v: "test_case_indices u = [0 ..< ?n]" and k: "?k \<le> ?n"
    and death: "\<And>i. i < ?n \<Longrightarrow> is_death (test_cases u ! i) \<longleftrightarrow> i < ?k"
    and ti: "\<And>tc. tc \<in> set (test_cases u) \<Longrightarrow> test_indices tc = [0 ..< length (test_info_list tc)]"
    by (auto simp: registered_def)
  from sd v have m: "mset (test_case_indices u') = mset [0 ..< ?n]"
    and mt: "mset (take ?k (test_case_indices u')) = mset (take ?k [0 ..< ?n])"
    and md: "mset (drop ?k (test_case_indices u')) = mset (drop ?k [0 ..< ?n])"
    by (simp_all add: shuffled_def Let_def)
  have "set (take ?k (test_case_indices u')) = {..< ?k}" "set (drop ?k (test_case_indices u')) = {?k ..< ?n}"
    using mset_eq_setD [OF mt] mset_eq_setD [OF md] k by (auto simp: take_upt drop_upt)
  with shuffled_death [OF sd] death k have "list_all is_death (take ?k (run_order u'))"
    "list_all (\<lambda>tc. \<not> is_death tc) (drop ?k (run_order u'))"
    by (auto simp: run_order_def list_all_iff take_map drop_map)
  moreover note shuffled_tests [OF sd]
  moreover have "map (\<lambda>tc. mset (test_indices tc)) (test_cases u) =
      map (\<lambda>tc. mset [0 ..< length (test_info_list tc)]) (test_cases u)"
    by (simp add: ti)
  ultimately show ?thesis
    using sh m unshuffle_restores [OF assms(1) sd] by (simp add: Let_def)
qed

definition three_cases :: UnitTestImpl where
  "three_cases =
     MakeAndRegisterTestInfo ''VoteDeathTest'' ''null'' None None Test_Class (\<lambda>_. []) (\<lambda>_. []) no_code
      (MakeAndRegisterTestInfo ''Append'' ''term'' None None Test_Class (\<lambda>_. []) (\<lambda>_. []) no_code
        (MakeAndRegisterTestInfo ''Vote'' ''twice'' None None Test_Class (\<lambda>_. []) (\<lambda>_. []) no_code
          UnitTestImpl_new))"

theorem shuffle_keeps_death_tests_first_witness:
  "\<exists>u'. ShuffleTests three_cases = Some u' \<and>
     tc_name (run_order u' ! 0) = ''VoteDeathTest'' \<and>
     UnshuffleTests u' = three_cases\<lparr>random_state := random_state u'\<rparr>"
proof -
  have "registered three_cases"
    by (simp add: three_cases_def registered_register registered_new)
  moreover have "length (test_cases three_cases) = 3"
    "list_all (\<lambda>tc. length (test_info_list tc) = 1) (test_cases three_cases)"
    by code_simp+
  then have "length (test_cases three_cases) \<le> 2 ^ 31"
    "\<forall>tc \<in> set (test_cases three_cases). length (test_info_list tc) \<le> 2 ^ 31"
    by (simp_all add: list_all_iff)
  ultimately obtain u' where "ShuffleTests three_cases = Some u'"
    "UnshuffleTests u' = three_cases\<lparr>random_state := random_state u'\<rparr>"
    using shuffle_keeps_death_tests_first by blast
  moreover have "map_option (\<lambda>u'. tc_name (run_order u' ! 0)) (ShuffleTests three_cases) =
      Some ''VoteDeathTest''"
    by code_simp
  ultimately show ?thesis by simp
qed

end
