(* ===== verification/Gtest_Run.thy ===== *)
theory Gtest_Run
  imports Gtest_Shuffle
begin

text \<open>
  Running the tests: \<open>UnitTest::AddTestPartResult\<close>, the exception handling around user code,
  \<open>Test::Run\<close>, \<open>TestInfo::Run\<close>, \<open>TestCase::Run\<close>, \<open>UnitTestImpl::RunAllTests\<close> and \<open>UnitTest::Run\<close>
  of \<open>lib/googletest/src/gtest.cc\<close>.  The events sent to the listeners are recorded in the state.
  Files (the shard status file, the premature exit file), the stack trace getter and the clock
  are outside the model; the one use of the clock that matters, the random seed, is an argument.
\<close>

section \<open>Reporting\<close>

text \<open>
  How a piece of code ends: it returns, an exception leaves it, the process is killed (a failed
  internal check, or the null write of \<open>--gtest_break_on_failure\<close>), it exits, or it runs for ever.
\<close>

datatype status = Done | Raised exn | Crashed | Exited | Forever

definition kUnknownFile :: string where
  "kUnknownFile = ''unknown file''"

definition FormatFileLocation :: "string option \<Rightarrow> int \<Rightarrow> string" where
  "FormatFileLocation file line =
    (let file_name = (case file of None \<Rightarrow> kUnknownFile | Some f \<Rightarrow> f)
     in if line < 0 then file_name @ '':'' else file_name @ '':'' @ int_to_string line @ '':'')"

definition current_test_result :: "UnitTestImpl \<Rightarrow> TestResult" where
  "current_test_result u =
    (case current_test_info u of
       Some (i, j) \<Rightarrow> ti_result (test_info_list (test_cases u ! i) ! j)
     | None \<Rightarrow> ut_ad_hoc_test_result u)"

definition update_test :: "nat \<Rightarrow> nat \<Rightarrow> (TestInfo \<Rightarrow> TestInfo) \<Rightarrow> UnitTestImpl \<Rightarrow> UnitTestImpl" where
  "update_test i j f u =
    (let tc = test_cases u ! i
     in u\<lparr>test_cases := (test_cases u)[i :=
           tc\<lparr>test_info_list := (test_info_list tc)[j := f (test_info_list tc ! j)]\<rparr>]\<rparr>)"

definition emit :: "event \<Rightarrow> UnitTestImpl \<Rightarrow> UnitTestImpl" where
  "emit e u = u\<lparr>events := events u @ [e]\<rparr>"

text \<open>\<open>DefaultGlobalTestPartResultReporter::ReportTestPartResult\<close>.\<close>

definition ReportTestPartResult :: "TestPartResult \<Rightarrow> UnitTestImpl \<Rightarrow> UnitTestImpl" where
  "ReportTestPartResult result u =
     emit (OnTestPartResult result)
      (case current_test_info u of
         Some (i, j) \<Rightarrow>
           update_test i j (\<lambda>t. t\<lparr>ti_result := AddTestPartResult result (ti_result t)\<rparr>) u
       | None \<Rightarrow>
           u\<lparr>ut_ad_hoc_test_result := AddTestPartResult result (ut_ad_hoc_test_result u)\<rparr>)"

definition trace_text :: "(string \<times> int \<times> string) list \<Rightarrow> string" where
  "trace_text stack =
    (if stack = [] then []
     else newline # ''Google Test trace:'' @
       concat (map (\<lambda>(file, line, message).
         newline # FormatFileLocation (Some file) line @ '' '' @ message) (rev stack)))"

definition kStackTraceMarker :: string where
  "kStackTraceMarker = newline # ''Stack trace:'' @ [newline]"

definition UnitTest_AddTestPartResult ::
  "GtestFlags \<Rightarrow> TestPartResult_Type \<Rightarrow> string \<Rightarrow> int \<Rightarrow> string \<Rightarrow> string \<Rightarrow> UnitTestImpl \<Rightarrow>
     status \<times> UnitTestImpl"
where
  "UnitTest_AddTestPartResult fl result_type file line message os_stack_trace u =
    (let msg = message @ trace_text (gtest_trace_stack u) @
               (if os_stack_trace = [] then [] else kStackTraceMarker @ os_stack_trace);
         result = \<lparr>part_type = result_type, file_name = file, line_number = line,
                   part_message = c_str msg\<rparr>;
         u' = ReportTestPartResult result u
     in if result_type \<noteq> kSuccess then
          (if break_on_failure fl then (Crashed, u')
           else if throw_on_failure fl then (Raised Gtest_Failure, u')
           else (Done, u'))
        else (Done, u'))"

section \<open>User code\<close>

text \<open>Sequencing: what follows runs only when what came before returned.\<close>

definition and_then ::
  "status \<times> UnitTestImpl \<Rightarrow> (UnitTestImpl \<Rightarrow> status \<times> UnitTestImpl) \<Rightarrow> status \<times> UnitTestImpl"
where
  "and_then r k = (case r of (Done, u) \<Rightarrow> k u | _ \<Rightarrow> r)"

text \<open>\<open>ScopedTrace\<close>: the constructor pushes, the destructor pops, however the block is left.\<close>

definition push_trace :: "string \<times> int \<times> string \<Rightarrow> UnitTestImpl \<Rightarrow> UnitTestImpl" where
  "push_trace t u = u\<lparr>gtest_trace_stack := gtest_trace_stack u @ [t]\<rparr>"

definition pop_trace :: "UnitTestImpl \<Rightarrow> UnitTestImpl" where
  "pop_trace u = u\<lparr>gtest_trace_stack := butlast (gtest_trace_stack u)\<rparr>"

fun run_action :: "GtestFlags \<Rightarrow> action \<Rightarrow> UnitTestImpl \<Rightarrow> status \<times> UnitTestImpl"
  and run_actions :: "GtestFlags \<Rightarrow> action list \<Rightarrow> UnitTestImpl \<Rightarrow> status \<times> UnitTestImpl"
where
  "run_action fl (Assert ty file line message trace) u =
     UnitTest_AddTestPartResult fl ty file line message trace u"
| "run_action fl (Scoped_Trace file line message body) u =
    (case run_actions fl body (push_trace (file, line, message) u) of (st, u') \<Rightarrow> (st, pop_trace u'))"
| "run_action fl (Throw e) u = (Raised e, u)"
| "run_actions fl [] u = (Done, u)"
| "run_actions fl (a # as) u = and_then (run_action fl a u) (run_actions fl as)"

definition FormatCxxExceptionMessage :: "string option \<Rightarrow> string \<Rightarrow> string" where
  "FormatCxxExceptionMessage description location =
    (case description of
       Some d \<Rightarrow> ''C++ exception with description '' @ [CHR 0x22] @ d @ [CHR 0x22]
     | None \<Rightarrow> ''Unknown C++ exception'') @ '' thrown in '' @ location @ ''.''"

definition ReportFailureInUnknownLocation ::
  "GtestFlags \<Rightarrow> TestPartResult_Type \<Rightarrow> string \<Rightarrow> UnitTestImpl \<Rightarrow> status \<times> UnitTestImpl"
where
  "ReportFailureInUnknownLocation fl result_type message u =
     UnitTest_AddTestPartResult fl result_type [] (- 1) message [] u"

text \<open>
  \<open>HandleExceptionsInMethodIfSupported\<close> around a piece of code that ended as given; the flag says
  whether it returned.
\<close>

definition handle_exceptions ::
  "GtestFlags \<Rightarrow> string \<Rightarrow> status \<times> UnitTestImpl \<Rightarrow> bool \<times> status \<times> UnitTestImpl"
where
  "handle_exceptions fl location r =
    (case r of
       (Raised e, u) \<Rightarrow>
         if catch_exceptions fl then
           (case e of
              Gtest_Failure \<Rightarrow> (False, Raised Gtest_Failure, u)
            | Std_Exception what \<Rightarrow>
                (False, ReportFailureInUnknownLocation fl kFatalFailure
                   (FormatCxxExceptionMessage (Some what) location) u)
            | Unknown_Exception \<Rightarrow>
                (False, ReportFailureInUnknownLocation fl kFatalFailure
                   (FormatCxxExceptionMessage None location) u))
         else (False, r)
     | (st, u) \<Rightarrow> (st = Done, r))"

definition call :: "GtestFlags \<Rightarrow> string \<Rightarrow> user_code \<Rightarrow> UnitTestImpl \<Rightarrow> bool \<times> status \<times> UnitTestImpl" where
  "call fl location code u = handle_exceptions fl location (run_actions fl (code (events u)) u)"

section \<open>Running one test\<close>

definition HasFatalFailure :: "UnitTestImpl \<Rightarrow> bool" where
  "HasFatalFailure u = TestResult_HasFatalFailure (current_test_result u)"

definition mixed_fixture_message :: "string \<Rightarrow> string \<Rightarrow> string \<Rightarrow> string" where
  "mixed_fixture_message tcn TEST_F_name TEST_name =
     ''All tests in the same test case must use the same test fixture'' @ newline #
     ''class, so mixing TEST_F and TEST in the same test case is'' @ newline #
     ''illegal.  In test case '' @ tcn @ '','' @ newline #
     ''test '' @ TEST_F_name @ '' is defined using TEST_F but'' @ newline #
     ''test '' @ TEST_name @ '' is defined using TEST.  You probably'' @ newline #
     ''want to change the TEST to TEST_F or move it to another test'' @ newline # ''case.''"

definition two_fixtures_message :: "string \<Rightarrow> string \<Rightarrow> string \<Rightarrow> string" where
  "two_fixtures_message tcn first_test_name this_test_name =
     ''All tests in the same test case must use the same test fixture'' @ newline #
     ''class.  However, in test case '' @ tcn @ '','' @ newline #
     ''you defined test '' @ first_test_name @ '' and test '' @ this_test_name @ newline #
     ''using two different test fixture classes.  This can happen if'' @ newline #
     ''the two classes are from different namespaces or translation'' @ newline #
     ''units and have the same name.  You should probably rename one'' @ newline #
     ''of the classes to put the tests into different test cases.''"

text \<open>\<open>Test::HasSameFixtureClass\<close> for test \<open>j\<close> of test case \<open>i\<close>.\<close>

definition HasSameFixtureClass ::
  "GtestFlags \<Rightarrow> nat \<Rightarrow> nat \<Rightarrow> UnitTestImpl \<Rightarrow> bool \<times> status \<times> UnitTestImpl"
where
  "HasSameFixtureClass fl i j u =
    (let tests = test_info_list (test_cases u ! i);
         first = tests ! 0; this = tests ! j
     in if fixture_class_id this \<noteq> fixture_class_id first then
          (let first_is_TEST = (fixture_class_id first = Test_Class);
               this_is_TEST = (fixture_class_id this = Test_Class);
               message =
                 (if first_is_TEST \<or> this_is_TEST then
                    mixed_fixture_message (ti_test_case_name this)
                      (if first_is_TEST then ti_name this else ti_name first)
                      (if first_is_TEST then ti_name first else ti_name this)
                  else two_fixtures_message (ti_test_case_name this) (ti_name first) (ti_name this))
           in (False, UnitTest_AddTestPartResult fl kNonFatalFailure ''gtest.cc''
                 (if first_is_TEST \<or> this_is_TEST then 2301 else 2313)
                 (''Failed'' @ newline # message) [] u))
        else (True, Done, u))"

definition Test_Run :: "GtestFlags \<Rightarrow> nat \<Rightarrow> nat \<Rightarrow> UnitTestImpl \<Rightarrow> status \<times> UnitTestImpl" where
  "Test_Run fl i j u =
    (let code = ti_code (test_info_list (test_cases u ! i) ! j)
     in case HasSameFixtureClass fl i j u of
          (False, r) \<Rightarrow> r
        | (True, r) \<Rightarrow>
            and_then (and_then r (\<lambda>u. snd (call fl ''SetUp()'' (SetUp code) u))) (\<lambda>u.
            and_then (if HasFatalFailure u then (Done, u)
                      else snd (call fl ''the test body'' (TestBody code) u)) (\<lambda>u.
            snd (call fl ''TearDown()'' (TearDown code) u))))"

text \<open>\<open>TestInfo::Run\<close>; a test object whose constructor threw is \<open>NULL\<close>, and nothing is deleted.\<close>

definition TestInfo_Run :: "GtestFlags \<Rightarrow> nat \<Rightarrow> nat \<Rightarrow> UnitTestImpl \<Rightarrow> status \<times> UnitTestImpl" where
  "TestInfo_Run fl i j u =
    (let t = test_info_list (test_cases u ! i) ! j; code = ti_code t;
         id = (ti_test_case_name t, ti_name t)
     in if \<not> ti_should_run t then (Done, u)
        else
          (let u1 = emit (OnTestStart (fst id) (snd id)) (u\<lparr>current_test_info := Some (i, j)\<rparr>)
           in case call fl ''the test fixture's constructor'' (constructor code) u1 of
                (created, r) \<Rightarrow>
                  and_then r (\<lambda>u.
                  and_then (if created \<and> \<not> HasFatalFailure u then Test_Run fl i j u else (Done, u)) (\<lambda>u.
                  and_then (if created then snd (call fl ''the test fixture's destructor'' (destructor code) u)
                            else (Done, u)) (\<lambda>u.
                  (Done, (emit (OnTestEnd (fst id) (snd id)) u)\<lparr>current_test_info := None\<rparr>))))))"

section \<open>Running all tests\<close>

fun run_tests :: "GtestFlags \<Rightarrow> nat \<Rightarrow> nat list \<Rightarrow> UnitTestImpl \<Rightarrow> status \<times> UnitTestImpl" where
  "run_tests fl i [] u = (Done, u)"
| "run_tests fl i (j # js) u = and_then (TestInfo_Run fl i j u) (run_tests fl i js)"

definition TestCase_Run :: "GtestFlags \<Rightarrow> nat \<Rightarrow> UnitTestImpl \<Rightarrow> status \<times> UnitTestImpl" where
  "TestCase_Run fl i u =
    (let tc = test_cases u ! i
     in if \<not> tc_should_run tc then (Done, u)
        else
          (let u1 = emit (OnTestCaseStart (tc_name tc)) (u\<lparr>current_test_case := Some i\<rparr>)
           in and_then (snd (call fl ''SetUpTestCase()'' (set_up_tc tc) u1)) (\<lambda>u.
              and_then (run_tests fl i (take (length (test_info_list tc)) (test_indices tc)) u) (\<lambda>u.
              and_then (snd (call fl ''TearDownTestCase()'' (tear_down_tc tc) u)) (\<lambda>u.
              (Done, (emit (OnTestCaseEnd (tc_name tc)) u)\<lparr>current_test_case := None\<rparr>))))))"

fun run_cases :: "GtestFlags \<Rightarrow> nat list \<Rightarrow> UnitTestImpl \<Rightarrow> status \<times> UnitTestImpl" where
  "run_cases fl [] u = (Done, u)"
| "run_cases fl (i # is) u = and_then (TestCase_Run fl i u) (run_cases fl is)"

text \<open>\<open>ForEach(environments_, SetUpEnvironment)\<close>: no exception handling here.\<close>

fun run_environments :: "GtestFlags \<Rightarrow> user_code list \<Rightarrow> UnitTestImpl \<Rightarrow> status \<times> UnitTestImpl" where
  "run_environments fl [] u = (Done, u)"
| "run_environments fl (e # es) u =
     and_then (run_actions fl (e (events u)) u) (run_environments fl es)"

definition ClearNonAdHocTestResult :: "UnitTestImpl \<Rightarrow> UnitTestImpl" where
  "ClearNonAdHocTestResult u = u\<lparr>test_cases := map TestCase_ClearResult (test_cases u)\<rparr>"

text \<open>The tests of one iteration, between the two environment phases.\<close>

definition run_program_tests :: "GtestFlags \<Rightarrow> UnitTestImpl \<Rightarrow> status \<times> UnitTestImpl" where
  "run_program_tests fl u =
     and_then (run_environments fl (map fst (environments u)) (emit OnEnvironmentsSetUpStart u)) (\<lambda>u.
     and_then (let u = emit OnEnvironmentsSetUpEnd u
               in if HasFatalFailure u then (Done, u)
                  else run_cases fl (take (length (test_cases u)) (test_case_indices u)) u) (\<lambda>u.
     and_then (run_environments fl (rev (map snd (environments u)))
                 (emit OnEnvironmentsTearDownStart u)) (\<lambda>u.
     (Done, emit OnEnvironmentsTearDownEnd u))))"

definition shuffle_if :: "GtestFlags \<Rightarrow> bool \<Rightarrow> UnitTestImpl \<Rightarrow> status \<times> UnitTestImpl" where
  "shuffle_if fl has_tests_to_run u =
    (if has_tests_to_run \<and> shuffle fl then
       (case ShuffleTests (u\<lparr>random_state := of_int (ut_random_seed u)\<rparr>) of
          None \<Rightarrow> (Crashed, u)
        | Some u' \<Rightarrow> (Done, u'))
     else (Done, u))"

definition next_seed_if :: "GtestFlags \<Rightarrow> UnitTestImpl \<Rightarrow> status \<times> UnitTestImpl" where
  "next_seed_if fl u =
    (if shuffle fl then
       (case GetNextRandomSeed (ut_random_seed u) of
          None \<Rightarrow> (Crashed, u)
        | Some s \<Rightarrow> (Done, u\<lparr>ut_random_seed := s\<rparr>))
     else (Done, u))"

text \<open>The loop over the iterations, \<open>n\<close> of them left and \<open>i\<close> done; the flag is \<open>failed\<close>.\<close>

fun run_iterations ::
  "GtestFlags \<Rightarrow> bool \<Rightarrow> nat \<Rightarrow> int \<Rightarrow> bool \<Rightarrow> UnitTestImpl \<Rightarrow> bool \<times> status \<times> UnitTestImpl"
where
  "run_iterations fl has_tests 0 i failed u = (failed, Done, u)"
| "run_iterations fl has_tests (Suc n) i failed u =
    (case and_then (shuffle_if fl has_tests (ClearNonAdHocTestResult u)) (\<lambda>u.
          let u = emit (OnTestIterationStart i) u
          in if has_tests then run_program_tests fl u else (Done, u)) of
       (Done, u1) \<Rightarrow>
         (let u2 = emit (OnTestIterationEnd i) u1;
              failed' = (failed \<or> UnitTest_Failed u2)
          in case next_seed_if fl (UnshuffleTests u2) of
               (Done, u3) \<Rightarrow> run_iterations fl has_tests n (i + 1) failed' u3
             | r \<Rightarrow> (failed', r))
     | r \<Rightarrow> (failed, r))"

text \<open>
  \<open>RunAllTests\<close>: its Boolean result, how it ended, and the object.  \<open>initialized\<close> is
  \<open>GTestIsInitialized()\<close> and \<open>time_ms\<close> the clock.
\<close>

definition RunAllTests ::
  "environment \<Rightarrow> GtestFlags \<Rightarrow> bool \<Rightarrow> bool \<Rightarrow> int \<Rightarrow> UnitTestImpl \<Rightarrow> bool \<times> status \<times> UnitTestImpl"
where
  "RunAllTests getenv fl initialized g_help_flag time_ms u =
    (if \<not> initialized then (False, Done, u)
     else if g_help_flag then (True, Done, u)
     else
       (let in_subprocess = (internal_run_death_test fl \<noteq> [])
        in case ShouldShard getenv in_subprocess of
             None \<Rightarrow> (False, Exited, u)
           | Some should_shard \<Rightarrow>
              (case FilterTests getenv fl should_shard u of
                 None \<Rightarrow> (False, Exited, u)
               | Some (selected, u1) \<Rightarrow>
                  if list_tests fl then (True, Done, u1)
                  else
                    (let u2 = emit OnTestProgramStart (u1\<lparr>ut_random_seed :=
                           (if shuffle fl then GetRandomSeedFromFlag time_ms (random_seed fl) else 0)\<rparr>);
                         n = (if in_subprocess then 1 else sint (repeat fl))
                     in if n < 0 then (False, Forever, u2)
                        else (case run_iterations fl (selected > 0) (nat n) 0 False u2 of
                                (failed, Done, u3) \<Rightarrow> (\<not> failed, Done, emit OnTestProgramEnd u3)
                              | r \<Rightarrow> r)))))"

text \<open>\<open>UnitTest::Run\<close>: the exit code for \<open>main\<close>.\<close>

definition UnitTest_Run ::
  "environment \<Rightarrow> GtestFlags \<Rightarrow> bool \<Rightarrow> bool \<Rightarrow> int \<Rightarrow> UnitTestImpl \<Rightarrow> int \<times> status \<times> UnitTestImpl"
where
  "UnitTest_Run getenv fl initialized g_help_flag time_ms u =
    (case RunAllTests getenv fl initialized g_help_flag time_ms u of
       (ok, r) \<Rightarrow>
         (case handle_exceptions fl ''auxiliary test code (environments or event listeners)'' r of
            (returned, r') \<Rightarrow> (if returned \<and> ok then 0 else 1, r')))"

end
