(* ===== verification/Gtest_Verdict.thy ===== *)
theory Gtest_Verdict
  imports Gtest_Run
begin

text \<open>
  The verdict of a test program.  Whatever the user code does, every failure it reports reaches a
  result that the final verdict reads: \<open>traces u u'\<close> relates two states of a run, with the events in
  between and the failures among them.
\<close>

section \<open>The failures of a state and of a trace\<close>

definition failures :: "event list \<Rightarrow> bool" where
  "failures es \<longleftrightarrow> list_ex (\<lambda>e. case e of OnTestPartResult p \<Rightarrow> part_failed p | _ \<Rightarrow> False) es"

lemma failures_simps [simp]:
  "\<not> failures []" "failures (es @ es') \<longleftrightarrow> failures es \<or> failures es'"
  "failures (OnTestPartResult p # es) \<longleftrightarrow> part_failed p \<or> failures es"
  by (simp_all add: failures_def)

lemma TestResult_Failed_iff: "TestResult_Failed r \<longleftrightarrow> list_ex part_failed (test_part_results r)"
proof -
  have "TestResult_Failed r \<longleftrightarrow> (\<exists>i < length (test_part_results r). part_failed (test_part_results r ! i))"
    by (auto simp: TestResult_Failed_def list_ex_iff GetTestPartResult_def total_part_count_def)
  then show ?thesis by (metis list_ex_iff in_set_conv_nth)
qed

lemma Failed_AddTestPartResult [simp]:
  "TestResult_Failed (AddTestPartResult p r) \<longleftrightarrow> TestResult_Failed r \<or> part_failed p"
  by (auto simp: TestResult_Failed_iff AddTestPartResult_def)

lemma UnitTest_Failed_iff:
  "UnitTest_Failed u \<longleftrightarrow>
     (\<exists>tc \<in> set (test_cases u). tc_should_run tc \<and>
        (\<exists>t \<in> set (test_info_list tc). ti_should_run t \<and> TestResult_Failed (ti_result t))) \<or>
     TestResult_Failed (ut_ad_hoc_test_result u)"
  by (auto simp: UnitTest_Failed_def failed_test_case_count_def TestCaseFailed_def TestCase_Failed_def
    failed_test_count_def TestFailed_def CountIf_pos list_ex_iff)

section \<open>Where results go\<close>

text \<open>The current test is one that should run, in a test case that should run.\<close>

definition current_ok :: "UnitTestImpl \<Rightarrow> bool" where
  "current_ok u \<longleftrightarrow>
    (case current_test_info u of
       None \<Rightarrow> True
     | Some (i, j) \<Rightarrow>
        i < length (test_cases u) \<and> j < length (test_info_list (test_cases u ! i)) \<and>
        tc_should_run (test_cases u ! i) \<and> ti_should_run (test_info_list (test_cases u ! i) ! j))"

text \<open>What running code leaves alone: the selection and the order of the tests.\<close>

definition tc_shape :: "TestCase \<Rightarrow> bool \<times> nat list \<times> bool list" where
  "tc_shape tc = (tc_should_run tc, test_indices tc, map ti_should_run (test_info_list tc))"

definition traces :: "UnitTestImpl \<Rightarrow> UnitTestImpl \<Rightarrow> bool" where
  "traces u u' \<longleftrightarrow>
    map tc_shape (test_cases u') = map tc_shape (test_cases u) \<and>
    test_case_indices u' = test_case_indices u \<and> environments u' = environments u \<and>
    (\<exists>es. events u' = events u @ es \<and> (UnitTest_Failed u' \<longleftrightarrow> UnitTest_Failed u \<or> failures es))"

lemma traces_refl: "traces u u"
  by (simp add: traces_def)

lemma traces_trans: "traces u u' \<Longrightarrow> traces u' u'' \<Longrightarrow> traces u u''"
  by (fastforce simp: traces_def)

lemma traces_length: "traces u u' \<Longrightarrow> length (test_cases u') = length (test_cases u)"
  unfolding traces_def by (metis length_map)

lemma tc_shape_eq:
  assumes "tc_shape tc' = tc_shape tc"
  shows "tc_should_run tc' = tc_should_run tc" "test_indices tc' = test_indices tc"
    "length (test_info_list tc') = length (test_info_list tc)"
    "j < length (test_info_list tc) \<Longrightarrow>
       ti_should_run (test_info_list tc' ! j) = ti_should_run (test_info_list tc ! j)"
proof -
  from assms have ts: "map ti_should_run (test_info_list tc') = map ti_should_run (test_info_list tc)"
    by (simp add: tc_shape_def)
  from assms show "tc_should_run tc' = tc_should_run tc" "test_indices tc' = test_indices tc"
    by (simp_all add: tc_shape_def)
  from ts show len: "length (test_info_list tc') = length (test_info_list tc)" by (rule map_eq_imp_length_eq)
  show "j < length (test_info_list tc) \<Longrightarrow>
       ti_should_run (test_info_list tc' ! j) = ti_should_run (test_info_list tc ! j)"
    using arg_cong [OF ts, of "\<lambda>xs. xs ! j"] len by simp
qed

lemma traces_shape:
  "traces u u' \<Longrightarrow> i < length (test_cases u) \<Longrightarrow>
     tc_shape (test_cases u' ! i) = tc_shape (test_cases u ! i)"
  unfolding traces_def by (metis length_map nth_map)

lemma current_ok_traces:
  assumes "traces u u'" and "current_ok u" and "current_test_info u' = current_test_info u"
  shows "current_ok u'"
proof (cases "current_test_info u")
  case (Some p)
  obtain i j where p: "p = (i, j)" by (cases p)
  with assms Some have i: "i < length (test_cases u)" by (simp add: current_ok_def)
  from tc_shape_eq [OF traces_shape [OF assms(1) i]] traces_length [OF assms(1)] assms Some p
  show ?thesis by (simp add: current_ok_def)
qed (use assms in \<open>simp add: current_ok_def\<close>)

lemma traces_emit: "\<not> failures [e] \<Longrightarrow> traces u (emit e u)"
  by (auto simp: traces_def emit_def UnitTest_Failed_def failed_test_case_count_def intro: exI [of _ "[e]"])

lemma list_ex_nth: "list_ex P xs \<longleftrightarrow> (\<exists>l < length xs. P (xs ! l))"
  by (metis list_ex_iff in_set_conv_nth)

lemma list_ex_update:
  "k < length xs \<Longrightarrow> list_ex P (xs[k := y]) \<longleftrightarrow> P y \<or> (\<exists>l < length xs. l \<noteq> k \<and> P (xs ! l))"
  by (auto simp: list_ex_nth nth_list_update split: if_splits)

lemma list_ex_split:
  "k < length xs \<Longrightarrow> list_ex P xs \<longleftrightarrow> P (xs ! k) \<or> (\<exists>l < length xs. l \<noteq> k \<and> P (xs ! l))"
  using list_ex_update [of k xs P "xs ! k"] by simp

text \<open>Adding a part to a test that should run.\<close>

lemma failed_update_test:
  fixes u :: UnitTestImpl and i j :: nat and p :: TestPartResult
  defines "u' \<equiv> update_test i j (\<lambda>t. t\<lparr>ti_result := AddTestPartResult p (ti_result t)\<rparr>) u"
  assumes "i < length (test_cases u)" and "j < length (test_info_list (test_cases u ! i))"
    and "tc_should_run (test_cases u ! i)" and "ti_should_run (test_info_list (test_cases u ! i) ! j)"
  shows "UnitTest_Failed u' \<longleftrightarrow> UnitTest_Failed u \<or> part_failed p"
    and "map tc_shape (test_cases u') = map tc_shape (test_cases u)"
proof -
  let ?tc = "test_cases u ! i"
  let ?t = "test_info_list ?tc ! j"
  let ?t' = "?t\<lparr>ti_result := AddTestPartResult p (ti_result ?t)\<rparr>"
  let ?tc' = "?tc\<lparr>test_info_list := (test_info_list ?tc)[j := ?t']\<rparr>"
  have tcs: "test_cases u' = (test_cases u)[i := ?tc']"
    and adhoc: "ut_ad_hoc_test_result u' = ut_ad_hoc_test_result u"
    by (simp_all add: u'_def update_test_def Let_def)
  let ?F = "\<lambda>t. ti_should_run t \<and> TestResult_Failed (ti_result t)"
  let ?G = "\<lambda>tc. tc_should_run tc \<and> list_ex ?F (test_info_list tc)"
  have "list_ex ?F (test_info_list ?tc') \<longleftrightarrow> list_ex ?F (test_info_list ?tc) \<or> part_failed p"
    using assms(3,5) by (simp add: list_ex_update list_ex_split [OF assms(3), of ?F]) blast
  then have "list_ex ?G (test_cases u') \<longleftrightarrow> list_ex ?G (test_cases u) \<or> part_failed p"
    using assms(2,4) unfolding tcs by (simp add: list_ex_update list_ex_split [OF assms(2), of ?G]) blast
  then show "UnitTest_Failed u' \<longleftrightarrow> UnitTest_Failed u \<or> part_failed p"
    unfolding UnitTest_Failed_iff adhoc by (auto simp: list_ex_iff)
  have "tc_shape ?tc' = tc_shape ?tc"
    by (simp add: tc_shape_def map_update list_update_id) (metis list_update_id map_update)
  then show "map tc_shape (test_cases u') = map tc_shape (test_cases u)"
    unfolding tcs by (metis list_update_id map_update)
qed

lemma traces_report:
  assumes "current_ok u"
  shows "traces u (ReportTestPartResult p u)"
proof (cases "current_test_info u")
  case None
  then show ?thesis
    by (auto simp: traces_def ReportTestPartResult_def emit_def UnitTest_Failed_iff)
next
  case (Some q)
  obtain i j where q: "q = (i, j)" by (cases q)
  let ?u' = "update_test i j (\<lambda>t. t\<lparr>ti_result := AddTestPartResult p (ti_result t)\<rparr>) u"
  have "UnitTest_Failed ?u' \<longleftrightarrow> UnitTest_Failed u \<or> part_failed p"
    "map tc_shape (test_cases ?u') = map tc_shape (test_cases u)"
    using assms Some q by (intro failed_update_test; simp add: current_ok_def)+
  then show ?thesis
    using Some q
    by (auto simp: traces_def ReportTestPartResult_def emit_def UnitTest_Failed_iff update_test_def Let_def)
qed

section \<open>The run keeps track of failures\<close>

definition indices_ok :: "UnitTestImpl \<Rightarrow> bool" where
  "indices_ok u \<longleftrightarrow>
    length (test_case_indices u) = length (test_cases u) \<and>
    set (test_case_indices u) \<subseteq> {..< length (test_cases u)} \<and>
    (\<forall>tc \<in> set (test_cases u).
       length (test_indices tc) = length (test_info_list tc) \<and>
       set (test_indices tc) \<subseteq> {..< length (test_info_list tc)})"

lemma registered_indices_ok: "registered u \<Longrightarrow> indices_ok u"
  by (auto simp: registered_def indices_ok_def)

lemma indices_ok_traces:
  assumes "traces u u'" and "indices_ok u"
  shows "indices_ok u'"
proof -
  have "length (test_indices tc') = length (test_info_list tc') \<and>
      set (test_indices tc') \<subseteq> {..< length (test_info_list tc')}" if "tc' \<in> set (test_cases u')" for tc'
  proof -
    from that obtain i where i: "i < length (test_cases u')" "tc' = test_cases u' ! i"
      by (auto simp: in_set_conv_nth)
    with traces_length [OF assms(1)] have "i < length (test_cases u)" by simp
    from tc_shape_eq [OF traces_shape [OF assms(1) this]] assms(2) nth_mem [OF this] i(2)
    show ?thesis by (simp add: indices_ok_def)
  qed
  with assms traces_length [OF assms(1)] show ?thesis by (simp add: indices_ok_def traces_def)
qed

text \<open>The states of a run, and code that may run from such a state.\<close>

definition running :: "UnitTestImpl \<Rightarrow> bool" where
  "running u \<longleftrightarrow> current_ok u \<and> indices_ok u"

definition goes :: "UnitTestImpl \<Rightarrow> status \<times> UnitTestImpl \<Rightarrow> bool" where
  "goes u r \<longleftrightarrow> traces u (snd r) \<and> running (snd r)"

lemma goes_refl: "running u \<Longrightarrow> goes u (st, u)"
  by (simp add: goes_def traces_refl)

lemma goes_trans: "goes u (st, u') \<Longrightarrow> goes u' r \<Longrightarrow> goes u r"
  by (auto simp: goes_def intro: traces_trans)

lemma goes_status: "goes u (st, u') \<Longrightarrow> goes u (st', u')"
  by (simp add: goes_def)

lemma goes_and_then:
  assumes "goes u r" and "\<And>u'. goes u (Done, u') \<Longrightarrow> goes u' (k u')"
  shows "goes u (and_then r k)"
proof (cases r)
  case (Pair st u')
  show ?thesis
  proof (cases st)
    case Done
    with assms Pair goes_trans show ?thesis by (auto simp: and_then_def)
  qed (use assms(1) Pair in \<open>simp_all add: and_then_def\<close>)
qed

lemma goes_running: "goes u (st, u') \<Longrightarrow> running u'"
  by (simp add: goes_def)

text \<open>A step that leaves the tests and the current test as they are.\<close>

lemma goes_frame:
  assumes "running u" and "test_cases u' = test_cases u" and "test_case_indices u' = test_case_indices u"
    and "environments u' = environments u" and "ut_ad_hoc_test_result u' = ut_ad_hoc_test_result u"
    and "current_test_info u' = current_test_info u \<or> current_test_info u' = None"
    and "events u' = events u @ es" and "\<not> failures es"
  shows "goes u (st, u')"
proof -
  have "traces u u'"
    using assms(2-8) by (auto simp: traces_def UnitTest_Failed_iff)
  moreover from this have "indices_ok u'"
    using assms(1) by (auto simp: running_def intro: indices_ok_traces)
  moreover have "current_ok u'"
    using assms(1,2,6) by (auto simp: running_def current_ok_def split: option.splits)
  ultimately show ?thesis by (simp add: goes_def running_def)
qed

lemma goes_emit: "running u \<Longrightarrow> \<not> failures [e] \<Longrightarrow> goes u (st, emit e u)"
  by (erule goes_frame) (auto simp: emit_def)

lemma goes_AddTestPartResult:
  assumes "running u"
  shows "goes u (UnitTest_AddTestPartResult fl ty file line message trace u)"
proof -
  have "goes u (Done, ReportTestPartResult p u)" for p
  proof -
    have tr: "traces u (ReportTestPartResult p u)"
      using assms by (intro traces_report) (simp add: running_def)
    moreover have "current_test_info (ReportTestPartResult p u) = current_test_info u"
      by (auto simp: ReportTestPartResult_def emit_def update_test_def Let_def split: option.splits)
    ultimately show ?thesis
      using assms current_ok_traces indices_ok_traces by (auto simp: goes_def running_def)
  qed
  then show ?thesis
    by (auto simp: UnitTest_AddTestPartResult_def Let_def intro: goes_status)
qed

lemma goes_run_actions:
  "running u \<Longrightarrow> goes u (run_action fl a u)"
  "running u \<Longrightarrow> goes u (run_actions fl as u)"
proof (induction fl a u and fl as u rule: run_action_run_actions.induct)
  case (2 fl f line message body u)
  have push: "goes u (Done, push_trace (f, line, message) u)"
    using 2(2) by (rule goes_frame) (auto simp: push_trace_def)
  obtain st u' where r: "run_actions fl body (push_trace (f, line, message) u) = (st, u')"
    by fastforce
  with 2(1) goes_running [OF push] push have "goes u (st, u')" by (auto intro: goes_trans)
  moreover from this have "goes u' (st, pop_trace u')"
    by (intro goes_frame) (auto simp: pop_trace_def dest: goes_running)
  ultimately show ?case using r by (auto intro: goes_trans)
next
  case (5 fl a as u)
  then show ?case by (auto intro!: goes_and_then dest: goes_running)
qed (simp_all add: goes_AddTestPartResult goes_refl)

lemma goes_handle:
  assumes "goes u r"
  shows "goes u (snd (handle_exceptions fl location r))"
proof -
  have "goes u (ReportFailureInUnknownLocation fl ty message u')" if "goes u (st, u')" for ty message st u'
    using goes_trans [OF that goes_AddTestPartResult [OF goes_running [OF that]]]
    by (simp add: ReportFailureInUnknownLocation_def)
  with assms show ?thesis
    by (auto simp: handle_exceptions_def split: prod.splits status.splits exn.splits)
qed

lemma goes_call: "running u \<Longrightarrow> goes u (snd (call fl location code u))"
  by (simp add: call_def goes_handle goes_run_actions)

lemma goes_HasSameFixtureClass: "running u \<Longrightarrow> goes u (snd (HasSameFixtureClass fl i j u))"
  by (simp add: HasSameFixtureClass_def Let_def goes_AddTestPartResult goes_refl)

lemma goes_Test_Run:
  assumes "running u"
  shows "goes u (Test_Run fl i j u)"
proof -
  have same: "goes u r" if "HasSameFixtureClass fl i j u = (b, r)" for b r
    using goes_HasSameFixtureClass [OF assms, of fl i j] that by simp
  show ?thesis
    unfolding Test_Run_def Let_def
    by (split prod.split, split bool.split)
      (intro allI impI conjI goes_and_then, auto intro: same goes_call goes_refl dest: goes_running)
qed

lemma goes_set_current:
  assumes "running u" and "i < length (test_cases u)" and "j < length (test_info_list (test_cases u ! i))"
    and "tc_should_run (test_cases u ! i)" and "ti_should_run (test_info_list (test_cases u ! i) ! j)"
  shows "goes u (Done, u\<lparr>current_test_info := Some (i, j)\<rparr>)"
proof -
  have tr: "traces u (u\<lparr>current_test_info := Some (i, j)\<rparr>)"
    by (simp add: traces_def UnitTest_Failed_iff)
  with assms indices_ok_traces [OF tr] show ?thesis
    by (simp add: goes_def running_def current_ok_def)
qed

lemma goes_TestInfo_Run:
  assumes "running u" and "i < length (test_cases u)" and "j < length (test_info_list (test_cases u ! i))"
    and "tc_should_run (test_cases u ! i)"
  shows "goes u (TestInfo_Run fl i j u)"
proof (cases "ti_should_run (test_info_list (test_cases u ! i) ! j)")
  case False
  with assms(1) show ?thesis by (simp add: TestInfo_Run_def goes_refl)
next
  case True
  let ?t = "test_info_list (test_cases u ! i) ! j"
  let ?code = "ti_code ?t"
  let ?u1 = "emit (OnTestStart (ti_test_case_name ?t) (ti_name ?t)) (u\<lparr>current_test_info := Some (i, j)\<rparr>)"
  note set = goes_set_current [OF assms True]
  have start: "goes u (Done, ?u1)"
    by (rule goes_trans [OF set]) (auto intro: goes_emit goes_running [OF set] simp: failures_def)
  obtain created r where c: "call fl ''the test fixture's constructor'' (constructor ?code) ?u1 = (created, r)"
    by (rule prod.exhaust)
  have r: "goes u r"
    using goes_trans [OF start goes_call [OF goes_running [OF start]]] c by (metis snd_conv)
  have finish: "goes v (Done, (emit (OnTestEnd a b) v)\<lparr>current_test_info := None\<rparr>)" if "running v" for v a b
    using that by (rule goes_frame) (auto simp: emit_def failures_def)
  show ?thesis
    using True r c
    by (simp add: TestInfo_Run_def Let_def)
      (intro goes_and_then, auto intro: goes_Test_Run goes_call goes_refl finish dest: goes_running)
qed

text \<open>What one test case needs to know of the state stays true while it runs.\<close>

definition case_ready :: "nat \<Rightarrow> nat list \<Rightarrow> UnitTestImpl \<Rightarrow> bool" where
  "case_ready i js u \<longleftrightarrow> i < length (test_cases u) \<and> tc_should_run (test_cases u ! i) \<and>
     set js \<subseteq> {..< length (test_info_list (test_cases u ! i))}"

lemma case_ready_goes: "goes u (st, u') \<Longrightarrow> case_ready i js u \<Longrightarrow> case_ready i js u'"
  using tc_shape_eq [OF traces_shape, of u u' i] traces_length [of u u']
  by (auto simp: case_ready_def goes_def)

lemma goes_run_tests: "running u \<Longrightarrow> case_ready i js u \<Longrightarrow> goes u (run_tests fl i js u)"
proof (induction js arbitrary: u)
  case (Cons j js)
  from Cons.prems have one: "goes u (TestInfo_Run fl i j u)" and ready: "case_ready i js u"
    by (auto intro!: goes_TestInfo_Run simp: case_ready_def)
  have "goes v (run_tests fl i js v)" if "goes u (Done, v)" for v
    by (rule Cons.IH [OF goes_running [OF that] case_ready_goes [OF that ready]])
  with one show ?case by (simp add: goes_and_then)
qed (simp add: goes_refl)

lemma goes_TestCase_Run:
  assumes "running u" and "i < length (test_cases u)"
  shows "goes u (TestCase_Run fl i u)"
proof (cases "tc_should_run (test_cases u ! i)")
  case False
  with assms show ?thesis by (simp add: TestCase_Run_def goes_refl)
next
  case True
  let ?tc = "test_cases u ! i"
  let ?js = "take (length (test_info_list ?tc)) (test_indices ?tc)"
  let ?u1 = "emit (OnTestCaseStart (tc_name ?tc)) (u\<lparr>current_test_case := Some i\<rparr>)"
  have ready: "case_ready i ?js u"
    using assms True nth_mem [OF assms(2)]
    by (auto simp: case_ready_def running_def indices_ok_def dest: in_set_takeD)
  have start: "goes u (Done, ?u1)"
    using assms(1) by (rule goes_frame) (auto simp: emit_def failures_def)
  have finish: "goes v (Done, (emit (OnTestCaseEnd a) v)\<lparr>current_test_case := None\<rparr>)" if "running v" for v a
    using that by (rule goes_frame) (auto simp: emit_def failures_def)
  have first: "goes u (snd (call fl ''SetUpTestCase()'' (set_up_tc ?tc) ?u1))"
    by (rule goes_trans [OF start goes_call [OF goes_running [OF start]]])
  have tests: "goes v (run_tests fl i ?js v)" if "goes u (Done, v)" for v
    using that case_ready_goes [OF that ready] by (auto intro: goes_run_tests dest: goes_running)
  show ?thesis
    using True
    by (simp add: TestCase_Run_def Let_def)
      (intro goes_and_then first, auto intro: tests goes_call finish dest: goes_running)
qed

lemma goes_run_cases:
  "running u \<Longrightarrow> set is \<subseteq> {..< length (test_cases u)} \<Longrightarrow> goes u (run_cases fl is u)"
proof (induction "is" arbitrary: u)
  case (Cons i "is")
  then have one: "goes u (TestCase_Run fl i u)" by (intro goes_TestCase_Run) auto
  have "goes v (run_cases fl is v)" if "goes u (Done, v)" for v
  proof (rule Cons.IH [OF goes_running [OF that]])
    from that have "length (test_cases v) = length (test_cases u)"
      by (auto simp: goes_def dest: traces_length)
    with Cons.prems(2) show "set is \<subseteq> {..< length (test_cases v)}" by auto
  qed
  with one show ?case by (simp add: goes_and_then)
qed (simp add: goes_refl)

lemma goes_run_environments: "running u \<Longrightarrow> goes u (run_environments fl es u)"
  by (induction es arbitrary: u) (auto intro!: goes_and_then goes_run_actions goes_refl dest: goes_running)

lemma goes_run_program_tests:
  assumes "running u"
  shows "goes u (run_program_tests fl u)"
proof -
  have envs: "goes v (run_environments fl es (emit e v))" if "running v" "\<not> failures [e]" for v es e
    using goes_trans [OF goes_emit [OF that]] goes_run_environments goes_running [OF goes_emit [OF that]]
    by blast
  have cases_ok: "goes v (let v = emit OnEnvironmentsSetUpEnd v
      in if HasFatalFailure v then (Done, v)
         else run_cases fl (take (length (test_cases v)) (test_case_indices v)) v)" if "running v" for v
  proof -
    let ?v = "emit OnEnvironmentsSetUpEnd v"
    have e: "goes v (Done, ?v)" using that by (rule goes_emit) (simp add: failures_def)
    then have "running ?v" by (rule goes_running)
    then have "set (take (length (test_cases ?v)) (test_case_indices ?v)) \<subseteq> {..< length (test_cases ?v)}"
      by (auto simp: running_def indices_ok_def dest: in_set_takeD)
    with \<open>running ?v\<close> show ?thesis
      using goes_trans [OF e] by (simp add: Let_def goes_refl goes_run_cases e)
  qed
  show ?thesis
    unfolding run_program_tests_def
    by (intro goes_and_then envs cases_ok goes_emit assms)
      (auto simp: failures_def dest: goes_running intro: goes_emit envs)
qed

section \<open>Between the iterations\<close>

text \<open>Clearing, shuffling and unshuffling keep a state in which tests can run.\<close>

definition tc_like :: "TestCase \<Rightarrow> TestCase \<Rightarrow> bool" where
  "tc_like tc tc' \<longleftrightarrow>
     tc_should_run tc' = tc_should_run tc \<and>
     map ti_should_run (test_info_list tc') = map ti_should_run (test_info_list tc) \<and>
     length (test_indices tc') = length (test_info_list tc) \<and>
     set (test_indices tc') \<subseteq> {..< length (test_info_list tc)}"

definition rearranged :: "UnitTestImpl \<Rightarrow> UnitTestImpl \<Rightarrow> bool" where
  "rearranged u u' \<longleftrightarrow>
     current_test_info u' = current_test_info u \<and> events u' = events u \<and>
     ut_ad_hoc_test_result u' = ut_ad_hoc_test_result u \<and>
     length (test_case_indices u') = length (test_cases u) \<and>
     set (test_case_indices u') \<subseteq> {..< length (test_cases u)} \<and>
     list_all2 tc_like (test_cases u) (test_cases u')"

lemma tc_like_length: "tc_like tc tc' \<Longrightarrow> length (test_info_list tc') = length (test_info_list tc)"
  unfolding tc_like_def by (metis length_map)

lemma tc_like_should_run:
  "tc_like tc tc' \<Longrightarrow> j < length (test_info_list tc) \<Longrightarrow>
     ti_should_run (test_info_list tc' ! j) = ti_should_run (test_info_list tc ! j)"
  using tc_like_length [of tc tc'] unfolding tc_like_def by (metis nth_map)

lemma running_rearranged:
  assumes "rearranged u u'" and "running u"
  shows "running u'"
proof -
  from assms(1) have len: "length (test_cases u') = length (test_cases u)"
    and like: "\<And>i. i < length (test_cases u) \<Longrightarrow> tc_like (test_cases u ! i) (test_cases u' ! i)"
    by (auto simp: rearranged_def list_all2_conv_all_nth)
  have "current_ok u'"
  proof (cases "current_test_info u")
    case (Some p)
    obtain i j where p: "p = (i, j)" by (cases p)
    with assms Some have i: "i < length (test_cases u)" by (simp add: running_def current_ok_def)
    from tc_like_length [OF like [OF i]] tc_like_should_run [OF like [OF i], of j] like [OF i] assms Some p len
    show ?thesis by (simp add: running_def current_ok_def rearranged_def tc_like_def)
  qed (use assms in \<open>simp add: rearranged_def current_ok_def\<close>)
  moreover have "length (test_indices tc') = length (test_info_list tc') \<and>
      set (test_indices tc') \<subseteq> {..< length (test_info_list tc')}" if "tc' \<in> set (test_cases u')" for tc'
  proof -
    from that len obtain i where i: "i < length (test_cases u)" "tc' = test_cases u' ! i"
      by (auto simp: in_set_conv_nth)
    from like [OF i(1)] tc_like_length [OF like [OF i(1)]] show ?thesis
      by (simp add: tc_like_def i(2))
  qed
  with assms(1) len have "indices_ok u'"
    by (simp add: rearranged_def indices_ok_def)
  ultimately show ?thesis by (simp add: running_def)
qed

lemma tc_like_refl: "indices_ok u \<Longrightarrow> tc \<in> set (test_cases u) \<Longrightarrow> tc_like tc tc"
  by (simp add: indices_ok_def tc_like_def)

lemma rearranged_clear: "running u \<Longrightarrow> rearranged u (ClearNonAdHocTestResult u)"
  by (auto simp: rearranged_def ClearNonAdHocTestResult_def running_def indices_ok_def
      list_all2_map2 tc_like_def TestCase_ClearResult_def intro!: list.rel_refl_strong)

lemma Failed_clear:
  "UnitTest_Failed (ClearNonAdHocTestResult u) \<longleftrightarrow> TestResult_Failed (ut_ad_hoc_test_result u)"
  by (auto simp: UnitTest_Failed_iff ClearNonAdHocTestResult_def TestCase_ClearResult_def
      TestResult_Clear_def TestResult_Failed_iff)

lemma rearranged_unshuffle: "running u \<Longrightarrow> rearranged u (UnshuffleTests u)"
  by (auto simp: rearranged_def UnshuffleTests_def running_def indices_ok_def list_all2_map2 tc_like_def
      intro!: list.rel_refl_strong)

lemma shuffle_loop_mset:
  "shuffle_loop b w random v = Some (random', v') \<Longrightarrow> b + w \<le> length v \<Longrightarrow> mset v' = mset v"
proof (induction b w random v rule: shuffle_loop.induct)
  case (1 b w random v)
  from "1.prems"(1) obtain r g where gen: "Generate (of_nat (Suc (Suc w))) random = Some (r, g)"
    and rest: "shuffle_loop b (Suc w) r (swap (b + unat g) (b + Suc w) v) = Some (random', v')"
    by (auto split: option.splits)
  have "unat g < Suc (Suc w)"
  proof (rule less_le_trans)
    show "unat g < take_bit 32 (Suc (Suc w))"
      using Generate_bounds(1) [OF gen] by (simp add: unsigned_of_nat del: of_nat_Suc)
  qed (rule take_bit_nat_less_eq_self)
  then have sw: "mset (swap (b + unat g) (b + Suc w) v) = mset v"
    using "1.prems"(2) by (intro mset_swap) simp_all
  with "1.IH" [OF gen refl rest] "1.prems"(2) show ?case
    by (metis Suc_leD add_Suc_right size_mset)
qed auto

lemma ShuffleRange_mset: "ShuffleRange random b e v = Some (random', v') \<Longrightarrow> mset v' = mset v"
  by (auto simp: ShuffleRange_def Let_def split: if_splits dest!: shuffle_loop_mset)

lemma shuffle_cases_like:
  "shuffle_cases random tcs = Some (random', tcs') \<Longrightarrow>
     list_all2 (\<lambda>tc tc'. tc' = tc\<lparr>test_indices := test_indices tc'\<rparr> \<and>
       mset (test_indices tc') = mset (test_indices tc)) tcs tcs'"
proof (induction tcs arbitrary: random tcs')
  case (Cons tc tcs)
  from Cons.prems obtain r v tcs1 where sh: "Shuffle random (test_indices tc) = Some (r, v)"
    and rest: "shuffle_cases r tcs = Some (random', tcs1)"
    and tcs': "tcs' = tc\<lparr>test_indices := v\<rparr> # tcs1"
    by (auto split: option.splits)
  have "mset v = mset (test_indices tc)"
    by (rule ShuffleRange_mset [OF sh [unfolded Shuffle_def]])
  with Cons.IH [OF rest] tcs' show ?case by simp
qed simp

lemma ShuffleTests_rearranged:
  assumes "ShuffleTests u = Some u'" and "running u"
  shows "rearranged u u'" and "UnitTest_Failed u' \<longleftrightarrow> UnitTest_Failed u"
proof -
  from assms(1) obtain r1 v1 r2 v2 r3 tcs
    where one: "ShuffleRange (random_state u) 0 (last_death_test_case u + 1) (test_case_indices u) = Some (r1, v1)"
      and two: "ShuffleRange r1 (last_death_test_case u + 1) (int (length (test_cases u))) v1 = Some (r2, v2)"
      and three: "shuffle_cases r2 (test_cases u) = Some (r3, tcs)"
      and u': "u' = u\<lparr>test_case_indices := v2, test_cases := tcs, random_state := r3\<rparr>"
    by (auto simp: ShuffleTests_def split: option.splits)
  have m: "mset v2 = mset (test_case_indices u)"
    using ShuffleRange_mset [OF one] ShuffleRange_mset [OF two] by simp
  note like = shuffle_cases_like [OF three]
  have "list_all2 tc_like (test_cases u) tcs"
  proof (rule list_all2_all_nthI)
    fix i assume i: "i < length (test_cases u)"
    from list_all2_nthD [OF like i]
    have eq: "tcs ! i = (test_cases u ! i)\<lparr>test_indices := test_indices (tcs ! i)\<rparr>"
      and ms: "mset (test_indices (tcs ! i)) = mset (test_indices (test_cases u ! i))" by auto
    have idx: "tc_like (test_cases u ! i) (test_cases u ! i)"
      using assms(2) i by (intro tc_like_refl [of u]) (simp_all add: running_def)
    have "test_info_list (tcs ! i) = test_info_list (test_cases u ! i)"
      "tc_should_run (tcs ! i) = tc_should_run (test_cases u ! i)"
      by (subst eq, simp)+
    with idx mset_eq_setD [OF ms] mset_eq_length [OF ms]
    show "tc_like (test_cases u ! i) (tcs ! i)" by (simp add: tc_like_def)
  qed (use list_all2_lengthD [OF like] in simp)
  then show "rearranged u u'"
    using assms(2) mset_eq_setD [OF m] mset_eq_length [OF m]
    by (simp add: rearranged_def u' running_def indices_ok_def)
  have "list_ex TestCaseFailed tcs = list_ex TestCaseFailed (test_cases u)"
    using like
  proof (induction rule: list_all2_induct)
    case (Cons tc tcs tc' tcs')
    have "TestCaseFailed (tc\<lparr>test_indices := v\<rparr>) = TestCaseFailed tc" for v
      by (simp add: TestCaseFailed_def TestCase_Failed_def failed_test_count_def)
    with Cons(1) have "TestCaseFailed tc' = TestCaseFailed tc" by metis
    with Cons.IH show ?case by simp
  qed simp
  then show "UnitTest_Failed u' \<longleftrightarrow> UnitTest_Failed u"
    by (simp add: UnitTest_Failed_def failed_test_case_count_def CountIf_pos u')
qed

section \<open>The verdict\<close>

text \<open>One iteration up to its end: the failures recorded are those before it and those it reported.\<close>

definition iteration :: "GtestFlags \<Rightarrow> bool \<Rightarrow> int \<Rightarrow> UnitTestImpl \<Rightarrow> status \<times> UnitTestImpl" where
  "iteration fl has_tests i u =
     and_then (shuffle_if fl has_tests (ClearNonAdHocTestResult u)) (\<lambda>u.
       let u = emit (OnTestIterationStart i) u
       in if has_tests then run_program_tests fl u else (Done, u))"

lemma running_frame:
  assumes "test_cases u' = test_cases u" and "test_case_indices u' = test_case_indices u"
    and "current_test_info u' = current_test_info u" and "running u"
  shows "running u'"
  using assms(4) unfolding running_def current_ok_def indices_ok_def assms(1-3) .

lemma iteration_failures:
  assumes "running u" and "iteration fl has_tests i u = (st, u1)"
  shows "running u1 \<and> (\<exists>es. events u1 = events u @ es \<and>
    (UnitTest_Failed u1 \<longleftrightarrow> TestResult_Failed (ut_ad_hoc_test_result u) \<or> failures es))"
proof -
  let ?c = "ClearNonAdHocTestResult u"
  have c: "running ?c" "events ?c = events u"
    using running_rearranged [OF rearranged_clear [OF assms(1)] assms(1)]
    by (simp_all add: ClearNonAdHocTestResult_def)
  obtain st0 u0 where sh: "shuffle_if fl has_tests ?c = (st0, u0)" by fastforce
  have u0: "running u0" "events u0 = events u" "UnitTest_Failed u0 \<longleftrightarrow> UnitTest_Failed ?c"
  proof -
    let ?s = "?c\<lparr>random_state := of_int (ut_random_seed ?c)\<rparr>"
    have s: "running ?s" "events ?s = events u" "UnitTest_Failed ?s \<longleftrightarrow> UnitTest_Failed ?c"
      using running_frame [OF _ _ _ c(1), of ?s] c(2) by (simp_all add: UnitTest_Failed_iff)
    have "running u' \<and> events u' = events u \<and> (UnitTest_Failed u' \<longleftrightarrow> UnitTest_Failed ?c)"
      if "ShuffleTests ?s = Some u'" for u'
      using ShuffleTests_rearranged [OF that s(1)] s
        running_rearranged [OF ShuffleTests_rearranged(1) [OF that s(1)] s(1)]
      by (simp add: rearranged_def)
    then show "running u0" "events u0 = events u" "UnitTest_Failed u0 \<longleftrightarrow> UnitTest_Failed ?c"
      using sh c by (auto simp: shuffle_if_def split: if_splits option.splits)
  qed
  let ?k = "\<lambda>u. let u = emit (OnTestIterationStart i) u
       in if has_tests then run_program_tests fl u else (Done, u)"
  have "goes v (?k v)" if "goes u0 (Done, v)" for v
  proof -
    have e: "goes v (Done, emit (OnTestIterationStart i) v)"
      using goes_running [OF that] by (rule goes_emit) (simp add: failures_def)
    show ?thesis
      using goes_trans [OF e goes_run_program_tests [OF goes_running [OF e]]] e by (simp add: Let_def)
  qed
  then have "goes u0 (and_then (st0, u0) ?k)"
    using goes_refl [OF u0(1)] by (intro goes_and_then)
  then have "goes u0 (st, u1)"
    using assms(2) sh by (simp add: iteration_def)
  then show ?thesis
    using u0 Failed_clear [of u] by (auto simp: goes_def traces_def)
qed

lemma ad_hoc_Failed: "TestResult_Failed (ut_ad_hoc_test_result u) \<Longrightarrow> UnitTest_Failed u"
  by (simp add: UnitTest_Failed_iff)

lemma between_iterations:
  assumes "running u" and "next_seed_if fl (UnshuffleTests u) = (st, u')"
  shows "running u' \<and> events u' = events u \<and> ut_ad_hoc_test_result u' = ut_ad_hoc_test_result u"
proof -
  let ?v = "UnshuffleTests u"
  have v: "running ?v" "events ?v = events u" "ut_ad_hoc_test_result ?v = ut_ad_hoc_test_result u"
    using running_rearranged [OF rearranged_unshuffle [OF assms(1)] assms(1)]
      rearranged_unshuffle [OF assms(1)] by (simp_all add: rearranged_def)
  have "running (?v\<lparr>ut_random_seed := s\<rparr>)" for s
    using v(1) by (rule running_frame [rotated 3]) simp_all
  with v assms(2) show ?thesis
    by (auto simp: next_seed_if_def split: if_splits option.splits)
qed

lemma run_iterations_failures:
  assumes "running u" and "TestResult_Failed (ut_ad_hoc_test_result u) \<Longrightarrow> failed"
    and "run_iterations fl has_tests n i failed u = (failed', st, u')"
  shows "running u' \<and> (\<exists>es. events u' = events u @ es \<and> (st = Done \<longrightarrow> (failed' \<longleftrightarrow> failed \<or> failures es)))"
  using assms
proof (induction n arbitrary: i failed u)
  case (Suc n)
  obtain st1 u1 where it: "iteration fl has_tests i u = (st1, u1)" by fastforce
  from iteration_failures [OF Suc.prems(1) it] obtain es1
    where u1: "running u1" "events u1 = events u @ es1"
      "UnitTest_Failed u1 \<longleftrightarrow> TestResult_Failed (ut_ad_hoc_test_result u) \<or> failures es1" by blast
  show ?case
  proof (cases "st1 = Done")
    case False
    with Suc.prems(3) it u1 show ?thesis
      by (auto simp: iteration_def split: status.splits)
  next
    case True
    let ?u2 = "emit (OnTestIterationEnd i) u1"
    let ?f = "failed \<or> UnitTest_Failed ?u2"
    have e: "goes u1 (Done, ?u2)" using u1(1) by (rule goes_emit) (simp add: failures_def)
    then have u2: "running ?u2" "events ?u2 = events u1 @ [OnTestIterationEnd i]"
      "UnitTest_Failed ?u2 \<longleftrightarrow> UnitTest_Failed u1"
      by (auto simp: goes_def emit_def UnitTest_Failed_iff)
    obtain st3 u3 where nx: "next_seed_if fl (UnshuffleTests ?u2) = (st3, u3)" by fastforce
    from between_iterations [OF u2(1) nx]
    have u3: "running u3" "events u3 = events ?u2" "ut_ad_hoc_test_result u3 = ut_ad_hoc_test_result ?u2"
      by auto
    have f: "?f \<longleftrightarrow> failed \<or> failures es1"
      using u1(3) u2(3) Suc.prems(2) by blast
    have adhoc: "TestResult_Failed (ut_ad_hoc_test_result u3) \<Longrightarrow> ?f"
      using u3(3) ad_hoc_Failed [of ?u2] by auto
    show ?thesis
    proof (cases "st3 = Done")
      case False
      with Suc.prems(3) it True nx u1 u2 u3 show ?thesis
        by (auto simp: iteration_def Let_def split: status.splits)
    next
      case fin: True
      with fin Suc.prems(3) it True nx
      have "run_iterations fl has_tests n (i + 1) ?f u3 = (failed', st, u')"
        by (simp add: iteration_def Let_def)
      from Suc.IH [OF u3(1) adhoc this] u1(2) u2(2) u3(2) f show ?thesis
        by (auto simp: failures_def)
    qed
  qed
qed auto

text \<open>Selecting the tests keeps the indices.\<close>

lemma filter_tests_length:
  "filter_tests fl shard tcn r s ts = (ts', r', s') \<Longrightarrow> length ts' = length ts"
  by (induction ts arbitrary: r s ts') (auto simp: Let_def split: prod.splits)

lemma filter_cases_like:
  "filter_cases fl shard r s tcs = (tcs', r', s') \<Longrightarrow>
     list_all2 (\<lambda>tc tc'. test_indices tc' = test_indices tc \<and>
       length (test_info_list tc') = length (test_info_list tc)) tcs tcs'"
  by (induction tcs arbitrary: r s tcs') (auto split: prod.splits dest: filter_tests_length)

lemma FilterTests_running:
  assumes "FilterTests getenv fl b u = Some (n, u1)" and "indices_ok u" and "current_test_info u = None"
  shows "running u1 \<and> events u1 = events u \<and> ut_ad_hoc_test_result u1 = ut_ad_hoc_test_result u"
proof -
  from assms(1) obtain shard tcs r where fc: "filter_cases fl shard 0 0 (test_cases u) = (tcs, r, n)"
    and u1: "u1 = u\<lparr>test_cases := tcs\<rparr>"
    by (auto simp: FilterTests_def Let_def split: if_splits prod.splits option.splits)
  from filter_cases_like [OF fc] have len: "length tcs = length (test_cases u)"
    and like: "\<And>i. i < length (test_cases u) \<Longrightarrow>
      test_indices (tcs ! i) = test_indices (test_cases u ! i) \<and>
      length (test_info_list (tcs ! i)) = length (test_info_list (test_cases u ! i))"
    by (auto simp: list_all2_conv_all_nth)
  have "length (test_indices tc) = length (test_info_list tc) \<and>
      set (test_indices tc) \<subseteq> {..< length (test_info_list tc)}" if "tc \<in> set tcs" for tc
  proof -
    from that len obtain i where i: "i < length (test_cases u)" "tc = tcs ! i"
      by (auto simp: in_set_conv_nth)
    with like [OF i(1)] nth_mem [OF i(1)] assms(2) show ?thesis by (simp add: indices_ok_def)
  qed
  with assms(2,3) len show ?thesis
    by (simp add: u1 running_def current_ok_def indices_ok_def)
qed

lemma RunAllTests_failures:
  assumes "indices_ok u" and "current_test_info u = None"
    and "\<not> TestResult_Failed (ut_ad_hoc_test_result u)" and "\<not> list_tests fl"
    and "RunAllTests getenv fl True False time_ms u = (ok, st, u')" and "st \<noteq> Exited"
  shows "running u' \<and> (\<exists>es. events u' = events u @ es \<and> (st = Done \<longrightarrow> (ok \<longleftrightarrow> \<not> failures es)))"
proof -
  let ?sub = "internal_run_death_test fl \<noteq> []"
  from assms(5,6) obtain b n u1 where f: "ShouldShard getenv ?sub = Some b"
      "FilterTests getenv fl b u = Some (n, u1)"
    by (auto simp: RunAllTests_def Let_def split: option.splits)
  let ?u2 = "emit OnTestProgramStart (u1\<lparr>ut_random_seed :=
     (if shuffle fl then GetRandomSeedFromFlag time_ms (random_seed fl) else 0)\<rparr>)"
  let ?n = "if ?sub then 1 else sint (repeat fl)"
  from FilterTests_running [OF f(2) assms(1,2)] have u1: "running u1" "events u1 = events u"
    "ut_ad_hoc_test_result u1 = ut_ad_hoc_test_result u" by auto
  have u2: "running ?u2" "events ?u2 = events u @ [OnTestProgramStart]"
    "ut_ad_hoc_test_result ?u2 = ut_ad_hoc_test_result u"
    using running_frame [OF _ _ _ u1(1), of ?u2] u1 by (simp_all add: emit_def)
  show ?thesis
  proof (cases "?n < 0")
    case True
    with assms(4,5) f u2 show ?thesis
      by (auto simp: RunAllTests_def Let_def split: if_splits)
  next
    case False
    obtain failed st3 u3 where ri: "run_iterations fl (n > 0) (nat ?n) 0 False ?u2 = (failed, st3, u3)"
      by (metis prod_cases3)
    from run_iterations_failures [OF u2(1) _ ri] assms(3) u2(3) obtain es
      where u3: "running u3" "events u3 = events ?u2 @ es" "st3 = Done \<longrightarrow> failed = failures es"
      by auto
    have res: "(ok, st, u') = (case (failed, st3, u3) of
        (failed, Done, u3) \<Rightarrow> (\<not> failed, Done, emit OnTestProgramEnd u3) | r \<Rightarrow> r)"
      using assms(4,5) f ri False by (simp add: RunAllTests_def Let_def)
    have e: "running (emit OnTestProgramEnd u3)" "events (emit OnTestProgramEnd u3) = events u3 @ [OnTestProgramEnd]"
      using running_frame [OF _ _ _ u3(1), of "emit OnTestProgramEnd u3"] by (simp_all add: emit_def)
    show ?thesis
      using res u3 e u2(2) by (cases st3) (auto simp: failures_def)
  qed
qed

text \<open>
  C23.  The exit code of a test program is its verdict.  When \<open>UnitTest::Run\<close> returns, whatever the
  tests, fixtures, environments and exceptions did, with or without shuffling, sharding and
  repetition, it returns 0 exactly when no failure was reported to the listeners.
\<close>

theorem verdict_exact:
  assumes "registered u" and "current_test_info u = None"
    and "\<not> TestResult_Failed (ut_ad_hoc_test_result u)" and "\<not> list_tests fl"
    and "UnitTest_Run getenv fl True False time_ms u = (code, Done, u')"
  shows "\<exists>es. events u' = events u @ es \<and> (code = 0 \<longleftrightarrow> \<not> failures es)"
proof -
  let ?loc = "''auxiliary test code (environments or event listeners)''"
  obtain ok st u1 where ra: "RunAllTests getenv fl True False time_ms u = (ok, st, u1)"
    by (metis prod_cases3)
  from assms(5) ra have "st \<noteq> Exited"
    by (auto simp: UnitTest_Run_def handle_exceptions_def)
  from RunAllTests_failures [OF registered_indices_ok [OF assms(1)] assms(2-4) ra this] obtain es
    where u1: "running u1" "events u1 = events u @ es" "st = Done \<longrightarrow> (ok \<longleftrightarrow> \<not> failures es)" by blast
  have report: "\<exists>es'. events u2 = events u @ es' \<and> failures es'"
    if "ReportFailureInUnknownLocation fl kFatalFailure message u1 = (Done, u2)" for message u2
    using that u1(2)
    by (auto simp: ReportFailureInUnknownLocation_def UnitTest_AddTestPartResult_def Let_def
      ReportTestPartResult_def emit_def part_failed_def update_test_def split: option.splits if_splits)
  show ?thesis
  proof (cases st)
    case (Raised ex)
    with assms(5) ra obtain message where "code = 1"
      "ReportFailureInUnknownLocation fl kFatalFailure message u1 = (Done, u')"
      by (auto simp: UnitTest_Run_def handle_exceptions_def split: if_splits exn.splits)
    with report show ?thesis by fastforce
  qed (use assms(5) ra u1 in \<open>auto simp: UnitTest_Run_def handle_exceptions_def\<close>)
qed

definition throwing_program :: UnitTestImpl where
  "throwing_program =
     MakeAndRegisterTestInfo ''Raft'' ''vote'' None None Test_Class (\<lambda>_. []) (\<lambda>_. [])
       (no_code\<lparr>TestBody := \<lambda>_. [Throw (Std_Exception ''boom'')]\<rparr>) UnitTestImpl_new"

theorem verdict_exact_witness:
  "(let r = UnitTest_Run (\<lambda>_. None) (default_flags (\<lambda>_. None)) True False 0 throwing_program
    in fst r = 1 \<and> fst (snd r) = Done \<and>
       (\<exists>es. events (snd (snd r)) = events throwing_program @ es \<and> failures es))"
proof -
  let ?r = "UnitTest_Run (\<lambda>_. None) (default_flags (\<lambda>_. None)) True False 0 throwing_program"
  have run: "fst ?r = 1" "fst (snd ?r) = Done" by code_simp+
  have "registered throwing_program"
    by (simp add: throwing_program_def registered_register registered_new)
  moreover have "current_test_info throwing_program = None"
    "\<not> TestResult_Failed (ut_ad_hoc_test_result throwing_program)"
    "\<not> list_tests (default_flags (\<lambda>_. None))"
    by code_simp+
  moreover have "?r = (1, Done, snd (snd ?r))" using run by (metis prod.collapse)
  ultimately obtain es where "events (snd (snd ?r)) = events throwing_program @ es" "failures es"
    using verdict_exact [of throwing_program "default_flags (\<lambda>_. None)" "\<lambda>_. None" 0 1] by fastforce
  with run show ?thesis by (auto simp: Let_def)
qed

end
