(* ===== verification/Gtest_Diff.thy ===== *)
theory Gtest_Diff
  imports C_Strings
begin

text \<open>
  The differences shown by a failed equality assertion (\<open>lib/googletest/src/gtest.cc\<close>, namespace
  \<open>edit_distance\<close>): the table of edit costs, the reconstruction of an edit script, hunks and the
  unified diff, and the message of \<open>EqFailure\<close>.  The costs are doubles in the code; the arithmetic
  on them is an argument of the model, and what holds of every script holds for every arithmetic.
\<close>

section \<open>Edit scripts\<close>

datatype EditType = kMatch | kAdd | kRemove | kReplace

text \<open>The operations on costs: of an index, plus 1, plus 1.00001, and the comparison.\<close>

record 'c arith =
  from_size :: "nat \<Rightarrow> 'c"
  plus_one :: "'c \<Rightarrow> 'c"
  plus_replace :: "'c \<Rightarrow> 'c"
  cost_less :: "'c \<Rightarrow> 'c \<Rightarrow> bool"

text \<open>One cell of the two tables, from its three neighbours.\<close>

definition edit_cell :: "'c arith \<Rightarrow> bool \<Rightarrow> 'c \<Rightarrow> 'c \<Rightarrow> 'c \<Rightarrow> 'c \<times> EditType" where
  "edit_cell A same add remove replace =
    (if same then (replace, kMatch)
     else if cost_less A add remove \<and> cost_less A add replace then (plus_one A add, kAdd)
     else if cost_less A remove add \<and> cost_less A remove replace then (plus_one A remove, kRemove)
     else (plus_replace A replace, kReplace))"

text \<open>A row after its first cell: \<open>prev\<close> is the row above, \<open>add\<close> the cost of the cell to the left.\<close>

fun fill_row :: "'c arith \<Rightarrow> 'a \<Rightarrow> 'a list \<Rightarrow> 'c list \<Rightarrow> 'c \<Rightarrow> ('c \<times> EditType) list" where
  "fill_row A x (y # ys) (replace # remove # prev) add =
    (let cell = edit_cell A (x = y) add remove replace
     in cell # fill_row A x ys (remove # prev) (fst cell))"
| "fill_row A x ys prev add = []"

fun fill_rows :: "'c arith \<Rightarrow> nat \<Rightarrow> 'a list \<Rightarrow> 'a list \<Rightarrow> ('c \<times> EditType) list \<Rightarrow> ('c \<times> EditType) list list"
where
  "fill_rows A l_i [] right row = [row]"
| "fill_rows A l_i (x # left) right row =
    row # fill_rows A (l_i + 1) left right
      ((from_size A (l_i + 1), kRemove) # fill_row A x right (map fst row) (from_size A (l_i + 1)))"

definition first_row :: "'c arith \<Rightarrow> nat \<Rightarrow> ('c \<times> EditType) list" where
  "first_row A n = (from_size A 0, kRemove) # map (\<lambda>r_i. (from_size A (r_i + 1), kAdd)) [0 ..< n]"

definition edit_table :: "'c arith \<Rightarrow> 'a list \<Rightarrow> 'a list \<Rightarrow> ('c \<times> EditType) list list" where
  "edit_table A left right = fill_rows A 0 left right (first_row A (length right))"

text \<open>The reconstruction of the path; \<open>None\<close> where an index would pass zero.\<close>

function best_path :: "EditType list list \<Rightarrow> nat \<Rightarrow> nat \<Rightarrow> EditType list \<Rightarrow> EditType list option" where
  "best_path best_move l_i r_i path =
    (if l_i = 0 \<and> r_i = 0 then Some path
     else
       (let move = best_move ! l_i ! r_i
        in if (move \<noteq> kAdd \<and> l_i = 0) \<or> (move \<noteq> kRemove \<and> r_i = 0) then None
           else best_path best_move (if move \<noteq> kAdd then l_i - 1 else l_i)
                  (if move \<noteq> kRemove then r_i - 1 else r_i) (move # path)))"
  by pat_completeness auto
termination
  by (relation "measure (\<lambda>(_, l, r, _). l + r)") (auto split: if_splits)

declare best_path.simps [simp del]

definition CalculateOptimalEdits :: "'c arith \<Rightarrow> 'a list \<Rightarrow> 'a list \<Rightarrow> EditType list option" where
  "CalculateOptimalEdits A left right =
     best_path (map (map snd) (edit_table A left right)) (length left) (length right) []"

subsection \<open>Strings as numbers\<close>

text \<open>\<open>InternalStrings\<close>: a number per different string.\<close>

definition GetId :: "string \<Rightarrow> (string \<times> nat) list \<Rightarrow> nat \<times> (string \<times> nat) list" where
  "GetId str ids =
    (case map_of ids str of Some i \<Rightarrow> (i, ids) | None \<Rightarrow> (length ids, (str, length ids) # ids))"

fun intern :: "string list \<Rightarrow> (string \<times> nat) list \<Rightarrow> nat list \<times> (string \<times> nat) list" where
  "intern [] ids = ([], ids)"
| "intern (s # ss) ids =
    (case GetId s ids of (i, ids') \<Rightarrow> case intern ss ids' of (is, ids'') \<Rightarrow> (i # is, ids''))"

definition CalculateOptimalEdits_strings ::
  "'c arith \<Rightarrow> string list \<Rightarrow> string list \<Rightarrow> EditType list option"
where
  "CalculateOptimalEdits_strings A left right =
    (case intern left [] of
       (left_ids, ids) \<Rightarrow>
         (case intern right ids of (right_ids, _) \<Rightarrow> CalculateOptimalEdits A left_ids right_ids))"

section \<open>The scripts are correct\<close>

text \<open>A script turns \<open>left\<close> into \<open>right\<close>, matching exactly equal elements.\<close>

fun script :: "EditType list \<Rightarrow> 'a list \<Rightarrow> 'a list \<Rightarrow> bool" where
  "script [] left right \<longleftrightarrow> left = [] \<and> right = []"
| "script (kMatch # es) left right \<longleftrightarrow>
    (case (left, right) of (x # l, y # r) \<Rightarrow> x = y \<and> script es l r | _ \<Rightarrow> False)"
| "script (kReplace # es) left right \<longleftrightarrow>
    (case (left, right) of (x # l, y # r) \<Rightarrow> x \<noteq> y \<and> script es l r | _ \<Rightarrow> False)"
| "script (kAdd # es) left right \<longleftrightarrow> (case right of y # r \<Rightarrow> script es left r | [] \<Rightarrow> False)"
| "script (kRemove # es) left right \<longleftrightarrow> (case left of x # l \<Rightarrow> script es l right | [] \<Rightarrow> False)"

lemma script_snoc:
  "script es l r \<Longrightarrow> script (es @ [kMatch]) (l @ [x]) (r @ [x])"
  "script es l r \<Longrightarrow> x \<noteq> y \<Longrightarrow> script (es @ [kReplace]) (l @ [x]) (r @ [y])"
  "script es l r \<Longrightarrow> script (es @ [kAdd]) l (r @ [y])"
  "script es l r \<Longrightarrow> script (es @ [kRemove]) (l @ [x]) r"
  by (induction es l r rule: script.induct) (auto split: list.splits)

lemma take_pred: "0 < n \<Longrightarrow> n \<le> length xs \<Longrightarrow> take n xs = take (n - 1) xs @ [xs ! (n - 1)]"
  by (cases n) (auto simp: take_Suc_conv_app_nth)

text \<open>What the path needs to know of the table of moves.\<close>

definition moves_ok :: "EditType list list \<Rightarrow> 'a list \<Rightarrow> 'a list \<Rightarrow> bool" where
  "moves_ok mv left right \<longleftrightarrow>
    (\<forall>r < length right. mv ! 0 ! Suc r = kAdd) \<and>
    (\<forall>l < length left. mv ! Suc l ! 0 = kRemove \<and>
       (\<forall>r < length right. mv ! Suc l ! Suc r = kMatch \<longleftrightarrow> left ! l = right ! r))"

lemma best_path_script:
  assumes "moves_ok mv left right" and "l \<le> length left" and "r \<le> length right"
  shows "\<exists>es. best_path mv l r path = Some (es @ path) \<and> script es (take l left) (take r right)"
  using assms
proof (induction mv l r path rule: best_path.induct)
  case (1 mv l r path)
  let ?move = "mv ! l ! r"
  let ?l = "if ?move \<noteq> kAdd then l - 1 else l" and ?r = "if ?move \<noteq> kRemove then r - 1 else r"
  show ?case
  proof (cases "l = 0 \<and> r = 0")
    case True
    then show ?thesis by (simp add: best_path.simps)
  next
    case False
    have move: "(l = 0 \<longrightarrow> ?move = kAdd) \<and> (r = 0 \<longrightarrow> ?move = kRemove)"
      and same: "0 < l \<Longrightarrow> 0 < r \<Longrightarrow> ?move = kMatch \<longleftrightarrow> left ! (l - 1) = right ! (r - 1)"
      using 1(2-4) False by (cases l; cases r; auto simp: moves_ok_def)+
    then have ok: "\<not> (?move \<noteq> kAdd \<and> l = 0 \<or> ?move \<noteq> kRemove \<and> r = 0)" by auto
    have "?l \<le> length left" and "?r \<le> length right" using 1(3,4) by auto
    from "1.IH"[OF False refl ok 1(2) this] obtain es where es: "best_path mv ?l ?r (?move # path) = Some (es @ ?move # path)"
        "script es (take ?l left) (take ?r right)"
      by blast
    have "script (es @ [?move]) (take l left) (take r right)"
      using es(2) same ok 1(3,4) take_pred[of l left] take_pred[of r right]
      by (cases ?move) (auto simp: script_snoc)
    then show ?thesis
      using es(1) False ok by (subst best_path.simps) (auto simp: Let_def intro: exI[of _ "es @ [?move]"])
  qed
qed

subsection \<open>The table\<close>

lemma edit_cell_match [simp]: "snd (edit_cell A same add remove replace) = kMatch \<longleftrightarrow> same"
  by (simp add: edit_cell_def)

lemma length_fill_row: "length (fill_row A x ys prev add) = min (length ys) (length prev - 1)"
  by (induction A x ys prev add rule: fill_row.induct) (auto simp: Let_def)

lemma fill_row_match:
  "r < length ys \<Longrightarrow> length prev = length ys + 1 \<Longrightarrow>
   snd (fill_row A x ys prev add ! r) = kMatch \<longleftrightarrow> x = ys ! r"
  by (induction A x ys prev add arbitrary: r rule: fill_row.induct)
    (auto simp: Let_def nth_Cons length_Suc_conv split: nat.splits)

lemma length_fill_rows [simp]: "length (fill_rows A l_i left right row) = length left + 1"
  by (induction A l_i left right row rule: fill_rows.induct) auto

lemma fill_rows_nth:
  assumes "length row = length right + 1" and "l < length left"
  shows "\<exists>prev add. length prev = length right + 1 \<and>
    fill_rows A l_i left right row ! Suc l = (add, kRemove) # fill_row A (left ! l) right prev add"
  using assms
proof (induction A l_i left right row arbitrary: l rule: fill_rows.induct)
  case (2 A l_i x left right row)
  then show ?case
    by (cases l; cases left) (auto simp: length_fill_row intro!: exI[of _ "map fst row"])
qed simp

lemma fill_rows_0 [simp]: "fill_rows A l_i left right row ! 0 = row"
  by (cases left) auto

lemma edit_table_moves_ok:
  "moves_ok (map (map snd) (edit_table A left right)) left right"
proof -
  let ?row = "first_row A (length right)"
  have len: "length ?row = length right + 1" by (simp add: first_row_def)
  show ?thesis
    unfolding moves_ok_def
  proof (intro conjI allI impI)
    fix r assume "r < length right"
    then show "map (map snd) (edit_table A left right) ! 0 ! Suc r = kAdd"
      by (simp add: edit_table_def first_row_def)
  next
    fix l assume l: "l < length left"
    obtain prev add where row: "length prev = length right + 1"
        "edit_table A left right ! Suc l = (add, kRemove) # fill_row A (left ! l) right prev add"
      using fill_rows_nth[OF len l] unfolding edit_table_def by blast
    have nth: "map (map snd) (edit_table A left right) ! Suc l = map snd (edit_table A left right ! Suc l)"
      using l by (intro nth_map) (simp add: edit_table_def)
    show "map (map snd) (edit_table A left right) ! Suc l ! 0 = kRemove"
      unfolding nth by (simp add: row(2))
    fix r assume "r < length right"
    then show "map (map snd) (edit_table A left right) ! Suc l ! Suc r = kMatch \<longleftrightarrow> left ! l = right ! r"
      unfolding nth using row(1) by (simp add: row(2) length_fill_row fill_row_match)
  qed
qed

lemma CalculateOptimalEdits_script:
  "\<exists>es. CalculateOptimalEdits A left right = Some es \<and> script es left right"
  using best_path_script[OF edit_table_moves_ok, of "length left" left "length right" right A "[]"]
  by (simp add: CalculateOptimalEdits_def)

subsection \<open>Numbered strings\<close>

definition ids_ok :: "(string \<times> nat) list \<Rightarrow> bool" where
  "ids_ok ids \<longleftrightarrow> distinct (map snd ids) \<and> (\<forall>p \<in> set ids. snd p < length ids)"

definition id_of :: "(string \<times> nat) list \<Rightarrow> string \<Rightarrow> nat" where
  "id_of ids s = the (map_of ids s)"

lemma intern_ids:
  assumes "ids_ok ids" and "intern ss ids = (is, ids')"
  shows "ids_ok ids' \<and> is = map (id_of ids') ss \<and> map_of ids \<subseteq>\<^sub>m map_of ids' \<and> set ss \<subseteq> dom (map_of ids')"
  using assms
proof (induction ss arbitrary: ids "is")
  case (Cons s ss)
  obtain i ids1 where g: "GetId s ids = (i, ids1)" by fastforce
  obtain is1 where r: "intern ss ids1 = (is1, ids')" "is = i # is1"
    using Cons.prems(2) g by (auto split: prod.splits)
  have ok1: "ids_ok ids1" "map_of ids \<subseteq>\<^sub>m map_of ids1" "map_of ids1 s = Some i"
    using g Cons.prems(1)
    by (fastforce simp: GetId_def ids_ok_def map_le_def dom_def split: option.splits)+
  note IH = Cons.IH[OF ok1(1) r(1)]
  then have "map_of ids' s = Some i" using ok1(3) by (auto simp: map_le_def dom_def)
  then show ?case
    using IH ok1(2) r(2) by (auto simp: id_of_def intro: map_le_trans)
qed (simp add: map_le_refl)

lemma ids_ok_inj: "ids_ok ids \<Longrightarrow> inj_on (id_of ids) (dom (map_of ids))"
proof (rule inj_onI)
  fix x y assume "ids_ok ids" "x \<in> dom (map_of ids)" "y \<in> dom (map_of ids)" "id_of ids x = id_of ids y"
  moreover from this obtain i where "map_of ids x = Some i" "map_of ids y = Some i"
    by (auto simp: id_of_def dom_def)
  ultimately show "x = y"
    by (metis Pair_inject distinct_map ids_ok_def inj_onD map_of_SomeD snd_conv)
qed

lemma script_map_inj:
  "\<forall>x \<in> set left. \<forall>y \<in> set right. f x = f y \<longleftrightarrow> x = y \<Longrightarrow>
   script es (map f left) (map f right) \<Longrightarrow> script es left right"
proof (induction es arbitrary: left right)
  case (Cons e es)
  then show ?case by (cases e; cases left; cases right) auto
qed simp

lemma CalculateOptimalEdits_strings_script:
  "\<exists>es. CalculateOptimalEdits_strings A left right = Some es \<and> script es left right"
proof -
  obtain li ids ri ids' where i: "intern left [] = (li, ids)" "intern right ids = (ri, ids')"
    by fastforce
  have "ids_ok []" by (simp add: ids_ok_def)
  note l = intern_ids[OF this i(1)] and r = intern_ids[OF _ i(2)]
  have ids: "ids_ok ids'" "map_of ids \<subseteq>\<^sub>m map_of ids'" "ri = map (id_of ids') right"
      "set right \<subseteq> dom (map_of ids')" "li = map (id_of ids) left" "set left \<subseteq> dom (map_of ids)"
    using l r by auto
  have "id_of ids s = id_of ids' s" if "s \<in> set left" for s
    using that ids(2,6) by (simp add: id_of_def map_le_def subset_iff)
  then have "li = map (id_of ids') left" by (simp add: ids(5))
  moreover have "inj_on (id_of ids') (set left \<union> set right)"
    using ids_ok_inj[OF ids(1)] by (rule inj_on_subset) (use ids map_le_implies_dom_le in blast)
  moreover obtain es where "CalculateOptimalEdits A li ri = Some es" "script es li ri"
    using CalculateOptimalEdits_script by blast
  ultimately show ?thesis
    using script_map_inj[of left right "id_of ids'" es] ids(3)
    by (simp add: CalculateOptimalEdits_strings_def i inj_on_eq_iff)
qed

end
