(* ===== verification/Gtest_Unified_Diff.thy ===== *)
theory Gtest_Unified_Diff
  imports Gtest_Diff
begin

text \<open>
  The second half of the namespace \<open>edit_distance\<close> of \<open>lib/googletest/src/gtest.cc\<close>: the class
  \<open>Hunk\<close>, \<open>CreateUnifiedDiff\<close>, \<open>SplitEscapedString\<close> and \<open>EqFailure\<close>.  The diff is shown to be a
  patch: applied to the left lines it gives the right lines, positions and counts included.
\<close>

section \<open>Hunks\<close>

type_synonym diff_line = "char \<times> string"

record Hunk =
  left_start :: nat
  right_start :: nat
  adds :: nat
  removes :: nat
  common :: nat
  hunk :: "diff_line list"
  hunk_adds :: "diff_line list"
  hunk_removes :: "diff_line list"

definition Hunk_new :: "nat \<Rightarrow> nat \<Rightarrow> Hunk" where
  "Hunk_new l r = \<lparr>left_start = l, right_start = r, adds = 0, removes = 0, common = 0,
     hunk = [], hunk_adds = [], hunk_removes = []\<rparr>"

definition FlushEdits :: "Hunk \<Rightarrow> Hunk" where
  "FlushEdits h = h\<lparr>hunk := hunk h @ hunk_removes h @ hunk_adds h, hunk_removes := [], hunk_adds := []\<rparr>"

definition PushLine :: "char \<Rightarrow> string \<Rightarrow> Hunk \<Rightarrow> Hunk" where
  "PushLine edit line h =
    (if edit = CHR '' '' then
       (let h' = FlushEdits (h\<lparr>common := common h + 1\<rparr>) in h'\<lparr>hunk := hunk h' @ [(CHR '' '', line)]\<rparr>)
     else if edit = CHR ''-'' then
       h\<lparr>removes := removes h + 1, hunk_removes := hunk_removes h @ [(CHR ''-'', line)]\<rparr>
     else if edit = CHR ''+'' then
       h\<lparr>adds := adds h + 1, hunk_adds := hunk_adds h @ [(CHR ''+'', line)]\<rparr>
     else h)"

definition has_edits :: "Hunk \<Rightarrow> bool" where
  "has_edits h \<longleftrightarrow> adds h \<noteq> 0 \<or> removes h \<noteq> 0"

definition PrintHeader :: "Hunk \<Rightarrow> string" where
  "PrintHeader h =
    ''@@ ''
    @ (if removes h \<noteq> 0
       then ''-'' @ nat_to_string (left_start h) @ '','' @ nat_to_string (removes h + common h) else '''')
    @ (if removes h \<noteq> 0 \<and> adds h \<noteq> 0 then '' '' else '''')
    @ (if adds h \<noteq> 0
       then ''+'' @ nat_to_string (right_start h) @ '','' @ nat_to_string (adds h + common h) else '''')
    @ '' @@'' @ [newline]"

definition PrintTo :: "Hunk \<Rightarrow> string" where
  "PrintTo h = PrintHeader h @ concat (map (\<lambda>(c, line). c # line @ [newline]) (hunk (FlushEdits h)))"

section \<open>The diff\<close>

text \<open>The lookahead: the next edit is at least \<open>context\<close> matches away, or there is none.\<close>

definition far_away :: "nat \<Rightarrow> EditType list \<Rightarrow> bool" where
  "far_away ctxt es \<longleftrightarrow>
     dropWhile (\<lambda>e. e = kMatch) es = [] \<or> ctxt \<le> length (takeWhile (\<lambda>e. e = kMatch) es)"

text \<open>The lines one edit contributes.\<close>

definition push_edit :: "string list \<Rightarrow> string list \<Rightarrow> nat \<Rightarrow> nat \<Rightarrow> EditType \<Rightarrow> Hunk \<Rightarrow> Hunk" where
  "push_edit left right l_i r_i edit h =
    (let h1 = (if edit = kMatch \<or> edit = kRemove \<or> edit = kReplace
               then PushLine (if edit = kMatch then CHR '' '' else CHR ''-'') (c_str (left ! l_i)) h
               else h)
     in if edit = kAdd \<or> edit = kReplace then PushLine (CHR ''+'') (c_str (right ! r_i)) h1 else h1)"

text \<open>The loop over the edits of one hunk; the list holds the edits from \<open>edit_i\<close> on.\<close>

fun hunk_loop ::
  "string list \<Rightarrow> string list \<Rightarrow> nat \<Rightarrow> EditType list \<Rightarrow> nat \<Rightarrow> nat \<Rightarrow> nat \<Rightarrow> Hunk \<Rightarrow> EditType list \<times> nat \<times> nat \<times> Hunk"
where
  "hunk_loop left right ctxt [] l_i r_i n_suffix h = ([], l_i, r_i, h)"
| "hunk_loop left right ctxt (edit # es) l_i r_i n_suffix h =
    (if ctxt \<le> n_suffix \<and> far_away ctxt (edit # es) then (edit # es, l_i, r_i, h)
     else
       hunk_loop left right ctxt es
         (if edit \<noteq> kAdd then l_i + 1 else l_i) (if edit \<noteq> kRemove then r_i + 1 else r_i)
         (if edit = kMatch then n_suffix + 1 else 0) (push_edit left right l_i r_i edit h))"

text \<open>The unchanged lines before a hunk, from \<open>left[l_i - i]\<close> for \<open>i\<close> down to one.\<close>

fun push_prefix :: "string list \<Rightarrow> nat \<Rightarrow> nat \<Rightarrow> Hunk \<Rightarrow> Hunk" where
  "push_prefix left l_i 0 h = h"
| "push_prefix left l_i (Suc i) h =
     push_prefix left l_i i (PushLine (CHR '' '') (c_str (left ! (l_i - Suc i))) h)"

definition next_hunk ::
  "string list \<Rightarrow> string list \<Rightarrow> nat \<Rightarrow> EditType list \<Rightarrow> nat \<Rightarrow> nat \<Rightarrow> EditType list \<times> nat \<times> nat \<times> Hunk"
where
  "next_hunk left right ctxt es l_i r_i =
    (let k = length (takeWhile (\<lambda>e. e = kMatch) es);
         l = l_i + k;
         r = r_i + k;
         prefix_context = min l ctxt
     in hunk_loop left right ctxt (dropWhile (\<lambda>e. e = kMatch) es) l r 0
          (push_prefix left l prefix_context (Hunk_new (l - prefix_context + 1) (r - prefix_context + 1))))"

lemma hunk_loop_shrinks:
  "hunk_loop left right ctxt es l r n h = (es', l', r', h') \<Longrightarrow>
   length es' < length es \<or> (es' = es \<and> h' = h)"
proof (induction left right ctxt es l r n h rule: hunk_loop.induct)
  case (2 left right ctxt edit es l r n h)
  then show ?case
    by (cases "ctxt \<le> n \<and> far_away ctxt (edit # es)") auto
qed simp

lemma PushLine_starts [simp]:
  "left_start (PushLine c x h) = left_start h" "right_start (PushLine c x h) = right_start h"
  by (auto simp: PushLine_def FlushEdits_def Let_def)

lemma PushLine_common [simp]: "has_edits (PushLine (CHR '' '') x h) = has_edits h"
  by (simp add: PushLine_def FlushEdits_def has_edits_def Let_def)

lemma PushLine_edits [simp]: "has_edits h \<Longrightarrow> has_edits (PushLine c x h)"
  by (simp add: PushLine_def FlushEdits_def has_edits_def Let_def)

lemma push_prefix_edits [simp]: "has_edits (push_prefix left l i h) = has_edits h"
  by (induction left l i h rule: push_prefix.induct) auto

lemma Hunk_new_edits [simp]: "\<not> has_edits (Hunk_new l r)"
  by (simp add: Hunk_new_def has_edits_def)

lemma next_hunk_shrinks:
  "next_hunk left right ctxt es l r = (es', l', r', h) \<Longrightarrow> has_edits h \<Longrightarrow> length es' < length es"
  using length_dropWhile_le[of "\<lambda>e. e = kMatch" es]
  by (auto simp: next_hunk_def Let_def dest!: hunk_loop_shrinks)

function diff_hunks ::
  "string list \<Rightarrow> string list \<Rightarrow> nat \<Rightarrow> EditType list \<Rightarrow> nat \<Rightarrow> nat \<Rightarrow> Hunk list"
where
  "diff_hunks left right ctxt es l_i r_i =
    (if es = [] then []
     else (case next_hunk left right ctxt es l_i r_i of
             (es', l', r', h) \<Rightarrow>
               if \<not> has_edits h then [] else h # diff_hunks left right ctxt es' l' r'))"
  by pat_completeness auto
termination
  by (relation "measure (\<lambda>(_, _, _, es, _). length es)")
    (auto dest: next_hunk_shrinks[OF sym])

declare diff_hunks.simps [simp del]

definition CreateUnifiedDiff :: "'c arith \<Rightarrow> string list \<Rightarrow> string list \<Rightarrow> nat \<Rightarrow> string option" where
  "CreateUnifiedDiff A left right ctxt =
     map_option (\<lambda>edits. concat (map PrintTo (diff_hunks left right ctxt edits 0 0)))
       (CalculateOptimalEdits_strings A left right)"

section \<open>The diff is a patch\<close>

text \<open>
  How a patch is applied.  Context and removed lines have to be the lines of the file at that place;
  the result is the new lines and the rest of the file.
\<close>

fun patch_lines :: "diff_line list \<Rightarrow> string list \<Rightarrow> (string list \<times> string list) option" where
  "patch_lines [] file_lines = Some ([], file_lines)"
| "patch_lines ((c, x) # ls) file_lines =
    (if c = CHR ''+'' then map_option (apfst (Cons x)) (patch_lines ls file_lines)
     else
       (case file_lines of
          [] \<Rightarrow> None
        | y # ys \<Rightarrow>
            if x \<noteq> y then None
            else if c = CHR ''-'' then patch_lines ls ys
            else if c = CHR '' '' then map_option (apfst (Cons x)) (patch_lines ls ys)
            else None))"

definition printed_lines :: "Hunk \<Rightarrow> diff_line list" where
  "printed_lines h = hunk (FlushEdits h)"

text \<open>
  \<open>l\<close> and \<open>r\<close> lines of the two files are done.  A hunk starts where its header says on both sides
  and has as many lines as its header says.
\<close>

fun patch :: "Hunk list \<Rightarrow> nat \<Rightarrow> nat \<Rightarrow> string list \<Rightarrow> string list option" where
  "patch [] l r file_lines = Some file_lines"
| "patch (h # hs) l r file_lines =
    (let k = left_start h - 1 - l
     in if left_start h \<noteq> l + k + 1 \<or> right_start h \<noteq> r + k + 1 \<or> length file_lines < k then None
        else
          (case patch_lines (printed_lines h) (drop k file_lines) of
             None \<Rightarrow> None
           | Some (out, rest) \<Rightarrow>
               if length file_lines \<noteq> k + removes h + common h + length rest
                  \<or> length out \<noteq> adds h + common h then None
               else map_option (\<lambda>end_lines. take k file_lines @ out @ end_lines)
                      (patch hs (l + k + removes h + common h) (r + k + adds h + common h) rest)))"

lemma map_apfst_Nil [simp]: "map_option (apfst (append [])) z = z"
  by (cases z) auto

lemma map_apfst_Cons [simp]:
  "map_option (apfst (Cons x)) (map_option (apfst (append ys)) z) = map_option (apfst (append (x # ys))) z"
  by (cases z) auto

lemma patch_lines_append:
  "patch_lines (xs @ ys) ls =
    (case patch_lines xs ls of
       None \<Rightarrow> None
     | Some (out, rest) \<Rightarrow> map_option (apfst (append out)) (patch_lines ys rest))"
proof (induction xs arbitrary: ls)
  case (Cons p xs)
  then show ?case
    by (cases p; cases ls) (simp_all split: option.split)
qed simp

lemma patch_lines_adds:
  "\<forall>p \<in> set ps. fst p = CHR ''+'' \<Longrightarrow> patch_lines ps ls = Some (map snd ps, ls)"
  by (induction ps ls rule: patch_lines.induct) auto

subsection \<open>One hunk\<close>

definition hunk_ok :: "Hunk \<Rightarrow> string list \<Rightarrow> string list \<Rightarrow> string list \<Rightarrow> bool" where
  "hunk_ok h before out rest \<longleftrightarrow>
     patch_lines (printed_lines h) before = Some (out, rest) \<and>
     (\<forall>p \<in> set (hunk_adds h). fst p = CHR ''+'') \<and>
     length before = removes h + common h + length rest \<and>
     length out = adds h + common h"

lemma hunk_ok_new: "hunk_ok (Hunk_new l r) before [] before"
  by (simp add: hunk_ok_def Hunk_new_def printed_lines_def FlushEdits_def)

lemma hunk_ok_common:
  "hunk_ok h before out (x # rest) \<Longrightarrow> hunk_ok (PushLine (CHR '' '') x h) before (out @ [x]) rest"
  by (simp add: hunk_ok_def PushLine_def printed_lines_def FlushEdits_def Let_def
      patch_lines_append[where ys = "[(CHR '' '', x)]"] flip: append_assoc)

lemma hunk_ok_add:
  "hunk_ok h before out rest \<Longrightarrow> hunk_ok (PushLine (CHR ''+'') x h) before (out @ [x]) rest"
  by (auto simp add: hunk_ok_def PushLine_def printed_lines_def FlushEdits_def Let_def
      patch_lines_append[where ys = "[(CHR ''+'', x)]"] simp flip: append_assoc)

lemma hunk_ok_remove:
  assumes "hunk_ok h before out (x # rest)"
  shows "hunk_ok (PushLine (CHR ''-'') x h) before out rest"
proof -
  from assms have a: "\<forall>p \<in> set (hunk_adds h). fst p = CHR ''+''" by (simp add: hunk_ok_def)
  have split: "patch_lines (hunk h @ hunk_removes h @ ys) before =
      (case patch_lines (hunk h @ hunk_removes h) before of
         None \<Rightarrow> None
       | Some (out, rest) \<Rightarrow> map_option (apfst (append out)) (patch_lines ys rest))" for ys
    using patch_lines_append[of "hunk h @ hunk_removes h" ys before] by simp
  obtain out1 where "patch_lines (hunk h @ hunk_removes h) before = Some (out1, x # rest)"
      "out = out1 @ map snd (hunk_adds h)"
    using assms patch_lines_adds[OF a]
    by (auto simp: hunk_ok_def printed_lines_def FlushEdits_def split split: option.splits)
  then show ?thesis
    using assms patch_lines_adds[OF a]
    by (simp add: hunk_ok_def PushLine_def printed_lines_def FlushEdits_def split)
qed

subsection \<open>The loop over the edits\<close>

text \<open>
  The state of the loop over a script: \<open>before\<close> is the left file from the first line of the hunk,
  \<open>after\<close> the right file from there.
\<close>

definition diff_state ::
  "string list \<Rightarrow> string list \<Rightarrow> string list \<Rightarrow> string list \<Rightarrow> EditType list \<Rightarrow> nat \<Rightarrow> nat \<Rightarrow> Hunk \<Rightarrow> bool"
where
  "diff_state left right before after es l r h \<longleftrightarrow>
     script es (drop l left) (drop r right) \<and> l \<le> length left \<and> r \<le> length right \<and>
     (\<exists>out. hunk_ok h before out (drop l left) \<and> out @ drop r right = after)"

lemma script_step:
  assumes "script (e # es) (drop l left) (drop r right)"
  shows "e \<noteq> kAdd \<Longrightarrow> l < length left" and "e \<noteq> kRemove \<Longrightarrow> r < length right"
    and "e = kMatch \<Longrightarrow> left ! l = right ! r"
    and "script es (drop (if e \<noteq> kAdd then l + 1 else l) left) (drop (if e \<noteq> kRemove then r + 1 else r) right)"
proof -
  show l: "l < length left" if "e \<noteq> kAdd"
    using assms that by (rule_tac ccontr) (cases e; simp)
  show r: "r < length right" if "e \<noteq> kRemove"
    using assms that by (rule_tac ccontr) (cases e; simp split: list.splits)
  show "left ! l = right ! r" if "e = kMatch"
    using assms that l r by (simp add: Cons_nth_drop_Suc[symmetric])
  show "script es (drop (if e \<noteq> kAdd then l + 1 else l) left) (drop (if e \<noteq> kRemove then r + 1 else r) right)"
    using assms l r by (cases e) (simp_all add: Cons_nth_drop_Suc[symmetric])
qed

definition nul_free :: "string list \<Rightarrow> bool" where
  "nul_free ls \<longleftrightarrow> (\<forall>x \<in> set ls. CHR 0x00 \<notin> set x)"

lemma c_str_nul_free [simp]: "nul_free ls \<Longrightarrow> i < length ls \<Longrightarrow> c_str (ls ! i) = ls ! i"
  by (simp add: nul_free_def c_str_def takeWhile_eq_all_conv) (metis nth_mem)

lemma push_edit_state:
  assumes "nul_free left" "nul_free right" "diff_state left right before after (e # es) l r h"
  shows "diff_state left right before after es (if e \<noteq> kAdd then l + 1 else l)
    (if e \<noteq> kRemove then r + 1 else r) (push_edit left right l r e h)"
proof -
  from assms(3) obtain out where st: "script (e # es) (drop l left) (drop r right)" "l \<le> length left"
      "r \<le> length right" "hunk_ok h before out (drop l left)" "out @ drop r right = after"
    by (auto simp: diff_state_def)
  note step = script_step[OF st(1)]
  have l: "drop l left = left ! l # drop (Suc l) left" if "e \<noteq> kAdd"
    using step(1) that by (simp add: Cons_nth_drop_Suc)
  have r: "drop r right = right ! r # drop (Suc r) right" if "e \<noteq> kRemove"
    using step(2) that by (simp add: Cons_nth_drop_Suc)
  have "\<exists>out. hunk_ok (push_edit left right l r e h) before out (drop (if e \<noteq> kAdd then l + 1 else l) left)
      \<and> out @ drop (if e \<noteq> kRemove then r + 1 else r) right = after"
    using st(4,5) l r step(1-3) assms(1,2)
    by (cases e)
      (auto simp: push_edit_def intro!: exI[of _ "out @ (if e = kRemove then [] else [right ! r])"]
        hunk_ok_common hunk_ok_add hunk_ok_remove)
  then show ?thesis
    using step st(2,3) unfolding diff_state_def by auto
qed

lemma push_edit_keeps [simp]:
  "left_start (push_edit left right l r e h) = left_start h"
  "right_start (push_edit left right l r e h) = right_start h"
  "has_edits h \<Longrightarrow> has_edits (push_edit left right l r e h)"
  "e \<noteq> kMatch \<Longrightarrow> has_edits (push_edit left right l r e h)"
proof -
  show "has_edits (push_edit left right l r e h)" if "e \<noteq> kMatch"
    using that by (cases e) (auto simp: push_edit_def PushLine_def has_edits_def)
qed (auto simp: push_edit_def Let_def)

lemma far_away_Nil [simp]: "far_away ctxt []"
  by (simp add: far_away_def)

lemma Hunk_new_starts [simp]: "left_start (Hunk_new l r) = l" "right_start (Hunk_new l r) = r"
  by (simp_all add: Hunk_new_def)

lemma hunk_loop_state:
  assumes "hunk_loop left right ctxt es l r n h = (es', l', r', h')"
    and "nul_free left" "nul_free right" "diff_state left right before after es l r h"
  shows "diff_state left right before after es' l' r' h' \<and> (es' = [] \<or> far_away ctxt es') \<and>
    left_start h' = left_start h \<and> right_start h' = right_start h \<and> (has_edits h \<longrightarrow> has_edits h')"
  using assms
proof (induction left right ctxt es l r n h rule: hunk_loop.induct)
  case (2 left right ctxt edit es l r n h)
  show ?case
  proof (cases "ctxt \<le> n \<and> far_away ctxt (edit # es)")
    case True
    then show ?thesis using 2 by auto
  next
    case False
    then show ?thesis
      using 2(1)[OF False _ 2(3,4) push_edit_state[OF 2(3-5)]] 2(2) by auto
  qed
qed auto

lemma push_prefix_state:
  assumes "nul_free left" "i \<le> l" "l \<le> length left" "hunk_ok h before out (drop (l - i) left)"
  shows "hunk_ok (push_prefix left l i h) before (out @ take i (drop (l - i) left)) (drop l left)"
  using assms
proof (induction left l i h arbitrary: out rule: push_prefix.induct)
  case (2 left l i h)
  have d: "drop (l - Suc i) left = left ! (l - Suc i) # drop (l - i) left"
    using 2(3,4) by (subst Cons_nth_drop_Suc[symmetric]) (auto simp: Suc_diff_Suc)
  have "hunk_ok (PushLine (CHR '' '') (c_str (left ! (l - Suc i))) h) before
      (out @ [left ! (l - Suc i)]) (drop (l - i) left)"
    using 2(2-5) d by (simp add: hunk_ok_common)
  from 2(1)[OF 2(2) _ 2(4) this] 2(3) show ?case by (simp add: d)
qed simp

lemma push_prefix_starts [simp]:
  "left_start (push_prefix left l i h) = left_start h"
  "right_start (push_prefix left l i h) = right_start h"
  by (induction left l i h rule: push_prefix.induct) auto

text \<open>The matches before a hunk.\<close>

lemma script_matches:
  assumes "script es left right"
  defines "k \<equiv> length (takeWhile (\<lambda>e. e = kMatch) es)"
  shows "script (dropWhile (\<lambda>e. e = kMatch) es) (drop k left) (drop k right)"
    and "take k left = take k right" and "k \<le> length left" and "k \<le> length right"
  using assms(1) unfolding k_def
proof (induction es arbitrary: left right)
  case (Cons e es)
  {
    case 1 then show ?case using Cons by (cases e; cases left; cases right) auto
  next
    case 2 then show ?case using Cons by (cases e; cases left; cases right) auto
  next
    case 3 then show ?case using Cons by (cases e; cases left; cases right) auto
  next
    case 4 then show ?case using Cons by (cases e; cases left; cases right) auto
  }
qed auto

lemma take_eq_parts:
  assumes "take m xs = take m ys" "p \<le> m"
  shows "take (m - p) xs = take (m - p) ys" and "take p (drop (m - p) xs) = take p (drop (m - p) ys)"
  using arg_cong[OF assms(1), of "take (m - p)"] arg_cong[OF assms(1), of "drop (m - p)"] assms(2)
  by (simp_all add: drop_take min_def)

lemma next_hunk_state:
  assumes "script es (drop l left) (drop r right)" "l \<le> length left" "r \<le> length right"
    and "nul_free left" "nul_free right" "0 < ctxt" "l = 0 \<and> r = 0 \<or> far_away ctxt es"
    and "next_hunk left right ctxt es l r = (es', l', r', h)"
    and "dropWhile (\<lambda>e. e = kMatch) es \<noteq> []"
  shows "\<exists>k \<le> length left - l. r + k \<le> length right \<and>
    take k (drop l left) = take k (drop r right) \<and>
    diff_state left right (drop (l + k) left) (drop (r + k) right) es' l' r' h \<and>
    far_away ctxt es' \<and> has_edits h \<and> left_start h = l + k + 1 \<and> right_start h = r + k + 1"
proof -
  let ?m = "length (takeWhile (\<lambda>e. e = kMatch) es)" and ?d = "dropWhile (\<lambda>e. e = kMatch) es"
  let ?p = "min (l + ?m) ctxt"
  let ?h = "push_prefix left (l + ?m) ?p (Hunk_new (l + ?m - ?p + 1) (r + ?m - ?p + 1))"
  note m = script_matches[OF assms(1)]
  have p: "?p \<le> ?m" using assms(7,9) by (auto simp: far_away_def)
  let ?k = "?m - ?p"
  note parts = take_eq_parts[OF m(2) p]
  have k: "l + ?m - ?p = l + ?k" "r + ?m - ?p = r + ?k" "?m = ?k + ?p" using p by auto
  have "hunk_ok ?h (drop (l + ?k) left) (take ?p (drop (l + ?k) left)) (drop (l + ?m) left)"
    using push_prefix_state[OF assms(4), of ?p "l + ?m" _ "drop (l + ?k) left" "[]"] m(3) assms(2)
    by (simp add: k(1,2) hunk_ok_new)
  moreover have "take ?p (drop (l + ?k) left) @ drop (r + ?m) right = drop (r + ?k) right"
  proof -
    have "drop (r + ?m) right = drop ?p (drop (r + ?k) right)"
      unfolding drop_drop using k(3) by (metis add.assoc add.commute)
    moreover have "take ?p (drop (l + ?k) left) = take ?p (drop (r + ?k) right)"
      using parts(2) by (simp add: add.commute)
    ultimately show ?thesis by (simp only: append_take_drop_id)
  qed
  ultimately have "diff_state left right (drop (l + ?k) left) (drop (r + ?k) right) ?d (l + ?m) (r + ?m) ?h"
    using m(1,3,4) assms(2,3) unfolding diff_state_def by (auto simp: add.commute)
  note st = this
  obtain e ds where d: "?d = e # ds" "e \<noteq> kMatch"
    using assms(9) by (metis (full_types) hd_dropWhile list.exhaust_sel)
  have loop: "hunk_loop left right ctxt ds (if e \<noteq> kAdd then l + ?m + 1 else l + ?m)
      (if e \<noteq> kRemove then r + ?m + 1 else r + ?m) 0 (push_edit left right (l + ?m) (r + ?m) e ?h)
      = (es', l', r', h)"
    using assms(6,8) d by (simp add: next_hunk_def Let_def)
  have "diff_state left right (drop (l + ?k) left) (drop (r + ?k) right) (e # ds) (l + ?m) (r + ?m) ?h"
    using st unfolding d(1) .
  note res = hunk_loop_state[OF loop assms(4,5) push_edit_state[OF assms(4,5) this]]
  have "has_edits (push_edit left right (l + ?m) (r + ?m) e ?h)" by (rule push_edit_keeps(4)[OF d(2)])
  with res have ed: "has_edits h" by blast
  have fa: "far_away ctxt es'" using res far_away_Nil by blast
  have starts: "left_start h = l + ?k + 1" "right_start h = r + ?k + 1"
    using res k(1,2) by (simp_all only: push_edit_keeps(1,2) push_prefix_starts Hunk_new_starts)
  have "diff_state left right (drop (l + ?k) left) (drop (r + ?k) right) es' l' r' h" using res by blast
  moreover have "?k \<le> length left - l" "r + ?k \<le> length right"
    using m(3,4) assms(2,3) by auto
  ultimately show ?thesis
    using parts(1) ed fa starts by blast
qed

text \<open>A state of the loop determines the lines done, and so the header.\<close>

lemma diff_state_lines:
  assumes "diff_state left right (drop a left) (drop b right) es l r h" "a \<le> length left" "b \<le> length right"
  shows "\<exists>out. patch_lines (printed_lines h) (drop a left) = Some (out, drop l left) \<and>
    out @ drop r right = drop b right \<and> length out = adds h + common h \<and>
    l = a + removes h + common h \<and> r = b + adds h + common h"
proof -
  from assms(1) obtain out where o: "hunk_ok h (drop a left) out (drop l left)" "out @ drop r right = drop b right"
      "l \<le> length left" "r \<le> length right"
    by (auto simp: diff_state_def)
  from o(2) have "length out + (length right - r) = length right - b" by (metis length_append length_drop)
  then have "r = b + length out" using o(4) assms(3) by arith
  then show ?thesis using o(1,2,3) assms(2) by (auto simp: hunk_ok_def)
qed

lemma diff_hunks_patch:
  assumes "script es (drop l left) (drop r right)" "l \<le> length left" "r \<le> length right"
    and "nul_free left" "nul_free right" "0 < ctxt" "l = 0 \<and> r = 0 \<or> far_away ctxt es"
  shows "patch (diff_hunks left right ctxt es l r) l r (drop l left) = Some (drop r right)"
  using assms
proof (induction left right ctxt es l r rule: diff_hunks.induct)
  case (1 left right ctxt es l r)
  obtain es' l' r' h where nh: "next_hunk left right ctxt es l r = (es', l', r', h)"
    by (metis surj_pair)
  show ?case
  proof (cases "dropWhile (\<lambda>e. e = kMatch) es = []")
    case True
    have "\<not> has_edits h"
      using nh unfolding next_hunk_def Let_def True hunk_loop.simps by auto
    then have "diff_hunks left right ctxt es l r = []"
      using nh by (subst diff_hunks.simps) simp
    moreover have "drop l left = drop r right"
      using script_matches(1,2)[OF 1(2)] unfolding True script.simps(1) by (metis append_take_drop_id)
    ultimately show ?thesis by simp
  next
    case False
    from next_hunk_state[OF 1(2-8) nh False] obtain k where k: "k \<le> length left - l"
        "r + k \<le> length right" "take k (drop l left) = take k (drop r right)"
        "diff_state left right (drop (l + k) left) (drop (r + k) right) es' l' r' h"
        "far_away ctxt es'" "has_edits h" "left_start h = l + k + 1" "right_start h = r + k + 1"
      by blast
    have lk: "l + k \<le> length left" using k(1) 1(3) by arith
    obtain out where out: "patch_lines (printed_lines h) (drop (l + k) left) = Some (out, drop l' left)"
        "out @ drop r' right = drop (r + k) right" "length out = adds h + common h"
        "l' = l + k + removes h + common h" "r' = r + k + adds h + common h"
      using diff_state_lines[OF k(4) _ k(2)] lk by blast
    have ne: "es \<noteq> []" using False by auto
    have "diff_hunks left right ctxt es l r = h # diff_hunks left right ctxt es' l' r'"
      using ne nh k(6) by (subst diff_hunks.simps) simp
    moreover have "patch (diff_hunks left right ctxt es' l' r') l' r' (drop l' left) = Some (drop r' right)"
      using 1(1)[OF ne nh[symmetric] refl refl] k(4,5,6) 1(5-7) by (simp add: diff_state_def)
    moreover have "l' \<le> length left" using k(4) by (simp add: diff_state_def)
    moreover have "take k (drop r right) @ out @ drop r' right = drop r right"
      using out(2) by (simp add: add.commute flip: drop_drop)
    ultimately show ?thesis
      using k(1,3,7,8) out(1,3,4,5) 1(3) by (simp add: add.commute)
  qed
qed


text \<open>The costs in exact arithmetic, in units of a hundred-thousandth.\<close>

definition exact_arith :: "int arith" where
  "exact_arith = \<lparr>from_size = (\<lambda>n. 100000 * int n), plus_one = (\<lambda>c. c + 100000),
     plus_replace = (\<lambda>c. c + 100001), cost_less = (\<lambda>a b. a < b)\<rparr>"


text \<open>
  The edits are not always the fewest: from \<open>b a b\<close> to \<open>a b a\<close> the code makes three
  replacements where removing the first and adding a last element, two edits, do.
\<close>

theorem edits_not_optimal:
  "CalculateOptimalEdits exact_arith [1, 0, 1 :: nat] [0, 1, 0] = Some [kReplace, kReplace, kReplace] \<and>
   script [kRemove, kMatch, kMatch, kAdd] [1, 0, 1 :: nat] [0, 1, 0]"
  by code_simp

text \<open>Without context lines the diff is empty, whatever the differences.\<close>

lemma diff_without_context: "diff_hunks left right 0 es l r = []"
proof -
  have "hunk_loop left right 0 ds l' r' 0 h = (ds, l', r', h)" for ds l' r' h
    by (cases ds) (auto simp: far_away_def)
  then show ?thesis
    by (subst diff_hunks.simps) (simp add: next_hunk_def Let_def del: hunk_loop.simps)
qed

lemma unified_diff_example:
  "CreateUnifiedDiff exact_arith [''a'', ''b'', ''c''] [''a'', ''x'', ''c''] 2 =
     Some (''@@ -1,3 +1,3 @@'' @ [newline] @ '' a'' @ [newline] @ ''-b'' @ [newline] @ ''+x'' @ [newline]
           @ '' c'' @ [newline])"
  by code_simp

end
