(* ===== verification/Gtest_Printers.thy ===== *)
theory Gtest_Printers
  imports C_Strings
begin

text \<open>
  How googletest prints characters, strings and bytes (\<open>lib/googletest/src/gtest-printers.cc\<close>) with
  the number formats of \<open>gtest.cc\<close> they use.  A narrow or wide character is the integer of its code;
  \<open>wchar_t\<close> has 32 bits.  The printed form of a string is shown to be a C++ literal of that string.
\<close>

section \<open>Number formats\<close>

definition hex_char :: "nat \<Rightarrow> char" where
  "hex_char d = (if d < 10 then char_of (48 + d) else char_of (55 + d))"

fun nat_to_hex :: "nat \<Rightarrow> string" where
  "nat_to_hex n = (if n < 16 then [hex_char n] else nat_to_hex (n div 16) @ [hex_char (n mod 16)])"

declare nat_to_hex.simps [simp del]

text \<open>\<open>std::hex\<close> shows the bits of a negative \<open>int\<close>.\<close>

definition FormatHexInt :: "int \<Rightarrow> string" where
  "FormatHexInt v = nat_to_hex (nat (v mod 2 ^ 32))"

definition FormatByte :: "nat \<Rightarrow> string" where
  "FormatByte v = (let h = nat_to_hex v in replicate (2 - length h) (CHR ''0'') @ h)"

definition FormatIntWidth2 :: "int \<Rightarrow> string" where
  "FormatIntWidth2 v = (let h = int_to_string v in replicate (2 - length h) (CHR ''0'') @ h)"

section \<open>Bytes\<close>

fun PrintByteSegment :: "nat list \<Rightarrow> nat \<Rightarrow> nat \<Rightarrow> nat \<Rightarrow> string" where
  "PrintByteSegment obj_bytes start i 0 = ''''"
| "PrintByteSegment obj_bytes start i (Suc n) =
    (let j = start + i
     in (if i \<noteq> 0 then (if j mod 2 = 0 then '' '' else ''-'') else '''')
        @ FormatByte (obj_bytes ! j) @ PrintByteSegment obj_bytes start (i + 1) n)"

definition PrintByteSegmentInObjectTo :: "nat list \<Rightarrow> nat \<Rightarrow> nat \<Rightarrow> string" where
  "PrintByteSegmentInObjectTo obj_bytes start n = PrintByteSegment obj_bytes start 0 n"

definition PrintBytesInObjectToImpl :: "nat list \<Rightarrow> string" where
  "PrintBytesInObjectToImpl obj_bytes =
    (let n = length obj_bytes;
         resume_pos = (n - 64 + 1) div 2 * 2
     in nat_to_string n @ ''-byte object <''
        @ (if n < 132 then PrintByteSegmentInObjectTo obj_bytes 0 n
           else PrintByteSegmentInObjectTo obj_bytes 0 64 @ '' ... ''
                @ PrintByteSegmentInObjectTo obj_bytes resume_pos (n - resume_pos))
        @ ''>'')"

section \<open>Characters\<close>

datatype CharFormat = kAsIs | kHexEscape | kSpecialEscape

definition IsPrintableAscii :: "int \<Rightarrow> bool" where
  "IsPrintableAscii c \<longleftrightarrow> 0x20 \<le> c \<and> c \<le> 0x7E"

definition code_char :: "int \<Rightarrow> char" where
  "code_char c = char_of (nat c)"

definition backslash :: char where
  "backslash = char_of (92 :: nat)"

definition dquote :: char where
  "dquote = char_of (34 :: nat)"

text \<open>\<open>uc\<close> is the code cast to the unsigned type.\<close>

definition PrintAsCharLiteralTo :: "int \<Rightarrow> int \<Rightarrow> string \<times> CharFormat" where
  "PrintAsCharLiteralTo uc c =
    (if c = 0 then ([backslash, CHR ''0''], kSpecialEscape)
     else if c = 39 then ([backslash, char_of (39 :: nat)], kSpecialEscape)
     else if c = 92 then ([backslash, backslash], kSpecialEscape)
     else if c = 7 then ([backslash, CHR ''a''], kSpecialEscape)
     else if c = 8 then ([backslash, CHR ''b''], kSpecialEscape)
     else if c = 12 then ([backslash, CHR ''f''], kSpecialEscape)
     else if c = 10 then ([backslash, CHR ''n''], kSpecialEscape)
     else if c = 13 then ([backslash, CHR ''r''], kSpecialEscape)
     else if c = 9 then ([backslash, CHR ''t''], kSpecialEscape)
     else if c = 11 then ([backslash, CHR ''v''], kSpecialEscape)
     else if IsPrintableAscii c then ([code_char c], kAsIs)
     else ([backslash, CHR ''x''] @ FormatHexInt uc, kHexEscape))"

definition PrintAsStringLiteralTo :: "int \<Rightarrow> string \<times> CharFormat" where
  "PrintAsStringLiteralTo c =
    (if c = 39 then ([char_of (39 :: nat)], kAsIs)
     else if c = 34 then ([backslash, dquote], kSpecialEscape)
     else PrintAsCharLiteralTo c c)"

definition PrintCharAndCodeTo :: "bool \<Rightarrow> int \<Rightarrow> int \<Rightarrow> string" where
  "PrintCharAndCodeTo wide uc c =
    (case PrintAsCharLiteralTo uc c of
       (text, fmt) \<Rightarrow>
         (if wide then ''L'' else '''') @ [char_of (39 :: nat)] @ text @ [char_of (39 :: nat)]
         @ (if c = 0 then ''''
            else '' ('' @ int_to_string c
                 @ (if fmt = kHexEscape \<or> (1 \<le> c \<and> c \<le> 9) then '''' else '', 0x'' @ FormatHexInt uc)
                 @ '')''))"

definition PrintTo_uchar :: "nat \<Rightarrow> string" where
  "PrintTo_uchar c = PrintCharAndCodeTo False (int c) (int c)"

definition PrintTo_schar :: "int \<Rightarrow> string" where
  "PrintTo_schar c = PrintCharAndCodeTo False (c mod 256) c"

definition PrintTo_wchar :: "int \<Rightarrow> string" where
  "PrintTo_wchar c = PrintCharAndCodeTo True c c"

section \<open>Strings\<close>

definition IsXDigit :: "int \<Rightarrow> bool" where
  "IsXDigit c \<longleftrightarrow> 48 \<le> c \<and> c \<le> 57 \<or> 65 \<le> c \<and> c \<le> 70 \<or> 97 \<le> c \<and> c \<le> 102"

definition kQuoteBegin :: "bool \<Rightarrow> string" where
  "kQuoteBegin wide = (if wide then [CHR ''L'', dquote] else [dquote])"

fun print_chars :: "bool \<Rightarrow> bool \<Rightarrow> int list \<Rightarrow> string" where
  "print_chars wide is_previous_hex [] = [dquote]"
| "print_chars wide is_previous_hex (cur # cs) =
    (case PrintAsStringLiteralTo cur of
       (text, fmt) \<Rightarrow>
         (if is_previous_hex \<and> IsXDigit cur then [dquote, CHR '' ''] @ kQuoteBegin wide else '''')
         @ text @ print_chars wide (fmt = kHexEscape) cs)"

definition PrintCharsAsStringTo :: "bool \<Rightarrow> int list \<Rightarrow> string" where
  "PrintCharsAsStringTo wide cs = kQuoteBegin wide @ print_chars wide False cs"

definition UniversalPrintCharArray :: "bool \<Rightarrow> int list \<Rightarrow> string" where
  "UniversalPrintCharArray wide cs =
    (if cs \<noteq> [] \<and> last cs = 0 then PrintCharsAsStringTo wide (butlast cs)
     else PrintCharsAsStringTo wide cs @ '' (no terminating NUL)'')"

definition codes :: "string \<Rightarrow> int list" where
  "codes s = map of_char s"

definition PrintStringTo :: "string \<Rightarrow> string" where
  "PrintStringTo s = PrintCharsAsStringTo False (codes s)"

definition PrintWideStringTo :: "int list \<Rightarrow> string" where
  "PrintWideStringTo cs = PrintCharsAsStringTo True cs"

text \<open>\<open>PrintTo(const char*)\<close>; \<open>address\<close> is the stream's form of the pointer.\<close>

definition PrintTo_cstr :: "string \<Rightarrow> string option \<Rightarrow> string" where
  "PrintTo_cstr address s =
    (case s of None \<Rightarrow> ''NULL'' | Some t \<Rightarrow> address @ '' pointing to '' @ PrintStringTo t)"

text \<open>\<open>PrintToString\<close> of a C string.\<close>

definition PrintToString_cstr :: "string option \<Rightarrow> string" where
  "PrintToString_cstr s = (case s of None \<Rightarrow> ''NULL'' | Some t \<Rightarrow> PrintStringTo t)"

section \<open>The printed form is a literal of the string\<close>

text \<open>
  The value of adjacent C++ string literals: simple escapes, octal escapes of up to three digits and
  hexadecimal escapes of as many digits as there are.
\<close>

definition xdigit :: "char \<Rightarrow> bool" where
  "xdigit c \<longleftrightarrow> IsXDigit (of_char c)"

definition xdigit_val :: "char \<Rightarrow> nat" where
  "xdigit_val c = (let n = of_char c in if n < 58 then n - 48 else if n < 97 then n - 55 else n - 87)"

definition hex_value :: "string \<Rightarrow> nat" where
  "hex_value ds = foldl (\<lambda>n c. 16 * n + xdigit_val c) 0 ds"

definition octal :: "char \<Rightarrow> bool" where
  "octal c \<longleftrightarrow> 48 \<le> (of_char c :: int) \<and> (of_char c :: int) \<le> 55"

definition oct_value :: "string \<Rightarrow> nat" where
  "oct_value ds = foldl (\<lambda>n c. 8 * n + digit_val c) 0 ds"

definition simple_escape :: "char \<Rightarrow> int option" where
  "simple_escape c =
     map_of (zip [char_of (39 :: nat), dquote, backslash, CHR ''a'', CHR ''b'', CHR ''f'', CHR ''n'',
                  CHR ''r'', CHR ''t'', CHR ''v'']
                 [39, 34, 92, 7, 8, 12, 10, 13, 9, 11]) c"

function read_literal_body :: "bool \<Rightarrow> string \<Rightarrow> int list option" where
  "read_literal_body wide [] = None"
| "read_literal_body wide (c # r) =
    (if c = dquote then
       (if r = [] then Some []
        else if has_prefix (CHR '' '' # kQuoteBegin wide) r
        then read_literal_body wide (drop (length (kQuoteBegin wide) + 1) r) else None)
     else if c = backslash then
       (case r of
          [] \<Rightarrow> None
        | e # r' \<Rightarrow>
            if e = CHR ''x'' then
              (if takeWhile xdigit r' = [] then None
               else map_option (Cons (int (hex_value (takeWhile xdigit r'))))
                      (read_literal_body wide (dropWhile xdigit r')))
            else if octal e then
              (let ds = takeWhile octal (take 3 r)
               in map_option (Cons (int (oct_value ds))) (read_literal_body wide (drop (length ds) r)))
            else
              (case simple_escape e of
                 None \<Rightarrow> None
               | Some v \<Rightarrow> map_option (Cons v) (read_literal_body wide r')))
     else map_option (Cons (of_char c)) (read_literal_body wide r))"
  by pat_completeness auto
termination
  by (relation "measure (\<lambda>(_, s). length s)")
    (auto simp: less_Suc_eq_le intro: le_trans[OF length_dropWhile_le] le_SucI)

declare read_literal_body.simps(2) [simp del]

definition read_literal :: "bool \<Rightarrow> string \<Rightarrow> int list option" where
  "read_literal wide s =
    (if has_prefix (kQuoteBegin wide) s then read_literal_body wide (drop (length (kQuoteBegin wide)) s)
     else None)"

text \<open>A NUL is printed as an octal escape of one digit, which swallows octal digits after it.\<close>

fun no_octal_after_nul :: "int list \<Rightarrow> bool" where
  "no_octal_after_nul (c # d # cs) \<longleftrightarrow>
     \<not> (c = 0 \<and> 48 \<le> d \<and> d \<le> 55) \<and> no_octal_after_nul (d # cs)"
| "no_octal_after_nul cs \<longleftrightarrow> True"

subsection \<open>Hexadecimal digits\<close>

lemma of_char_int [simp]: "n < 256 \<Longrightarrow> of_char (char_of (n :: nat)) = int n"
  using of_nat_of_char[of "char_of n", where ?'a = int] by simp

lemma xdigit_hex_char [simp]: "d < 16 \<Longrightarrow> xdigit (hex_char d)"
  by (auto simp: xdigit_def hex_char_def IsXDigit_def of_char_of)

lemma xdigit_val_hex_char [simp]: "d < 16 \<Longrightarrow> xdigit_val (hex_char d) = d"
  by (auto simp: xdigit_val_def hex_char_def Let_def of_char_of)

lemma nat_to_hex_xdigits: "\<forall>c \<in> set (nat_to_hex n). xdigit c"
  by (induction n rule: nat_to_hex.induct) (subst nat_to_hex.simps, auto)

lemma nat_to_hex_nonempty [simp]: "nat_to_hex n \<noteq> []"
  by (subst nat_to_hex.simps) auto

lemma hex_value_nat_to_hex [simp]: "hex_value (nat_to_hex n) = n"
proof (induction n rule: nat_to_hex.induct)
  case (1 n)
  then show ?case by (subst nat_to_hex.simps) (auto simp: hex_value_def)
qed

lemma takeWhile_hex:
  assumes "stops xdigit r"
  shows "takeWhile xdigit (nat_to_hex n @ r) = nat_to_hex n \<and> dropWhile xdigit (nat_to_hex n @ r) = r"
  using takeWhile_run[OF nat_to_hex_xdigits assms] by blast

subsection \<open>Reading back\<close>

lemma of_char_code [simp]: "0 \<le> c \<Longrightarrow> c < 256 \<Longrightarrow> of_char (code_char c) = c"
  by (simp add: code_char_def)

lemma code_char_eq: "0 \<le> c \<Longrightarrow> c < 256 \<Longrightarrow> n < 256 \<Longrightarrow> code_char c = char_of (n :: nat) \<longleftrightarrow> c = int n"
  by (metis code_char_def int_nat_eq nat_int of_char_int of_char_code)

text \<open>What a character is printed as begins with a backslash or is the character.\<close>

lemma literal_text:
  assumes "0 \<le> c" "PrintAsStringLiteralTo c = (lit, fmt)"
  shows "\<exists>t ts. lit = t # ts \<and> (t = backslash \<or> of_char t = c)"
  using assms
  by (auto simp: PrintAsStringLiteralTo_def PrintAsCharLiteralTo_def IsPrintableAscii_def split: if_splits)

lemma of_char_marks [simp]: "of_char backslash = (92 :: int)" "of_char dquote = (34 :: int)"
  by (simp_all add: backslash_def dquote_def)

lemma print_chars_after_hex:
  assumes "\<forall>c \<in> set cs. 0 \<le> c"
  shows "stops xdigit (print_chars wide True cs)"
proof (cases cs)
  case (Cons c cs')
  obtain lit fmt where t: "PrintAsStringLiteralTo c = (lit, fmt)" by fastforce
  with literal_text[OF _ t] assms Cons show ?thesis
    by (auto simp: stops_def xdigit_def IsXDigit_def)
qed (simp add: stops_def xdigit_def IsXDigit_def)

lemma print_chars_after_nul:
  assumes "\<forall>c \<in> set cs. 0 \<le> c" "no_octal_after_nul (0 # cs)"
  shows "\<exists>d r. print_chars wide False cs = d # r \<and> \<not> octal d"
proof (cases cs)
  case (Cons c cs')
  obtain lit fmt where t: "PrintAsStringLiteralTo c = (lit, fmt)" by fastforce
  with literal_text[OF _ t] assms Cons show ?thesis
    by (auto simp: octal_def)
qed (simp add: octal_def)

lemma marks_differ [simp]: "backslash \<noteq> dquote" "dquote \<noteq> backslash"
  by (simp_all add: backslash_def dquote_def)

lemma of_char_bounds: "0 \<le> (of_char c :: int)" "(of_char c :: int) < 256"
proof -
  have "(of_char c :: int) mod 256 = of_char c" by simp
  then show "0 \<le> (of_char c :: int)" "(of_char c :: int) < 256"
    by (metis pos_mod_sign zero_less_numeral, metis pos_mod_bound zero_less_numeral)
qed

lemma read_escape:
  "simple_escape e = Some v \<Longrightarrow> e \<noteq> CHR ''x'' \<Longrightarrow> \<not> octal e \<Longrightarrow>
   read_literal_body wide (backslash # e # r) = map_option (Cons v) (read_literal_body wide r)"
  by (simp add: read_literal_body.simps(2)[of wide backslash])

lemma read_plain:
  "c \<noteq> dquote \<Longrightarrow> c \<noteq> backslash \<Longrightarrow>
   read_literal_body wide (c # r) = map_option (Cons (of_char c)) (read_literal_body wide r)"
  by (simp add: read_literal_body.simps(2))

lemma read_hex:
  "stops xdigit r \<Longrightarrow>
   read_literal_body wide (backslash # CHR ''x'' # nat_to_hex n @ r) =
     map_option (Cons (int n)) (read_literal_body wide r)"
  by (simp add: read_literal_body.simps(2)[of wide backslash] takeWhile_hex)

lemma octal_zero: "octal (CHR ''0'')"
  by code_simp

lemma read_nul:
  "\<not> octal d \<Longrightarrow>
   read_literal_body wide (backslash # CHR ''0'' # d # r) = map_option (Cons 0) (read_literal_body wide (d # r))"
  using octal_zero
  by (simp add: read_literal_body.simps(2)[of wide backslash] oct_value_def digit_val_def)

lemma simple_escapes:
  "simple_escape (char_of (39 :: nat)) = Some 39" "simple_escape dquote = Some 34"
  "simple_escape backslash = Some 92" "simple_escape (CHR ''a'') = Some 7"
  "simple_escape (CHR ''b'') = Some 8" "simple_escape (CHR ''f'') = Some 12"
  "simple_escape (CHR ''n'') = Some 10" "simple_escape (CHR ''r'') = Some 13"
  "simple_escape (CHR ''t'') = Some 9" "simple_escape (CHR ''v'') = Some 11"
  by code_simp+

lemma marks_plain [simp]: "\<not> octal dquote" "\<not> octal backslash" "dquote \<noteq> CHR ''x''" "backslash \<noteq> CHR ''x''"
  by code_simp+

lemma read_char:
  assumes "0 \<le> c" "c < 2 ^ 32" "PrintAsStringLiteralTo c = (lit, fmt)"
    and "fmt = kHexEscape \<Longrightarrow> stops xdigit r" and "c = 0 \<Longrightarrow> \<exists>d r'. r = d # r' \<and> \<not> octal d"
  shows "read_literal_body wide (lit @ r) = map_option (Cons c) (read_literal_body wide r)"
proof (cases "IsPrintableAscii c \<and> c \<noteq> 34 \<and> c \<noteq> 92")
  case True
  then have "lit = [code_char c]"
    using assms(3) by (auto simp: PrintAsStringLiteralTo_def PrintAsCharLiteralTo_def IsPrintableAscii_def code_char_def
        split: if_splits)
  moreover have "code_char c \<noteq> dquote" "code_char c \<noteq> backslash" "of_char (code_char c) = c"
    using True by (auto simp: dquote_def backslash_def code_char_eq IsPrintableAscii_def)
  ultimately show ?thesis by (simp add: read_plain)
next
  case False
  then show ?thesis
    using assms
    by (auto simp: PrintAsStringLiteralTo_def PrintAsCharLiteralTo_def IsPrintableAscii_def FormatHexInt_def
        read_nul read_hex read_escape simple_escapes octal_def split: if_splits)
qed

lemma read_print_chars:
  assumes "\<forall>c \<in> set cs. 0 \<le> c \<and> c < 2 ^ 32" "no_octal_after_nul cs"
  shows "read_literal_body wide (print_chars wide p cs) = Some cs"
  using assms
proof (induction cs arbitrary: p)
  case (Cons c cs)
  obtain lit fmt where t: "PrintAsStringLiteralTo c = (lit, fmt)" by fastforce
  let ?r = "print_chars wide (fmt = kHexEscape) cs"
  have n: "no_octal_after_nul cs" using Cons.prems(2) by (cases cs) auto
  have fmt: "c = 0 \<Longrightarrow> fmt \<noteq> kHexEscape"
    using t by (auto simp: PrintAsStringLiteralTo_def PrintAsCharLiteralTo_def)
  have "read_literal_body wide (lit @ ?r) = map_option (Cons c) (read_literal_body wide ?r)"
    using Cons.prems t fmt print_chars_after_hex[of cs wide] print_chars_after_nul[of cs wide]
    by (intro read_char) auto
  also have "\<dots> = Some (c # cs)" using Cons.IH n Cons.prems(1) by simp
  finally have body: "read_literal_body wide (lit @ ?r) = Some (c # cs)" .
  have "read_literal_body wide (dquote # CHR '' '' # kQuoteBegin wide @ s) = read_literal_body wide s" for s
    by (simp add: read_literal_body.simps(2) kQuoteBegin_def)
  then show ?case using body t by simp
qed (simp add: read_literal_body.simps(2))

text \<open>
  C39. The printed form of a string is a C++ literal, split where a hexadecimal escape would swallow
  the next character, whose value is the string, unless a NUL is followed by an octal digit.  There
  the printed escape of the NUL swallows the digit: the two characters NUL and \<open>1\<close> are printed as the
  literal of the one character with code 1.
\<close>

theorem string_literal_roundtrip:
  "(no_octal_after_nul (codes s) \<longrightarrow> read_literal False (PrintStringTo s) = Some (codes s)) \<and>
   read_literal False (PrintStringTo [CHR 0x00, CHR ''1'']) = Some [1]"
proof
  have "\<forall>c \<in> set (codes s). 0 \<le> c \<and> c < 2 ^ 32"
    by (auto simp: codes_def of_char_bounds less_trans[OF of_char_bounds(2)])
  then show "no_octal_after_nul (codes s) \<longrightarrow> read_literal False (PrintStringTo s) = Some (codes s)"
    by (simp add: read_literal_def PrintStringTo_def PrintCharsAsStringTo_def read_print_chars)
qed code_simp

theorem string_literal_roundtrip_witness:
  "read_literal False (PrintStringTo [CHR ''a'', CHR 0x7F, CHR ''b'', CHR 0x00, CHR 0x0A]) =
     Some (codes [CHR ''a'', CHR 0x7F, CHR ''b'', CHR 0x00, CHR 0x0A])"
proof -
  have "no_octal_after_nul (codes [CHR ''a'', CHR 0x7F, CHR ''b'', CHR 0x00, CHR 0x0A])" by code_simp
  with string_literal_roundtrip show ?thesis by blast
qed

end
