(* ===== verification/Gtest_Utf8.thy ===== *)
theory Gtest_Utf8
  imports Gtest_Printers
begin

unbundle bit_operations_syntax

text \<open>
  The encoding of wide strings in messages (\<open>lib/googletest/src/gtest.cc\<close>): \<open>CodePointToUtf8\<close>,
  surrogate pairs where \<open>wchar_t\<close> has two bytes, \<open>WideStringToUtf8\<close>, and the treatment of NULs.
  A wide character is its unsigned 32-bit value; \<open>sz\<close> is \<open>sizeof(wchar_t)\<close>.
\<close>

section \<open>Code points\<close>

definition kMaxCodePoint1 :: uint32 where
  "kMaxCodePoint1 = push_bit 7 1 - 1"

definition kMaxCodePoint2 :: uint32 where
  "kMaxCodePoint2 = push_bit (5 + 6) 1 - 1"

definition kMaxCodePoint3 :: uint32 where
  "kMaxCodePoint3 = push_bit (4 + 2 * 6) 1 - 1"

definition kMaxCodePoint4 :: uint32 where
  "kMaxCodePoint4 = push_bit (3 + 3 * 6) 1 - 1"

text \<open>The low bits, and the pattern shifted.\<close>

definition ChopLowBits :: "uint32 \<Rightarrow> nat \<Rightarrow> uint32 \<times> uint32" where
  "ChopLowBits bits n = (bits AND (push_bit n 1 - 1), drop_bit n bits)"

text \<open>\<open>static_cast<char>\<close>.\<close>

definition to_char :: "uint32 \<Rightarrow> char" where
  "to_char w = char_of (unat w)"

definition CodePointToUtf8 :: "uint32 \<Rightarrow> string" where
  "CodePointToUtf8 code_point =
    (if kMaxCodePoint4 < code_point
     then ''(Invalid Unicode 0x'' @ FormatHexInt (uint code_point) @ '')''
     else c_str
       (if code_point \<le> kMaxCodePoint1 then [to_char code_point]
        else if code_point \<le> kMaxCodePoint2 then
          (case ChopLowBits code_point 6 of (b1, cp1) \<Rightarrow>
             [to_char (0xC0 OR cp1), to_char (0x80 OR b1)])
        else if code_point \<le> kMaxCodePoint3 then
          (case ChopLowBits code_point 6 of (b2, cp1) \<Rightarrow>
           case ChopLowBits cp1 6 of (b1, cp2) \<Rightarrow>
             [to_char (0xE0 OR cp2), to_char (0x80 OR b1), to_char (0x80 OR b2)])
        else
          (case ChopLowBits code_point 6 of (b3, cp1) \<Rightarrow>
           case ChopLowBits cp1 6 of (b2, cp2) \<Rightarrow>
           case ChopLowBits cp2 6 of (b1, cp3) \<Rightarrow>
             [to_char (0xF0 OR cp3), to_char (0x80 OR b1), to_char (0x80 OR b2), to_char (0x80 OR b3)])))"

definition IsUtf16SurrogatePair :: "nat \<Rightarrow> uint32 \<Rightarrow> uint32 \<Rightarrow> bool" where
  "IsUtf16SurrogatePair sz fst_char snd_char \<longleftrightarrow>
     sz = 2 \<and> fst_char AND 0xFC00 = 0xD800 \<and> snd_char AND 0xFC00 = 0xDC00"

definition CreateCodePointFromUtf16SurrogatePair :: "nat \<Rightarrow> uint32 \<Rightarrow> uint32 \<Rightarrow> uint32" where
  "CreateCodePointFromUtf16SurrogatePair sz fst_char snd_char =
    (let mask = push_bit 10 1 - 1
     in if sz = 2 then (push_bit 10 (fst_char AND mask) OR (snd_char AND mask)) + 0x10000 else fst_char)"

section \<open>Strings\<close>

text \<open>\<open>StringStreamToString\<close>: a NUL becomes a backslash and a zero.\<close>

definition StringStreamToString :: "string \<Rightarrow> string" where
  "StringStreamToString s = concat (map (\<lambda>c. if c = CHR 0x00 then [backslash, CHR ''0''] else [c]) s)"

fun wide_loop :: "nat \<Rightarrow> uint32 list \<Rightarrow> string" where
  "wide_loop sz [] = ''''"
| "wide_loop sz [c] = (if c = 0 then '''' else CodePointToUtf8 c)"
| "wide_loop sz (c # d # cs) =
    (if c = 0 then ''''
     else if IsUtf16SurrogatePair sz c d
     then CodePointToUtf8 (CreateCodePointFromUtf16SurrogatePair sz c d) @ wide_loop sz cs
     else CodePointToUtf8 c @ wide_loop sz (d # cs))"

text \<open>\<open>str\<close> holds the characters before the terminating NUL; \<open>-1\<close> stands for all of them.\<close>

definition WideStringToUtf8 :: "nat \<Rightarrow> uint32 list \<Rightarrow> int \<Rightarrow> string" where
  "WideStringToUtf8 sz str num_chars =
     StringStreamToString
       (wide_loop sz
         (take (if num_chars = -1 then length (takeWhile (\<lambda>c. c \<noteq> 0) str) else nat num_chars) str))"

definition ShowWideCString :: "nat \<Rightarrow> uint32 list option \<Rightarrow> string" where
  "ShowWideCString sz s = (case s of None \<Rightarrow> ''(null)'' | Some str \<Rightarrow> WideStringToUtf8 sz str (-1))"

text \<open>
  \<open>StreamWideCharsToMessage\<close>: the text put into the message.  The number of characters is cast to
  \<open>int\<close>.
\<close>

function StreamWideCharsToMessage :: "nat \<Rightarrow> uint32 list \<Rightarrow> string" where
  "StreamWideCharsToMessage sz [] = ''''"
| "StreamWideCharsToMessage sz (c # cs) =
    (if c \<noteq> 0
     then WideStringToUtf8 sz (c # cs) (sint (of_nat (length (c # cs)) :: cint))
          @ StreamWideCharsToMessage sz (dropWhile (\<lambda>d. d \<noteq> 0) (c # cs))
     else CHR 0x00 # StreamWideCharsToMessage sz cs)"
  by pat_completeness auto
termination
  by (relation "measure (\<lambda>(_, s). length s)") (auto simp: less_Suc_eq_le length_dropWhile_le)

section \<open>Decoding\<close>

definition continuation :: "char \<Rightarrow> bool" where
  "continuation c \<longleftrightarrow> 128 \<le> (of_char c :: nat) \<and> (of_char c :: nat) < 192"

definition cont_bits :: "char \<Rightarrow> nat" where
  "cont_bits c = of_char c - 128"

fun decode_utf8 :: "string \<Rightarrow> nat list option" where
  "decode_utf8 [] = Some []"
| "decode_utf8 (c # r) =
    (let n = of_char c
     in if n < 128 then map_option (Cons n) (decode_utf8 r)
        else if n < 192 then None
        else if n < 224 then
          (case r of
             b1 # r' \<Rightarrow>
               if continuation b1
               then map_option (Cons ((n - 192) * 64 + cont_bits b1)) (decode_utf8 r') else None
           | _ \<Rightarrow> None)
        else if n < 240 then
          (case r of
             b1 # b2 # r' \<Rightarrow>
               if continuation b1 \<and> continuation b2
               then map_option (Cons (((n - 224) * 64 + cont_bits b1) * 64 + cont_bits b2)) (decode_utf8 r')
               else None
           | _ \<Rightarrow> None)
        else if n < 248 then
          (case r of
             b1 # b2 # b3 # r' \<Rightarrow>
               if continuation b1 \<and> continuation b2 \<and> continuation b3
               then map_option
                      (Cons ((((n - 240) * 64 + cont_bits b1) * 64 + cont_bits b2) * 64 + cont_bits b3))
                      (decode_utf8 r')
               else None
           | _ \<Rightarrow> None)
        else None)"

declare decode_utf8.simps(2) [simp del]

subsection \<open>Bits\<close>

lemma or_low_nat:
  assumes "b < 2 ^ k"
  shows "(a * 2 ^ k OR b :: nat) = a * 2 ^ k + b"
proof -
  have "take_bit k b = b" using assms by (simp add: take_bit_nat_eq_self)
  then have "\<not> bit b n" if "k \<le> n" for n
    using that by (metis bit_take_bit_iff not_le)
  moreover have "\<not> bit (push_bit k a) n" if "n < k" for n
    using that by (simp add: bit_push_bit_iff)
  ultimately have "push_bit k a + b = push_bit k a OR b"
    by (intro disjunctive_add) (meson not_le)
  then show ?thesis by (simp add: push_bit_eq_mult)
qed

lemma ChopLowBits_unat:
  assumes "ChopLowBits w n = (b, w')"
  shows "unat b = unat w mod 2 ^ n" "unat w' = unat w div 2 ^ n"
proof -
  have "b = take_bit n w" "w' = drop_bit n w"
    using assms by (auto simp: ChopLowBits_def push_bit_of_1 take_bit_eq_mask mask_eq_exp_minus_1)
  then show "unat b = unat w mod 2 ^ n" "unat w' = unat w div 2 ^ n"
    using take_bit_eq_mod[of n "unat w"] drop_bit_eq_div[of n "unat w"]
      take_bit_nat_eq_self[OF unsigned_less[of w]]
    by (simp_all only: unsigned_take_bit_eq unsigned_drop_bit_eq)
qed

lemma lead_bytes:
  "unat w < 64 \<Longrightarrow> unat (0x80 OR w :: uint32) = 128 + unat w"
  "unat w < 32 \<Longrightarrow> unat (0xC0 OR w :: uint32) = 192 + unat w"
  "unat w < 16 \<Longrightarrow> unat (0xE0 OR w :: uint32) = 224 + unat w"
  "unat w < 8 \<Longrightarrow> unat (0xF0 OR w :: uint32) = 240 + unat w"
  using or_low_nat[of "unat w" 6 2] or_low_nat[of "unat w" 5 6] or_low_nat[of "unat w" 4 14]
    or_low_nat[of "unat w" 3 30]
  by (simp_all add: unsigned_or_eq)

lemma to_char_code: "unat w < 256 \<Longrightarrow> of_char (to_char w) = unat w"
  by (simp add: to_char_def)

lemma unat_maxima:
  "cp \<le> kMaxCodePoint1 \<longleftrightarrow> unat cp < 2 ^ 7" "cp \<le> kMaxCodePoint2 \<longleftrightarrow> unat cp < 2 ^ 11"
  "cp \<le> kMaxCodePoint3 \<longleftrightarrow> unat cp < 2 ^ 16" "kMaxCodePoint4 < cp \<longleftrightarrow> 2 ^ 21 \<le> unat cp"
  by (auto simp: kMaxCodePoint1_def kMaxCodePoint2_def kMaxCodePoint3_def kMaxCodePoint4_def
      word_le_nat_alt word_less_nat_alt push_bit_of_1)

lemma to_char_nonzero: "0 < unat w \<Longrightarrow> unat w < 256 \<Longrightarrow> to_char w \<noteq> CHR 0x00"
  using to_char_code[of w] by auto

lemma continuation_byte:
  assumes "unat b < 64"
  shows "continuation (to_char (0x80 OR b)) \<and> cont_bits (to_char (0x80 OR b)) = unat b \<and>
    to_char (0x80 OR b) \<noteq> CHR 0x00"
  using assms to_char_nonzero[of "0x80 OR b"]
  by (simp add: continuation_def cont_bits_def lead_bytes to_char_code)

lemma c_str_no_nul: "\<forall>c \<in> set s. c \<noteq> CHR 0x00 \<Longrightarrow> c_str s = s"
  by (simp add: c_str_def takeWhile_eq_all_conv)

lemma split64: "(m :: nat) div 64 * 64 + m mod 64 = m"
  by simp

lemma decode_CodePointToUtf8:
  assumes "0 < unat cp" "unat cp < 2 ^ 21"
  shows "decode_utf8 (CodePointToUtf8 cp @ r) = map_option (Cons (unat cp)) (decode_utf8 r)"
proof -
  obtain b1 w1 where c1: "ChopLowBits cp 6 = (b1, w1)" by fastforce
  obtain b2 w2 where c2: "ChopLowBits w1 6 = (b2, w2)" by fastforce
  obtain b3 w3 where c3: "ChopLowBits w2 6 = (b3, w3)" by fastforce
  note u = ChopLowBits_unat[OF c1] ChopLowBits_unat[OF c2] ChopLowBits_unat[OF c3]
  have b: "unat b1 < 64" "unat b2 < 64" "unat b3 < 64" using u by simp_all
  note cont = b[THEN continuation_byte]
  consider "unat cp < 2 ^ 7" | "2 ^ 7 \<le> unat cp" "unat cp < 2 ^ 11"
    | "2 ^ 11 \<le> unat cp" "unat cp < 2 ^ 16" | "2 ^ 16 \<le> unat cp"
    by arith
  then show ?thesis
  proof cases
    case 1
    then show ?thesis
      using assms to_char_nonzero[of cp]
      by (simp add: CodePointToUtf8_def unat_maxima c_str_no_nul decode_utf8.simps(2) to_char_code)
  next
    case 2
    then have w: "unat w1 < 32" using u by simp
    then have "to_char (0xC0 OR w1) \<noteq> CHR 0x00" by (intro to_char_nonzero) (simp_all add: lead_bytes)
    moreover have "unat w1 * 64 + unat b1 = unat cp" using u split64[of "unat cp"] by simp
    ultimately show ?thesis
      using assms 2 c1 cont w
      by (simp add: CodePointToUtf8_def unat_maxima c_str_no_nul decode_utf8.simps(2) to_char_code lead_bytes)
  next
    case 3
    then have w: "unat w2 < 16" using u by (simp add: less_mult_imp_div_less)
    then have "to_char (0xE0 OR w2) \<noteq> CHR 0x00" by (intro to_char_nonzero) (simp_all add: lead_bytes)
    moreover have "(unat w2 * 64 + unat b2) * 64 + unat b1 = unat cp"
      using u split64[of "unat cp"] split64[of "unat w1"] by simp
    ultimately show ?thesis
      using assms 3 c1 c2 cont w
      by (simp add: CodePointToUtf8_def unat_maxima c_str_no_nul decode_utf8.simps(2) to_char_code lead_bytes)
  next
    case 4
    then have w: "unat w3 < 8" using u assms by (simp add: less_mult_imp_div_less)
    then have "to_char (0xF0 OR w3) \<noteq> CHR 0x00" by (intro to_char_nonzero) (simp_all add: lead_bytes)
    moreover have "((unat w3 * 64 + unat b3) * 64 + unat b2) * 64 + unat b1 = unat cp"
      using u split64[of "unat cp"] split64[of "unat w1"] split64[of "unat w2"] by simp
    ultimately show ?thesis
      using assms 4 c1 c2 c3 cont w
      by (simp add: CodePointToUtf8_def unat_maxima c_str_no_nul decode_utf8.simps(2) to_char_code lead_bytes)
  qed
qed

lemma CodePointToUtf8_no_nul: "unat cp < 2 ^ 21 \<Longrightarrow> CHR 0x00 \<notin> set (CodePointToUtf8 cp)"
  by (auto simp: CodePointToUtf8_def unat_maxima c_str_def dest: set_takeWhileD)

lemma StringStreamToString_no_nul: "CHR 0x00 \<notin> set s \<Longrightarrow> StringStreamToString s = s"
  by (induction s) (auto simp: StringStreamToString_def)

text \<open>Four byte characters have no surrogate pairs.\<close>

lemma wide_loop_4:
  "\<forall>c \<in> set cs. c \<noteq> 0 \<Longrightarrow> wide_loop 4 cs = concat (map CodePointToUtf8 cs)"
  by (induction "4 :: nat" cs rule: wide_loop.induct) (auto simp: IsUtf16SurrogatePair_def)

lemma decode_concat:
  "\<forall>c \<in> set cs. 0 < unat c \<and> unat c < 2 ^ 21 \<Longrightarrow>
   decode_utf8 (concat (map CodePointToUtf8 cs)) = Some (map unat cs)"
  by (induction cs) (simp_all add: decode_CodePointToUtf8)

text \<open>
  With \<open>wchar_t\<close> of four bytes, the UTF-8 text of a wide string decodes to the string, for all
  characters from 1 to \<open>0x1FFFFF\<close>.  The last Unicode code point is \<open>0x10FFFF\<close>; the code encodes the
  values above it, up to 21 bits, like characters, where its comment promises a notice.
\<close>

theorem utf8_roundtrip:
  assumes "\<forall>c \<in> set str. 0 < unat c \<and> unat c < 2 ^ 21"
  shows "decode_utf8 (WideStringToUtf8 4 str (-1)) = Some (map unat str) \<and>
    CodePointToUtf8 0x110000 = [CHR 0xF4, CHR 0x90, CHR 0x80, CHR 0x80]"
proof
  have nz: "\<forall>c \<in> set str. c \<noteq> 0" using assms by auto
  then have all: "take (length (takeWhile (\<lambda>c. c \<noteq> 0) str)) str = str"
    by (subst takeWhile_eq_all_conv[THEN iffD2]) simp_all
  have "CHR 0x00 \<notin> set (concat (map CodePointToUtf8 str))"
    using assms CodePointToUtf8_no_nul by auto
  then show "decode_utf8 (WideStringToUtf8 4 str (-1)) = Some (map unat str)"
    by (simp add: WideStringToUtf8_def all wide_loop_4[OF nz] StringStreamToString_no_nul decode_concat[OF assms])
qed code_simp

theorem utf8_roundtrip_witness:
  "decode_utf8 (WideStringToUtf8 4 [0x24, 0xA2, 0x20AC, 0x10348] (-1)) = Some [0x24, 0xA2, 0x20AC, 0x10348]"
  using utf8_roundtrip[of "[0x24, 0xA2, 0x20AC, 0x10348]"] by simp

end
