(* ===== verification/Gtest_Assertions.thy ===== *)
theory Gtest_Assertions
  imports Gtest_Unified_Diff Gtest_Utf8
begin

text \<open>
  Assertion results and the helpers behind \<open>EXPECT_EQ\<close> and its relatives
  (\<open>lib/googletest/src/gtest.cc\<close>).  A C string argument is \<open>None\<close> when it is \<open>NULL\<close>; text streamed
  into a message is the string the stream would hold.
\<close>

section \<open>Comparing C strings\<close>

definition CStringEquals :: "string option \<Rightarrow> string option \<Rightarrow> bool" where
  "CStringEquals lhs rhs =
    (case lhs of
       None \<Rightarrow> rhs = None
     | Some l \<Rightarrow> (case rhs of None \<Rightarrow> False | Some r \<Rightarrow> l = r))"

definition CaseInsensitiveCStringEquals :: "string option \<Rightarrow> string option \<Rightarrow> bool" where
  "CaseInsensitiveCStringEquals lhs rhs =
    (case lhs of
       None \<Rightarrow> rhs = None
     | Some l \<Rightarrow> (case rhs of None \<Rightarrow> False | Some r \<Rightarrow> map tolower l = map tolower r))"

definition EndsWithCaseInsensitive :: "string \<Rightarrow> string \<Rightarrow> bool" where
  "EndsWithCaseInsensitive str suffix =
    (length suffix \<le> length str \<and>
     CaseInsensitiveCStringEquals (Some (c_str (drop (length str - length suffix) str))) (Some (c_str suffix)))"

text \<open>\<open>strstr\<close> and \<open>std::string::find\<close>.\<close>

fun occurs_in :: "string \<Rightarrow> string \<Rightarrow> bool" where
  "occurs_in needle [] = (needle = [])"
| "occurs_in needle (c # haystack) = (has_prefix needle (c # haystack) \<or> occurs_in needle haystack)"

definition IsSubstringPred :: "string option \<Rightarrow> string option \<Rightarrow> bool" where
  "IsSubstringPred needle haystack =
    (case (needle, haystack) of (Some n, Some h) \<Rightarrow> occurs_in n h | _ \<Rightarrow> needle = haystack)"

definition IsSubstringPred_string :: "string \<Rightarrow> string \<Rightarrow> bool" where
  "IsSubstringPred_string needle haystack = occurs_in needle haystack"

section \<open>Assertion results\<close>

record AssertionResult =
  success :: bool
  message :: "string option"

definition AssertionSuccess :: AssertionResult where
  "AssertionSuccess = \<lparr>success = True, message = None\<rparr>"

definition AssertionFailure :: AssertionResult where
  "AssertionFailure = \<lparr>success = False, message = None\<rparr>"

text \<open>\<open>operator<<\<close> and \<open>message()\<close>.\<close>

definition AppendMessage :: "string \<Rightarrow> AssertionResult \<Rightarrow> AssertionResult" where
  "AppendMessage txt ar =
     ar\<lparr>message := Some ((case message ar of None \<Rightarrow> '''' | Some m \<Rightarrow> m) @ c_str (StringStreamToString txt))\<rparr>"

definition message_text :: "AssertionResult \<Rightarrow> string" where
  "message_text ar = (case message ar of None \<Rightarrow> '''' | Some m \<Rightarrow> c_str m)"

definition negation :: "AssertionResult \<Rightarrow> AssertionResult" where
  "negation ar =
    (let neg = \<lparr>success = \<not> success ar, message = None\<rparr>
     in case message ar of None \<Rightarrow> neg | Some m \<Rightarrow> AppendMessage m neg)"

definition fail_with :: "string list \<Rightarrow> AssertionResult" where
  "fail_with parts = fold AppendMessage parts AssertionFailure"

definition GetBoolAssertionFailureMessage :: "AssertionResult \<Rightarrow> string \<Rightarrow> string \<Rightarrow> string \<Rightarrow> string" where
  "GetBoolAssertionFailureMessage ar expression_text actual_value expected_value =
     StringStreamToString
       (''Value of: '' @ expression_text @ [newline] @ ''  Actual: '' @ actual_value
        @ (if message_text ar \<noteq> '''' then '' ('' @ message_text ar @ '')'' else '''')
        @ [newline] @ ''Expected: '' @ expected_value)"

definition AppendUserMessage :: "string \<Rightarrow> string \<Rightarrow> string" where
  "AppendUserMessage gtest_msg user_msg =
    (let user_msg_string = StringStreamToString user_msg
     in if user_msg_string = '''' then gtest_msg else gtest_msg @ [newline] @ user_msg_string)"

section \<open>Failed equalities\<close>

text \<open>\<open>std::string::substr\<close> within bounds.\<close>

definition substr :: "string \<Rightarrow> nat \<Rightarrow> nat \<Rightarrow> string" where
  "substr s pos n = take n (drop pos s)"

function split_escaped :: "string \<Rightarrow> nat \<Rightarrow> nat \<Rightarrow> nat \<Rightarrow> bool \<Rightarrow> string list" where
  "split_escaped str stop start i escaped =
    (if i + 1 < stop then
       (if escaped then
          (if str ! i = CHR ''n''
           then substr str start (i - start - 1) # split_escaped str stop (i + 1) (i + 1) False
           else split_escaped str stop start (i + 1) False)
        else split_escaped str stop start (i + 1) (str ! i = backslash))
     else [substr str start (stop - start)])"
  by pat_completeness auto
termination
  by (relation "measure (\<lambda>(_, stop, _, i, _). stop - i)") auto

declare split_escaped.simps [simp del]

definition quoted :: "string \<Rightarrow> bool" where
  "quoted str \<longleftrightarrow> 2 < length str \<and> str ! 0 = dquote \<and> str ! (length str - 1) = dquote"

definition SplitEscapedString :: "string \<Rightarrow> string list" where
  "SplitEscapedString str =
    (let start = (if quoted str then 1 else 0);
         stop = (if quoted str then length str - 1 else length str)
     in split_escaped str stop start start False)"

text \<open>The default of \<open>CreateUnifiedDiff\<close> is two lines of context.\<close>

definition EqFailure :: "'c arith \<Rightarrow> string \<Rightarrow> string \<Rightarrow> string \<Rightarrow> string \<Rightarrow> bool \<Rightarrow> AssertionResult option" where
  "EqFailure A lhs_expression rhs_expression lhs_value rhs_value ignoring_case =
    (let msg =
       ''      Expected: '' @ lhs_expression
       @ (if lhs_value \<noteq> lhs_expression then [newline] @ ''      Which is: '' @ lhs_value else '''')
       @ [newline] @ ''To be equal to: '' @ rhs_expression
       @ (if rhs_value \<noteq> rhs_expression then [newline] @ ''      Which is: '' @ rhs_value else '''')
       @ (if ignoring_case then [newline] @ ''Ignoring case'' else '''');
       lhs_lines = SplitEscapedString lhs_value;
       rhs_lines = SplitEscapedString rhs_value
     in if lhs_value \<noteq> '''' \<and> rhs_value \<noteq> '''' \<and> (1 < length lhs_lines \<or> 1 < length rhs_lines)
        then map_option
               (\<lambda>d. AppendMessage (StringStreamToString (msg @ [newline] @ ''With diff:'' @ [newline] @ d))
                      AssertionFailure)
               (CreateUnifiedDiff A lhs_lines rhs_lines 2)
        else Some (AppendMessage (StringStreamToString msg) AssertionFailure))"

section \<open>The comparison helpers\<close>

text \<open>\<open>BiggestInt\<close> is \<open>long long\<close>.\<close>

definition print_llong :: "llong \<Rightarrow> string" where
  "print_llong v = int_to_string (sint v)"

definition CmpHelperEQ :: "'c arith \<Rightarrow> string \<Rightarrow> string \<Rightarrow> llong \<Rightarrow> llong \<Rightarrow> AssertionResult option" where
  "CmpHelperEQ A lhs_expression rhs_expression lhs rhs =
    (if lhs = rhs then Some AssertionSuccess
     else EqFailure A lhs_expression rhs_expression (print_llong lhs) (print_llong rhs) False)"

text \<open>\<open>GTEST_IMPL_CMP_HELPER_\<close>, of the operator's name and meaning.\<close>

definition CmpHelper ::
  "string \<Rightarrow> (llong \<Rightarrow> llong \<Rightarrow> bool) \<Rightarrow> string \<Rightarrow> string \<Rightarrow> llong \<Rightarrow> llong \<Rightarrow> AssertionResult"
where
  "CmpHelper opr holds expr1 expr2 val1 val2 =
    (if holds val1 val2 then AssertionSuccess
     else fail_with [''Expected: ('', expr1, '') '' @ opr @ '' ('', expr2, ''), actual: '',
            print_llong val1, '' vs '', print_llong val2])"

definition CmpHelperNE :: "string \<Rightarrow> string \<Rightarrow> llong \<Rightarrow> llong \<Rightarrow> AssertionResult" where
  "CmpHelperNE = CmpHelper ''!='' (\<lambda>a b. a \<noteq> b)"

definition CmpHelperLE :: "string \<Rightarrow> string \<Rightarrow> llong \<Rightarrow> llong \<Rightarrow> AssertionResult" where
  "CmpHelperLE = CmpHelper ''<='' (\<lambda>a b. sint a \<le> sint b)"

definition CmpHelperLT :: "string \<Rightarrow> string \<Rightarrow> llong \<Rightarrow> llong \<Rightarrow> AssertionResult" where
  "CmpHelperLT = CmpHelper ''<'' (\<lambda>a b. sint a < sint b)"

definition CmpHelperGE :: "string \<Rightarrow> string \<Rightarrow> llong \<Rightarrow> llong \<Rightarrow> AssertionResult" where
  "CmpHelperGE = CmpHelper ''>='' (\<lambda>a b. sint b \<le> sint a)"

definition CmpHelperGT :: "string \<Rightarrow> string \<Rightarrow> llong \<Rightarrow> llong \<Rightarrow> AssertionResult" where
  "CmpHelperGT = CmpHelper ''>'' (\<lambda>a b. sint b < sint a)"

definition CmpHelperSTREQ ::
  "'c arith \<Rightarrow> string \<Rightarrow> string \<Rightarrow> string option \<Rightarrow> string option \<Rightarrow> AssertionResult option"
where
  "CmpHelperSTREQ A lhs_expression rhs_expression lhs rhs =
    (if CStringEquals lhs rhs then Some AssertionSuccess
     else EqFailure A lhs_expression rhs_expression (PrintToString_cstr lhs) (PrintToString_cstr rhs) False)"

definition CmpHelperSTRCASEEQ ::
  "'c arith \<Rightarrow> string \<Rightarrow> string \<Rightarrow> string option \<Rightarrow> string option \<Rightarrow> AssertionResult option"
where
  "CmpHelperSTRCASEEQ A lhs_expression rhs_expression lhs rhs =
    (if CaseInsensitiveCStringEquals lhs rhs then Some AssertionSuccess
     else EqFailure A lhs_expression rhs_expression (PrintToString_cstr lhs) (PrintToString_cstr rhs) True)"

text \<open>A pointer in a message.\<close>

definition shown :: "string option \<Rightarrow> string" where
  "shown s = (case s of None \<Rightarrow> ''(null)'' | Some t \<Rightarrow> t)"

definition CmpHelperSTRNE :: "string \<Rightarrow> string \<Rightarrow> string option \<Rightarrow> string option \<Rightarrow> AssertionResult" where
  "CmpHelperSTRNE s1_expression s2_expression s1 s2 =
    (if \<not> CStringEquals s1 s2 then AssertionSuccess
     else fail_with [''Expected: ('', s1_expression, '') != ('', s2_expression, ''), actual: '' @ [dquote],
            shown s1, [dquote] @ '' vs '' @ [dquote], shown s2, [dquote]])"

definition CmpHelperSTRCASENE :: "string \<Rightarrow> string \<Rightarrow> string option \<Rightarrow> string option \<Rightarrow> AssertionResult" where
  "CmpHelperSTRCASENE s1_expression s2_expression s1 s2 =
    (if \<not> CaseInsensitiveCStringEquals s1 s2 then AssertionSuccess
     else fail_with [''Expected: ('', s1_expression, '') != ('', s2_expression,
            '') (ignoring case), actual: '' @ [dquote],
            shown s1, [dquote] @ '' vs '' @ [dquote], shown s2, [dquote]])"

text \<open>The narrow instances of \<open>IsSubstringImpl\<close>, of the outcome of the predicate and the texts.\<close>

definition IsSubstringImpl :: "bool \<Rightarrow> string \<Rightarrow> string \<Rightarrow> bool \<Rightarrow> string \<Rightarrow> string \<Rightarrow> AssertionResult" where
  "IsSubstringImpl expected_to_be_substring needle_expr haystack_expr is_substring needle haystack =
    (if is_substring = expected_to_be_substring then AssertionSuccess
     else fail_with [''Value of: '', needle_expr, [newline], ''  Actual: '', [dquote], needle,
            [dquote, newline], ''Expected: '', (if expected_to_be_substring then '''' else ''not ''),
            ''a substring of '', haystack_expr, [newline], ''Which is: '', [dquote], haystack, [dquote]])"

definition IsSubstring :: "string \<Rightarrow> string \<Rightarrow> string option \<Rightarrow> string option \<Rightarrow> AssertionResult" where
  "IsSubstring needle_expr haystack_expr needle haystack =
     IsSubstringImpl True needle_expr haystack_expr (IsSubstringPred needle haystack)
       (shown needle) (shown haystack)"

definition IsNotSubstring :: "string \<Rightarrow> string \<Rightarrow> string option \<Rightarrow> string option \<Rightarrow> AssertionResult" where
  "IsNotSubstring needle_expr haystack_expr needle haystack =
     IsSubstringImpl False needle_expr haystack_expr (IsSubstringPred needle haystack)
       (shown needle) (shown haystack)"

definition IsSubstring_string :: "string \<Rightarrow> string \<Rightarrow> string \<Rightarrow> string \<Rightarrow> AssertionResult" where
  "IsSubstring_string needle_expr haystack_expr needle haystack =
     IsSubstringImpl True needle_expr haystack_expr (IsSubstringPred_string needle haystack) needle haystack"

definition IsNotSubstring_string :: "string \<Rightarrow> string \<Rightarrow> string \<Rightarrow> string \<Rightarrow> AssertionResult" where
  "IsNotSubstring_string needle_expr haystack_expr needle haystack =
     IsSubstringImpl False needle_expr haystack_expr (IsSubstringPred_string needle haystack) needle haystack"

section \<open>The outcomes\<close>

text \<open>Splitting at escaped newlines loses nothing.\<close>

fun join_lines :: "string list \<Rightarrow> string" where
  "join_lines [] = ''''"
| "join_lines [l] = l"
| "join_lines (l # ls) = l @ [backslash, CHR ''n''] @ join_lines ls"

lemma split_escaped_nonempty: "split_escaped str stop start i escaped \<noteq> []"
  by (induction str stop start i escaped rule: split_escaped.induct) (subst split_escaped.simps, auto)

lemma join_lines_Cons: "ls \<noteq> [] \<Longrightarrow> join_lines (l # ls) = l @ [backslash, CHR ''n''] @ join_lines ls"
  by (cases ls) auto

lemma substr_break:
  assumes "start < i" "i < stop" "stop \<le> length str" "str ! (i - 1) = backslash" "str ! i = CHR ''n''"
  shows "substr str start (i - start - 1) @ [backslash, CHR ''n''] @ substr str (i + 1) (stop - (i + 1)) =
    substr str start (stop - start)"
proof -
  have d: "drop (i - 1) str = backslash # CHR ''n'' # drop (i + 1) str"
    using assms Cons_nth_drop_Suc[of "i - 1" str] Cons_nth_drop_Suc[of i str] by simp
  have n: "stop - start = (i - start - 1) + (2 + (stop - (i + 1)))" and m: "i - start - 1 + start = i - 1"
    using assms by auto
  have "substr str start (stop - start) =
      take (i - start - 1) (drop start str) @ take (2 + (stop - (i + 1))) (drop (i - 1) str)"
    unfolding substr_def n take_add drop_drop m by simp
  also have "take (2 + (stop - (i + 1))) (drop (i - 1) str) =
      [backslash, CHR ''n''] @ take (stop - (i + 1)) (drop (i + 1) str)"
    unfolding d by simp
  finally show ?thesis by (simp add: substr_def)
qed

lemma join_split_escaped:
  assumes "start \<le> i" "start \<le> stop" "stop \<le> length str" "escaped \<Longrightarrow> start < i \<and> str ! (i - 1) = backslash"
  shows "join_lines (split_escaped str stop start i escaped) = substr str start (stop - start)"
  using assms
proof (induction str stop start i escaped rule: split_escaped.induct)
  case (1 str stop start i escaped)
  show ?case
  proof (cases "i + 1 < stop \<and> escaped \<and> str ! i = CHR ''n''")
    case True
    then have "join_lines (split_escaped str stop (i + 1) (i + 1) False) =
        substr str (i + 1) (stop - (i + 1))"
      using 1 by simp
    then show ?thesis
      using True 1 substr_break[of start i stop str]
      by (subst split_escaped.simps) (simp add: join_lines_Cons split_escaped_nonempty)
  next
    case False
    then show ?thesis
      using 1 by (subst split_escaped.simps) auto
  qed
qed

lemma join_SplitEscapedString:
  "join_lines (SplitEscapedString str) = (if quoted str then butlast (tl str) else str)"
proof -
  have "substr str 1 (length str - 1 - 1) = butlast (tl str)"
    by (simp add: substr_def butlast_conv_take drop_Suc)
  moreover have "join_lines (split_escaped str (length str - 1) 1 1 False) =
      substr str 1 (length str - 1 - 1)" if "quoted str"
    using that by (intro join_split_escaped) (auto simp: quoted_def)
  moreover have "join_lines (split_escaped str (length str) 0 0 False) = str"
    using join_split_escaped[of 0 0 "length str" str False] by (simp add: substr_def)
  ultimately show ?thesis by (simp add: SplitEscapedString_def)
qed

lemma EqFailure_fails:
  "\<exists>r. EqFailure A le re lv rv ic = Some r \<and> \<not> success r \<and> message r \<noteq> None"
  using CalculateOptimalEdits_strings_script[of A "SplitEscapedString lv" "SplitEscapedString rv"]
  by (auto simp: EqFailure_def Let_def AppendMessage_def AssertionFailure_def CreateUnifiedDiff_def)

lemma CStringEquals_iff [simp]: "CStringEquals lhs rhs \<longleftrightarrow> lhs = rhs"
  by (auto simp: CStringEquals_def split: option.splits)

lemma CmpHelperSTREQ_exact:
  "\<exists>r. CmpHelperSTREQ A le re lhs rhs = Some r \<and> (success r \<longleftrightarrow> lhs = rhs) \<and>
     (message r = None \<longleftrightarrow> lhs = rhs)"
  using EqFailure_fails[of A le re "PrintToString_cstr lhs" "PrintToString_cstr rhs" False]
  by (auto simp: CmpHelperSTREQ_def AssertionSuccess_def)

lemma CmpHelperEQ_exact:
  "\<exists>r. CmpHelperEQ A le re lhs rhs = Some r \<and> (success r \<longleftrightarrow> lhs = rhs)"
  using EqFailure_fails[of A le re "print_llong lhs" "print_llong rhs" False]
  by (auto simp: CmpHelperEQ_def AssertionSuccess_def)

lemma occurs_in_iff: "occurs_in needle haystack \<longleftrightarrow> (\<exists>u v. haystack = u @ needle @ v)"
proof (induction haystack)
  case (Cons c haystack)
  have "(\<exists>u v. c # haystack = u @ needle @ v) \<longleftrightarrow>
      (\<exists>v. c # haystack = needle @ v) \<or> (\<exists>u v. haystack = u @ needle @ v)"
    by (metis append_Cons append_Nil append_eq_Cons_conv)
  then show ?case by (simp add: Cons has_prefix_iff)
qed auto

end
