(* ===== verification/Gmock_Matching.thy ===== *)
theory Gmock_Matching
  imports C_Strings
begin

text \<open>
  Maximum bipartite matching (\<open>lib/googlemock/src/gmock-matchers.cc\<close>): the match matrix, the class
  \<open>MaxBipartiteMatchState\<close> and \<open>FindMaxBipartiteMatching\<close>, which decide \<open>UnorderedElementsAre\<close>.
  \<open>kUnused\<close> is \<open>None\<close>.
\<close>

section \<open>The match matrix\<close>

record MatchMatrix =
  num_elements :: nat
  num_matchers :: nat
  matched :: "nat list"

definition MatchMatrix_new :: "nat \<Rightarrow> nat \<Rightarrow> MatchMatrix" where
  "MatchMatrix_new n m = \<lparr>num_elements = n, num_matchers = m, matched = replicate (n * m) 0\<rparr>"

definition LhsSize :: "MatchMatrix \<Rightarrow> nat" where
  "LhsSize g = num_elements g"

definition RhsSize :: "MatchMatrix \<Rightarrow> nat" where
  "RhsSize g = num_matchers g"

definition SpaceIndex :: "MatchMatrix \<Rightarrow> nat \<Rightarrow> nat \<Rightarrow> nat" where
  "SpaceIndex g ilhs irhs = ilhs * num_matchers g + irhs"

definition HasEdge :: "MatchMatrix \<Rightarrow> nat \<Rightarrow> nat \<Rightarrow> bool" where
  "HasEdge g ilhs irhs \<longleftrightarrow> matched g ! SpaceIndex g ilhs irhs = 1"

definition SetEdge :: "nat \<Rightarrow> nat \<Rightarrow> bool \<Rightarrow> MatchMatrix \<Rightarrow> MatchMatrix" where
  "SetEdge ilhs irhs b g = g\<lparr>matched := (matched g)[SpaceIndex g ilhs irhs := (if b then 1 else 0)]\<rparr>"

text \<open>The pairs of indices in the order of the nested loops over a matrix.\<close>

definition positions :: "nat \<Rightarrow> nat \<Rightarrow> (nat \<times> nat) list" where
  "positions n m = concat (map (\<lambda>i. map (\<lambda>j. (i, j)) [0 ..< m]) [0 ..< n])"

fun next_graph :: "(nat \<times> nat) list \<Rightarrow> MatchMatrix \<Rightarrow> bool \<times> MatchMatrix" where
  "next_graph [] g = (False, g)"
| "next_graph ((i, j) # ps) g =
    (if matched g ! SpaceIndex g i j = 0 then (True, SetEdge i j True g)
     else next_graph ps (SetEdge i j False g))"

definition NextGraph :: "MatchMatrix \<Rightarrow> bool \<times> MatchMatrix" where
  "NextGraph g = next_graph (positions (LhsSize g) (RhsSize g)) g"

definition DebugString :: "MatchMatrix \<Rightarrow> string" where
  "DebugString g =
     concat (map (\<lambda>i. (if i = 0 then '''' else '';'')
        @ map (\<lambda>j. if HasEdge g i j then CHR ''1'' else CHR ''0'') [0 ..< RhsSize g]) [0 ..< LhsSize g])"

section \<open>Augmenting paths\<close>

text \<open>How many matchers are not seen.\<close>

definition unseen :: "bool list \<Rightarrow> nat" where
  "unseen seen = length (filter Not seen)"

lemma unseen_mark: "i < length seen \<Longrightarrow> \<not> seen ! i \<Longrightarrow> unseen (seen[i := True]) < unseen seen"
  by (induction seen arbitrary: i) (auto simp: unseen_def nth_Cons split: nat.splits)

text \<open>
  The loop of \<open>TryAugment\<close> from \<open>irhs\<close> on.  The result tells whether a path was found and holds
  \<open>seen\<close>, \<open>left_\<close> and \<open>right_\<close>.  The vector \<open>seen\<close> has an entry per matcher; were it shorter, the
  model would stop at its end.
\<close>

type_synonym augmented = "bool \<times> bool list \<times> nat option list \<times> nat option list"

function try_from ::
  "MatchMatrix \<Rightarrow> nat \<Rightarrow> nat \<Rightarrow> bool list \<Rightarrow> nat option list \<Rightarrow> nat option list \<Rightarrow> augmented"
where
  "try_from g ilhs irhs seen left right =
    (if RhsSize g \<le> irhs \<or> length seen \<le> irhs then (False, seen, left, right)
     else if seen ! irhs then try_from g ilhs (irhs + 1) seen left right
     else if \<not> HasEdge g ilhs irhs then try_from g ilhs (irhs + 1) seen left right
     else
       (case right ! irhs of
          None \<Rightarrow> (True, seen[irhs := True], left[ilhs := Some irhs], right[irhs := Some ilhs])
        | Some ilhs' \<Rightarrow>
            (case try_from g ilhs' 0 (seen[irhs := True]) left right of
               (found, seen', left', right') \<Rightarrow>
                 if found then (True, seen', left'[ilhs := Some irhs], right'[irhs := Some ilhs])
                 else try_from g ilhs (irhs + 1) seen' left' right')))"
  by pat_completeness auto

termination
proof -
  have less_unseen: "unseen seen' \<le> unseen seen"
    if "try_from_dom (g, i, j, seen, l, r)" "try_from g i j seen l r = (found, seen', l', r')"
    for g i j seen l r found seen' l' r'
    using that
  proof (induction g i j seen l r arbitrary: found seen' l' r' rule: try_from.pinduct)
    case (1 g i j seen l r)
    show ?case
    proof (cases "RhsSize g \<le> j \<or> length seen \<le> j \<or> seen ! j \<or> \<not> HasEdge g i j")
      case True
      then show ?thesis using 1 by (auto simp: try_from.psimps split: if_splits)
    next
      case False
      then have mark: "unseen (seen[j := True]) < unseen seen" by (simp add: unseen_mark)
      show ?thesis
      proof (cases "r ! j")
        case None
        then show ?thesis using 1 False mark by (simp add: try_from.psimps)
      next
        case (Some i')
        obtain f1 s1 l1 r1 where rec: "try_from g i' 0 (seen[j := True]) l r = (f1, s1, l1, r1)"
          by (metis surj_pair)
        have "unseen s1 \<le> unseen (seen[j := True])" using 1(4) False Some rec by auto
        moreover have "unseen seen' \<le> unseen s1"
          using 1(1,5,6) False Some rec by (cases f1) (auto simp: try_from.psimps)
        ultimately show ?thesis using mark by simp
      qed
    qed
  qed
  show "All try_from_dom"
  proof (relation "measures [\<lambda>(_, _, _, seen, _, _). unseen seen, \<lambda>(g, _, j, _, _, _). RhsSize g - j]",
      goal_cases)
    case (5 g i j seen l r i' found y seen' y' l' r')
    from 5(5-7) have "try_from g i' 0 (seen[j := True]) l r = (found, seen', l', r')" by simp
    from less_unseen[OF 5(9) this] have "unseen seen' \<le> unseen (seen[j := True])" .
    then show ?case using 5(1-3) unseen_mark[of j seen] by simp
  qed (auto simp: unseen_mark)
qed

declare try_from.simps [simp del]

definition TryAugment ::
  "MatchMatrix \<Rightarrow> nat \<Rightarrow> bool list \<Rightarrow> nat option list \<Rightarrow> nat option list \<Rightarrow> augmented"
where
  "TryAugment g ilhs seen left right = try_from g ilhs 0 seen left right"

text \<open>The loop of \<open>Compute\<close>; \<open>None\<close> where \<open>GTEST_CHECK_\<close> would abort.\<close>

fun compute_loop ::
  "MatchMatrix \<Rightarrow> nat list \<Rightarrow> nat option list \<Rightarrow> nat option list \<Rightarrow> (nat option list \<times> nat option list) option"
where
  "compute_loop g [] left right = Some (left, right)"
| "compute_loop g (ilhs # is) left right =
    (if left ! ilhs \<noteq> None then None
     else
       (case TryAugment g ilhs (replicate (RhsSize g) False) left right of
          (found, seen, left', right') \<Rightarrow> compute_loop g is left' right'))"

text \<open>The edges of the matching, in the order of the elements.\<close>

definition matched_pairs :: "nat option list \<Rightarrow> (nat \<times> nat) list" where
  "matched_pairs left =
     concat (map (\<lambda>i. case left ! i of None \<Rightarrow> [] | Some j \<Rightarrow> [(i, j)]) [0 ..< length left])"

definition FindMaxBipartiteMatching :: "MatchMatrix \<Rightarrow> (nat \<times> nat) list option" where
  "FindMaxBipartiteMatching g =
     map_option (\<lambda>(left, right). matched_pairs left)
       (compute_loop g [0 ..< LhsSize g] (replicate (LhsSize g) None) (replicate (RhsSize g) None))"

section \<open>What a search does\<close>

text \<open>The matchers not seen, and the elements that a set of matchers holds.\<close>

definition unseen_set :: "bool list \<Rightarrow> nat set" where
  "unseen_set seen = {j. j < length seen \<and> \<not> seen ! j}"

definition held :: "nat option list \<Rightarrow> nat set \<Rightarrow> nat set" where
  "held r U = {i. \<exists>j \<in> U. r ! j = Some i}"

text \<open>On \<open>U\<close> the two vectors refer to each other, along edges.\<close>

definition mates :: "MatchMatrix \<Rightarrow> nat set \<Rightarrow> nat option list \<Rightarrow> nat option list \<Rightarrow> bool" where
  "mates g U l r \<longleftrightarrow> (\<forall>j \<in> U. \<forall>i. r ! j = Some i \<longrightarrow> i < length l \<and> HasEdge g i j \<and> l ! i = Some j)"

text \<open>A successful search from \<open>i\<close> among \<open>U\<close> adds \<open>i\<close> to the elements held, and no more.\<close>

definition adds_flow ::
  "MatchMatrix \<Rightarrow> nat set \<Rightarrow> nat \<Rightarrow> nat option list \<Rightarrow> nat option list \<Rightarrow> nat option list \<Rightarrow> nat option list \<Rightarrow> bool"
where
  "adds_flow g U i l r l' r' \<longleftrightarrow>
     length l' = length l \<and> length r' = length r \<and> mates g U l' r' \<and>
     held r' U = insert i (held r U) \<and> (\<forall>j. j \<notin> U \<longrightarrow> r' ! j = r ! j) \<and>
     (\<forall>k. k \<notin> insert i (held r U) \<longrightarrow> l' ! k = l ! k)"

lemma mates_subset: "mates g U l r \<Longrightarrow> V \<subseteq> U \<Longrightarrow> mates g V l r"
  by (auto simp: mates_def)

lemma held_subset: "V \<subseteq> U \<Longrightarrow> held r V \<subseteq> held r U"
  by (auto simp: held_def)

lemma mates_unique: "mates g U l r \<Longrightarrow> j \<in> U \<Longrightarrow> k \<in> U \<Longrightarrow> r ! j = Some i \<Longrightarrow> r ! k = Some i \<Longrightarrow> j = k"
  unfolding mates_def by (metis option.inject)

lemma mates_held:
  assumes "mates g U l r" "j \<in> U" "r ! j = Some i"
  shows "i < length l \<and> i \<notin> held r (U - {j})"
proof -
  have "k = j" if "k \<in> U" "r ! k = Some i" for k
    using mates_unique[OF assms(1) that(1) assms(2) that(2) assms(3)] .
  then have "i \<notin> held r (U - {j})" unfolding held_def by blast
  moreover have "i < length l" using assms unfolding mates_def by blast
  ultimately show ?thesis by blast
qed

lemma unseen_set_mark: "unseen_set (seen[j := True]) = unseen_set seen - {j}"
  by (auto simp: unseen_set_def) (metis nth_list_update_neq nth_list_update_eq)+

lemma held_update: "j \<in> U \<Longrightarrow> j < length r \<Longrightarrow> held (r[j := Some i]) U = insert i (held r (U - {j}))"
  by (auto simp: held_def nth_list_update split: if_splits)

lemma held_None: "r ! j = None \<Longrightarrow> held r (U - {j}) = held r U"
  by (force simp: held_def)

lemma update_outside: "j \<in> U \<Longrightarrow> k \<notin> U \<Longrightarrow> (r[j := x]) ! k = r ! k"
  by (metis nth_list_update_neq)

lemma adds_flow_free:
  assumes "j \<in> U" "j < length r" "i < length l" "HasEdge g i j" "r ! j = None"
    and "mates g U l r" "i \<notin> held r U"
  shows "adds_flow g U i l r (l[i := Some j]) (r[j := Some i])"
proof -
  have "mates g U (l[i := Some j]) (r[j := Some i])"
    using assms by (auto simp: mates_def held_def nth_list_update)
  moreover have "held (r[j := Some i]) U = insert i (held r U)"
    using assms by (simp add: held_update held_None)
  ultimately show ?thesis
    using assms(1) by (auto simp: adds_flow_def update_outside)
qed

lemma adds_flow_step:
  assumes "j \<in> U" "j < length r" "i < length l" "HasEdge g i j" "r ! j = Some i'"
    and "mates g U l r" "i \<notin> held r U" "adds_flow g (U - {j}) i' l r l1 r1"
  shows "adds_flow g U i l r (l1[i := Some j]) (r1[j := Some i])"
proof -
  have held: "held r1 (U - {j}) = held r U"
    using assms(1,5,8) by (auto simp: adds_flow_def held_def)
  have m1: "mates g (U - {j}) l1 r1" and len: "length l1 = length l" "length r1 = length r"
    using assms(8) by (auto simp: adds_flow_def)
  have "mates g U (l1[i := Some j]) (r1[j := Some i])"
    unfolding mates_def
  proof (intro ballI allI impI)
    fix j0 k assume j0: "j0 \<in> U" and k: "(r1[j := Some i]) ! j0 = Some k"
    show "k < length (l1[i := Some j]) \<and> HasEdge g k j0 \<and> (l1[i := Some j]) ! k = Some j0"
    proof (cases "j0 = j")
      case True
      then show ?thesis using k assms(2-4) len by simp
    next
      case False
      then have "j0 \<in> U - {j}" "r1 ! j0 = Some k" using j0 k by auto
      moreover from this have "k \<noteq> i" using held assms(7) by (auto simp: held_def)
      ultimately show ?thesis using m1 by (auto simp: mates_def)
    qed
  qed
  moreover have "held (r1[j := Some i]) U = insert i (held r U)"
    using assms(1,2) len held by (simp add: held_update)
  moreover have "(l1[i := Some j]) ! k = l ! k" if "k \<notin> insert i (held r U)" for k
  proof -
    have "k \<notin> insert i' (held r (U - {j}))" using that assms(1,5) by (auto simp: held_def)
    then show ?thesis using that assms(8) by (simp add: adds_flow_def)
  qed
  ultimately show ?thesis
    using assms(1,8) len by (auto simp: adds_flow_def update_outside)
qed

lemma adds_flow_mono:
  assumes "adds_flow g V i l r l' r'" "V \<subseteq> U" "mates g U l r" "i \<notin> held r U"
  shows "adds_flow g U i l r l' r'"
proof -
  have "mates g U l' r'"
    unfolding mates_def
  proof (intro ballI allI impI)
    fix j k assume j: "j \<in> U" and k: "r' ! j = Some k"
    show "k < length l' \<and> HasEdge g k j \<and> l' ! k = Some j"
    proof (cases "j \<in> V")
      case True
      then show ?thesis using assms(1) k by (auto simp: adds_flow_def mates_def)
    next
      case False
      then have r: "r ! j = Some k" using assms(1) k by (auto simp: adds_flow_def)
      then have "k \<noteq> i" using assms(4) j by (auto simp: held_def)
      moreover have "k \<notin> held r V"
        using mates_unique[OF assms(3) j _ r] False assms(2) by (auto simp: held_def)
      ultimately have "l' ! k = l ! k" using assms(1) by (auto simp: adds_flow_def)
      then show ?thesis using assms(1,3) j r by (auto simp: adds_flow_def mates_def)
    qed
  qed
  moreover have "held r' U = insert i (held r U)"
  proof -
    have split: "held x U = held x V \<union> held x (U - V)" for x using assms(2) by (auto simp: held_def)
    have "held r' (U - V) = held r (U - V)" using assms(1) by (auto simp: adds_flow_def held_def)
    then show ?thesis using assms(1) split[of r] split[of r'] by (auto simp: adds_flow_def)
  qed
  ultimately show ?thesis
    using assms(1,2) held_subset[OF assms(2), of r] by (auto simp: adds_flow_def)
qed

subsection \<open>The search as a relation\<close>

text \<open>One rule per way through the loop; proofs about the search go by induction on the rules.\<close>

inductive search ::
  "MatchMatrix \<Rightarrow> nat \<Rightarrow> nat \<Rightarrow> bool list \<Rightarrow> nat option list \<Rightarrow> nat option list \<Rightarrow>
   bool \<Rightarrow> bool list \<Rightarrow> nat option list \<Rightarrow> nat option list \<Rightarrow> bool"
  for g :: MatchMatrix
where
  search_end: "RhsSize g \<le> j \<Longrightarrow> search g i j seen l r False seen l r"
| search_skip: "\<lbrakk>j < RhsSize g; seen ! j \<or> \<not> HasEdge g i j; search g i (j + 1) seen l r b seen' l' r'\<rbrakk>
    \<Longrightarrow> search g i j seen l r b seen' l' r'"
| search_free: "\<lbrakk>j < RhsSize g; \<not> seen ! j; HasEdge g i j; r ! j = None\<rbrakk>
    \<Longrightarrow> search g i j seen l r True (seen[j := True]) (l[i := Some j]) (r[j := Some i])"
| search_path: "\<lbrakk>j < RhsSize g; \<not> seen ! j; HasEdge g i j; r ! j = Some i';
      search g i' 0 (seen[j := True]) l r True seen' l' r'\<rbrakk>
    \<Longrightarrow> search g i j seen l r True seen' (l'[i := Some j]) (r'[j := Some i])"
| search_dead: "\<lbrakk>j < RhsSize g; \<not> seen ! j; HasEdge g i j; r ! j = Some i';
      search g i' 0 (seen[j := True]) l r False seen1 l1 r1; search g i (j + 1) seen1 l1 r1 b seen' l' r'\<rbrakk>
    \<Longrightarrow> search g i j seen l r b seen' l' r'"

lemma try_from_search:
  "try_from g i j seen l r = (b, seen', l', r') \<Longrightarrow> length seen = RhsSize g \<Longrightarrow>
   search g i j seen l r b seen' l' r' \<and> length seen' = RhsSize g"
proof (induction g i j seen l r arbitrary: b seen' l' r' rule: try_from.induct)
  case (1 g i j seen l r)
  show ?case
  proof (cases "RhsSize g \<le> j \<or> seen ! j \<or> \<not> HasEdge g i j")
    case True
    then show ?thesis
      using 1 by (auto simp: try_from.simps[of g i j] intro: search.intros split: if_splits)
  next
    case False
    then have j: "j < RhsSize g" "\<not> seen ! j" "HasEdge g i j" by auto
    show ?thesis
    proof (cases "r ! j")
      case None
      then show ?thesis using 1(5,6) j by (auto simp: try_from.simps[of g i j] intro: search_free)
    next
      case (Some i')
      obtain b1 s1 l1 r1 where rec: "try_from g i' 0 (seen[j := True]) l r = (b1, s1, l1, r1)"
        by (metis surj_pair)
      with 1(3) Some j 1(6) have s: "search g i' 0 (seen[j := True]) l r b1 s1 l1 r1" "length s1 = RhsSize g"
        by auto
      show ?thesis
      proof (cases b1)
        case True
        then show ?thesis
          using 1(5,6) j Some rec s by (auto simp: try_from.simps[of g i j] intro: search_path)
      next
        case False
        then have "try_from g i (j + 1) s1 l1 r1 = (b, seen', l', r')"
          using 1(5,6) j Some rec by (simp add: try_from.simps[of g i j])
        then have "search g i (j + 1) s1 l1 r1 b seen' l' r' \<and> length seen' = RhsSize g"
          using 1(4)[OF _ _ _ Some rec[symmetric] refl refl] j False s(2) 1(6) by auto
        then show ?thesis using search_dead[OF j Some] s(1) False by simp
      qed
    qed
  qed
qed

lemma search_fail_frame: "search g i j seen l r b seen' l' r' \<Longrightarrow> \<not> b \<Longrightarrow> l' = l \<and> r' = r"
  by (induction rule: search.induct) auto

lemma search_seen: "search g i j seen l r b seen' l' r' \<Longrightarrow> length seen' = length seen \<and> unseen_set seen' \<subseteq> unseen_set seen"
  by (induction rule: search.induct) (auto simp: unseen_set_mark)

text \<open>A search that succeeds.\<close>

lemma search_adds_flow:
  assumes "search g i j seen l r b seen' l' r'" and b
    and "length seen = RhsSize g" "length r = RhsSize g" "i < length l"
    and "mates g (unseen_set seen) l r" "i \<notin> held r (unseen_set seen)"
  shows "adds_flow g (unseen_set seen) i l r l' r'"
  using assms
proof (induction rule: search.induct)
  case (search_free j seen i r l)
  then show ?case by (intro adds_flow_free) (auto simp: unseen_set_def)
next
  case (search_path j seen i r i' l seen' l' r')
  have m: "mates g (unseen_set seen) l r" by (rule search_path.prems)
  have j: "j \<in> unseen_set seen" using search_path.hyps(1,2) search_path.prems(2) by (simp add: unseen_set_def)
  have i': "i' < length l" "i' \<notin> held r (unseen_set seen - {j})"
    using mates_held[OF m j search_path.hyps(4)] by blast+
  have "adds_flow g (unseen_set seen - {j}) i' l r l' r'"
    using search_path.IH search_path.prems(2,3) i' mates_subset[OF m, of "unseen_set seen - {j}"]
    by (simp add: unseen_set_mark)
  then show ?case
    using adds_flow_step[OF j _ search_path.prems(4) search_path.hyps(3,4) m search_path.prems(6)]
      search_path.hyps(1) search_path.prems(3) by simp
next
  case (search_dead j seen i r i' l seen1 l1 r1 b seen' l' r')
  have same: "l1 = l" "r1 = r" using search_fail_frame[OF search_dead.hyps(5)] by auto
  have m: "mates g (unseen_set seen) l r" by (rule search_dead.prems)
  have sub: "unseen_set seen1 \<subseteq> unseen_set seen" and len: "length seen1 = RhsSize g"
    using search_seen[OF search_dead.hyps(5)] search_dead.prems(2) by (auto simp: unseen_set_mark)
  have "i \<notin> held r (unseen_set seen1)" using held_subset[OF sub] search_dead.prems(6) by blast
  then have "adds_flow g (unseen_set seen1) i l r l' r'"
    using search_dead.IH(2) search_dead.prems(1,3,4) len same mates_subset[OF m sub] by simp
  then show ?case by (rule adds_flow_mono[OF _ sub m search_dead.prems(6)])
qed simp_all

text \<open>Sets of matchers from which no path leads out.\<close>

definition neighbours :: "MatchMatrix \<Rightarrow> nat \<Rightarrow> nat set" where
  "neighbours g i = {j. j < RhsSize g \<and> HasEdge g i j}"

definition closed :: "MatchMatrix \<Rightarrow> nat option list \<Rightarrow> nat set \<Rightarrow> bool" where
  "closed g r C \<longleftrightarrow> (\<forall>j \<in> C. \<exists>i. r ! j = Some i \<and> neighbours g i \<subseteq> C)"

lemma closedD: "closed g r C \<Longrightarrow> j \<in> C \<Longrightarrow> r ! j = Some i \<Longrightarrow> neighbours g i \<subseteq> C"
  unfolding closed_def by (metis option.inject)

lemma search_stuck:
  "search g i j seen l r b seen' l' r' \<Longrightarrow> closed g r C \<Longrightarrow> neighbours g i \<subseteq> C \<Longrightarrow> \<not> b"
proof (induction rule: search.induct)
  case (search_free j seen i r l)
  then show ?case by (fastforce simp: closed_def neighbours_def)
next
  case (search_path j seen i r i' l seen' l' r')
  have "j \<in> C" using search_path by (auto simp: neighbours_def)
  then have "neighbours g i' \<subseteq> C" using closedD search_path.hyps(4) search_path.prems(1) by blast
  then show ?case using search_path by blast
next
  case (search_dead j seen i r i' l seen1 l1 r1 b seen' l' r')
  then show ?case using search_fail_frame[OF search_dead(5)] by auto
qed auto

lemma search_avoids:
  "search g i j seen l r b seen' l' r' \<Longrightarrow> closed g r C \<Longrightarrow> k \<in> C \<Longrightarrow> r' ! k = r ! k"
proof (induction rule: search.induct)
  case (search_free j seen i r l)
  then have "j \<noteq> k" by (fastforce simp: closed_def)
  then show ?case by simp
next
  case (search_path j seen i r i' l seen' l' r')
  have "j \<noteq> k"
  proof
    assume "j = k"
    then have "neighbours g i' \<subseteq> C" using closedD search_path.hyps(4) search_path.prems by blast
    with search_stuck[OF search_path.hyps(5) search_path.prems(1)] show False by simp
  qed
  then show ?case using search_path by simp
next
  case (search_dead j seen i r i' l seen1 l1 r1 b seen' l' r')
  then show ?case using search_fail_frame[OF search_dead(5)] by auto
qed auto

text \<open>A search that fails has seen a closed set.\<close>

lemma search_closes:
  assumes "search g i j seen l r b seen' l' r'" "\<not> b" "length seen = RhsSize g"
  shows "(\<forall>k \<in> neighbours g i. j \<le> k \<longrightarrow> seen' ! k) \<and>
    (\<forall>k < RhsSize g. seen' ! k \<longrightarrow> \<not> seen ! k \<longrightarrow>
       (\<exists>i'. r ! k = Some i' \<and> (\<forall>k' \<in> neighbours g i'. seen' ! k')))"
  using assms
proof (induction rule: search.induct)
  case (search_end j i seen l r)
  then show ?case by (auto simp: neighbours_def)
next
  case (search_skip j seen i l r b seen' l' r')
  have "seen' ! j" if "HasEdge g i j"
    using search_seen[OF search_skip.hyps(3)] search_skip.hyps(1,2) search_skip.prems that
    by (auto simp: unseen_set_def)
  then show ?case
    using search_skip.IH[OF search_skip.prems] by (auto simp: neighbours_def not_less_eq_eq le_eq_less_or_eq)
next
  case (search_dead j seen i r i' l seen1 l1 r1 b seen' l' r')
  have same: "r1 = r" using search_fail_frame[OF search_dead.hyps(5)] by auto
  have s1: "length seen1 = RhsSize g" "unseen_set seen1 \<subseteq> unseen_set seen - {j}"
    using search_seen[OF search_dead.hyps(5)] search_dead.prems(2) by (auto simp: unseen_set_mark)
  have s2: "unseen_set seen' \<subseteq> unseen_set seen1" "length seen' = RhsSize g"
    using search_seen[OF search_dead.hyps(6)] s1(1) by auto
  have mono: "seen' ! k" if "k < RhsSize g" "seen1 ! k" for k
    using s2 that s1(1) by (auto simp: unseen_set_def)
  have j: "seen' ! j" using mono[of j] s1 search_dead.hyps(1) by (auto simp: unseen_set_def)
  note IH2 = search_dead.IH(2)[OF search_dead.prems(1) s1(1)]
  have c1: "\<forall>k \<in> neighbours g i'. seen1 ! k"
    "\<forall>k < RhsSize g. seen1 ! k \<longrightarrow> \<not> seen[j := True] ! k \<longrightarrow>
       (\<exists>i'. r ! k = Some i' \<and> (\<forall>k' \<in> neighbours g i'. seen1 ! k'))"
    using search_dead.IH(1) search_dead.prems(2) by auto
  show ?case
  proof (intro conjI ballI allI impI)
    fix k assume "k \<in> neighbours g i" "j \<le> k"
    then show "seen' ! k" using IH2 j by (cases "j = k") auto
  next
    fix k assume k: "k < RhsSize g" "seen' ! k" "\<not> seen ! k"
    show "\<exists>i'. r ! k = Some i' \<and> (\<forall>k' \<in> neighbours g i'. seen' ! k')"
    proof (cases "seen1 ! k")
      case False
      then show ?thesis using IH2 k same by simp
    next
      case True
      have "\<exists>i'. r ! k = Some i' \<and> (\<forall>k' \<in> neighbours g i'. seen1 ! k')"
        using True c1 k(1,3) search_dead.hyps(4) by (cases "k = j") auto
      then show ?thesis using mono by (auto simp: neighbours_def)
    qed
  qed
qed auto

section \<open>The whole computation\<close>

text \<open>
  After \<open>n\<close> elements: the vectors refer to each other along edges, and the elements left unmatched
  reach only a closed set of matchers.
\<close>

definition compute_inv :: "MatchMatrix \<Rightarrow> nat \<Rightarrow> nat option list \<Rightarrow> nat option list \<Rightarrow> bool" where
  "compute_inv g n l r \<longleftrightarrow>
     length l = LhsSize g \<and> length r = RhsSize g \<and> mates g {..<RhsSize g} l r \<and>
     (\<forall>i < LhsSize g. \<forall>j. l ! i = Some j \<longrightarrow> j < RhsSize g \<and> r ! j = Some i) \<and>
     (\<forall>i < LhsSize g. n \<le> i \<longrightarrow> l ! i = None) \<and>
     (\<exists>C \<subseteq> {..<RhsSize g}. closed g r C \<and> (\<forall>i < n. l ! i = None \<longrightarrow> neighbours g i \<subseteq> C))"

lemma unseen_set_fresh [simp]: "unseen_set (replicate n False) = {..<n}"
  by (auto simp: unseen_set_def)

lemma held_matched:
  assumes "mates g U l r" "i \<in> held r U"
  shows "l ! i \<noteq> None"
proof -
  obtain j where "j \<in> U" "r ! j = Some i" using assms(2) unfolding held_def by blast
  then have "l ! i = Some j" using assms(1) unfolding mates_def by blast
  then show ?thesis by simp
qed

lemma held_iff:
  assumes "mates g {..<RhsSize g} l r" "\<forall>i < LhsSize g. \<forall>j. l ! i = Some j \<longrightarrow> j < RhsSize g \<and> r ! j = Some i"
    and "i < LhsSize g"
  shows "i \<in> held r {..<RhsSize g} \<longleftrightarrow> l ! i \<noteq> None"
proof
  assume "l ! i \<noteq> None"
  then show "i \<in> held r {..<RhsSize g}" using assms(2,3) unfolding held_def by blast
qed (rule held_matched[OF assms(1)])

lemma compute_inv_found:
  assumes inv: "compute_inv g n l r" and n: "n < LhsSize g"
    and s: "search g n 0 (replicate (RhsSize g) False) l r True seen l' r'"
  shows "compute_inv g (n + 1) l' r'"
proof -
  let ?U = "{..<RhsSize g}"
  note inv' = inv[unfolded compute_inv_def]
  have m: "mates g ?U l r" and lr: "\<forall>i < LhsSize g. \<forall>j. l ! i = Some j \<longrightarrow> j < RhsSize g \<and> r ! j = Some i"
    and len0: "length l = LhsSize g" "length r = RhsSize g"
    using inv' by blast+
  note held = held_iff[OF m lr]
  have "l ! n = None" using inv' n by (meson order_refl)
  then have nh: "n \<notin> held r ?U" using held[OF n] by simp
  have "adds_flow g ?U n l r l' r'"
    using search_adds_flow[OF s TrueI] len0 n m nh by simp
  then have len: "length l' = length l" "length r' = length r" and m': "mates g ?U l' r'"
    and h': "held r' ?U = insert n (held r ?U)" and fr: "\<And>k. k \<notin> insert n (held r ?U) \<Longrightarrow> l' ! k = l ! k"
    by (auto simp: adds_flow_def)
  have old: "l' ! i = None \<and> l ! i = None" if "i < LhsSize g" "i \<notin> held r' ?U" for i
  proof -
    have "i \<notin> insert n (held r ?U)" using that(2) h' by simp
    then show ?thesis using fr[of i] held[OF that(1)] by simp
  qed
  have new: "l' ! i \<noteq> None" if "i \<in> held r' ?U" for i
    using held_matched[OF m' that] .
  obtain C where C: "C \<subseteq> ?U" "closed g r C" "\<forall>i < n. l ! i = None \<longrightarrow> neighbours g i \<subseteq> C"
    using inv' by blast
  have "closed g r' C"
    using C(2) search_avoids[OF s C(2)] unfolding closed_def by metis
  moreover have "neighbours g i \<subseteq> C" if "i < n + 1" "l' ! i = None" for i
  proof -
    have "i \<notin> held r' ?U" using new[of i] that(2) by blast
    then have "i \<noteq> n" "l ! i = None" using h' old[of i] that(1) n by auto
    then show ?thesis using C(3) that(1) by simp
  qed
  moreover have "j < RhsSize g \<and> r' ! j = Some i" if "i < LhsSize g" "l' ! i = Some j" for i j
  proof -
    have "i \<in> held r' ?U" using old[OF that(1)] that(2) by (cases "i \<in> held r' ?U") simp_all
    then obtain k where k: "k \<in> ?U" "r' ! k = Some i" unfolding held_def by blast
    then have "l' ! i = Some k" using m' unfolding mates_def by blast
    then have "k = j" using that(2) by simp
    then show ?thesis using k by simp
  qed
  moreover have "l' ! i = None" if "i < LhsSize g" "n + 1 \<le> i" for i
  proof -
    have "n \<le> i" using that(2) by simp
    then have "l ! i = None" using inv' that(1) by blast
    then show ?thesis using held[OF that(1)] fr[of i] that(2) by simp
  qed
  moreover have "length l' = LhsSize g" "length r' = RhsSize g" using len0 len by simp_all
  ultimately show ?thesis
    using m' C(1) unfolding compute_inv_def by blast
qed

lemma compute_inv_failed:
  assumes inv: "compute_inv g n l r" and n: "n < LhsSize g"
    and s: "search g n 0 (replicate (RhsSize g) False) l r False seen l' r'"
  shows "compute_inv g (n + 1) l' r'"
proof -
  note inv' = inv[unfolded compute_inv_def]
  obtain C where C: "C \<subseteq> {..<RhsSize g}" "closed g r C" "\<forall>i < n. l ! i = None \<longrightarrow> neighbours g i \<subseteq> C"
    using inv' by blast
  let ?D = "C \<union> {k. k < RhsSize g \<and> seen ! k}"
  have cl: "\<forall>k \<in> neighbours g n. seen ! k"
      "\<forall>k < RhsSize g. seen ! k \<longrightarrow> (\<exists>i'. r ! k = Some i' \<and> (\<forall>k' \<in> neighbours g i'. seen ! k'))"
    using search_closes[OF s] by auto
  have "closed g r ?D"
    using C(2) cl(2) unfolding closed_def neighbours_def by fastforce
  moreover have "neighbours g i \<subseteq> ?D" if "i < n + 1" "l ! i = None" for i
    using that C(3) cl(1) unfolding neighbours_def by (cases "i = n") (blast | simp add: less_Suc_eq)+
  ultimately show ?thesis
    using inv' C(1) search_fail_frame[OF s] unfolding compute_inv_def
    by (intro conjI) (simp_all, (intro exI[of _ ?D], auto))
qed

lemma compute_loop_inv:
  "compute_inv g n l r \<Longrightarrow> n \<le> LhsSize g \<Longrightarrow>
   \<exists>l' r'. compute_loop g [n ..< LhsSize g] l r = Some (l', r') \<and> compute_inv g (LhsSize g) l' r'"
proof (induction "LhsSize g - n" arbitrary: n l r)
  case (Suc k)
  then have n: "n < LhsSize g" by simp
  obtain b seen l' r' where t: "TryAugment g n (replicate (RhsSize g) False) l r = (b, seen, l', r')"
    by (metis surj_pair)
  have s: "search g n 0 (replicate (RhsSize g) False) l r b seen l' r'"
    using t try_from_search[of g n 0] by (simp add: TryAugment_def)
  have "compute_inv g (n + 1) l' r'"
    using compute_inv_found[OF Suc.prems(1) n] compute_inv_failed[OF Suc.prems(1) n] s by (cases b) auto
  moreover have "l ! n = None" using Suc.prems(1) n unfolding compute_inv_def by blast
  ultimately show ?case
    using Suc.hyps(1)[of "n + 1" l' r'] Suc.hyps(2) n t by (simp add: upt_conv_Cons)
qed simp

section \<open>Maximality\<close>

text \<open>The abstract specification: a matching uses every element and every matcher at most once.\<close>

definition is_matching :: "MatchMatrix \<Rightarrow> (nat \<times> nat) set \<Rightarrow> bool" where
  "is_matching g M \<longleftrightarrow>
     (\<forall>(i, j) \<in> M. i < LhsSize g \<and> j < RhsSize g \<and> HasEdge g i j) \<and> inj_on fst M \<and> inj_on snd M"

lemma is_matching_finite: "is_matching g M \<Longrightarrow> finite M"
  by (rule finite_subset[of _ "{..<LhsSize g} \<times> {..<RhsSize g}"]) (auto simp: is_matching_def)

lemma compute_inv_start: "compute_inv g 0 (replicate (LhsSize g) None) (replicate (RhsSize g) None)"
  by (auto simp: compute_inv_def mates_def closed_def intro!: exI[of _ "{}"])

lemma set_matched_pairs: "set (matched_pairs l) = {(i, j). i < length l \<and> l ! i = Some j}"
  by (auto simp: matched_pairs_def split: option.splits)

lemma map_fst_matched_pairs: "map fst (matched_pairs l) = filter (\<lambda>i. l ! i \<noteq> None) [0 ..< length l]"
proof -
  have "map fst (concat (map (\<lambda>i. case l ! i of None \<Rightarrow> [] | Some j \<Rightarrow> [(i, j)]) is)) =
      filter (\<lambda>i. l ! i \<noteq> None) is" for "is"
    by (induction "is") (auto split: option.splits)
  then show ?thesis by (simp add: matched_pairs_def)
qed

lemma distinct_matched_pairs: "distinct (map fst (matched_pairs l))"
  by (simp add: map_fst_matched_pairs)

lemma compute_inv_matching:
  assumes "compute_inv g n l r"
  shows "is_matching g (set (matched_pairs l))"
proof -
  have lr: "\<And>i j. i < LhsSize g \<Longrightarrow> l ! i = Some j \<Longrightarrow> j < RhsSize g \<and> r ! j = Some i"
    and m: "mates g {..<RhsSize g} l r" and len: "length l = LhsSize g"
    using assms unfolding compute_inv_def by blast+
  have edge: "j < RhsSize g \<and> HasEdge g i j" if "i < LhsSize g" "l ! i = Some j" for i j
    using lr[OF that] m unfolding mates_def by blast
  have "inj_on snd (set (matched_pairs l))"
  proof (rule inj_onI)
    fix p q assume "p \<in> set (matched_pairs l)" "q \<in> set (matched_pairs l)" "snd p = snd q"
    then obtain i k j where p: "p = (i, j)" "q = (k, j)" "i < LhsSize g" "k < LhsSize g"
        "l ! i = Some j" "l ! k = Some j"
      by (auto simp: set_matched_pairs len)
    have "r ! j = Some i" "r ! j = Some k" using lr p by blast+
    then show "p = q" using p by simp
  qed
  moreover have "inj_on fst (set (matched_pairs l))"
    using distinct_matched_pairs by (simp add: distinct_map)
  ultimately show ?thesis
    using edge by (auto simp: is_matching_def set_matched_pairs len)
qed

text \<open>Elements that only reach \<open>C\<close> are matched at most \<open>card C\<close> times.\<close>

lemma matching_bound:
  assumes "is_matching g M" "finite C" "\<forall>i \<in> A. neighbours g i \<subseteq> C" "A \<subseteq> {..<LhsSize g}"
  shows "card M \<le> card C + (LhsSize g - card A)"
proof -
  let ?in = "{p \<in> M. fst p \<in> A}" and ?out = "{p \<in> M. fst p \<notin> A}"
  have fin: "finite M" by (rule is_matching_finite[OF assms(1)])
  have "card ?in \<le> card C"
  proof (rule card_inj_on_le[of snd])
    show "inj_on snd ?in" using assms(1) by (auto simp: is_matching_def intro: inj_on_subset)
    show "snd ` ?in \<subseteq> C" using assms(1,3) by (fastforce simp: is_matching_def neighbours_def)
  qed (rule assms(2))
  moreover have "card ?out \<le> card ({..<LhsSize g} - A)"
  proof (rule card_inj_on_le[of fst])
    show "inj_on fst ?out" using assms(1) by (auto simp: is_matching_def intro: inj_on_subset)
    show "fst ` ?out \<subseteq> {..<LhsSize g} - A" using assms(1) by (fastforce simp: is_matching_def)
  qed simp
  moreover have "card ({..<LhsSize g} - A) = LhsSize g - card A"
    using assms(4) by (simp add: card_Diff_subset finite_subset)
  moreover have "card M = card ?in + card ?out"
  proof -
    have "M = ?in \<union> ?out" by blast
    then show ?thesis using fin card_Un_disjoint[of ?in ?out] by auto
  qed
  ultimately show ?thesis by simp
qed

lemma compute_inv_maximum:
  assumes "compute_inv g (LhsSize g) l r" "is_matching g M"
  shows "card M \<le> length (matched_pairs l)"
proof -
  have m: "mates g {..<RhsSize g} l r" and len: "length l = LhsSize g" "length r = RhsSize g"
    using assms(1) unfolding compute_inv_def by blast+
  obtain C where C: "C \<subseteq> {..<RhsSize g}" "closed g r C"
      "\<forall>i < LhsSize g. l ! i = None \<longrightarrow> neighbours g i \<subseteq> C"
    using assms(1) unfolding compute_inv_def by blast
  have fC: "finite C" using C(1) finite_subset by blast
  let ?F = "{i. i < LhsSize g \<and> l ! i = None}"
  let ?mate = "\<lambda>j. the (r ! j)"
  have mate: "?mate j < LhsSize g \<and> l ! ?mate j = Some j \<and> neighbours g (?mate j) \<subseteq> C" if j: "j \<in> C" for j
  proof -
    obtain i where "r ! j = Some i" "neighbours g i \<subseteq> C" using C(2) j unfolding closed_def by blast
    moreover from this have "i < length l \<and> l ! i = Some j" using m j C(1) unfolding mates_def by blast
    ultimately show ?thesis using len by simp
  qed
  have inj: "inj_on ?mate C" by (rule inj_onI) (metis mate option.inject)
  let ?A = "?F \<union> ?mate ` C"
  have disj: "?F \<inter> ?mate ` C = {}" using mate by fastforce
  have "card ?A = card ?F + card C"
    using disj fC by (simp add: card_Un_disjoint card_image[OF inj])
  moreover have "card M \<le> card C + (LhsSize g - card ?A)"
    using assms(2) fC C(3) mate by (intro matching_bound) auto
  moreover have "card ?A \<le> LhsSize g"
    using card_mono[of "{..<LhsSize g}" ?A] mate by auto
  moreover have "length (matched_pairs l) = LhsSize g - card ?F"
  proof -
    have "length (matched_pairs l) = length (filter (\<lambda>i. l ! i \<noteq> None) [0 ..< LhsSize g])"
      using map_fst_matched_pairs[of l] len(1) by (metis length_map)
    also have "\<dots> = card {i. i < LhsSize g \<and> l ! i \<noteq> None}"
      by (subst distinct_card[symmetric]) (auto intro: arg_cong[where f = card])
    also have "\<dots> = card ({..<LhsSize g} - ?F)" by (rule arg_cong[where f = card]) auto
    also have "\<dots> = LhsSize g - card ?F"
      by (subst card_Diff_subset) auto
    finally show ?thesis .
  qed
  ultimately show ?thesis by simp
qed

text \<open>The computation returns a matching, without repetitions, of maximum size.\<close>

lemma FindMaxBipartiteMatching_maximum:
  "\<exists>ps. FindMaxBipartiteMatching g = Some ps \<and> is_matching g (set ps) \<and> card (set ps) = length ps \<and>
     (\<forall>M. is_matching g M \<longrightarrow> card M \<le> length ps)"
proof -
  obtain l r where c: "compute_loop g [0 ..< LhsSize g] (replicate (LhsSize g) None) (replicate (RhsSize g) None)
      = Some (l, r)" "compute_inv g (LhsSize g) l r"
    using compute_loop_inv[OF compute_inv_start] by blast
  have "distinct (matched_pairs l)" using distinct_matched_pairs distinct_map by blast
  then show ?thesis
    using c compute_inv_matching compute_inv_maximum
    by (auto simp: FindMaxBipartiteMatching_def distinct_card)
qed

section \<open>What clients rely on\<close>

locale maximum_matching =
  fixes solve :: "MatchMatrix \<Rightarrow> (nat \<times> nat) list option"
  assumes maximum: "\<exists>ps. solve g = Some ps \<and> is_matching g (set ps) \<and> card (set ps) = length ps \<and>
    (\<forall>M. is_matching g M \<longrightarrow> card M \<le> length ps)"
begin

text \<open>The answer has a pair per matcher exactly when some matching has.\<close>

lemma saturates:
  "\<exists>ps. solve g = Some ps \<and>
     (length ps = RhsSize g \<longleftrightarrow> (\<exists>qs. is_matching g (set qs) \<and> card (set qs) = RhsSize g))"
proof -
  obtain ps where ps: "solve g = Some ps" "is_matching g (set ps)" "card (set ps) = length ps"
      "\<forall>M. is_matching g M \<longrightarrow> card M \<le> length ps"
    using maximum[of g] by blast
  have "card (set ps) \<le> card {..<RhsSize g}"
    using ps(2) by (intro card_inj_on_le[of snd]) (auto simp: is_matching_def)
  then have "length ps \<le> RhsSize g" using ps(3) by simp
  then have "length ps = RhsSize g \<longleftrightarrow> (\<exists>qs. is_matching g (set qs) \<and> card (set qs) = RhsSize g)"
    using ps(2,3,4) by (metis le_antisym)
  then show ?thesis using ps(1) by blast
qed

end

interpretation bipartite: maximum_matching FindMaxBipartiteMatching
  by unfold_locales (rule FindMaxBipartiteMatching_maximum)

end
