(* ===== verification/Gmock_Unordered.thy ===== *)
theory Gmock_Unordered
  imports Gmock_Matching "HOL-Library.Multiset"
begin

text \<open>
  The matcher \<open>UnorderedElementsAre\<close> of googlemock (\<open>include/gmock/gmock-matchers.h\<close>,
  \<open>src/gmock-matchers.cc\<close>) on top of the bipartite matching, with its explanations, and the texts of
  matcher descriptions (\<open>src/gmock-internal-utils.cc\<close>).  A listener is whether it is interested and
  the text it receives.  The matchers are arguments: what they accept and how they describe
  themselves.
\<close>

section \<open>Descriptions\<close>

fun words_loop :: "char \<Rightarrow> string \<Rightarrow> string \<Rightarrow> string" where
  "words_loop prev_char result [] = result"
| "words_loop prev_char result (p # ps) =
    (let upper = (65 \<le> (of_char p :: nat) \<and> (of_char p :: nat) \<le> 90);
         lower = (97 \<le> (of_char p :: nat) \<and> (of_char p :: nat) \<le> 122);
         prev_alpha = (65 \<le> (of_char prev_char :: nat) \<and> (of_char prev_char :: nat) \<le> 90
                       \<or> 97 \<le> (of_char prev_char :: nat) \<and> (of_char prev_char :: nat) \<le> 122);
         starts_new_word = (upper \<or> \<not> prev_alpha \<and> lower \<or> \<not> is_digit prev_char \<and> is_digit p);
         result' = (if upper \<or> lower \<or> is_digit p
                    then result @ (if starts_new_word \<and> result \<noteq> '''' then '' '' else '''') @ [tolower p]
                    else result)
     in words_loop p result' ps)"

definition ConvertIdentifierNameToWords :: "string \<Rightarrow> string" where
  "ConvertIdentifierNameToWords id_name = words_loop (CHR 0x00) '''' id_name"

definition JoinAsTuple :: "string list \<Rightarrow> string" where
  "JoinAsTuple parts =
    (case parts of
       [] \<Rightarrow> ''''
     | [f] \<Rightarrow> f
     | f # fs \<Rightarrow> ''('' @ f @ concat (map (\<lambda>x. '', '' @ x) fs) @ '')'')"

definition FormatMatcherDescription :: "bool \<Rightarrow> string \<Rightarrow> string list \<Rightarrow> string" where
  "FormatMatcherDescription neg matcher_name param_values =
    (let result = ConvertIdentifierNameToWords matcher_name
                  @ (if param_values \<noteq> [] then '' '' @ JoinAsTuple param_values else '''')
     in if neg then ''not ('' @ result @ '')'' else result)"

section \<open>Pairings\<close>

definition LogElementMatcherPairVec :: "(nat \<times> nat) list \<Rightarrow> string" where
  "LogElementMatcherPairVec pairs =
     ''{''
     @ concat (map (\<lambda>k. (if k = 0 then '''' else '','') @ [newline] @ ''  (element #''
         @ nat_to_string (fst (pairs ! k)) @ '', matcher #'' @ nat_to_string (snd (pairs ! k)) @ '')'')
         [0 ..< length pairs])
     @ [newline] @ ''}''"

text \<open>Text for each item, after one separator before the first and another before the others.\<close>

fun explain_items :: "string \<Rightarrow> string list \<Rightarrow> string" where
  "explain_items sep [] = ''''"
| "explain_items sep (x # xs) = sep @ x @ explain_items ('','' @ [newline]) xs"

definition FindPairing :: "MatchMatrix \<Rightarrow> bool \<Rightarrow> (bool \<times> string) option" where
  "FindPairing matrix interested =
     map_option
       (\<lambda>matches.
          (let max_flow = length matches
           in if max_flow \<noteq> RhsSize matrix
              then (False,
                    if interested
                    then ''where no permutation of the elements can satisfy all matchers, and the closest match is ''
                         @ nat_to_string max_flow @ '' of '' @ nat_to_string (RhsSize matrix)
                         @ '' matchers with the pairings:'' @ [newline] @ LogElementMatcherPairVec matches
                    else '''')
              else (True,
                    if 1 < length matches \<and> interested
                    then explain_items (''where:'' @ [newline])
                           (map (\<lambda>(i, j). '' - element #'' @ nat_to_string i @ '' is matched by matcher #''
                              @ nat_to_string j) matches)
                    else '''')))
       (FindMaxBipartiteMatching matrix)"

section \<open>The matcher\<close>

record 'e matcher =
  matches :: "'e \<Rightarrow> bool"
  describe :: string
  describe_negation :: string

definition Elements :: "nat \<Rightarrow> string" where
  "Elements n = nat_to_string n @ '' element'' @ (if n = 1 then '''' else ''s'')"

definition DescribeToImpl :: "'e matcher list \<Rightarrow> string" where
  "DescribeToImpl ms =
    (if ms = [] then ''is empty''
     else if length ms = 1 then ''has '' @ Elements 1 @ '' and that element '' @ describe (ms ! 0)
     else ''has '' @ Elements (length ms) @ '' and there exists some permutation of elements such that:''
          @ [newline]
          @ concat (map (\<lambda>i. (if i = 0 then '''' else '', and'' @ [newline]) @ '' - element #''
              @ nat_to_string i @ '' '' @ describe (ms ! i)) [0 ..< length ms]))"

definition DescribeNegationToImpl :: "'e matcher list \<Rightarrow> string" where
  "DescribeNegationToImpl ms =
    (if ms = [] then ''isn'' @ [char_of (39 :: nat)] @ ''t empty''
     else if length ms = 1
     then ''doesn'' @ [char_of (39 :: nat)] @ ''t have '' @ Elements 1 @ '', or has '' @ Elements 1 @ '' that ''
          @ describe_negation (ms ! 0)
     else ''doesn'' @ [char_of (39 :: nat)] @ ''t have '' @ Elements (length ms)
          @ '', or there exists no permutation of elements such that:'' @ [newline]
          @ concat (map (\<lambda>i. (if i = 0 then '''' else '', and'' @ [newline]) @ '' - element #''
              @ nat_to_string i @ '' '' @ describe (ms ! i)) [0 ..< length ms]))"

definition VerifyAllElementsAndMatchersAreMatched ::
  "'e matcher list \<Rightarrow> string list \<Rightarrow> MatchMatrix \<Rightarrow> bool \<Rightarrow> bool \<times> string"
where
  "VerifyAllElementsAndMatchersAreMatched ms element_printouts matrix interested =
    (let element_matched = (\<lambda>i. list_ex (\<lambda>j. HasEdge matrix i j) [0 ..< RhsSize matrix]);
         matcher_matched = (\<lambda>j. list_ex (\<lambda>i. HasEdge matrix i j) [0 ..< LhsSize matrix]);
         lonely_matchers = filter (\<lambda>j. \<not> matcher_matched j) [0 ..< RhsSize matrix];
         lonely_elements = filter (\<lambda>i. \<not> element_matched i) [0 ..< LhsSize matrix]
     in (lonely_matchers = [] \<and> lonely_elements = [],
         if interested
         then explain_items (''where the following matchers don'' @ [char_of (39 :: nat)]
                @ ''t match any elements:'' @ [newline])
                (map (\<lambda>mi. ''matcher #'' @ nat_to_string mi @ '': '' @ describe (ms ! mi)) lonely_matchers)
              @ explain_items ((if lonely_matchers \<noteq> [] then [newline] @ ''and '' else '''')
                  @ ''where the following elements don'' @ [char_of (39 :: nat)]
                  @ ''t match any matchers:'' @ [newline])
                (map (\<lambda>ei. ''element #'' @ nat_to_string ei @ '': '' @ element_printouts ! ei) lonely_elements)
         else ''''))"

text \<open>The outcomes of all matchers on all elements, then put into a matrix with the same loops.\<close>

definition AnalyzeElements ::
  "'e matcher list \<Rightarrow> ('e \<Rightarrow> string) \<Rightarrow> 'e list \<Rightarrow> bool \<Rightarrow> MatchMatrix \<times> string list"
where
  "AnalyzeElements ms print es interested =
    (let did_match = concat (map (\<lambda>e. map (\<lambda>m. matches m e) ms) es)
     in (fold (\<lambda>((i, j), b). SetEdge i j b) (zip (positions (length es) (length ms)) did_match)
           (MatchMatrix_new (length es) (length ms)),
         if interested then map print es else []))"

definition MatchAndExplain ::
  "'e matcher list \<Rightarrow> ('e \<Rightarrow> string) \<Rightarrow> 'e list \<Rightarrow> bool \<Rightarrow> (bool \<times> string) option"
where
  "MatchAndExplain ms print es interested =
    (case AnalyzeElements ms print es interested of
       (matrix, element_printouts) \<Rightarrow>
         (let actual_count = LhsSize matrix
          in if actual_count = 0 \<and> ms = [] then Some (True, '''')
             else if actual_count \<noteq> length ms
             then Some (False, if actual_count \<noteq> 0 \<and> interested then ''which has '' @ Elements actual_count else '''')
             else
               (case VerifyAllElementsAndMatchersAreMatched ms element_printouts matrix interested of
                  (ok, txt) \<Rightarrow>
                    if \<not> ok then Some (False, txt)
                    else map_option (apsnd (append txt)) (FindPairing matrix interested))))"

section \<open>The matrix holds the outcomes\<close>

definition well_sized :: "MatchMatrix \<Rightarrow> bool" where
  "well_sized g \<longleftrightarrow> length (matched g) = num_elements g * num_matchers g"

lemma space_index_bound: "i < n \<Longrightarrow> j < m \<Longrightarrow> i * m + j < n * (m :: nat)"
  using mult_le_mono1[of "Suc i" n m] by simp

lemma space_index_inj:
  assumes "j < m" "j' < (m :: nat)"
  shows "i * m + j = i' * m + j' \<longleftrightarrow> i = i' \<and> j = j'"
proof
  assume a: "i * m + j = i' * m + j'"
  then have "(i * m + j) div m = (i' * m + j') div m" "(i * m + j) mod m = (i' * m + j') mod m" by simp_all
  then show "i = i' \<and> j = j'" using assms by simp
qed simp

lemma SetEdge_sizes [simp]:
  "num_elements (SetEdge i j b g) = num_elements g" "num_matchers (SetEdge i j b g) = num_matchers g"
  "well_sized (SetEdge i j b g) = well_sized g"
  by (simp_all add: SetEdge_def well_sized_def)

lemma HasEdge_SetEdge:
  assumes "well_sized g" "i < num_elements g" "j < num_matchers g" "i' < num_elements g" "j' < num_matchers g"
  shows "HasEdge (SetEdge i j b g) i' j' = (if i' = i \<and> j' = j then b else HasEdge g i' j')"
  using assms space_index_inj[of j "num_matchers g" j' i i'] space_index_bound[of i "num_elements g" j "num_matchers g"]
  by (auto simp: HasEdge_def SetEdge_def SpaceIndex_def well_sized_def nth_list_update)

lemma HasEdge_fold:
  assumes "well_sized g" "distinct (map fst xs)" "\<forall>((i, j), b) \<in> set xs. i < num_elements g \<and> j < num_matchers g"
    and "i < num_elements g" "j < num_matchers g"
  shows "HasEdge (fold (\<lambda>((i, j), b). SetEdge i j b) xs g) i j =
    (case map_of xs (i, j) of Some b \<Rightarrow> b | None \<Rightarrow> HasEdge g i j)"
  using assms
proof (induction xs arbitrary: g)
  case (Cons x xs)
  obtain i0 j0 b where x: "x = ((i0, j0), b)" by (metis surj_pair)
  have "map_of xs (i0, j0) = None" using Cons.prems(2) x by (simp add: map_of_eq_None_iff)
  then show ?case
    using Cons.IH[of "SetEdge i0 j0 b g"] Cons.prems x
    by (auto simp: HasEdge_SetEdge split: option.splits)
qed simp

lemma fold_SetEdge_sizes [simp]:
  "num_elements (fold (\<lambda>((i, j), b). SetEdge i j b) xs g) = num_elements g"
  "num_matchers (fold (\<lambda>((i, j), b). SetEdge i j b) xs g) = num_matchers g"
  by (induction xs arbitrary: g) auto

lemma positions_Suc: "positions (Suc n) m = positions n m @ map (\<lambda>j. (n, j)) [0 ..< m]"
  by (simp add: positions_def)

lemma positions_props: "distinct (positions n m)" "set (positions n m) = {..<n} \<times> {..<m}" "length (positions n m) = n * m"
  by (induction n) (auto simp: positions_Suc positions_def distinct_map inj_on_def)

lemma zip_row:
  "zip (map (\<lambda>j. (n, j)) [0 ..< length ms]) (map g ms) = map (\<lambda>j. ((n, j), g (ms ! j))) [0 ..< length ms]"
  by (rule nth_equalityI) auto

lemma zip_positions:
  "zip (positions (length es) (length ms)) (concat (map (\<lambda>e. map (\<lambda>m. f m e) ms) es)) =
   map (\<lambda>(i, j). ((i, j), f (ms ! j) (es ! i))) (positions (length es) (length ms))"
proof (induction es rule: rev_induct)
  case (snoc e es)
  have "length (positions (length es) (length ms)) = length (concat (map (\<lambda>e. map (\<lambda>m. f m e) ms) es))"
    by (simp add: positions_props length_concat comp_def sum_list_triv)
  moreover have "map (\<lambda>(i, j). ((i, j), f (ms ! j) ((es @ [e]) ! i))) (positions (length es) (length ms)) =
      map (\<lambda>(i, j). ((i, j), f (ms ! j) (es ! i))) (positions (length es) (length ms))"
    by (rule map_cong) (auto simp: positions_props nth_append)
  ultimately show ?case
    using snoc zip_row[of "length es" ms "\<lambda>m. f m e"] by (simp add: positions_Suc comp_def)
qed (simp add: positions_def)

lemma AnalyzeElements_edges:
  assumes "AnalyzeElements ms print es interested = (g, printouts)"
  shows "LhsSize g = length es" "RhsSize g = length ms"
    and "\<And>i j. i < length es \<Longrightarrow> j < length ms \<Longrightarrow> HasEdge g i j = matches (ms ! j) (es ! i)"
proof -
  let ?xs = "map (\<lambda>(i, j). ((i, j), matches (ms ! j) (es ! i))) (positions (length es) (length ms))"
  let ?g0 = "MatchMatrix_new (length es) (length ms)"
  have g: "g = fold (\<lambda>((i, j), b). SetEdge i j b) ?xs ?g0"
    using assms by (simp add: AnalyzeElements_def Let_def zip_positions)
  then show "LhsSize g = length es" "RhsSize g = length ms"
    by (simp_all add: LhsSize_def RhsSize_def MatchMatrix_new_def)
  have keys: "map fst ?xs = positions (length es) (length ms)"
    by (simp add: comp_def case_prod_beta)
  have d: "distinct (map fst ?xs)" unfolding keys by (rule positions_props)
  have ball: "\<forall>((i, j), b) \<in> set ?xs. i < num_elements ?g0 \<and> j < num_matchers ?g0"
    by (auto simp: positions_props MatchMatrix_new_def)
  fix i j assume ij: "i < length es" "j < length ms"
  then have "((i, j), matches (ms ! j) (es ! i)) \<in> set ?xs" by (auto simp: positions_props)
  then have "map_of ?xs (i, j) = Some (matches (ms ! j) (es ! i))"
    by (rule map_of_is_SomeI[OF d])
  moreover have "well_sized ?g0" by (simp add: well_sized_def MatchMatrix_new_def)
  ultimately show "HasEdge g i j = matches (ms ! j) (es ! i)"
    using HasEdge_fold[OF _ d ball, of i j] ij unfolding g by (simp add: MatchMatrix_new_def)
qed

section \<open>Pairings and permutations\<close>

text \<open>
  The abstract specification: some rearrangement of the elements satisfies the matchers in order.
\<close>

definition some_permutation_matches :: "('m \<Rightarrow> 'e \<Rightarrow> bool) \<Rightarrow> 'm list \<Rightarrow> 'e list \<Rightarrow> bool" where
  "some_permutation_matches ok ms es \<longleftrightarrow> (\<exists>es'. mset es' = mset es \<and> list_all2 ok ms es')"

text \<open>The same on indices: an element per matcher, each used once.\<close>

definition assignment :: "('m \<Rightarrow> 'e \<Rightarrow> bool) \<Rightarrow> 'm list \<Rightarrow> 'e list \<Rightarrow> nat list \<Rightarrow> bool" where
  "assignment ok ms es ix \<longleftrightarrow>
     distinct ix \<and> set ix = {..<length es} \<and> length ms = length ix \<and> (\<forall>j < length ix. ok (ms ! j) (es ! (ix ! j)))"

lemma mset_upt_iff: "mset ix = mset [0 ..< n] \<longleftrightarrow> distinct ix \<and> set ix = {..<n}"
  by (metis atLeast_upt distinct_upt mset_eq_imp_distinct_iff mset_eq_setD set_eq_iff_mset_eq_distinct)

lemma some_permutation_iff: "some_permutation_matches ok ms es \<longleftrightarrow> (\<exists>ix. assignment ok ms es ix)"
proof
  assume "some_permutation_matches ok ms es"
  then obtain es' where es': "mset es' = mset es" "list_all2 ok ms es'"
    by (auto simp: some_permutation_matches_def)
  have "list_all2 (\<lambda>e i. e = es ! i) es [0 ..< length es]"
    by (simp add: list_all2_conv_all_nth)
  then obtain ix where "list_all2 (\<lambda>e i. e = es ! i) es' ix" "mset ix = mset [0 ..< length es]"
    using list_all2_reorder_left_invariance[OF _ es'(1)] by blast
  with es'(2) have "assignment ok ms es ix"
    unfolding mset_upt_iff by (auto simp: assignment_def list_all2_conv_all_nth)
  then show "\<exists>ix. assignment ok ms es ix" ..
next
  assume "\<exists>ix. assignment ok ms es ix"
  then obtain ix where ix: "distinct ix \<and> set ix = {..<length es}" "length ms = length ix"
      "\<forall>j < length ix. ok (ms ! j) (es ! (ix ! j))"
    by (auto simp: assignment_def)
  have "mset ix = mset [0 ..< length es]" using ix(1) by (simp only: mset_upt_iff)
  then have "mset (map ((!) es) ix) = mset (map ((!) es) [0 ..< length es])" by (simp only: mset_map)
  also have "\<dots> = mset es" by (simp only: map_nth)
  finally show "some_permutation_matches ok ms es"
    unfolding some_permutation_matches_def
    by (intro exI[of _ "map ((!) es) ix"]) (simp add: list_all2_conv_all_nth ix(2,3))
qed

lemma assignment_matching:
  assumes "assignment (\<lambda>m e. matches m e) ms es ix" "LhsSize g = length es" "RhsSize g = length ms"
    and "\<And>i j. i < length es \<Longrightarrow> j < length ms \<Longrightarrow> HasEdge g i j = matches (ms ! j) (es ! i)"
  shows "is_matching g (set (zip ix [0 ..< length ix])) \<and> card (set (zip ix [0 ..< length ix])) = length ms"
proof -
  have ix: "distinct ix" "set ix = {..<length es}" "length ms = length ix"
      "\<forall>j < length ix. matches (ms ! j) (es ! (ix ! j))"
    using assms(1) by (auto simp: assignment_def)
  have "ix ! j < length es" if "j < length ix" for j using ix(2) that nth_mem by blast
  then have "is_matching g (set (zip ix [0 ..< length ix]))"
    using ix assms(2-4) by (auto simp: is_matching_def set_zip inj_on_def nth_eq_iff_index_eq)
  moreover have "distinct (zip ix [0 ..< length ix])" using ix(1) by (rule distinct_zipI1)
  ultimately show ?thesis using ix(3) by (simp add: distinct_card)
qed

lemma matching_unique:
  assumes "is_matching g M"
  shows "(i, j) \<in> M \<Longrightarrow> (k, j) \<in> M \<Longrightarrow> k = i" and "(i, j) \<in> M \<Longrightarrow> (i, k) \<in> M \<Longrightarrow> k = j"
  using assms inj_onD[of snd M "(k, j)" "(i, j)"] inj_onD[of fst M "(i, k)" "(i, j)"]
  by (auto simp: is_matching_def)

lemma matching_assignment:
  assumes "is_matching g (set ps)" "card (set ps) = length ms" "LhsSize g = length ms" "RhsSize g = length ms"
    and "length es = length ms"
    and "\<And>i j. i < length es \<Longrightarrow> j < length ms \<Longrightarrow> HasEdge g i j = matches (ms ! j) (es ! i)"
  shows "\<exists>ix. assignment (\<lambda>m e. matches m e) ms es ix"
proof -
  let ?M = "set ps"
  have "snd ` ?M \<subseteq> {..<length ms}" using assms(1,4) by (fastforce simp: is_matching_def)
  moreover have "card (snd ` ?M) = length ms"
    using assms(1,2) by (simp add: card_image is_matching_def)
  ultimately have all: "snd ` ?M = {..<length ms}" by (intro card_subset_eq) auto
  define ix where "ix = map (\<lambda>j. THE i. (i, j) \<in> ?M) [0 ..< length ms]"
  have the: "(ix ! j, j) \<in> ?M" if j: "j < length ms" for j
  proof -
    obtain i where i: "(i, j) \<in> ?M" using all j by (metis imageE lessThan_iff prod.collapse)
    have "(THE i. (i, j) \<in> ?M) = i"
    proof (rule the_equality)
      fix k assume "(k, j) \<in> ?M"
      then show "k = i" by (rule matching_unique(1)[OF assms(1) i])
    qed (rule i)
    then show ?thesis using i j by (simp add: ix_def)
  qed
  have bound: "ix ! j < length es \<and> HasEdge g (ix ! j) j" if "j < length ms" for j
    using the[OF that] assms(1,3,5) by (fastforce simp: is_matching_def)
  have len: "length ix = length ms" by (simp add: ix_def)
  have "distinct ix"
    unfolding distinct_conv_nth
  proof (intro allI impI)
    fix j k assume jk: "j < length ix" "k < length ix" "j \<noteq> k"
    show "ix ! j \<noteq> ix ! k"
    proof
      assume "ix ! j = ix ! k"
      then have "k = j"
        using the[of j] the[of k] jk len matching_unique(2)[OF assms(1)] by metis
      then show False using jk(3) by simp
    qed
  qed
  moreover have "set ix \<subseteq> {..<length es}" using bound len by (auto simp: in_set_conv_nth)
  ultimately have "distinct ix \<and> set ix = {..<length es}"
    using len assms(5) by (simp add: card_subset_eq distinct_card)
  moreover have "matches (ms ! j) (es ! (ix ! j))" if "j < length ms" for j
    using bound[OF that] assms(6)[of "ix ! j" j] that by simp
  ultimately show ?thesis
    using len by (auto simp: assignment_def)
qed

section \<open>The matcher implements the specification\<close>

lemma FindPairing_exact:
  assumes "LhsSize g = length es" "RhsSize g = length ms" "length es = length ms"
    and "\<And>i j. i < length es \<Longrightarrow> j < length ms \<Longrightarrow> HasEdge g i j = matches (ms ! j) (es ! i)"
  shows "\<exists>txt. FindPairing g interested = Some (some_permutation_matches (\<lambda>m e. matches m e) ms es, txt)"
proof -
  have "(\<exists>qs. is_matching g (set qs) \<and> card (set qs) = RhsSize g) \<longleftrightarrow>
      some_permutation_matches (\<lambda>m e. matches m e) ms es"
    using matching_assignment[OF _ _ _ assms(2,3,4)] assignment_matching[OF _ assms(1,2,4)] assms(1-3)
    unfolding some_permutation_iff by metis
  moreover obtain ps where "FindMaxBipartiteMatching g = Some ps"
      "length ps = RhsSize g \<longleftrightarrow> (\<exists>qs. is_matching g (set qs) \<and> card (set qs) = RhsSize g)"
    using bipartite.saturates[of g] by blast
  ultimately show ?thesis by (simp add: FindPairing_def Let_def)
qed

lemma Verify_necessary:
  assumes "some_permutation_matches (\<lambda>m e. matches m e) ms es"
    and "LhsSize g = length es" "RhsSize g = length ms"
    and "\<And>i j. i < length es \<Longrightarrow> j < length ms \<Longrightarrow> HasEdge g i j = matches (ms ! j) (es ! i)"
  shows "fst (VerifyAllElementsAndMatchersAreMatched ms printouts g interested)"
proof -
  obtain ix where ix: "set ix = {..<length es}" "length ms = length ix"
      "\<forall>j < length ix. matches (ms ! j) (es ! (ix ! j))"
    using assms(1) by (auto simp: some_permutation_iff assignment_def)
  have "\<exists>i < length es. HasEdge g i j" if "j < length ms" for j
    using ix that assms(4)[of "ix ! j" j] nth_mem[of j ix] by (intro exI[of _ "ix ! j"]) auto
  moreover have "\<exists>j < length ms. HasEdge g i j" if i: "i < length es" for i
  proof -
    obtain j where "j < length ix" "ix ! j = i" using ix(1) i by (metis in_set_conv_nth lessThan_iff)
    then show ?thesis using ix assms(4) i by auto
  qed
  ultimately show ?thesis
    using assms(2,3)
    by (auto simp: VerifyAllElementsAndMatchersAreMatched_def Let_def filter_empty_conv list_ex_iff
        Bex_def)
qed

text \<open>
  C37. \<open>UnorderedElementsAre\<close> implements its abstract specification: for all matchers and elements the
  computation returns, its internal check does not fail, and it accepts exactly when some
  rearrangement of the elements satisfies the matchers in order.
\<close>

theorem unordered_elements_refines:
  "\<exists>txt. MatchAndExplain ms print es interested =
     Some (some_permutation_matches (\<lambda>m e. matches m e) ms es, txt)"
proof -
  obtain g printouts where a: "AnalyzeElements ms print es interested = (g, printouts)" by fastforce
  note e = AnalyzeElements_edges[OF a]
  have sizes: "some_permutation_matches (\<lambda>m e. matches m e) ms es \<Longrightarrow> length es = length ms"
    unfolding some_permutation_matches_def by (metis list_all2_lengthD mset_eq_length)
  consider "es = []" "ms = []" | "length es \<noteq> length ms" | "length es = length ms" "ms \<noteq> []" by fastforce
  then show ?thesis
  proof cases
    case 1
    then show ?thesis
      using a e by (simp add: MatchAndExplain_def some_permutation_matches_def)
  next
    case 2
    then show ?thesis using a e(1) sizes by (auto simp: MatchAndExplain_def Let_def)
  next
    case 3
    obtain ok t where v: "VerifyAllElementsAndMatchersAreMatched ms printouts g interested = (ok, t)"
      by fastforce
    obtain t' where f:
        "FindPairing g interested = Some (some_permutation_matches (\<lambda>m e. matches m e) ms es, t')"
      using FindPairing_exact[OF e(1,2) 3(1) e(3)] by blast
    have "some_permutation_matches (\<lambda>m e. matches m e) ms es \<Longrightarrow> ok"
      using Verify_necessary[OF _ e, of printouts interested] v by simp
    then show ?thesis
      using a e(1,2) v f 3 by (cases ok) (auto simp: MatchAndExplain_def Let_def)
  qed
qed

end
