(* ===== verification/Gmock_Base.thy ===== *)
theory Gmock_Base
  imports Gtest_Run
begin

text \<open>
  The parts of googlemock that the expectation engine rests on: the flags and their parsing
  (\<open>gmock.cc\<close>), failures and logging (\<open>gmock-internal-utils.cc\<close>), and cardinalities
  (\<open>gmock-cardinalities.cc\<close>).

  \<open>int\<close> values that the code only compares and prints are unbounded here; \<open>INT_MAX\<close> is the constant
  that the code uses for an open upper bound.
\<close>

section \<open>Flags\<close>

definition kInfoVerbosity :: string where "kInfoVerbosity = ''info''"
definition kWarningVerbosity :: string where "kWarningVerbosity = ''warning''"
definition kErrorVerbosity :: string where "kErrorVerbosity = ''error''"

record GmockFlags =
  catch_leaked_mocks :: bool
  verbose :: string

definition default_gmock_flags :: GmockFlags where
  "default_gmock_flags = \<lparr>catch_leaked_mocks = True, verbose = kWarningVerbosity\<rparr>"

definition ParseGoogleMockFlagValue :: "string option \<Rightarrow> string option \<Rightarrow> bool \<Rightarrow> string option" where
  "ParseGoogleMockFlagValue str flag def_optional =
    (case (str, flag) of
       (Some str', Some flag') \<Rightarrow>
         (let flag_str = ''--gmock_'' @ flag';
              flag_len = length flag_str
          in if \<not> has_prefix flag_str str' then None
             else
               let flag_end = drop flag_len str'
               in if def_optional \<and> flag_end = [] then Some flag_end
                  else (case flag_end of
                          [] \<Rightarrow> None
                        | c # r \<Rightarrow> if c \<noteq> CHR ''='' then None else Some r))
     | _ \<Rightarrow> None)"

definition ParseGoogleMockBoolFlag :: "string \<Rightarrow> string \<Rightarrow> bool option" where
  "ParseGoogleMockBoolFlag str flag =
    (case ParseGoogleMockFlagValue (Some str) (Some flag) True of
       None \<Rightarrow> None
     | Some v \<Rightarrow> Some (\<not> (v \<noteq> [] \<and> (hd v = CHR ''0'' \<or> hd v = CHR ''f'' \<or> hd v = CHR ''F''))))"

definition ParseGoogleMockStringFlag :: "string \<Rightarrow> string \<Rightarrow> string option" where
  "ParseGoogleMockStringFlag str flag = ParseGoogleMockFlagValue (Some str) (Some flag) False"

text \<open>The condition of the loop in \<open>InitGoogleMockImpl\<close>: the flags after a recognised argument.\<close>

definition ParseGoogleMockFlag :: "string \<Rightarrow> GmockFlags \<Rightarrow> GmockFlags option" where
  "ParseGoogleMockFlag arg fl =
    (case ParseGoogleMockBoolFlag arg ''catch_leaked_mocks'' of
       Some b \<Rightarrow> Some (fl\<lparr>catch_leaked_mocks := b\<rparr>)
     | None \<Rightarrow>
        (case ParseGoogleMockStringFlag arg ''verbose'' of
           Some v \<Rightarrow> Some (fl\<lparr>verbose := v\<rparr>)
         | None \<Rightarrow> None))"

function mock_flags_loop :: "nat \<Rightarrow> string list \<Rightarrow> GmockFlags \<Rightarrow> string list \<times> GmockFlags" where
  "mock_flags_loop i argv fl =
    (if i < length argv then
       (case ParseGoogleMockFlag (c_str (argv ! i)) fl of
          Some fl' \<Rightarrow> mock_flags_loop i (take i argv @ drop (i + 1) argv) fl'
        | None \<Rightarrow> mock_flags_loop (i + 1) argv fl)
     else (argv, fl))"
  by pat_completeness auto
termination
  by (relation "measure (\<lambda>(i, argv, _). length argv - i)") auto

declare mock_flags_loop.simps [simp del]

text \<open>\<open>InitGoogleMockImpl\<close> after its call of \<open>InitGoogleTest\<close>, whose \<open>argv\<close> it goes on with.\<close>

definition InitGoogleMockImpl :: "string list \<Rightarrow> GmockFlags \<Rightarrow> string list \<times> GmockFlags" where
  "InitGoogleMockImpl argv fl = (if argv = [] then (argv, fl) else mock_flags_loop 1 argv fl)"

section \<open>Failures and logging\<close>

datatype LogSeverity = kInfo | kWarning

text \<open>
  What the engine reports: a failure of googletest with its place, or text on the standard output.
  An \<open>Assert\<close> that fails aborts the process; the operations that can do so return an error.
\<close>

datatype gmock_event =
    Failure "string option" int string
  | Printed string

definition Expect :: "bool \<Rightarrow> string option \<Rightarrow> int \<Rightarrow> string \<Rightarrow> gmock_event list" where
  "Expect condition file line msg = (if \<not> condition then [Failure file line msg] else [])"

definition LogIsVisible :: "GmockFlags \<Rightarrow> LogSeverity \<Rightarrow> bool" where
  "LogIsVisible fl severity =
    (if verbose fl = kInfoVerbosity then True
     else if verbose fl = kErrorVerbosity then False
     else severity = kWarning)"

text \<open>\<open>stack_trace n\<close> is the text of the stack trace without its top \<open>n\<close> frames.\<close>

definition Log :: "(nat \<Rightarrow> string) \<Rightarrow> GmockFlags \<Rightarrow> LogSeverity \<Rightarrow> string \<Rightarrow> int \<Rightarrow> gmock_event list" where
  "Log stack_trace fl severity message stack_frames_to_skip =
    (if \<not> LogIsVisible fl severity then []
     else
       [Printed
         ((if severity = kWarning then newline # ''GMOCK WARNING:'' else [])
          @ (if message = [] \<or> hd message \<noteq> newline then [newline] else [])
          @ message
          @ (if 0 \<le> stack_frames_to_skip then
               (if message \<noteq> [] \<and> last message \<noteq> newline then [newline] else [])
               @ ''Stack trace:'' @ [newline] @ stack_trace (nat stack_frames_to_skip + 1)
             else []))])"

section \<open>Cardinalities\<close>

definition INT_MAX :: int where "INT_MAX = 2147483647"

record Cardinality =
  card_min :: int
  card_max :: int

text \<open>The constructor of \<open>BetweenCardinalityImpl\<close>, with the message of the failure it reports.\<close>

definition Between_errors :: "int \<Rightarrow> int \<Rightarrow> string list" where
  "Between_errors mi ma =
    (if mi < 0 then
       [''The invocation lower bound must be >= 0, but is actually '' @ int_to_string mi @ ''.'']
     else if ma < 0 then
       [''The invocation upper bound must be >= 0, but is actually '' @ int_to_string ma @ ''.'']
     else if ma < mi then
       [''The invocation upper bound ('' @ int_to_string ma
        @ '') must be >= the invocation lower bound ('' @ int_to_string mi @ '').'']
     else [])"

definition Between :: "int \<Rightarrow> int \<Rightarrow> Cardinality" where
  "Between mi ma =
    (let mi' = (if 0 \<le> mi then mi else 0);
         ma' = (if mi' \<le> ma then ma else mi')
     in \<lparr>card_min = mi', card_max = ma'\<rparr>)"

definition AtLeast :: "int \<Rightarrow> Cardinality" where "AtLeast n = Between n INT_MAX"
definition AtMost :: "int \<Rightarrow> Cardinality" where "AtMost n = Between 0 n"
definition AnyNumber :: Cardinality where "AnyNumber = AtLeast 0"
definition Exactly :: "int \<Rightarrow> Cardinality" where "Exactly n = Between n n"

definition IsSatisfiedByCallCount :: "Cardinality \<Rightarrow> int \<Rightarrow> bool" where
  "IsSatisfiedByCallCount c n \<longleftrightarrow> card_min c \<le> n \<and> n \<le> card_max c"

definition IsSaturatedByCallCount :: "Cardinality \<Rightarrow> int \<Rightarrow> bool" where
  "IsSaturatedByCallCount c n \<longleftrightarrow> card_max c \<le> n"

definition IsOverSaturatedByCallCount :: "Cardinality \<Rightarrow> int \<Rightarrow> bool" where
  "IsOverSaturatedByCallCount c n \<longleftrightarrow> IsSaturatedByCallCount c n \<and> \<not> IsSatisfiedByCallCount c n"

definition FormatTimes :: "int \<Rightarrow> string" where
  "FormatTimes n =
    (if n = 1 then ''once'' else if n = 2 then ''twice'' else int_to_string n @ '' times'')"

definition DescribeCardinality :: "Cardinality \<Rightarrow> string" where
  "DescribeCardinality c =
    (if card_min c = 0 then
       if card_max c = 0 then ''never called''
       else if card_max c = INT_MAX then ''called any number of times''
       else ''called at most '' @ FormatTimes (card_max c)
     else if card_min c = card_max c then ''called '' @ FormatTimes (card_min c)
     else if card_max c = INT_MAX then ''called at least '' @ FormatTimes (card_min c)
     else ''called between '' @ int_to_string (card_min c) @ '' and ''
          @ int_to_string (card_max c) @ '' times'')"

definition DescribeActualCallCount :: "int \<Rightarrow> string" where
  "DescribeActualCallCount n = (if 0 < n then ''called '' @ FormatTimes n else ''never called'')"

definition card_ok :: "Cardinality \<Rightarrow> bool" where
  "card_ok c \<longleftrightarrow> 0 \<le> card_min c \<and> card_min c \<le> card_max c"

section \<open>Lemmas\<close>

lemma card_ok_Between [simp]: "card_ok (Between mi ma)"
  by (simp add: card_ok_def Between_def Let_def)

lemma card_ok_made [simp]: "card_ok (AtLeast n)" "card_ok (AtMost n)" "card_ok AnyNumber" "card_ok (Exactly n)"
  by (simp_all add: AtLeast_def AtMost_def AnyNumber_def Exactly_def)

lemmas count_defs = IsSatisfiedByCallCount_def IsSaturatedByCallCount_def IsOverSaturatedByCallCount_def

lemma IsOverSaturated_iff: "card_ok c \<Longrightarrow> IsOverSaturatedByCallCount c n \<longleftrightarrow> card_max c < n"
  by (auto simp: count_defs card_ok_def)

text \<open>The loop over \<open>argv\<close> removes the recognised arguments and keeps the order of the others.\<close>

definition is_mock_flag :: "string \<Rightarrow> bool" where
  "is_mock_flag a \<longleftrightarrow> ParseGoogleMockFlag (c_str a) default_gmock_flags \<noteq> None"

lemma ParseGoogleMockFlag_None: "ParseGoogleMockFlag a fl = None \<longleftrightarrow> ParseGoogleMockFlag a fl' = None"
  by (simp add: ParseGoogleMockFlag_def split: option.splits)

lemma mock_flags_loop_keeps:
  "fst (mock_flags_loop (length pre) (pre @ args) fl) = pre @ filter (\<lambda>a. \<not> is_mock_flag a) args"
proof (induction args arbitrary: pre fl)
  case Nil
  show ?case by (subst mock_flags_loop.simps) simp
next
  case (Cons a args)
  show ?case
  proof (cases "ParseGoogleMockFlag (c_str a) fl")
    case None
    then have "\<not> is_mock_flag a" using ParseGoogleMockFlag_None by (auto simp: is_mock_flag_def)
    with None Cons.IH [of "pre @ [a]" fl] show ?thesis by (subst mock_flags_loop.simps) simp
  next
    case (Some fl')
    then have "is_mock_flag a"
      using ParseGoogleMockFlag_None [of "c_str a" fl default_gmock_flags] by (auto simp: is_mock_flag_def)
    with Some Cons.IH [of pre fl'] show ?thesis by (subst mock_flags_loop.simps) simp
  qed
qed

lemma InitGoogleMockImpl_keeps:
  "fst (InitGoogleMockImpl (prog # args) fl) = prog # filter (\<lambda>a. \<not> is_mock_flag a) args"
  using mock_flags_loop_keeps [of "[prog]" args fl] by (simp add: InitGoogleMockImpl_def)

end
