(* ===== verification/Gmock_Expectations.thy ===== *)
theory Gmock_Expectations
  imports Gmock_Base "HOL-Library.Monad_Syntax"
begin

text \<open>
  Expectations of googlemock (\<open>ExpectationBase\<close> and \<open>TypedExpectation\<close> of
  \<open>gmock-spec-builders.h\<close> and \<open>gmock-spec-builders.cc\<close>): the object with its clauses, its state
  (call count, retired or active), and the traversals of its pre-requisites.

  Expectations live in a list in the order of their creation; a pointer to one is its index.  An
  \<open>ExpectationSet\<close> is a \<open>std::set\<close> of pointers, here the ascending list of the indices; the order of
  the addresses is not specified, and only the order of lines in messages depends on it.  The
  arguments of a mocked function are a list of values of one type, and the matchers of the
  arguments, actions and printers are functions the user supplies.

  The pre-requisites of an expectation are traversed recursively.  The traversals carry fuel, and
  \<open>None\<close> stands for a recursion that has not come to an end.
\<close>

section \<open>Matchers and actions\<close>

record 'v matcher =
  MatchAndExplain :: "'v \<Rightarrow> bool \<times> string"
  DescribeTo :: string
  DescribeNegationTo :: string

definition Matches :: "'v matcher \<Rightarrow> 'v \<Rightarrow> bool" where
  "Matches m x = fst (MatchAndExplain m x)"

definition PrintIfNotEmpty :: "string \<Rightarrow> string" where
  "PrintIfNotEmpty explanation = (if explanation \<noteq> [] then '', '' @ explanation else [])"

fun TupleMatches :: "'v matcher list \<Rightarrow> 'v list \<Rightarrow> bool" where
  "TupleMatches (m # ms) (x # xs) \<longleftrightarrow> Matches m x \<and> TupleMatches ms xs"
| "TupleMatches _ _ \<longleftrightarrow> True"

fun explain_fields :: "('v \<Rightarrow> string) \<Rightarrow> nat \<Rightarrow> 'v matcher list \<Rightarrow> 'v list \<Rightarrow> string" where
  "explain_fields pv n (m # ms) (x # xs) =
    (if \<not> Matches m x then
       ''  Expected arg #'' @ nat_to_string n @ '': '' @ DescribeTo m
       @ newline # ''           Actual: '' @ pv x @ PrintIfNotEmpty (snd (MatchAndExplain m x)) @ [newline]
     else [])
    @ explain_fields pv (Suc n) ms xs"
| "explain_fields pv n _ _ = []"

definition ExplainMatchFailureTupleTo :: "('v \<Rightarrow> string) \<Rightarrow> 'v matcher list \<Rightarrow> 'v list \<Rightarrow> string" where
  "ExplainMatchFailureTupleTo pv ms xs = explain_fields pv 0 ms xs"

definition AnyMatcher :: "'v matcher" where
  "AnyMatcher = \<lparr>MatchAndExplain = (\<lambda>_. (True, [])), DescribeTo = ''is anything'',
                 DescribeNegationTo = ''never matches''\<rparr>"

text \<open>An action, the NULL implementation standing for \<open>DoDefault()\<close>.\<close>

datatype ('v, 'r) mock_action = DoDefault | Perform "'v list \<Rightarrow> 'r"

section \<open>The expectation object\<close>

datatype Clause = kNone | kWith | kTimes | kInSequence | kAfter | kWillOnce | kWillRepeatedly
  | kRetiresOnSaturation

definition clause_no :: "Clause \<Rightarrow> nat" where
  "clause_no c =
    (case c of kNone \<Rightarrow> 0 | kWith \<Rightarrow> 1 | kTimes \<Rightarrow> 2 | kInSequence \<Rightarrow> 3 | kAfter \<Rightarrow> 4
       | kWillOnce \<Rightarrow> 5 | kWillRepeatedly \<Rightarrow> 6 | kRetiresOnSaturation \<Rightarrow> 7)"

record ('v, 'r) expectation =
  exp_file :: string
  exp_line :: int
  source_text :: string
  cardinality_specified :: bool
  cardinality :: Cardinality
  immediate_prerequisites :: "nat list"
  call_count :: int
  retired :: bool
  untyped_actions :: "('v, 'r) mock_action list"
  extra_matcher_specified :: bool
  repeated_action_specified :: bool
  retires_on_saturation :: bool
  last_clause :: Clause
  action_count_checked :: bool
  exp_owner :: nat
  exp_matchers :: "'v matcher list"
  extra_matcher :: "'v list matcher"
  repeated_action :: "('v, 'r) mock_action"

text \<open>The constructors of \<open>ExpectationBase\<close> and \<open>TypedExpectation\<close>.\<close>

definition new_expectation ::
  "nat \<Rightarrow> string \<Rightarrow> int \<Rightarrow> string \<Rightarrow> 'v matcher list \<Rightarrow> ('v, 'r) expectation" where
  "new_expectation owner a_file a_line a_source_text m =
    \<lparr>exp_file = a_file, exp_line = a_line, source_text = a_source_text,
     cardinality_specified = False, cardinality = Exactly 1, immediate_prerequisites = [],
     call_count = 0, retired = False, untyped_actions = [], extra_matcher_specified = False,
     repeated_action_specified = False, retires_on_saturation = False, last_clause = kNone,
     action_count_checked = False, exp_owner = owner, exp_matchers = m,
     extra_matcher = AnyMatcher, repeated_action = DoDefault\<rparr>"

text \<open>What the engine calls and does not define: printers, the stack trace and the flags.\<close>

record ('v, 'r) mock_env =
  print_value :: "'v \<Rightarrow> string"
  print_result :: "'r \<Rightarrow> string"
  stack_trace_text :: "nat \<Rightarrow> string"
  gmock_flags :: GmockFlags

abbreviation LogMsg :: "('v, 'r) mock_env \<Rightarrow> LogSeverity \<Rightarrow> string \<Rightarrow> int \<Rightarrow> gmock_event list" where
  "LogMsg env \<equiv> Log (stack_trace_text env) (gmock_flags env)"

definition DescribeLocationTo :: "('v, 'r) expectation \<Rightarrow> string" where
  "DescribeLocationTo x = FormatFileLocation (Some (exp_file x)) (exp_line x) @ '' ''"

definition ExpectSpecProperty :: "bool \<Rightarrow> string \<Rightarrow> ('v, 'r) expectation \<Rightarrow> gmock_event list" where
  "ExpectSpecProperty prop msg x = Expect prop (Some (exp_file x)) (exp_line x) msg"

section \<open>State of one expectation\<close>

definition IsSatisfied :: "('v, 'r) expectation \<Rightarrow> bool" where
  "IsSatisfied x = IsSatisfiedByCallCount (cardinality x) (call_count x)"

definition IsSaturated :: "('v, 'r) expectation \<Rightarrow> bool" where
  "IsSaturated x = IsSaturatedByCallCount (cardinality x) (call_count x)"

definition IsOverSaturated :: "('v, 'r) expectation \<Rightarrow> bool" where
  "IsOverSaturated x = IsOverSaturatedByCallCount (cardinality x) (call_count x)"

definition IncrementCallCount :: "('v, 'r) expectation \<Rightarrow> ('v, 'r) expectation" where
  "IncrementCallCount x = x\<lparr>call_count := call_count x + 1\<rparr>"

definition Retire :: "('v, 'r) expectation \<Rightarrow> ('v, 'r) expectation" where
  "Retire x = x\<lparr>retired := True\<rparr>"

definition SpecifyCardinality :: "Cardinality \<Rightarrow> ('v, 'r) expectation \<Rightarrow> ('v, 'r) expectation" where
  "SpecifyCardinality c x = x\<lparr>cardinality_specified := True, cardinality := c\<rparr>"

definition DescribeCallCountTo :: "('v, 'r) expectation \<Rightarrow> string" where
  "DescribeCallCountTo x =
    ''         Expected: to be '' @ DescribeCardinality (cardinality x)
    @ newline # ''           Actual: '' @ DescribeActualCallCount (call_count x)
    @ '' - '' @ (if IsOverSaturated x then ''over-saturated''
                else if IsSaturated x then ''saturated''
                else if IsSatisfied x then ''satisfied'' else ''unsatisfied'')
    @ '' and '' @ (if retired x then ''retired'' else ''active'')"

definition MaybeDescribeExtraMatcherTo :: "('v, 'r) expectation \<Rightarrow> string" where
  "MaybeDescribeExtraMatcherTo x =
    (if extra_matcher_specified x
     then ''    Expected args: '' @ DescribeTo (extra_matcher x) @ [newline] else [])"

definition CheckActionCountIfNotDone ::
  "('v, 'r) mock_env \<Rightarrow> ('v, 'r) expectation \<Rightarrow> ('v, 'r) expectation \<times> gmock_event list" where
  "CheckActionCountIfNotDone env x =
    (if action_count_checked x then (x, [])
     else
       let x' = x\<lparr>action_count_checked := True\<rparr>
       in if \<not> cardinality_specified x then (x', [])
          else
            let action_count = int (length (untyped_actions x));
                upper_bound = card_max (cardinality x);
                lower_bound = card_min (cardinality x);
                too = (if upper_bound < action_count
                          \<or> action_count = upper_bound \<and> repeated_action_specified x then Some True
                       else if 0 < action_count \<and> action_count < lower_bound
                               \<and> \<not> repeated_action_specified x then Some False
                       else None)
            in case too of
                 None \<Rightarrow> (x', [])
               | Some too_many \<Rightarrow>
                   (x', LogMsg env kWarning
                      (DescribeLocationTo x @ ''Too '' @ (if too_many then ''many'' else ''few'')
                       @ '' actions specified in '' @ source_text x @ ''...'' @ [newline]
                       @ ''Expected to be '' @ DescribeCardinality (cardinality x)
                       @ '', but has '' @ (if too_many then '''' else ''only '')
                       @ int_to_string action_count @ '' WillOnce()''
                       @ (if action_count = 1 then '''' else ''s'')
                       @ (if repeated_action_specified x then '' and a WillRepeatedly()'' else '''')
                       @ ''.'') (- 1)))"

section \<open>Clauses\<close>

text \<open>Each clause returns the changed expectation and what it reports.\<close>

definition With_clause ::
  "'v list matcher \<Rightarrow> ('v, 'r) expectation \<Rightarrow> ('v, 'r) expectation \<times> gmock_event list" where
  "With_clause m x =
    (x\<lparr>last_clause := kWith, extra_matcher := m, extra_matcher_specified := True\<rparr>,
     if last_clause x = kWith then
       ExpectSpecProperty False ''.With() cannot appear more than once in an EXPECT_CALL().'' x
     else ExpectSpecProperty (clause_no (last_clause x) < clause_no kWith)
            ''.With() must be the first clause in an EXPECT_CALL().'' x)"

definition UntypedTimes ::
  "Cardinality \<Rightarrow> ('v, 'r) expectation \<Rightarrow> ('v, 'r) expectation \<times> gmock_event list" where
  "UntypedTimes c x =
    (SpecifyCardinality c (x\<lparr>last_clause := kTimes\<rparr>),
     if last_clause x = kTimes then
       ExpectSpecProperty False ''.Times() cannot appear more than once in an EXPECT_CALL().'' x
     else ExpectSpecProperty (clause_no (last_clause x) < clause_no kTimes)
            ''.Times() cannot appear after .InSequence(), .WillOnce(), .WillRepeatedly(), or .RetiresOnSaturation().'' x)"

text \<open>\<open>ExpectationSet::operator+=\<close>: insertion into the set of pointers.\<close>

definition set_insert :: "nat \<Rightarrow> nat list \<Rightarrow> nat list" where
  "set_insert e s = (if e \<in> set s then s else insort e s)"

definition After_clause ::
  "nat list \<Rightarrow> ('v, 'r) expectation \<Rightarrow> ('v, 'r) expectation \<times> gmock_event list" where
  "After_clause s x =
    (x\<lparr>last_clause := kAfter,
       immediate_prerequisites := fold set_insert s (immediate_prerequisites x)\<rparr>,
     ExpectSpecProperty (clause_no (last_clause x) \<le> clause_no kAfter)
       ''.After() cannot appear after .WillOnce(), .WillRepeatedly(), or .RetiresOnSaturation().'' x)"

definition WillOnce ::
  "('v, 'r) mock_action \<Rightarrow> ('v, 'r) expectation \<Rightarrow> ('v, 'r) expectation \<times> gmock_event list" where
  "WillOnce action x =
    (let acts = untyped_actions x @ [action];
         x' = x\<lparr>last_clause := kWillOnce, untyped_actions := acts\<rparr>
     in (if \<not> cardinality_specified x then x'\<lparr>cardinality := Exactly (int (length acts))\<rparr> else x',
         ExpectSpecProperty (clause_no (last_clause x) \<le> clause_no kWillOnce)
           ''.WillOnce() cannot appear after .WillRepeatedly() or .RetiresOnSaturation().'' x))"

definition WillRepeatedly ::
  "('v, 'r) mock_env \<Rightarrow> ('v, 'r) mock_action \<Rightarrow> ('v, 'r) expectation \<Rightarrow>
     ('v, 'r) expectation \<times> gmock_event list" where
  "WillRepeatedly env action x =
    (let evs = (if last_clause x = kWillRepeatedly then
                  ExpectSpecProperty False
                    ''.WillRepeatedly() cannot appear more than once in an EXPECT_CALL().'' x
                else ExpectSpecProperty (clause_no (last_clause x) < clause_no kWillRepeatedly)
                       ''.WillRepeatedly() cannot appear after .RetiresOnSaturation().'' x);
         x' = x\<lparr>last_clause := kWillRepeatedly, repeated_action_specified := True,
                repeated_action := action\<rparr>;
         x'' = (if \<not> cardinality_specified x
                then x'\<lparr>cardinality := AtLeast (int (length (untyped_actions x)))\<rparr> else x');
         (y, evs') = CheckActionCountIfNotDone env x''
     in (y, evs @ evs'))"

definition RetiresOnSaturation ::
  "('v, 'r) mock_env \<Rightarrow> ('v, 'r) expectation \<Rightarrow> ('v, 'r) expectation \<times> gmock_event list" where
  "RetiresOnSaturation env x =
    (let evs = ExpectSpecProperty (clause_no (last_clause x) < clause_no kRetiresOnSaturation)
                 ''.RetiresOnSaturation() cannot appear more than once.'' x;
         (y, evs') = CheckActionCountIfNotDone env
                       (x\<lparr>last_clause := kRetiresOnSaturation, retires_on_saturation := True\<rparr>)
     in (y, evs @ evs'))"

definition Expectation_Matches :: "'v list \<Rightarrow> ('v, 'r) expectation \<Rightarrow> bool" where
  "Expectation_Matches args x \<longleftrightarrow> TupleMatches (exp_matchers x) args \<and> Matches (extra_matcher x) args"

section \<open>Pre-requisites\<close>

type_synonym ('v, 'r) exps = "('v, 'r) expectation list"

text \<open>
  The bodies of the loops over \<open>immediate_prerequisites_\<close> are functions of their own.  A call with
  fuel \<open>Suc k\<close> passes \<open>k\<close> to the calls for the pre-requisites.
\<close>

function (sequential)
  AllPrerequisitesAreSatisfied :: "nat \<Rightarrow> ('v, 'r) exps \<Rightarrow> nat \<Rightarrow> bool option" and
  all_satisfied_loop :: "nat \<Rightarrow> ('v, 'r) exps \<Rightarrow> nat list \<Rightarrow> bool option" where
  "AllPrerequisitesAreSatisfied 0 xs e = None"
| "AllPrerequisitesAreSatisfied (Suc k) xs e =
    all_satisfied_loop k xs (immediate_prerequisites (xs ! e))"
| "all_satisfied_loop k xs [] = Some True"
| "all_satisfied_loop k xs (p # ps) =
    (if \<not> IsSatisfied (xs ! p) then Some False
     else case AllPrerequisitesAreSatisfied k xs p of
            None \<Rightarrow> None
          | Some False \<Rightarrow> Some False
          | Some True \<Rightarrow> all_satisfied_loop k xs ps)"
  by pat_completeness auto
termination
  by (relation "inv_image (less_than <*lex*> less_than)
        (\<lambda>x. case x of Inl (k, _) \<Rightarrow> (k, 0) | Inr (k, _, ps) \<Rightarrow> (k, Suc (length ps)))") auto

function (sequential)
  RetireAllPreRequisites :: "nat \<Rightarrow> ('v, 'r) exps \<Rightarrow> nat \<Rightarrow> ('v, 'r) exps option" and
  retire_loop :: "nat \<Rightarrow> ('v, 'r) exps \<Rightarrow> nat list \<Rightarrow> ('v, 'r) exps option" where
  "RetireAllPreRequisites 0 xs e = None"
| "RetireAllPreRequisites (Suc k) xs e =
    (if retired (xs ! e) then Some xs
     else retire_loop k xs (immediate_prerequisites (xs ! e)))"
| "retire_loop k xs [] = Some xs"
| "retire_loop k xs (p # ps) =
    (if \<not> retired (xs ! p) then
       (case RetireAllPreRequisites k xs p of
          None \<Rightarrow> None
        | Some ys \<Rightarrow> retire_loop k (ys[p := Retire (ys ! p)]) ps)
     else retire_loop k xs ps)"
  by pat_completeness auto
termination
  by (relation "inv_image (less_than <*lex*> less_than)
        (\<lambda>x. case x of Inl (k, _) \<Rightarrow> (k, 0) | Inr (k, _, ps) \<Rightarrow> (k, Suc (length ps)))") auto

function (sequential)
  FindUnsatisfiedPrerequisites :: "nat \<Rightarrow> ('v, 'r) exps \<Rightarrow> nat \<Rightarrow> nat list \<Rightarrow> nat list option" and
  unsatisfied_loop :: "nat \<Rightarrow> ('v, 'r) exps \<Rightarrow> nat list \<Rightarrow> nat list \<Rightarrow> nat list option" where
  "FindUnsatisfiedPrerequisites 0 xs e result = None"
| "FindUnsatisfiedPrerequisites (Suc k) xs e result =
    unsatisfied_loop k xs (immediate_prerequisites (xs ! e)) result"
| "unsatisfied_loop k xs [] result = Some result"
| "unsatisfied_loop k xs (p # ps) result =
    (if IsSatisfied (xs ! p) then
       if call_count (xs ! p) = 0 then
         (case FindUnsatisfiedPrerequisites k xs p result of
            None \<Rightarrow> None
          | Some result' \<Rightarrow> unsatisfied_loop k xs ps result')
       else unsatisfied_loop k xs ps result
     else unsatisfied_loop k xs ps (set_insert p result))"
  by pat_completeness auto
termination
  by (relation "inv_image (less_than <*lex*> less_than)
        (\<lambda>x. case x of Inl (k, _) \<Rightarrow> (k, 0) | Inr (k, _, ps, _) \<Rightarrow> (k, Suc (length ps)))") auto

text \<open>
  The fuel of the calls from outside: the number of expectations, which is enough as every
  expectation has been created after its pre-requisites.
\<close>

definition all_prerequisites_satisfied :: "('v, 'r) exps \<Rightarrow> nat \<Rightarrow> bool option" where
  "all_prerequisites_satisfied xs e = AllPrerequisitesAreSatisfied (length xs) xs e"

section \<open>Handling a call\<close>

definition ShouldHandleArguments ::
  "('v, 'r) mock_env \<Rightarrow> 'v list \<Rightarrow> nat \<Rightarrow> ('v, 'r) exps \<Rightarrow>
     (bool \<times> ('v, 'r) exps \<times> gmock_event list) option" where
  "ShouldHandleArguments env args e xs =
    (let (x', evs) = CheckActionCountIfNotDone env (xs ! e);
         xs' = xs[e := x']
     in if retired x' then Some (False, xs', evs)
        else case all_prerequisites_satisfied xs' e of
               None \<Rightarrow> None
             | Some ok \<Rightarrow> Some (ok \<and> Expectation_Matches args x', xs', evs))"

definition ExplainMatchResultTo ::
  "('v, 'r) mock_env \<Rightarrow> 'v list \<Rightarrow> ('v, 'r) exps \<Rightarrow> nat \<Rightarrow> string option" where
  "ExplainMatchResultTo env args xs e =
    (let x = xs ! e
     in if retired x then
          Some (''         Expected: the expectation is active'' @ [newline]
                @ ''           Actual: it is retired'' @ [newline])
        else if \<not> Expectation_Matches args x then
          Some ((if \<not> TupleMatches (exp_matchers x) args
                 then ExplainMatchFailureTupleTo (print_value env) (exp_matchers x) args else [])
                @ (let (ok, why) = MatchAndExplain (extra_matcher x) args
                   in if \<not> ok then
                        ''    Expected args: '' @ DescribeTo (extra_matcher x)
                        @ newline # ''           Actual: don'' @ [CHR 0x27] @ ''t match''
                        @ PrintIfNotEmpty why @ [newline]
                      else []))
        else do {
          ok \<leftarrow> all_prerequisites_satisfied xs e;
          if \<not> ok then do {
            unsat \<leftarrow> FindUnsatisfiedPrerequisites (length xs) xs e [];
            Some (''         Expected: all pre-requisites are satisfied'' @ [newline]
                  @ ''           Actual: the following immediate pre-requisites are not satisfied:'' @ [newline]
                  @ concat (map (\<lambda>(i, p). DescribeLocationTo (xs ! p) @ ''pre-requisite #''
                       @ nat_to_string i @ [newline]) (zip [0..<length unsat] unsat))
                  @ ''                   (end of pre-requisites)'' @ [newline]) }
          else Some (''The call matches the expectation.'' @ [newline]) })"

text \<open>
  \<open>GetCurrentAction\<close>, with the text of the default action (\<open>DescribeDefaultActionTo\<close> of the mocker)
  as an argument.  Its assertion on the call count always holds, as its caller has just incremented
  it.
\<close>

definition GetCurrentAction ::
  "('v, 'r) mock_env \<Rightarrow> string \<Rightarrow> ('v, 'r) expectation \<Rightarrow> ('v, 'r) mock_action \<times> gmock_event list" where
  "GetCurrentAction env default_text x =
    (let count = call_count x;
         action_count = int (length (untyped_actions x));
         evs = (if 0 < action_count \<and> \<not> repeated_action_specified x \<and> action_count < count then
                  LogMsg env kWarning
                    (DescribeLocationTo x @ ''Actions ran out in '' @ source_text x @ ''...'' @ [newline]
                     @ ''Called '' @ int_to_string count @ '' times, but only ''
                     @ int_to_string action_count @ '' WillOnce()''
                     @ (if action_count = 1 then '' is'' else ''s are'') @ '' specified - ''
                     @ default_text) 1
                else [])
     in (if count \<le> action_count then untyped_actions x ! nat (count - 1) else repeated_action x, evs))"

text \<open>
  \<open>GetActionForArguments\<close>: the action (\<open>None\<close> for NULL), \<open>what\<close> and \<open>why\<close>, the expectations and
  the events.
\<close>

definition GetActionForArguments ::
  "('v, 'r) mock_env \<Rightarrow> string \<Rightarrow> nat \<Rightarrow> ('v, 'r) exps \<Rightarrow>
     (('v, 'r) mock_action option \<times> string \<times> string \<times> ('v, 'r) exps \<times> gmock_event list) option" where
  "GetActionForArguments env default_text e xs =
    (if IsSaturated (xs ! e) then
       let x' = IncrementCallCount (xs ! e)
       in Some (None, ''Mock function called more times than expected - '' @ default_text,
                DescribeCallCountTo x', xs[e := x'], [])
     else
       (case RetireAllPreRequisites (length xs) (xs[e := IncrementCallCount (xs ! e)]) e of
          None \<Rightarrow> None
        | Some ys \<Rightarrow>
            let y = (if retires_on_saturation (ys ! e) \<and> IsSaturated (ys ! e)
                     then Retire (ys ! e) else ys ! e);
                (action, evs) = GetCurrentAction env default_text y
            in Some (Some action,
                     ''Mock function call matches '' @ source_text y @ ''...'' @ [newline],
                     [], ys[e := y], evs)))"

end
