(* ===== verification/Gmock_Prerequisites.thy ===== *)
theory Gmock_Prerequisites
  imports Gmock_Expectations
begin

text \<open>
  What the recursive traversals of the pre-requisites compute.  The reference is the transitive
  closure of the relation of immediate pre-requisites: an expectation must not handle a call before
  all its ancestors are satisfied, and they retire when it does.

  \<open>engine_inv\<close> is the invariant of the engine: pre-requisites are older, what is retired is satisfied
  and has only retired pre-requisites, and so has what has been called as expected.
\<close>

section \<open>Ancestors\<close>

definition prereq :: "('v, 'r) exps \<Rightarrow> (nat \<times> nat) set" where
  "prereq xs = {(p, e). e < length xs \<and> p \<in> set (immediate_prerequisites (xs ! e))}"

definition ancestors :: "('v, 'r) exps \<Rightarrow> nat \<Rightarrow> nat set" where
  "ancestors xs e = {p. (p, e) \<in> (prereq xs)\<^sup>+}"

definition exps_wf :: "('v, 'r) exps \<Rightarrow> bool" where
  "exps_wf xs \<longleftrightarrow> (\<forall>e < length xs. \<forall>p \<in> set (immediate_prerequisites (xs ! e)). p < e)"

lemma exps_wfD: "exps_wf xs \<Longrightarrow> e < length xs \<Longrightarrow> p \<in> set (immediate_prerequisites (xs ! e)) \<Longrightarrow> p < e"
  by (simp add: exps_wf_def)

lemma ancestors_unfold:
  "e < length xs \<Longrightarrow>
    ancestors xs e = (\<Union>p \<in> set (immediate_prerequisites (xs ! e)). insert p (ancestors xs p))"
  unfolding ancestors_def
  by (auto simp: prereq_def elim: tranclE intro: trancl_into_trancl)

lemma ancestors_less:
  assumes "exps_wf xs" and "p \<in> ancestors xs e"
  shows "p < e"
proof -
  have "(p, e) \<in> (prereq xs)\<^sup>+" using assms(2) by (simp add: ancestors_def)
  then show ?thesis
    by (induction rule: trancl_induct) (use assms(1) in \<open>auto simp: prereq_def dest: exps_wfD\<close>)
qed

lemma ancestors_trans: "p \<in> ancestors xs q \<Longrightarrow> q \<in> ancestors xs e \<Longrightarrow> p \<in> ancestors xs e"
  by (auto simp: ancestors_def)

lemma ancestors_cong:
  assumes "length ys = length xs"
    and "\<And>e. e < length xs \<Longrightarrow> immediate_prerequisites (ys ! e) = immediate_prerequisites (xs ! e)"
  shows "ancestors ys = ancestors xs" "exps_wf ys = exps_wf xs"
proof -
  have "prereq ys = prereq xs" using assms by (auto simp: prereq_def)
  then show "ancestors ys = ancestors xs" by (simp add: ancestors_def fun_eq_iff)
  show "exps_wf ys = exps_wf xs" using assms by (simp add: exps_wf_def)
qed

section \<open>All pre-requisites satisfied\<close>

lemma all_satisfied_loop_spec:
  assumes "\<And>p. p \<in> set ps \<Longrightarrow> AllPrerequisitesAreSatisfied k xs p = Some (S p)"
  shows "all_satisfied_loop k xs ps = Some (\<forall>p \<in> set ps. IsSatisfied (xs ! p) \<and> S p)"
  using assms by (induction ps) (auto split: bool.splits)

lemma AllPrerequisitesAreSatisfied_spec:
  assumes "exps_wf xs"
  shows "e < k \<Longrightarrow> e < length xs \<Longrightarrow>
    AllPrerequisitesAreSatisfied k xs e = Some (\<forall>p \<in> ancestors xs e. IsSatisfied (xs ! p))"
proof (induction k arbitrary: e)
  case (Suc k)
  have "AllPrerequisitesAreSatisfied k xs p = Some (\<forall>q \<in> ancestors xs p. IsSatisfied (xs ! q))"
    if "p \<in> set (immediate_prerequisites (xs ! e))" for p
    using Suc.IH [of p] exps_wfD [OF assms Suc.prems(2) that] Suc.prems by simp
  from all_satisfied_loop_spec [OF this] show ?case
    by (simp add: ancestors_unfold [OF Suc.prems(2)])
qed simp

lemma all_prerequisites_satisfied_spec:
  "exps_wf xs \<Longrightarrow> e < length xs \<Longrightarrow>
    all_prerequisites_satisfied xs e = Some (\<forall>p \<in> ancestors xs e. IsSatisfied (xs ! p))"
  by (simp add: all_prerequisites_satisfied_def AllPrerequisitesAreSatisfied_spec)

section \<open>Retiring the pre-requisites\<close>

definition retire_set :: "nat set \<Rightarrow> ('v, 'r) exps \<Rightarrow> ('v, 'r) exps" where
  "retire_set S xs = map (\<lambda>i. if i \<in> S then Retire (xs ! i) else xs ! i) [0..<length xs]"

lemma retire_set_simps [simp]:
  "length (retire_set S xs) = length xs"
  "i < length xs \<Longrightarrow> retire_set S xs ! i = (if i \<in> S then Retire (xs ! i) else xs ! i)"
  by (simp_all add: retire_set_def)

lemma Retire_simps [simp]:
  "retired (Retire x)" "immediate_prerequisites (Retire x) = immediate_prerequisites x"
  "cardinality (Retire x) = cardinality x" "call_count (Retire x) = call_count x"
  "Retire (Retire x) = Retire x" "retired x \<Longrightarrow> Retire x = x"
  "IsSatisfied (Retire x) = IsSatisfied x" "IsSaturated (Retire x) = IsSaturated x"
  "retires_on_saturation (Retire x) = retires_on_saturation x"
  "untyped_actions (Retire x) = untyped_actions x" "repeated_action (Retire x) = repeated_action x"
  "exp_matchers (Retire x) = exp_matchers x" "extra_matcher (Retire x) = extra_matcher x"
  by (simp_all add: Retire_def IsSatisfied_def IsSaturated_def)

lemma retire_set_ancestors [simp]:
  "ancestors (retire_set S xs) = ancestors xs" "exps_wf (retire_set S xs) = exps_wf xs"
  by (intro ancestors_cong; auto)+

lemma retire_set_comp: "retire_set S (retire_set T xs) = retire_set (S \<union> T) xs"
  by (rule nth_equalityI) auto

lemma retire_set_empty [simp]: "retire_set {} xs = xs"
  by (rule nth_equalityI) auto

lemma retire_set_update:
  "p < length xs \<Longrightarrow> (retire_set S xs)[p := Retire (xs ! p)] = retire_set (insert p S) xs"
  by (rule nth_equalityI) (auto simp: nth_list_update)

definition retired_closed :: "('v, 'r) exps \<Rightarrow> bool" where
  "retired_closed xs \<longleftrightarrow>
    (\<forall>e < length xs. retired (xs ! e) \<longrightarrow>
       (\<forall>p \<in> set (immediate_prerequisites (xs ! e)). retired (xs ! p)))"

lemma retired_ancestors:
  assumes "exps_wf xs" and "retired_closed xs" and "retired (xs ! e)" and "e < length xs"
    and "p \<in> ancestors xs e"
  shows "retired (xs ! p)"
  using assms(3-5)
proof (induction e rule: less_induct)
  case (less e)
  then obtain q where q: "q \<in> set (immediate_prerequisites (xs ! e))" "p = q \<or> p \<in> ancestors xs q"
    by (auto simp: ancestors_unfold)
  have "q < e" using exps_wfD [OF assms(1) less.prems(2) q(1)] .
  moreover have "retired (xs ! q)" using assms(2) less.prems q(1) by (simp add: retired_closed_def)
  ultimately show ?case using less q(2) by auto
qed

lemma retire_set_retired:
  assumes "\<And>p. p \<in> S \<Longrightarrow> p < length xs \<Longrightarrow> retired (xs ! p)"
  shows "retire_set S xs = xs"
  using assms by (intro nth_equalityI) auto

lemma retired_closed_retire_set:
  assumes "retired_closed xs" and "exps_wf xs"
    and "\<And>e p. e \<in> S \<Longrightarrow> e < length xs \<Longrightarrow> p \<in> set (immediate_prerequisites (xs ! e)) \<Longrightarrow> p \<in> S"
  shows "retired_closed (retire_set S xs)"
  unfolding retired_closed_def
proof (intro allI impI ballI)
  fix e p
  assume e: "e < length (retire_set S xs)" "retired (retire_set S xs ! e)"
    and "p \<in> set (immediate_prerequisites (retire_set S xs ! e))"
  then have p: "p \<in> set (immediate_prerequisites (xs ! e))" and el: "e < length xs"
    by (auto split: if_splits)
  have "p < length xs" using exps_wfD [OF assms(2) el p] el by simp
  moreover have "p \<in> S \<or> retired (xs ! p)"
  proof (cases "e \<in> S")
    case True
    then show ?thesis using assms(3) [OF _ el p] by blast
  next
    case False
    then have "retired (xs ! e)" using e(2) el by simp
    then show ?thesis using assms(1) el p unfolding retired_closed_def by blast
  qed
  ultimately show "retired (retire_set S xs ! p)" by auto
qed

text \<open>The set of an expectation and its ancestors is closed.\<close>

lemma retire_lineage:
  assumes "retired_closed xs" and "exps_wf xs"
    and "S \<subseteq> {e. e < length xs}"
  shows "retired_closed (retire_set (\<Union>p \<in> S. insert p (ancestors xs p)) xs)"
proof (rule retired_closed_retire_set [OF assms(1,2)])
  fix e p
  assume e: "e \<in> (\<Union>p \<in> S. insert p (ancestors xs p))" "e < length xs"
    and p: "p \<in> set (immediate_prerequisites (xs ! e))"
  have "p \<in> ancestors xs e" using p e(2) by (auto simp: ancestors_unfold)
  with e(1) show "p \<in> (\<Union>p \<in> S. insert p (ancestors xs p))" by (auto intro: ancestors_trans)
qed

lemma retire_loop_spec:
  fixes xs :: "('v, 'r) exps"
  assumes "\<And>p (ys :: ('v, 'r) exps). p \<in> set ps \<Longrightarrow> length ys = length xs \<Longrightarrow> ancestors ys = ancestors xs \<Longrightarrow> exps_wf ys
      \<Longrightarrow> retired_closed ys \<Longrightarrow> RetireAllPreRequisites k ys p = Some (retire_set (ancestors xs p) ys)"
    and "set ps \<subseteq> {e. e < length xs}" and "exps_wf xs" and "retired_closed xs"
  shows "retire_loop k xs ps = Some (retire_set (\<Union>p \<in> set ps. insert p (ancestors xs p)) xs)"
  using assms
proof (induction ps arbitrary: xs)
  case (Cons p ps)
  define T where "T = insert p (ancestors xs p)"
  have p: "p < length xs" using Cons.prems(2) by simp
  have step: "retire_loop k xs (p # ps) = retire_loop k (retire_set T xs) ps"
  proof (cases "retired (xs ! p)")
    case True
    have "retire_set T xs = xs"
      using retired_ancestors [OF Cons.prems(3,4) True p] True
      by (intro retire_set_retired) (auto simp: T_def)
    with True show ?thesis by simp
  next
    case False
    then show ?thesis
      using Cons.prems(1) [of p xs] Cons.prems(3,4) p by (simp add: T_def retire_set_update)
  qed
  have "retired_closed (retire_set T xs)"
    using retire_lineage [OF Cons.prems(4,3), of "{p}"] p by (simp add: T_def)
  then have "retire_loop k (retire_set T xs) ps =
      Some (retire_set (\<Union>p \<in> set ps. insert p (ancestors xs p)) (retire_set T xs))"
    using Cons.IH [of "retire_set T xs"] Cons.prems by simp
  then show ?case unfolding step by (simp add: retire_set_comp T_def Un_commute)
qed simp

lemma RetireAllPreRequisites_spec:
  fixes xs :: "('v, 'r) exps"
  shows "exps_wf xs \<Longrightarrow> retired_closed xs \<Longrightarrow> e < k \<Longrightarrow> e < length xs \<Longrightarrow>
    RetireAllPreRequisites k xs e = Some (retire_set (ancestors xs e) xs)"
proof (induction k arbitrary: e xs)
  case (Suc k)
  show ?case
  proof (cases "retired (xs ! e)")
    case True
    have "retire_set (ancestors xs e) xs = xs"
      using retired_ancestors [OF Suc.prems(1,2) True Suc.prems(4)] by (intro retire_set_retired) auto
    with True show ?thesis by simp
  next
    case False
    have sub: "p < k \<and> p < length xs" if "p \<in> set (immediate_prerequisites (xs ! e))" for p
      using exps_wfD [OF Suc.prems(1,4) that] Suc.prems by simp
    have IH: "RetireAllPreRequisites k ys p = Some (retire_set (ancestors xs p) ys)"
      if "p \<in> set (immediate_prerequisites (xs ! e))" "length ys = length xs"
        "ancestors ys = ancestors xs" "exps_wf ys" "retired_closed ys" for p and ys :: "('v, 'r) exps"
      using Suc.IH [of ys p] sub [OF that(1)] that by simp
    have "retire_loop k xs (immediate_prerequisites (xs ! e)) =
        Some (retire_set (ancestors xs e) xs)"
      unfolding ancestors_unfold [OF Suc.prems(4)]
      by (rule retire_loop_spec) (use IH Suc.prems sub in \<open>simp_all add: subset_iff\<close>)
    with False show ?thesis by simp
  qed
qed simp

section \<open>The invariant\<close>

definition exp_inv :: "('v, 'r) exps \<Rightarrow> ('v, 'r) expectation \<Rightarrow> bool" where
  "exp_inv xs x \<longleftrightarrow>
    card_ok (cardinality x) \<and> 0 \<le> call_count x
    \<and> (retired x \<longrightarrow> IsSatisfied x)
    \<and> (retired x \<or> 0 < call_count x \<and> 0 < card_max (cardinality x) \<longrightarrow>
         (\<forall>p \<in> set (immediate_prerequisites x). retired (xs ! p)))"

definition engine_inv :: "('v, 'r) exps \<Rightarrow> bool" where
  "engine_inv xs \<longleftrightarrow> exps_wf xs \<and> (\<forall>e < length xs. exp_inv xs (xs ! e))"

lemma engine_invD:
  assumes "engine_inv xs"
  shows "exps_wf xs" "retired_closed xs" "e < length xs \<Longrightarrow> exp_inv xs (xs ! e)"
  using assms by (auto simp: engine_inv_def retired_closed_def exp_inv_def)

lemma engine_inv_Nil: "engine_inv []"
  by (simp add: engine_inv_def exps_wf_def)

text \<open>What has been called as expected has only ancestors that are retired and satisfied.\<close>

lemma started_ancestors:
  assumes "engine_inv xs" and "e < length xs"
    and "retired (xs ! e) \<or> 0 < call_count (xs ! e) \<and> 0 < card_max (cardinality (xs ! e))"
    and "p \<in> ancestors xs e"
  shows "retired (xs ! p) \<and> IsSatisfied (xs ! p)"
proof -
  note inv = engine_invD [OF assms(1)]
  obtain q where q: "q \<in> set (immediate_prerequisites (xs ! e))" "p = q \<or> p \<in> ancestors xs q"
    using assms(2,4) by (auto simp: ancestors_unfold)
  have ql: "q < length xs" using exps_wfD [OF inv(1) assms(2) q(1)] assms(2) by simp
  have "retired (xs ! q)" using inv(3) [OF assms(2)] assms(3) q(1) by (auto simp: exp_inv_def)
  then have "retired (xs ! p)" using q(2) retired_ancestors [OF inv(1,2) _ ql] by auto
  moreover have "p < length xs" using ancestors_less [OF inv(1) assms(4)] assms(2) by simp
  ultimately show ?thesis using inv(3) by (auto simp: exp_inv_def)
qed

text \<open>Changes of fields that the invariant does not read.\<close>

definition same_state :: "('v, 'r) expectation \<Rightarrow> ('v, 'r) expectation \<Rightarrow> bool" where
  "same_state x y \<longleftrightarrow>
    cardinality y = cardinality x \<and> call_count y = call_count x \<and> retired y = retired x
    \<and> immediate_prerequisites y = immediate_prerequisites x
    \<and> retires_on_saturation y = retires_on_saturation x \<and> untyped_actions y = untyped_actions x
    \<and> repeated_action y = repeated_action x \<and> exp_matchers y = exp_matchers x
    \<and> extra_matcher y = extra_matcher x"

lemma same_state_refl [simp]: "same_state x x"
  by (simp add: same_state_def)

lemma same_state_trans: "same_state x y \<Longrightarrow> same_state y z \<Longrightarrow> same_state x z"
  by (simp add: same_state_def)

lemma CheckActionCount_same: "same_state x (fst (CheckActionCountIfNotDone env x))"
  by (auto simp: CheckActionCountIfNotDone_def Let_def same_state_def split: option.splits)

lemma same_state_inv:
  assumes "list_all2 same_state xs ys"
  shows "engine_inv xs = engine_inv ys" "ancestors xs = ancestors ys"
    "e < length xs \<Longrightarrow> IsSatisfied (xs ! e) = IsSatisfied (ys ! e)"
proof -
  have len: "length xs = length ys" using assms by (rule list_all2_lengthD)
  have s: "same_state (xs ! e) (ys ! e)" if "e < length xs" for e
    using assms that by (rule list_all2_nthD)
  show anc: "ancestors xs = ancestors ys"
    using s len by (intro ancestors_cong(1) [symmetric]) (auto simp: same_state_def)
  have wf: "exps_wf xs = exps_wf ys"
    using s len by (intro ancestors_cong(2) [symmetric]) (auto simp: same_state_def)
  show "e < length xs \<Longrightarrow> IsSatisfied (xs ! e) = IsSatisfied (ys ! e)"
    using s [of e] by (simp add: same_state_def IsSatisfied_def)
  have "exp_inv xs (xs ! e) = exp_inv ys (ys ! e)" if "exps_wf xs" "e < length xs" for e
  proof -
    have "(\<forall>p \<in> set (immediate_prerequisites (xs ! e)). retired (xs ! p)) =
        (\<forall>p \<in> set (immediate_prerequisites (ys ! e)). retired (ys ! p))"
    proof (intro ball_cong)
      show "set (immediate_prerequisites (xs ! e)) = set (immediate_prerequisites (ys ! e))"
        using s [OF that(2)] by (simp add: same_state_def)
      fix p
      assume "p \<in> set (immediate_prerequisites (ys ! e))"
      then have "p < e" using exps_wfD [OF that] s [OF that(2)] by (simp add: same_state_def)
      then show "retired (xs ! p) = retired (ys ! p)" using s [of p] that(2) by (simp add: same_state_def)
    qed
    then show ?thesis using s [OF that(2)] by (simp add: exp_inv_def same_state_def IsSatisfied_def)
  qed
  then show "engine_inv xs = engine_inv ys" using wf len by (auto simp: engine_inv_def)
qed

section \<open>Handling a call\<close>

lemma ShouldHandleArguments_spec:
  assumes "engine_inv xs" and "e < length xs"
  shows "\<exists>ys evs. list_all2 same_state xs ys
    \<and> ShouldHandleArguments env args e xs =
        Some (\<not> retired (xs ! e) \<and> (\<forall>p \<in> ancestors xs e. IsSatisfied (xs ! p))
              \<and> Expectation_Matches args (xs ! e), ys, evs)"
proof -
  define x' where "x' = fst (CheckActionCountIfNotDone env (xs ! e))"
  define ys where "ys = xs[e := x']"
  have same: "same_state (xs ! e) x'" unfolding x'_def by (rule CheckActionCount_same)
  then have all: "list_all2 same_state xs ys"
    using assms(2) by (auto simp: ys_def list_all2_conv_all_nth nth_list_update)
  note eq = same_state_inv [OF all]
  have "all_prerequisites_satisfied ys e = Some (\<forall>p \<in> ancestors xs e. IsSatisfied (xs ! p))"
  proof -
    have "exps_wf ys" using eq(1) assms(1) by (simp add: engine_invD)
    moreover have "p < length xs" if "p \<in> ancestors xs e" for p
      using ancestors_less [OF engine_invD(1) [OF assms(1)] that] assms(2) by simp
    ultimately show ?thesis
      using all_prerequisites_satisfied_spec [of ys e] eq(2,3) assms(2) by (simp add: ys_def)
  qed
  moreover have "Expectation_Matches args x' = Expectation_Matches args (xs ! e)" "retired x' = retired (xs ! e)"
    using same by (simp_all add: same_state_def Expectation_Matches_def)
  ultimately show ?thesis
    using all by (auto simp: ShouldHandleArguments_def x'_def ys_def split: prod.splits)
qed

text \<open>
  The expectations after a call has been handled by \<open>e\<close>: its count has grown, and unless the call
  was excessive its ancestors are retired, and \<open>e\<close> itself if it retires on saturation.
\<close>

definition handled :: "nat \<Rightarrow> ('v, 'r) exps \<Rightarrow> ('v, 'r) exps" where
  "handled e xs =
    (let ys = xs[e := IncrementCallCount (xs ! e)]
     in if IsSaturated (xs ! e) then ys
        else retire_set (ancestors xs e \<union>
               (if retires_on_saturation (xs ! e) \<and> IsSaturated (ys ! e) then {e} else {})) ys)"

lemma IncrementCallCount_simps [simp]:
  "retired (IncrementCallCount x) = retired x"
  "immediate_prerequisites (IncrementCallCount x) = immediate_prerequisites x"
  "cardinality (IncrementCallCount x) = cardinality x"
  "call_count (IncrementCallCount x) = call_count x + 1"
  "retires_on_saturation (IncrementCallCount x) = retires_on_saturation x"
  "untyped_actions (IncrementCallCount x) = untyped_actions x"
  "repeated_action (IncrementCallCount x) = repeated_action x"
  by (simp_all add: IncrementCallCount_def)

lemma increment_ancestors:
  "ancestors (xs[e := IncrementCallCount (xs ! e)]) = ancestors xs"
  "exps_wf (xs[e := IncrementCallCount (xs ! e)]) = exps_wf xs"
proof -
  have "immediate_prerequisites (xs[e := IncrementCallCount (xs ! e)] ! i) = immediate_prerequisites (xs ! i)"
    for i by (cases "e < length xs"; cases "i = e") (simp_all add: list_update_beyond)
  then show "ancestors (xs[e := IncrementCallCount (xs ! e)]) = ancestors xs"
    "exps_wf (xs[e := IncrementCallCount (xs ! e)]) = exps_wf xs" by (intro ancestors_cong; simp)+
qed

lemma IsSaturated_increment: "IsSaturated x \<Longrightarrow> IsSaturated (IncrementCallCount x)"
  by (simp add: IsSaturated_def count_defs)

lemma GetActionForArguments_spec:
  assumes "engine_inv xs" and "e < length xs"
  shows "\<exists>what why evs. GetActionForArguments env t e xs =
    Some (if IsSaturated (xs ! e) then None
          else Some (fst (GetCurrentAction env t (handled e xs ! e))), what, why, handled e xs, evs)"
proof (cases "IsSaturated (xs ! e)")
  case True
  then show ?thesis by (simp add: GetActionForArguments_def handled_def Let_def)
next
  case False
  note inv = engine_invD [OF assms(1)]
  define ys where "ys = xs[e := IncrementCallCount (xs ! e)]"
  define zs where "zs = retire_set (ancestors xs e) ys"
  have anc: "ancestors ys = ancestors xs" "exps_wf ys" 
    using inv(1) by (simp_all only: ys_def increment_ancestors)
  have "retired (ys ! i) = retired (xs ! i) \<and>
      immediate_prerequisites (ys ! i) = immediate_prerequisites (xs ! i)" for i
    using assms(2) by (cases "i = e") (simp_all add: ys_def)
  then have closed: "retired_closed ys" using inv(2) by (simp add: retired_closed_def ys_def)
  have retire: "RetireAllPreRequisites (length xs) ys e = Some zs"
    unfolding zs_def anc(1) [symmetric]
    by (rule RetireAllPreRequisites_spec [OF anc(2) closed assms(2)]) (simp add: ys_def assms(2))
  have e: "e \<notin> ancestors xs e" using ancestors_less [OF inv(1)] by blast
  have "zs ! e = ys ! e" using e assms(2) by (simp add: zs_def ys_def)
  moreover have ye: "ys ! e = IncrementCallCount (xs ! e)" using assms(2) by (simp add: ys_def)
  moreover define y where "y = (if retires_on_saturation (zs ! e) \<and> IsSaturated (zs ! e)
      then Retire (zs ! e) else zs ! e)"
  ultimately have handled: "zs[e := y] = handled e xs"
    using False assms(2) e by (intro nth_equalityI)
      (auto simp: handled_def Let_def zs_def ys_def nth_list_update)
  have "e < length zs" using assms(2) by (simp add: zs_def ys_def)
  then have "handled e xs ! e = y" using handled [symmetric] by simp
  then show ?thesis
    using False retire handled
    by (auto simp: GetActionForArguments_def ys_def [symmetric] y_def [symmetric] Let_def split: prod.splits)
qed

lemma handled_nth:
  assumes "exps_wf xs" and "e < length xs" and "i < length xs"
  shows "handled e xs ! i =
    (let x = (if i = e then IncrementCallCount (xs ! i) else xs ! i)
     in if \<not> IsSaturated (xs ! e)
           \<and> (i \<in> ancestors xs e \<or>
              i = e \<and> retires_on_saturation x \<and> IsSaturated x)
        then Retire x else x)"
proof -
  have "e \<notin> ancestors xs e" using ancestors_less [OF assms(1)] by blast
  with assms show ?thesis by (auto simp: handled_def Let_def nth_list_update)
qed

lemma handled_length [simp]: "length (handled e xs) = length xs"
  by (simp add: handled_def Let_def)

lemma handled_ancestors [simp]:
  "ancestors (handled e xs) = ancestors xs" "exps_wf (handled e xs) = exps_wf xs"
  by (simp_all add: handled_def Let_def increment_ancestors)

text \<open>A call that an active expectation with satisfied ancestors handles keeps the invariant.\<close>

lemma engine_inv_handled:
  assumes "engine_inv xs" and "e < length xs" and "\<not> retired (xs ! e)"
    and "\<forall>p \<in> ancestors xs e. IsSatisfied (xs ! p)"
  shows "engine_inv (handled e xs)"
proof -
  note inv = engine_invD [OF assms(1)]
  have mono: "retired (xs ! i) \<Longrightarrow> i < length xs \<Longrightarrow> retired (handled e xs ! i)" for i
    by (auto simp: handled_nth [OF inv(1) assms(2)] Let_def)
  have exp: "exp_inv (handled e xs) (handled e xs ! i)" if i: "i < length xs" for i
  proof -
    have old: "exp_inv xs (xs ! i)" using inv(3) [OF i] .
    have pre: "p < length xs" if "p \<in> set (immediate_prerequisites (xs ! i))" for p
      using exps_wfD [OF inv(1) i that] i by simp
    have pr: "immediate_prerequisites (handled e xs ! i) = immediate_prerequisites (xs ! i)"
      and ca: "cardinality (handled e xs ! i) = cardinality (xs ! i)"
      and co: "call_count (handled e xs ! i) = call_count (xs ! i) + (if i = e then 1 else 0)"
      using i by (simp_all add: handled_nth [OF inv(1) assms(2)] Let_def)
    have parents: "\<forall>p \<in> set (immediate_prerequisites (xs ! i)). retired (handled e xs ! p)"
      if "retired (xs ! i) \<or> 0 < call_count (xs ! i) \<and> 0 < card_max (cardinality (xs ! i))
          \<or> \<not> IsSaturated (xs ! e) \<and> (i = e \<or> i \<in> ancestors xs e)"
    proof
      fix p
      assume p: "p \<in> set (immediate_prerequisites (xs ! i))"
      have "p \<in> ancestors xs i" using p i by (auto simp: ancestors_unfold)
      then have "i = e \<or> i \<in> ancestors xs e \<Longrightarrow> p \<in> ancestors xs e" by (auto intro: ancestors_trans)
      then show "retired (handled e xs ! p)"
        using that old p mono pre [OF p]
        by (auto simp: exp_inv_def handled_nth [OF inv(1) assms(2)] Let_def)
    qed
    show ?thesis
    proof (cases "i = e")
      case True
      have "e \<notin> ancestors xs e" using ancestors_less [OF inv(1)] by blast
      then have ret: "retired (handled e xs ! e) \<Longrightarrow>
          \<not> IsSaturated (xs ! e) \<and> IsSaturated (IncrementCallCount (xs ! e))"
        using assms(2,3) by (auto simp: handled_nth [OF inv(1) assms(2)] Let_def split: if_splits)
      have "0 < call_count (xs ! e) \<or> \<not> IsSaturated (xs ! e)"
        if "0 < card_max (cardinality (xs ! e))"
        using that old True by (auto simp: exp_inv_def IsSaturated_def count_defs)
      then have "retired (handled e xs ! e) \<or> 0 < card_max (cardinality (xs ! e)) \<Longrightarrow>
          \<forall>p \<in> set (immediate_prerequisites (xs ! e)). retired (handled e xs ! p)"
        using parents ret unfolding True by blast
      then show ?thesis
        using old ret pr ca co unfolding True
        by (auto simp: exp_inv_def IsSaturated_def IsSatisfied_def count_defs card_ok_def)
    next
      case False
      then show ?thesis
        using old parents assms(4) i pr ca co
        by (auto simp: exp_inv_def handled_nth [OF inv(1) assms(2)] Let_def IsSatisfied_def)
    qed
  qed
  then show ?thesis using inv(1) by (simp add: engine_inv_def)
qed

section \<open>The unsatisfied pre-requisites\<close>

lemma set_insert_set [simp]: "set (set_insert e s) = insert e (set s)"
  by (auto simp: set_insert_def set_insort_key)

text \<open>
  The list that the message of a failed call shows: only unsatisfied ancestors, and at least one
  unless all are satisfied.  The traversal does not descend below an expectation that has been
  called, where the invariant says that the ancestors are satisfied.
\<close>

definition lists_unsatisfied :: "('v, 'r) exps \<Rightarrow> nat set \<Rightarrow> nat list \<Rightarrow> nat list \<Rightarrow> bool" where
  "lists_unsatisfied xs A result result' \<longleftrightarrow>
    set result \<subseteq> set result'
    \<and> (\<forall>p \<in> set result' - set result. p \<in> A \<and> \<not> IsSatisfied (xs ! p))
    \<and> ((\<exists>p \<in> A. \<not> IsSatisfied (xs ! p)) \<longrightarrow> (\<exists>p \<in> A. p \<in> set result'))"

lemma lists_unsatisfied_comp:
  assumes "lists_unsatisfied xs A r r'" and "lists_unsatisfied xs B r' r''"
  shows "lists_unsatisfied xs (A \<union> B) r r''"
  using assms unfolding lists_unsatisfied_def by blast

lemma unsatisfied_loop_spec:
  assumes "\<And>p r. p \<in> set ps \<Longrightarrow> IsSatisfied (xs ! p) \<Longrightarrow>
      \<exists>r'. FindUnsatisfiedPrerequisites k xs p r = Some r' \<and> lists_unsatisfied xs (ancestors xs p) r r'"
    and "\<And>p. p \<in> set ps \<Longrightarrow> IsSatisfied (xs ! p) \<Longrightarrow> call_count (xs ! p) \<noteq> 0 \<Longrightarrow>
      \<forall>q \<in> ancestors xs p. IsSatisfied (xs ! q)"
  shows "\<exists>r'. unsatisfied_loop k xs ps r = Some r'
    \<and> lists_unsatisfied xs (\<Union>p \<in> set ps. insert p (ancestors xs p)) r r'"
  using assms
proof (induction ps arbitrary: r)
  case Nil
  show ?case by (simp add: lists_unsatisfied_def)
next
  case (Cons p ps)
  have "\<exists>r1. unsatisfied_loop k xs (p # ps) r = unsatisfied_loop k xs ps r1
      \<and> lists_unsatisfied xs (insert p (ancestors xs p)) r r1"
  proof (cases "IsSatisfied (xs ! p)")
    case True
    show ?thesis
    proof (cases "call_count (xs ! p) = 0")
      case called: True
      from Cons.prems(1) [of p r] True obtain r1 where
        "FindUnsatisfiedPrerequisites k xs p r = Some r1" "lists_unsatisfied xs (ancestors xs p) r r1"
        by auto
      then show ?thesis using True called by (intro exI [of _ r1]) (auto simp: lists_unsatisfied_def)
    next
      case False
      then show ?thesis
        using True Cons.prems(2) [of p] by (intro exI [of _ r]) (auto simp: lists_unsatisfied_def)
    qed
  next
    case False
    then show ?thesis by (intro exI [of _ "set_insert p r"]) (auto simp: lists_unsatisfied_def)
  qed
  then obtain r1 where r1: "unsatisfied_loop k xs (p # ps) r = unsatisfied_loop k xs ps r1"
    "lists_unsatisfied xs (insert p (ancestors xs p)) r r1" by blast
  have "\<exists>r'. unsatisfied_loop k xs ps r1 = Some r'
      \<and> lists_unsatisfied xs (\<Union>p \<in> set ps. insert p (ancestors xs p)) r1 r'"
    by (rule Cons.IH) (rule Cons.prems, simp, assumption, rule Cons.prems, simp_all)
  then obtain r' where "unsatisfied_loop k xs ps r1 = Some r'"
    "lists_unsatisfied xs (\<Union>p \<in> set ps. insert p (ancestors xs p)) r1 r'" by blast
  with r1 lists_unsatisfied_comp [OF r1(2)] show ?case by (auto simp del: unsatisfied_loop.simps)
qed

lemma FindUnsatisfiedPrerequisites_spec:
  assumes "engine_inv xs"
  shows "e < k \<Longrightarrow> e < length xs \<Longrightarrow>
    \<exists>r'. FindUnsatisfiedPrerequisites k xs e r = Some r' \<and> lists_unsatisfied xs (ancestors xs e) r r'"
proof (induction k arbitrary: e r)
  case (Suc k)
  note inv = engine_invD [OF assms]
  have sub: "p < k \<and> p < length xs" if "p \<in> set (immediate_prerequisites (xs ! e))" for p
    using exps_wfD [OF inv(1) Suc.prems(2) that] Suc.prems by simp
  have called: "\<forall>q \<in> ancestors xs p. IsSatisfied (xs ! q)"
    if "p \<in> set (immediate_prerequisites (xs ! e))" "IsSatisfied (xs ! p)" "call_count (xs ! p) \<noteq> 0" for p
  proof -
    have "exp_inv xs (xs ! p)" using inv(3) sub that(1) by blast
    then have "0 < call_count (xs ! p) \<and> 0 < card_max (cardinality (xs ! p))"
      using that(2,3) by (auto simp: exp_inv_def IsSatisfied_def count_defs)
    then show ?thesis using started_ancestors [OF assms] sub [OF that(1)] by blast
  qed
  show ?case
    unfolding FindUnsatisfiedPrerequisites.simps ancestors_unfold [OF Suc.prems(2)]
    by (rule unsatisfied_loop_spec) (use Suc.IH sub called in auto)
qed simp

end
