(* ===== verification/Gmock_Mock.thy ===== *)
theory Gmock_Mock
  imports Gmock_Prerequisites
begin

text \<open>
  Mock objects of googlemock (\<open>UntypedFunctionMockerBase\<close>, \<open>FunctionMockerBase\<close>, \<open>OnCallSpec\<close>,
  \<open>Sequence\<close>, \<open>InSequence\<close> and \<open>Mock\<close> of \<open>gmock-spec-builders.h\<close> and \<open>gmock-spec-builders.cc\<close>):
  default actions, the dispatch of a call to an expectation and an action, verification, and the
  registry of mock objects.

  Every critical section under \<open>g_gmock_mutex\<close> is one function on the state.  Function mockers and
  sequences are named by their index, mock objects by their address; the reference counts that keep
  expectations alive are not represented, so an expectation that has been cleared stays in the list.
  An action is a function of the arguments.  \<open>None\<close> stands for a call that does not return because
  the pre-requisites of an expectation form a cycle.
\<close>

section \<open>State\<close>

datatype OnCallClause = ocNone | ocWith | ocWillByDefault

record ('v, 'r) OnCallSpec =
  oc_file :: string
  oc_line :: int
  oc_last_clause :: OnCallClause
  oc_matchers :: "'v matcher list"
  oc_extra_matcher :: "'v list matcher"
  oc_action :: "('v, 'r) mock_action"

record ('v, 'r) mocker =
  mock_obj :: "nat option"
  mock_name :: string
  on_call_specs :: "('v, 'r) OnCallSpec list"
  mocker_expectations :: "nat list"
  returns_void :: bool
  default_value :: "'r option"

datatype CallReaction = kAllow | kWarn | kFail

record MockObjectState =
  first_used_file :: "string option"
  first_used_line :: int
  first_used_test_case :: string
  first_used_test :: string
  leakable :: bool
  function_mockers :: "nat list"

record ('v, 'r) gmock =
  exps :: "('v, 'r) exps"
  mockers :: "('v, 'r) mocker list"
  sequences :: "nat option list"
  implicit_sequence :: "nat option"
  mock_registry :: "(nat \<times> MockObjectState) list"
  call_reactions :: "nat \<Rightarrow> CallReaction option"
  gmock_events :: "gmock_event list"

definition new_gmock :: "('v, 'r) gmock" where
  "new_gmock = \<lparr>exps = [], mockers = [], sequences = [], implicit_sequence = None, mock_registry = [],
                call_reactions = (\<lambda>_. None), gmock_events = []\<rparr>"

definition emit :: "gmock_event list \<Rightarrow> ('v, 'r) gmock \<Rightarrow> ('v, 'r) gmock" where
  "emit evs s = s\<lparr>gmock_events := gmock_events s @ evs\<rparr>"

definition upd_mocker ::
  "nat \<Rightarrow> (('v, 'r) mocker \<Rightarrow> ('v, 'r) mocker) \<Rightarrow> ('v, 'r) gmock \<Rightarrow> ('v, 'r) gmock" where
  "upd_mocker m f s = s\<lparr>mockers := (mockers s)[m := f (mockers s ! m)]\<rparr>"

text \<open>How a call ends: with the result, with an exception, or with the process.\<close>

datatype 'r outcome = Returned 'r | Threw string | Aborted string

section \<open>The registry of mock objects\<close>

definition new_object_state :: MockObjectState where
  "new_object_state = \<lparr>first_used_file = None, first_used_line = - 1, first_used_test_case = '''',
                       first_used_test = '''', leakable = False, function_mockers = []\<rparr>"

text \<open>\<open>states()[mock_obj]\<close> of the \<open>std::map\<close>, changed by \<open>f\<close>; the list is ordered by the address.\<close>

fun upd_state ::
  "nat \<Rightarrow> (MockObjectState \<Rightarrow> MockObjectState) \<Rightarrow> (nat \<times> MockObjectState) list \<Rightarrow>
     (nat \<times> MockObjectState) list" where
  "upd_state obj f [] = [(obj, f new_object_state)]"
| "upd_state obj f ((k, st) # r) =
    (if obj < k then (obj, f new_object_state) # (k, st) # r
     else if obj = k then (k, f st) # r
     else (k, st) # upd_state obj f r)"

definition Mock_Register :: "nat \<Rightarrow> nat \<Rightarrow> ('v, 'r) gmock \<Rightarrow> ('v, 'r) gmock" where
  "Mock_Register obj m s =
    s\<lparr>mock_registry := upd_state obj
        (\<lambda>st. st\<lparr>function_mockers := set_insert m (function_mockers st)\<rparr>) (mock_registry s)\<rparr>"

definition AllowLeak :: "nat \<Rightarrow> ('v, 'r) gmock \<Rightarrow> ('v, 'r) gmock" where
  "AllowLeak obj s =
    s\<lparr>mock_registry := upd_state obj (\<lambda>st. st\<lparr>leakable := True\<rparr>) (mock_registry s)\<rparr>"

text \<open>\<open>test_info\<close> is the test case and the name of the test that is running.\<close>

definition RegisterUseByOnCallOrExpectCall ::
  "(string \<times> string) option \<Rightarrow> nat \<Rightarrow> string \<Rightarrow> int \<Rightarrow> ('v, 'r) gmock \<Rightarrow> ('v, 'r) gmock" where
  "RegisterUseByOnCallOrExpectCall test_info obj file line s =
    s\<lparr>mock_registry := upd_state obj
        (\<lambda>st. if first_used_file st = None then
                let st' = st\<lparr>first_used_file := Some file, first_used_line := line\<rparr>
                in (case test_info of
                      None \<Rightarrow> st'
                    | Some (tc, t) \<Rightarrow> st'\<lparr>first_used_test_case := tc, first_used_test := t\<rparr>)
              else st) (mock_registry s)\<rparr>"

fun unregister_loop :: "nat \<Rightarrow> (nat \<times> MockObjectState) list \<Rightarrow> (nat \<times> MockObjectState) list" where
  "unregister_loop m [] = []"
| "unregister_loop m ((k, st) # r) =
    (if m \<in> set (function_mockers st) then
       let fm = remove1 m (function_mockers st)
       in if fm = [] then r else (k, st\<lparr>function_mockers := fm\<rparr>) # r
     else (k, st) # unregister_loop m r)"

definition UnregisterLocked :: "nat \<Rightarrow> ('v, 'r) gmock \<Rightarrow> ('v, 'r) gmock" where
  "UnregisterLocked m s = s\<lparr>mock_registry := unregister_loop m (mock_registry s)\<rparr>"

definition SetReactionOnUninterestingCalls ::
  "nat \<Rightarrow> CallReaction \<Rightarrow> ('v, 'r) gmock \<Rightarrow> ('v, 'r) gmock" where
  "SetReactionOnUninterestingCalls obj reaction s =
    s\<lparr>call_reactions := (call_reactions s)(obj \<mapsto> reaction)\<rparr>"

definition AllowUninterestingCalls :: "nat \<Rightarrow> ('v, 'r) gmock \<Rightarrow> ('v, 'r) gmock" where
  "AllowUninterestingCalls obj = SetReactionOnUninterestingCalls obj kAllow"

definition WarnUninterestingCalls :: "nat \<Rightarrow> ('v, 'r) gmock \<Rightarrow> ('v, 'r) gmock" where
  "WarnUninterestingCalls obj = SetReactionOnUninterestingCalls obj kWarn"

definition FailUninterestingCalls :: "nat \<Rightarrow> ('v, 'r) gmock \<Rightarrow> ('v, 'r) gmock" where
  "FailUninterestingCalls obj = SetReactionOnUninterestingCalls obj kFail"

definition UnregisterCallReaction :: "nat \<Rightarrow> ('v, 'r) gmock \<Rightarrow> ('v, 'r) gmock" where
  "UnregisterCallReaction obj s = s\<lparr>call_reactions := (call_reactions s)(obj := None)\<rparr>"

definition GetReactionOnUninterestingCalls :: "nat \<Rightarrow> ('v, 'r) gmock \<Rightarrow> CallReaction" where
  "GetReactionOnUninterestingCalls obj s =
    (case call_reactions s obj of None \<Rightarrow> kWarn | Some r \<Rightarrow> r)"

text \<open>
  The destructor of the registry at the end of the program: the objects it reports as leaked, with
  the text, and whether the process exits with status 1.  \<open>addr\<close> prints an address.
\<close>

definition leaked_text :: "(nat \<Rightarrow> string) \<Rightarrow> nat \<times> MockObjectState \<Rightarrow> string" where
  "leaked_text addr e =
    (case e of (obj, st) \<Rightarrow>
       newline # FormatFileLocation (first_used_file st) (first_used_line st)
       @ '' ERROR: this mock object''
       @ (if first_used_test st \<noteq> '''' then
            '' (used in test '' @ first_used_test_case st @ ''.'' @ first_used_test st @ '')'' else [])
       @ '' should be deleted but never is. Its address is @'' @ addr obj @ ''.'')"

definition MockObjectRegistry_destructor ::
  "(nat \<Rightarrow> string) \<Rightarrow> GmockFlags \<Rightarrow> (nat \<times> MockObjectState) list \<Rightarrow> string \<times> bool" where
  "MockObjectRegistry_destructor addr fl reg =
    (if \<not> catch_leaked_mocks fl then ([], False)
     else
       let leaked = filter (\<lambda>(obj, st). \<not> leakable st) reg;
           leaked_count = length leaked
       in if 0 < leaked_count then
            (concat (map (leaked_text addr) leaked)
             @ newline # ''ERROR: '' @ nat_to_string leaked_count @ '' leaked mock ''
             @ (if leaked_count = 1 then ''object'' else ''objects'')
             @ '' found at program exit.'' @ [newline], True)
          else ([], False))"

section \<open>Function mockers\<close>

definition RegisterOwner :: "nat \<Rightarrow> nat \<Rightarrow> ('v, 'r) gmock \<Rightarrow> ('v, 'r) gmock" where
  "RegisterOwner m obj s = Mock_Register obj m (upd_mocker m (\<lambda>k. k\<lparr>mock_obj := Some obj\<rparr>) s)"

definition SetOwnerAndName :: "nat \<Rightarrow> nat \<Rightarrow> string \<Rightarrow> ('v, 'r) gmock \<Rightarrow> ('v, 'r) gmock" where
  "SetOwnerAndName m obj name s = upd_mocker m (\<lambda>k. k\<lparr>mock_obj := Some obj, mock_name := name\<rparr>) s"

text \<open>\<open>MockObject\<close>: its assertion fails, and the process aborts, where it returns \<open>None\<close>.\<close>

definition MockObject :: "nat \<Rightarrow> ('v, 'r) gmock \<Rightarrow> nat option" where
  "MockObject m s = mock_obj (mockers s ! m)"

definition GetHandleOf :: "nat \<Rightarrow> nat \<Rightarrow> ('v, 'r) gmock \<Rightarrow> nat option" where
  "GetHandleOf m e s = (if e \<in> set (mocker_expectations (mockers s ! m)) then Some e else None)"

section \<open>Sequences\<close>

definition Sequence_AddExpectation :: "nat \<Rightarrow> nat \<Rightarrow> ('v, 'r) gmock \<Rightarrow> ('v, 'r) gmock" where
  "Sequence_AddExpectation q e s =
    (if sequences s ! q \<noteq> Some e then
       let s' = (case sequences s ! q of
                   None \<Rightarrow> s
                 | Some l \<Rightarrow>
                     s\<lparr>exps := (exps s)[e := (exps s ! e)
                         \<lparr>immediate_prerequisites :=
                            set_insert l (immediate_prerequisites (exps s ! e))\<rparr>]\<rparr>)
       in s'\<lparr>sequences := (sequences s')[q := Some e]\<rparr>
     else s)"

text \<open>\<open>new Sequence\<close>: the index of the sequence.\<close>

definition new_Sequence :: "('v, 'r) gmock \<Rightarrow> nat \<times> ('v, 'r) gmock" where
  "new_Sequence s = (length (sequences s), s\<lparr>sequences := sequences s @ [None]\<rparr>)"

text \<open>The constructor of \<open>InSequence\<close> returns \<open>sequence_created_\<close>, its destructor takes it.\<close>

definition InSequence_constructor :: "('v, 'r) gmock \<Rightarrow> bool \<times> ('v, 'r) gmock" where
  "InSequence_constructor s =
    (case implicit_sequence s of
       None \<Rightarrow> (let (q, s') = new_Sequence s in (True, s'\<lparr>implicit_sequence := Some q\<rparr>))
     | Some q \<Rightarrow> (False, s))"

definition InSequence_destructor :: "bool \<Rightarrow> ('v, 'r) gmock \<Rightarrow> ('v, 'r) gmock" where
  "InSequence_destructor sequence_created s =
    (if sequence_created then s\<lparr>implicit_sequence := None\<rparr> else s)"

section \<open>Default actions\<close>

definition OnCall_With ::
  "'v list matcher \<Rightarrow> ('v, 'r) OnCallSpec \<Rightarrow> ('v, 'r) OnCallSpec \<times> gmock_event list" where
  "OnCall_With mt c =
    (c\<lparr>oc_last_clause := ocWith, oc_extra_matcher := mt\<rparr>,
     Expect (oc_last_clause c = ocNone) (Some (oc_file c)) (oc_line c)
       ''.With() cannot appear more than once in an ON_CALL().'')"

definition OnCall_WillByDefault ::
  "('v, 'r) mock_action \<Rightarrow> ('v, 'r) OnCallSpec \<Rightarrow> ('v, 'r) OnCallSpec \<times> gmock_event list" where
  "OnCall_WillByDefault act c =
    (c\<lparr>oc_last_clause := ocWillByDefault, oc_action := act\<rparr>,
     Expect (oc_last_clause c \<noteq> ocWillByDefault) (Some (oc_file c)) (oc_line c)
       ''.WillByDefault() must appear exactly once in an ON_CALL().''
     @ Expect (case act of DoDefault \<Rightarrow> False | Perform _ \<Rightarrow> True) (Some (oc_file c)) (oc_line c)
         ''DoDefault() cannot be used in ON_CALL().'')"

definition OnCall_Matches :: "'v list \<Rightarrow> ('v, 'r) OnCallSpec \<Rightarrow> bool" where
  "OnCall_Matches args c \<longleftrightarrow> TupleMatches (oc_matchers c) args \<and> Matches (oc_extra_matcher c) args"

definition FindOnCallSpec :: "'v list \<Rightarrow> ('v, 'r) mocker \<Rightarrow> ('v, 'r) OnCallSpec option" where
  "FindOnCallSpec args k = find (OnCall_Matches args) (rev (on_call_specs k))"

definition kDoDefaultInside :: string where
  "kDoDefaultInside =
    ''You are using DoDefault() inside a composite action like DoAll() or WithArgs().  This is not supported for technical reasons.  Please instead spell out the default action, or assign the default action to an Action variable and use the variable in various places.''"

definition Action_Perform :: "('v, 'r) mock_action \<Rightarrow> 'v list \<Rightarrow> 'r outcome" where
  "Action_Perform act args =
    (case act of DoDefault \<Rightarrow> Aborted kDoDefaultInside | Perform f \<Rightarrow> Returned (f args))"

definition PerformDefaultAction :: "'v list \<Rightarrow> string \<Rightarrow> ('v, 'r) mocker \<Rightarrow> 'r outcome" where
  "PerformDefaultAction args call_description k =
    (case FindOnCallSpec args k of
       Some c \<Rightarrow>
         if oc_last_clause c = ocWillByDefault then Action_Perform (oc_action c) args
         else Aborted ''.WillByDefault() must appear exactly once in an ON_CALL().''
     | None \<Rightarrow>
         (case default_value k of
            None \<Rightarrow> Threw (call_description @ newline # ''    The mock function has no default action set, and its return type has no default value set.'')
          | Some r \<Rightarrow> Returned r))"

definition DescribeDefaultActionTo :: "'v list \<Rightarrow> ('v, 'r) mocker \<Rightarrow> string" where
  "DescribeDefaultActionTo args k =
    (case FindOnCallSpec args k of
       None \<Rightarrow> (if returns_void k then ''returning directly.'' else ''returning default value.'') @ [newline]
     | Some c \<Rightarrow> ''taking default action specified at:'' @ [newline]
               @ FormatFileLocation (Some (oc_file c)) (oc_line c) @ [newline])"

fun join_comma :: "string list \<Rightarrow> string" where
  "join_comma [] = []"
| "join_comma [x] = x"
| "join_comma (x # y # r) = x @ '', '' @ join_comma (y # r)"

definition PrintArgs :: "('v, 'r) mock_env \<Rightarrow> 'v list \<Rightarrow> string" where
  "PrintArgs env args = ''('' @ join_comma (map (print_value env) args) @ '')''"

definition PrintAsActionResult :: "('v, 'r) mock_env \<Rightarrow> ('v, 'r) mocker \<Rightarrow> 'r \<Rightarrow> string" where
  "PrintAsActionResult env k r =
    (if returns_void k then [] else newline # ''          Returns: '' @ print_result env r)"

definition UntypedDescribeUninterestingCall :: "('v, 'r) mock_env \<Rightarrow> 'v list \<Rightarrow> ('v, 'r) mocker \<Rightarrow> string" where
  "UntypedDescribeUninterestingCall env args k =
    ''Uninteresting mock function call - '' @ DescribeDefaultActionTo args k
    @ ''    Function call: '' @ mock_name k @ PrintArgs env args"

section \<open>Dispatch of a call\<close>

text \<open>The loop of \<open>FindMatchingExpectationLocked\<close>, on the expectations of the mocker from the last.\<close>

fun find_matching_loop ::
  "('v, 'r) mock_env \<Rightarrow> 'v list \<Rightarrow> nat list \<Rightarrow> ('v, 'r) gmock \<Rightarrow> (nat option \<times> ('v, 'r) gmock) option" where
  "find_matching_loop env args [] s = Some (None, s)"
| "find_matching_loop env args (e # es) s =
    (case ShouldHandleArguments env args e (exps s) of
       None \<Rightarrow> None
     | Some (ok, xs, evs) \<Rightarrow>
         let s' = emit evs (s\<lparr>exps := xs\<rparr>)
         in if ok then Some (Some e, s') else find_matching_loop env args es s')"

definition FindMatchingExpectationLocked ::
  "('v, 'r) mock_env \<Rightarrow> nat \<Rightarrow> 'v list \<Rightarrow> ('v, 'r) gmock \<Rightarrow> (nat option \<times> ('v, 'r) gmock) option" where
  "FindMatchingExpectationLocked env m args s =
    find_matching_loop env args (rev (mocker_expectations (mockers s ! m))) s"

fun tried_loop ::
  "('v, 'r) mock_env \<Rightarrow> 'v list \<Rightarrow> ('v, 'r) exps \<Rightarrow> nat \<Rightarrow> nat \<Rightarrow> nat list \<Rightarrow> string option" where
  "tried_loop env args xs n i [] = Some []"
| "tried_loop env args xs n i (e # es) =
    do {
      why \<leftarrow> ExplainMatchResultTo env args xs e;
      rest \<leftarrow> tried_loop env args xs n (i + 1) es;
      Some (newline # DescribeLocationTo (xs ! e)
            @ (if 1 < n then ''tried expectation #'' @ nat_to_string i @ '': '' else [])
            @ source_text (xs ! e) @ ''...'' @ [newline] @ why @ DescribeCallCountTo (xs ! e) @ rest)
    }"

definition PrintTriedExpectationsLocked ::
  "('v, 'r) mock_env \<Rightarrow> nat \<Rightarrow> 'v list \<Rightarrow> ('v, 'r) gmock \<Rightarrow> string option" where
  "PrintTriedExpectationsLocked env m args s =
    (let es = mocker_expectations (mockers s ! m);
         count = length es
     in map_option (\<lambda>t. ''Google Mock tried the following '' @ nat_to_string count @ '' ''
          @ (if count = 1 then ''expectation, but it didn'' @ [CHR 0x27] @ ''t match''
             else ''expectations, but none matched'') @ '':'' @ [newline] @ t)
          (tried_loop env args (exps s) count 0 es))"

text \<open>
  \<open>UntypedFindMatchingExpectation\<close>: the expectation and whether the call is excessive, the action
  (\<open>None\<close> for NULL), \<open>what\<close> and \<open>why\<close>.
\<close>

definition UntypedFindMatchingExpectation ::
  "('v, 'r) mock_env \<Rightarrow> nat \<Rightarrow> 'v list \<Rightarrow> ('v, 'r) gmock \<Rightarrow>
     ((nat \<times> bool) option \<times> ('v, 'r) mock_action option \<times> string \<times> string \<times> ('v, 'r) gmock) option" where
  "UntypedFindMatchingExpectation env m args s =
    (case FindMatchingExpectationLocked env m args s of
       None \<Rightarrow> None
     | Some (None, s') \<Rightarrow>
         map_option (\<lambda>why. (None, None, newline # ''Unexpected mock function call - ''
             @ DescribeDefaultActionTo args (mockers s' ! m), why, s'))
           (PrintTriedExpectationsLocked env m args s')
     | Some (Some e, s') \<Rightarrow>
         (let is_excessive = IsSaturated (exps s' ! e)
          in case GetActionForArguments env (DescribeDefaultActionTo args (mockers s' ! m)) e (exps s') of
               None \<Rightarrow> None
             | Some (action, what, why, xs, evs) \<Rightarrow>
                 Some (Some (e, is_excessive),
                       (case action of Some DoDefault \<Rightarrow> None | _ \<Rightarrow> action),
                       what, why, emit evs (s'\<lparr>exps := xs\<rparr>))))"

definition kUninterestingNote :: string where
  "kUninterestingNote =
    newline # ''NOTE: You can safely ignore the above warning unless this call should not happen.  Do not suppress it by blindly adding an EXPECT_CALL() if you don'' @ [CHR 0x27] @ ''t mean to enforce the call.  See https://github.com/google/googletest/blob/master/googlemock/docs/CookBook.md#knowing-when-to-expect for details.'' @ [newline]"

definition ReportUninterestingCall ::
  "('v, 'r) mock_env \<Rightarrow> CallReaction \<Rightarrow> string \<Rightarrow> gmock_event list" where
  "ReportUninterestingCall env reaction msg =
    (let stack_frames_to_skip = (if verbose (gmock_flags env) = kInfoVerbosity then 3 else - 1)
     in case reaction of
          kAllow \<Rightarrow> LogMsg env kInfo msg stack_frames_to_skip
        | kWarn \<Rightarrow> LogMsg env kWarning (msg @ kUninterestingNote) stack_frames_to_skip
        | kFail \<Rightarrow> Expect False None (- 1) msg)"

text \<open>The call: how it ends, the expectation that handled it and whether the call was excessive.\<close>

definition UntypedInvokeWith ::
  "('v, 'r) mock_env \<Rightarrow> nat \<Rightarrow> 'v list \<Rightarrow> ('v, 'r) gmock \<Rightarrow>
     ('r outcome \<times> (nat \<times> bool) option \<times> ('v, 'r) gmock) option" where
  "UntypedInvokeWith env m args s =
    (let k = mockers s ! m
     in if mocker_expectations k = [] then
          (case MockObject m s of
             None \<Rightarrow> Some (Aborted ''MockObject() must not be called before RegisterOwner() or SetOwnerAndName() has been called.'', None, s)
           | Some obj \<Rightarrow>
               let reaction = GetReactionOnUninterestingCalls obj s;
                   need_to_report =
                     (case reaction of
                        kAllow \<Rightarrow> LogIsVisible (gmock_flags env) kInfo
                      | kWarn \<Rightarrow> LogIsVisible (gmock_flags env) kWarning
                      | kFail \<Rightarrow> True)
               in if \<not> need_to_report then Some (PerformDefaultAction args '''' k, None, s)
                  else
                    let ss = UntypedDescribeUninterestingCall env args k
                    in (case PerformDefaultAction args ss k of
                          Returned r \<Rightarrow>
                            Some (Returned r, None,
                              emit (ReportUninterestingCall env reaction (ss @ PrintAsActionResult env k r)) s)
                        | oc \<Rightarrow> Some (oc, None, s)))
        else
          (case UntypedFindMatchingExpectation env m args s of
             None \<Rightarrow> None
           | Some (fnd, action, what, why, s') \<Rightarrow>
               let is_excessive = (case fnd of Some (_, ex) \<Rightarrow> ex | None \<Rightarrow> False);
                   perform = (\<lambda>desc. case action of
                                None \<Rightarrow> PerformDefaultAction args desc k
                              | Some a \<Rightarrow> Action_Perform a args);
                   need_to_report = (fnd = None \<or> is_excessive \<or> LogIsVisible (gmock_flags env) kInfo)
               in if \<not> need_to_report then Some (perform '''', fnd, s')
                  else
                    let ss = what @ ''    Function call: '' @ mock_name k @ PrintArgs env args
                    in (case perform ss of
                          Returned r \<Rightarrow>
                            let msg = ss @ PrintAsActionResult env k r @ newline # why
                            in Some (Returned r, fnd,
                                 emit (case fnd of
                                         None \<Rightarrow> Expect False None (- 1) msg
                                       | Some (e, ex) \<Rightarrow>
                                           if ex then Expect False (Some (exp_file (exps s' ! e)))
                                                        (exp_line (exps s' ! e)) msg
                                           else LogMsg env kInfo (DescribeLocationTo (exps s' ! e) @ msg) 2) s')
                        | oc \<Rightarrow> Some (oc, fnd, s'))))"

section \<open>EXPECT_CALL and ON_CALL statements\<close>

text \<open>
  \<open>AddNewExpectation\<close> through \<open>MockSpec::InternalExpectedAt\<close>; \<open>None\<close> where \<open>MockObject\<close> aborts.
\<close>

definition LogWithLocation ::
  "('v, 'r) mock_env \<Rightarrow> LogSeverity \<Rightarrow> string \<Rightarrow> int \<Rightarrow> string \<Rightarrow> gmock_event list" where
  "LogWithLocation env severity file line message =
    LogMsg env severity (file @ '':'' @ int_to_string line @ '': '' @ message @ [newline]) 0"

definition AddNewExpectation ::
  "(string \<times> string) option \<Rightarrow> nat \<Rightarrow> string \<Rightarrow> int \<Rightarrow> string \<Rightarrow> 'v matcher list \<Rightarrow>
     ('v, 'r) gmock \<Rightarrow> (nat \<times> ('v, 'r) gmock) option" where
  "AddNewExpectation test_info m file line src mts s =
    (case MockObject m s of
       None \<Rightarrow> None
     | Some obj \<Rightarrow>
         let s1 = RegisterUseByOnCallOrExpectCall test_info obj file line s;
             e = length (exps s1);
             s2 = s1\<lparr>exps := exps s1 @ [new_expectation m file line src mts]\<rparr>;
             s3 = upd_mocker m (\<lambda>k. k\<lparr>mocker_expectations := mocker_expectations k @ [e]\<rparr>) s2
         in Some (e, (case implicit_sequence s3 of
                        None \<Rightarrow> s3
                      | Some q \<Rightarrow> Sequence_AddExpectation q e s3)))"

definition InternalExpectedAt ::
  "('v, 'r) mock_env \<Rightarrow> (string \<times> string) option \<Rightarrow> nat \<Rightarrow> string \<Rightarrow> int \<Rightarrow> string \<Rightarrow> string \<Rightarrow>
     'v matcher list \<Rightarrow> ('v, 'r) gmock \<Rightarrow> (nat \<times> ('v, 'r) gmock) option" where
  "InternalExpectedAt env test_info m file line obj call_text mts s =
    (let src = ''EXPECT_CALL('' @ obj @ '', '' @ call_text @ '')''
     in AddNewExpectation test_info m file line src mts
          (emit (LogWithLocation env kInfo file line (src @ '' invoked'')) s))"

definition AddNewOnCallSpec ::
  "(string \<times> string) option \<Rightarrow> nat \<Rightarrow> string \<Rightarrow> int \<Rightarrow> 'v matcher list \<Rightarrow>
     ('v, 'r) gmock \<Rightarrow> ('v, 'r) gmock option" where
  "AddNewOnCallSpec test_info m file line mts s =
    (case MockObject m s of
       None \<Rightarrow> None
     | Some obj \<Rightarrow>
         Some (upd_mocker m (\<lambda>k. k\<lparr>on_call_specs := on_call_specs k @
                  [\<lparr>oc_file = file, oc_line = line, oc_last_clause = ocNone, oc_matchers = mts,
                    oc_extra_matcher = AnyMatcher, oc_action = DoDefault\<rparr>]\<rparr>)
                (RegisterUseByOnCallOrExpectCall test_info obj file line s)))"

definition InternalDefaultActionSetAt ::
  "('v, 'r) mock_env \<Rightarrow> (string \<times> string) option \<Rightarrow> nat \<Rightarrow> string \<Rightarrow> int \<Rightarrow> string \<Rightarrow> string \<Rightarrow>
     'v matcher list \<Rightarrow> ('v, 'r) gmock \<Rightarrow> ('v, 'r) gmock option" where
  "InternalDefaultActionSetAt env test_info m file line obj call_text mts s =
    AddNewOnCallSpec test_info m file line mts
      (emit (LogWithLocation env kInfo file line
               (''ON_CALL('' @ obj @ '', '' @ call_text @ '') invoked'')) s)"

text \<open>The clauses of a statement, applied to the expectation \<open>e\<close>.\<close>

datatype ('v, 'r) clause =
    With "'v list matcher"
  | Times Cardinality
  | InSequence nat
  | After "nat list"
  | Will_Once "('v, 'r) mock_action"
  | Will_Repeatedly "('v, 'r) mock_action"
  | Retires_On_Saturation

definition InSequence_clause :: "nat \<Rightarrow> nat \<Rightarrow> ('v, 'r) gmock \<Rightarrow> ('v, 'r) gmock option" where
  "InSequence_clause q e s =
    (let x = exps s ! e;
         s1 = emit (ExpectSpecProperty (clause_no (last_clause x) \<le> clause_no kInSequence)
                ''.InSequence() cannot appear after .After(), .WillOnce(), .WillRepeatedly(), or .RetiresOnSaturation().'' x)
                (s\<lparr>exps := (exps s)[e := x\<lparr>last_clause := kInSequence\<rparr>]\<rparr>)
     in map_option (\<lambda>h. Sequence_AddExpectation q h s1) (GetHandleOf (exp_owner x) e s1))"

definition upd_exp ::
  "nat \<Rightarrow> (('v, 'r) expectation \<Rightarrow> ('v, 'r) expectation \<times> gmock_event list) \<Rightarrow>
     ('v, 'r) gmock \<Rightarrow> ('v, 'r) gmock" where
  "upd_exp e f s = (let (x, evs) = f (exps s ! e) in emit evs (s\<lparr>exps := (exps s)[e := x]\<rparr>))"

fun apply_clause ::
  "('v, 'r) mock_env \<Rightarrow> nat \<Rightarrow> ('v, 'r) clause \<Rightarrow> ('v, 'r) gmock \<Rightarrow> ('v, 'r) gmock option" where
  "apply_clause env e (With mt) s = Some (upd_exp e (With_clause mt) s)"
| "apply_clause env e (Times c) s = Some (upd_exp e (UntypedTimes c) s)"
| "apply_clause env e (InSequence q) s = InSequence_clause q e s"
| "apply_clause env e (After ps) s = Some (upd_exp e (After_clause ps) s)"
| "apply_clause env e (Will_Once a) s = Some (upd_exp e (WillOnce a) s)"
| "apply_clause env e (Will_Repeatedly a) s = Some (upd_exp e (WillRepeatedly env a) s)"
| "apply_clause env e Retires_On_Saturation s = Some (upd_exp e (RetiresOnSaturation env) s)"

fun apply_clauses ::
  "('v, 'r) mock_env \<Rightarrow> nat \<Rightarrow> ('v, 'r) clause list \<Rightarrow> ('v, 'r) gmock \<Rightarrow> ('v, 'r) gmock option" where
  "apply_clauses env e [] s = Some s"
| "apply_clauses env e (c # cs) s =
    (case apply_clause env e c s of None \<Rightarrow> None | Some s' \<Rightarrow> apply_clauses env e cs s')"

section \<open>Verification\<close>

text \<open>One expectation of the loop: whether it is met, and the failure that is reported.\<close>

definition verify_expectation :: "('v, 'r) expectation \<Rightarrow> bool \<times> gmock_event list" where
  "verify_expectation x =
    (if IsOverSaturated x then (False, [])
     else if \<not> IsSatisfied x then
       (False, Expect False (Some (exp_file x)) (exp_line x)
          (''Actual function call count doesn'' @ [CHR 0x27] @ ''t match '' @ source_text x @ ''...'' @ [newline]
           @ MaybeDescribeExtraMatcherTo x @ DescribeCallCountTo x))
     else (True, []))"

definition mocker_VerifyAndClearExpectationsLocked ::
  "nat \<Rightarrow> ('v, 'r) gmock \<Rightarrow> bool \<times> ('v, 'r) gmock" where
  "mocker_VerifyAndClearExpectationsLocked m s =
    (let vs = map (\<lambda>e. verify_expectation (exps s ! e)) (mocker_expectations (mockers s ! m))
     in (list_all fst vs,
         upd_mocker m (\<lambda>k. k\<lparr>mocker_expectations := []\<rparr>) (emit (concat (map snd vs)) s)))"

definition mocker_ClearDefaultActionsLocked :: "nat \<Rightarrow> ('v, 'r) gmock \<Rightarrow> ('v, 'r) gmock" where
  "mocker_ClearDefaultActionsLocked m s = upd_mocker m (\<lambda>k. k\<lparr>on_call_specs := []\<rparr>) s"

fun verify_loop :: "nat list \<Rightarrow> bool \<Rightarrow> ('v, 'r) gmock \<Rightarrow> bool \<times> ('v, 'r) gmock" where
  "verify_loop [] expectations_met s = (expectations_met, s)"
| "verify_loop (m # ms) expectations_met s =
    (let (ok, s') = mocker_VerifyAndClearExpectationsLocked m s
     in verify_loop ms (if \<not> ok then False else expectations_met) s')"

definition Mock_VerifyAndClearExpectationsLocked :: "nat \<Rightarrow> ('v, 'r) gmock \<Rightarrow> bool \<times> ('v, 'r) gmock" where
  "Mock_VerifyAndClearExpectationsLocked obj s =
    (case map_of (mock_registry s) obj of
       None \<Rightarrow> (True, s)
     | Some st \<Rightarrow> verify_loop (function_mockers st) True s)"

definition Mock_ClearDefaultActionsLocked :: "nat \<Rightarrow> ('v, 'r) gmock \<Rightarrow> ('v, 'r) gmock" where
  "Mock_ClearDefaultActionsLocked obj s =
    (case map_of (mock_registry s) obj of
       None \<Rightarrow> s
     | Some st \<Rightarrow> fold mocker_ClearDefaultActionsLocked (function_mockers st) s)"

definition VerifyAndClearExpectations :: "nat \<Rightarrow> ('v, 'r) gmock \<Rightarrow> bool \<times> ('v, 'r) gmock" where
  "VerifyAndClearExpectations obj s = Mock_VerifyAndClearExpectationsLocked obj s"

definition VerifyAndClear :: "nat \<Rightarrow> ('v, 'r) gmock \<Rightarrow> bool \<times> ('v, 'r) gmock" where
  "VerifyAndClear obj s = Mock_VerifyAndClearExpectationsLocked obj (Mock_ClearDefaultActionsLocked obj s)"

text \<open>The destructor of a function mocker.\<close>

definition FunctionMocker_destructor :: "nat \<Rightarrow> ('v, 'r) gmock \<Rightarrow> ('v, 'r) gmock" where
  "FunctionMocker_destructor m s =
    mocker_ClearDefaultActionsLocked m
      (UnregisterLocked m (snd (mocker_VerifyAndClearExpectationsLocked m s)))"

end
