(* ===== verification/Gmock_Engine.thy ===== *)
theory Gmock_Engine
  imports Gmock_Mock
begin

text \<open>
  What googlemock guarantees about the calls of a test, over every sequence of statements and calls:
  a call is dispatched to the newest expectation that is active, has its pre-requisites satisfied and
  matches; the dispatch always returns; an expectation is handled only after its pre-requisites are
  satisfied, and never after an expectation that depends on it has been handled; verification reports
  exactly the expectations whose call count is outside the bounds.
\<close>

section \<open>Steps of a test\<close>

text \<open>The clauses of an \<open>ON_CALL\<close> statement, applied to the newest specification of the mocker.\<close>

datatype ('v, 'r) on_call_clause = OC_With "'v list matcher" | OC_WillByDefault "('v, 'r) mock_action"

definition apply_on_call :: "nat \<Rightarrow> ('v, 'r) on_call_clause \<Rightarrow> ('v, 'r) gmock \<Rightarrow> ('v, 'r) gmock" where
  "apply_on_call m cl s =
    (let cs = on_call_specs (mockers s ! m);
         (c, evs) = (case cl of OC_With mt \<Rightarrow> OnCall_With mt (last cs)
                              | OC_WillByDefault act \<Rightarrow> OnCall_WillByDefault act (last cs))
     in emit evs (upd_mocker m (\<lambda>k. k\<lparr>on_call_specs := butlast cs @ [c]\<rparr>) s))"

text \<open>
  The arguments of the clauses of a statement that creates expectation \<open>e\<close>: cardinalities are made by
  \<open>Between\<close> and the functions built on it, sequences exist, and the handles in \<open>.After\<close> are older.
\<close>

fun clause_ok :: "nat \<Rightarrow> nat \<Rightarrow> ('v, 'r) clause \<Rightarrow> bool" where
  "clause_ok e nseq (Times c) \<longleftrightarrow> card_ok c"
| "clause_ok e nseq (InSequence q) \<longleftrightarrow> q < nseq"
| "clause_ok e nseq (After ps) \<longleftrightarrow> (\<forall>p \<in> set ps. p < e)"
| "clause_ok e nseq _ \<longleftrightarrow> True"

text \<open>
  A step carries the expectation that handled a call and whether the call was excessive.  A whole
  \<open>EXPECT_CALL\<close> statement is one step: calls must not be mixed with a statement in progress.
\<close>

inductive mock_step ::
  "('v, 'r) mock_env \<Rightarrow> ('v, 'r) gmock \<Rightarrow> (nat \<times> bool) option \<Rightarrow> ('v, 'r) gmock \<Rightarrow> bool"
  for env :: "('v, 'r) mock_env" where
  new_mocker: "mocker_expectations k = [] \<Longrightarrow> mock_step env s None (s\<lparr>mockers := mockers s @ [k]\<rparr>)"
| register: "m < length (mockers s) \<Longrightarrow> mock_step env s None (RegisterOwner m obj s)"
| set_owner: "m < length (mockers s) \<Longrightarrow> mock_step env s None (SetOwnerAndName m obj name s)"
| expect: "m < length (mockers s)
    \<Longrightarrow> InternalExpectedAt env ti m file line obj cl mts s = Some (e, s1)
    \<Longrightarrow> \<forall>c \<in> set cs. clause_ok e (length (sequences s)) c
    \<Longrightarrow> apply_clauses env e cs s1 = Some s'
    \<Longrightarrow> mock_step env s None s'"
| on_call: "m < length (mockers s)
    \<Longrightarrow> InternalDefaultActionSetAt env ti m file line obj cl mts s = Some s1
    \<Longrightarrow> mock_step env s None (fold (apply_on_call m) fs s1)"
| sequence: "mock_step env s None (snd (new_Sequence s))"
| enter_sequence: "mock_step env s None (snd (InSequence_constructor s))"
| leave_sequence: "mock_step env s None (InSequence_destructor created s)"
| call: "m < length (mockers s) \<Longrightarrow> UntypedInvokeWith env m args s = Some (oc, fnd, s')
    \<Longrightarrow> mock_step env s fnd s'"
| verify: "mock_step env s None (snd (VerifyAndClearExpectations obj s))"
| verify_all: "mock_step env s None (snd (VerifyAndClear obj s))"
| destroy: "mock_step env s None (FunctionMocker_destructor m s)"
| allow_leak: "mock_step env s None (AllowLeak obj s)"
| reaction: "mock_step env s None (SetReactionOnUninterestingCalls obj r s)"
| unregister_reaction: "mock_step env s None (UnregisterCallReaction obj s)"

inductive mock_run ::
  "('v, 'r) mock_env \<Rightarrow> ('v, 'r) gmock \<Rightarrow> (nat \<times> bool) option list \<Rightarrow> ('v, 'r) gmock \<Rightarrow> bool"
  for env :: "('v, 'r) mock_env" where
  run_refl: "mock_run env s [] s"
| run_step: "mock_run env s tr s' \<Longrightarrow> mock_step env s' l s'' \<Longrightarrow> mock_run env s (tr @ [l]) s''"

section \<open>The invariant of the state\<close>

definition mock_ok :: "('v, 'r) gmock \<Rightarrow> bool" where
  "mock_ok s \<longleftrightarrow>
    engine_inv (exps s)
    \<and> (\<forall>k \<in> set (mockers s). set (mocker_expectations k) \<subseteq> {e. e < length (exps s)})
    \<and> (\<forall>l. Some l \<in> set (sequences s) \<longrightarrow> l < length (exps s))
    \<and> (\<forall>q. implicit_sequence s = Some q \<longrightarrow> q < length (sequences s))"

lemma mock_ok_new: "mock_ok new_gmock"
  by (simp add: mock_ok_def new_gmock_def engine_inv_Nil)

text \<open>What no step but a call changes: the state of an expectation that exists.\<close>

lemma emit_simps [simp]:
  "exps (emit evs s) = exps s" "mockers (emit evs s) = mockers s" "sequences (emit evs s) = sequences s"
  "implicit_sequence (emit evs s) = implicit_sequence s" "mock_registry (emit evs s) = mock_registry s"
  by (simp_all add: emit_def)

lemma upd_mocker_simps [simp]:
  "exps (upd_mocker m f s) = exps s" "sequences (upd_mocker m f s) = sequences s"
  "implicit_sequence (upd_mocker m f s) = implicit_sequence s"
  "mock_registry (upd_mocker m f s) = mock_registry s"
  "length (mockers (upd_mocker m f s)) = length (mockers s)"
  by (simp_all add: upd_mocker_def)

lemma set_upd_mocker:
  "m < length (mockers s) \<Longrightarrow> k \<in> set (mockers (upd_mocker m f s)) \<Longrightarrow>
    k \<in> set (mockers s) \<or> k = f (mockers s ! m)"
  by (auto simp: upd_mocker_def dest: set_update_subset_insert [THEN subsetD])

lemma upd_mocker_beyond: "\<not> m < length (mockers s) \<Longrightarrow> mockers (upd_mocker m f s) = mockers s"
  by (simp add: upd_mocker_def list_update_beyond)

text \<open>Steps that leave expectations and sequences alone and do not add to a mocker.\<close>

definition frame :: "('v, 'r) gmock \<Rightarrow> ('v, 'r) gmock \<Rightarrow> bool" where
  "frame s s' \<longleftrightarrow>
    exps s' = exps s \<and> sequences s' = sequences s \<and> implicit_sequence s' = implicit_sequence s
    \<and> (\<forall>k' \<in> set (mockers s'). mocker_expectations k' = []
         \<or> (\<exists>k \<in> set (mockers s). mocker_expectations k' = mocker_expectations k))"

lemma frame_refl [simp]: "frame s s"
  by (auto simp: frame_def)

lemma frame_trans: "frame s s' \<Longrightarrow> frame s' s'' \<Longrightarrow> frame s s''"
  unfolding frame_def by metis

lemma frame_ok: "frame s s' \<Longrightarrow> mock_ok s \<Longrightarrow> mock_ok s'"
  unfolding frame_def mock_ok_def by fastforce

lemma frame_upd_mocker:
  assumes "\<And>k. mocker_expectations (f k) = mocker_expectations k \<or> mocker_expectations (f k) = []"
  shows "frame s (upd_mocker m f s)"
proof (cases "m < length (mockers s)")
  case True
  have "mocker_expectations k' = [] \<or> (\<exists>k \<in> set (mockers s). mocker_expectations k' = mocker_expectations k)"
    if "k' \<in> set (mockers (upd_mocker m f s))" for k'
    using set_upd_mocker [OF True that] assms [of "mockers s ! m"] nth_mem [OF True] by metis
  then show ?thesis by (simp add: frame_def)
next
  case False
  then show ?thesis by (auto simp: frame_def upd_mocker_beyond)
qed

lemma frame_updates [simp]:
  "frame s (emit evs s)" "frame s (Mock_Register obj m s)" "frame s (AllowLeak obj s)"
  "frame s (RegisterUseByOnCallOrExpectCall ti obj file line s)" "frame s (UnregisterLocked m s)"
  "frame s (SetReactionOnUninterestingCalls obj r s)" "frame s (UnregisterCallReaction obj s)"
  by (auto simp: frame_def Mock_Register_def AllowLeak_def RegisterUseByOnCallOrExpectCall_def
      UnregisterLocked_def SetReactionOnUninterestingCalls_def UnregisterCallReaction_def)

lemma frame_mocker_ops:
  "frame s (RegisterOwner m obj s)" "frame s (SetOwnerAndName m obj name s)"
  "frame s (snd (mocker_VerifyAndClearExpectationsLocked m s))"
  "frame s (mocker_ClearDefaultActionsLocked m s)"
  "frame s (apply_on_call m f s)"
proof -
  have up: "frame s (upd_mocker m f s)"
    if "\<And>k. mocker_expectations (f k) = mocker_expectations k \<or> mocker_expectations (f k) = []"
    for f and s :: "('a, 'b) gmock" using that by (rule frame_upd_mocker)
  show "frame s (RegisterOwner m obj s)"
    unfolding RegisterOwner_def by (rule frame_trans [OF up frame_updates(2)]) simp
  show "frame s (SetOwnerAndName m obj name s)" unfolding SetOwnerAndName_def by (rule up) simp
  show "frame s (snd (mocker_VerifyAndClearExpectationsLocked m s))"
    unfolding mocker_VerifyAndClearExpectationsLocked_def Let_def snd_conv
    by (rule frame_trans [OF frame_updates(1) up]) simp
  show "frame s (mocker_ClearDefaultActionsLocked m s)"
    unfolding mocker_ClearDefaultActionsLocked_def by (rule up) simp
  show "frame s (apply_on_call m f s)"
    unfolding apply_on_call_def Let_def
    by (auto split: prod.splits intro!: frame_trans [OF up frame_updates(1)])
qed

lemma frame_fold:
  assumes "\<And>x s. frame s (f x s)"
  shows "frame s (fold f xs s)"
  by (induction xs arbitrary: s) (auto intro: frame_trans [OF assms])

lemma frame_verify_loop: "frame s (snd (verify_loop ms b s))"
proof (induction ms arbitrary: b s)
  case (Cons m ms)
  obtain ok s' where v: "mocker_VerifyAndClearExpectationsLocked m s = (ok, s')" by fastforce
  then have "frame s s'" using frame_mocker_ops(3) by (metis snd_conv)
  from frame_trans [OF this Cons.IH] show ?case by (simp add: v)
qed simp

lemma frame_verify:
  "frame s (snd (VerifyAndClearExpectations obj s))" "frame s (snd (VerifyAndClear obj s))"
  "frame s (FunctionMocker_destructor m s)"
proof -
  have locked: "frame s (snd (Mock_VerifyAndClearExpectationsLocked obj s))" for s :: "('a, 'b) gmock"
    by (auto simp: Mock_VerifyAndClearExpectationsLocked_def frame_verify_loop split: option.splits)
  have clear: "frame s (Mock_ClearDefaultActionsLocked obj s)" for s :: "('a, 'b) gmock"
    by (auto simp: Mock_ClearDefaultActionsLocked_def intro: frame_fold frame_mocker_ops split: option.splits)
  show "frame s (snd (VerifyAndClearExpectations obj s))" using locked by (simp add: VerifyAndClearExpectations_def)
  show "frame s (snd (VerifyAndClear obj s))"
    unfolding VerifyAndClear_def by (rule frame_trans [OF clear locked])
  show "frame s (FunctionMocker_destructor m s)"
    unfolding FunctionMocker_destructor_def
    by (rule frame_trans [OF frame_trans [OF frame_mocker_ops(3) frame_updates(5)] frame_mocker_ops(4)])
qed

section \<open>Statements\<close>

definition fresh_exp :: "nat \<Rightarrow> ('v, 'r) expectation \<Rightarrow> bool" where
  "fresh_exp e x \<longleftrightarrow>
    card_ok (cardinality x) \<and> call_count x = 0 \<and> \<not> retired x
    \<and> set (immediate_prerequisites x) \<subseteq> {p. p < e}"

text \<open>A statement in progress on the expectation that follows the expectations \<open>xs\<close>.\<close>

definition stmt_ok :: "('v, 'r) exps \<Rightarrow> ('v, 'r) gmock \<Rightarrow> bool" where
  "stmt_ok xs s \<longleftrightarrow>
    (\<exists>x. exps s = xs @ [x] \<and> fresh_exp (length xs) x)
    \<and> (\<forall>k \<in> set (mockers s). set (mocker_expectations k) \<subseteq> {e. e \<le> length xs})
    \<and> (\<forall>l. Some l \<in> set (sequences s) \<longrightarrow> l \<le> length xs)
    \<and> (\<forall>q. implicit_sequence s = Some q \<longrightarrow> q < length (sequences s))"

lemma stmt_ok_upd_exp:
  assumes "stmt_ok xs s" and "\<And>x. fresh_exp (length xs) x \<Longrightarrow> fresh_exp (length xs) (fst (f x))"
  shows "stmt_ok xs (upd_exp (length xs) f s)" "sequences (upd_exp (length xs) f s) = sequences s"
  using assms by (auto simp: stmt_ok_def upd_exp_def Let_def split: prod.splits)
    (metis fst_conv)+

lemma fold_set_insert: "set (fold set_insert ps s) = set ps \<union> set s"
  by (induction ps arbitrary: s) auto

lemma fresh_exp_clauses:
  assumes "fresh_exp e x"
  shows "fresh_exp e (fst (With_clause mt x))"
    "card_ok c \<Longrightarrow> fresh_exp e (fst (UntypedTimes c x))"
    "\<forall>p \<in> set ps. p < e \<Longrightarrow> fresh_exp e (fst (After_clause ps x))"
    "fresh_exp e (fst (WillOnce a x))"
    "fresh_exp e (fst (WillRepeatedly env a x))"
    "fresh_exp e (fst (RetiresOnSaturation env x))"
proof -
  have check: "fresh_exp e y \<Longrightarrow> fresh_exp e (fst (CheckActionCountIfNotDone env y))" for y
    using CheckActionCount_same [of y env] by (simp add: fresh_exp_def same_state_def)
  show "fresh_exp e (fst (With_clause mt x))" using assms by (simp add: With_clause_def fresh_exp_def)
  show "card_ok c \<Longrightarrow> fresh_exp e (fst (UntypedTimes c x))"
    using assms by (simp add: UntypedTimes_def SpecifyCardinality_def fresh_exp_def)
  show "\<forall>p \<in> set ps. p < e \<Longrightarrow> fresh_exp e (fst (After_clause ps x))"
    using assms by (auto simp: After_clause_def fresh_exp_def fold_set_insert)
  show "fresh_exp e (fst (WillOnce a x))" using assms by (simp add: WillOnce_def fresh_exp_def Let_def)
  show "fresh_exp e (fst (WillRepeatedly env a x))"
    using assms check [of "if cardinality_specified x then x\<lparr>last_clause := kWillRepeatedly,
        repeated_action_specified := True, repeated_action := a\<rparr> else x\<lparr>last_clause := kWillRepeatedly,
        repeated_action_specified := True, repeated_action := a,
        cardinality := AtLeast (int (length (untyped_actions x)))\<rparr>"]
    by (auto simp: WillRepeatedly_def fresh_exp_def Let_def split: prod.splits if_splits)
  show "fresh_exp e (fst (RetiresOnSaturation env x))"
    using assms check [of "x\<lparr>last_clause := kRetiresOnSaturation, retires_on_saturation := True\<rparr>"]
    by (auto simp: RetiresOnSaturation_def fresh_exp_def Let_def split: prod.splits)
qed

lemma stmt_ok_add_sequence:
  assumes "stmt_ok xs s" and "q < length (sequences s)"
  shows "stmt_ok xs (Sequence_AddExpectation q (length xs) s)"
    and "length (sequences (Sequence_AddExpectation q (length xs) s)) = length (sequences s)"
proof -
  obtain x where x: "exps s = xs @ [x]" "fresh_exp (length xs) x" using assms(1) by (auto simp: stmt_ok_def)
  have last: "l \<le> length xs" if "sequences s ! q = Some l" for l
    using assms that nth_mem [OF assms(2)] by (auto simp: stmt_ok_def)
  have upd: "l \<le> length xs" if "Some l \<in> set ((sequences s)[q := Some (length xs)])" for l
    using assms(1) that set_update_subset_insert [of "sequences s" q "Some (length xs)"]
    by (auto simp: stmt_ok_def)
  show "length (sequences (Sequence_AddExpectation q (length xs) s)) = length (sequences s)"
    by (auto simp: Sequence_AddExpectation_def Let_def split: option.splits)
  show "stmt_ok xs (Sequence_AddExpectation q (length xs) s)"
  proof (cases "sequences s ! q")
    case None
    with assms(1) upd show ?thesis by (simp add: Sequence_AddExpectation_def Let_def stmt_ok_def)
  next
    case (Some l)
    show ?thesis
    proof (cases "l = length xs")
      case True
      with Some assms(1) show ?thesis by (simp add: Sequence_AddExpectation_def)
    next
      case False
      with last [OF Some] have "l < length xs" by simp
      with x(2) have "fresh_exp (length xs)
          (x\<lparr>immediate_prerequisites := set_insert l (immediate_prerequisites x)\<rparr>)"
        by (simp add: fresh_exp_def)
      with assms(1) Some False upd x(1) show ?thesis
        by (simp add: Sequence_AddExpectation_def Let_def stmt_ok_def)
    qed
  qed
qed

lemma stmt_ok_clause:
  assumes "stmt_ok xs s" and "clause_ok (length xs) (length (sequences s)) c"
    and "apply_clause env (length xs) c s = Some s'"
  shows "stmt_ok xs s' \<and> length (sequences s') = length (sequences s)"
proof (cases c)
  case (InSequence q)
  define s1 where "s1 = upd_exp (length xs) (\<lambda>x. (x\<lparr>last_clause := kInSequence\<rparr>,
      ExpectSpecProperty (clause_no (last_clause x) \<le> clause_no kInSequence)
        ''.InSequence() cannot appear after .After(), .WillOnce(), .WillRepeatedly(), or .RetiresOnSaturation().'' x)) s"
  have s1: "stmt_ok xs s1" "sequences s1 = sequences s"
    unfolding s1_def by (rule stmt_ok_upd_exp [OF assms(1)]; simp add: fresh_exp_def)+
  have "s' = Sequence_AddExpectation q (length xs) s1"
    using assms(3) InSequence
    by (auto simp: InSequence_clause_def s1_def upd_exp_def Let_def GetHandleOf_def split: if_splits)
  with s1 assms(2) InSequence show ?thesis using stmt_ok_add_sequence [of xs s1 q] by simp
qed (use assms in \<open>auto intro!: stmt_ok_upd_exp(1) fresh_exp_clauses
    simp: stmt_ok_upd_exp(2) [OF assms(1)] fresh_exp_clauses\<close>)

lemma stmt_ok_clauses:
  "stmt_ok xs s \<Longrightarrow> \<forall>c \<in> set cs. clause_ok (length xs) (length (sequences s)) c
    \<Longrightarrow> apply_clauses env (length xs) cs s = Some s' \<Longrightarrow> stmt_ok xs s'"
proof (induction cs arbitrary: s)
  case (Cons c cs)
  then obtain s1 where "apply_clause env (length xs) c s = Some s1"
    "apply_clauses env (length xs) cs s1 = Some s'" by (auto split: option.splits)
  with Cons.prems stmt_ok_clause [of xs s c env s1] show ?case by (intro Cons.IH) simp_all
qed simp

lemma AddNewExpectation_stmt:
  assumes "mock_ok s" and "m < length (mockers s)"
    and "AddNewExpectation ti m file line src mts s = Some (e, s1)"
  shows "e = length (exps s) \<and> stmt_ok (exps s) s1 \<and> length (sequences s1) = length (sequences s)"
proof -
  obtain ob where ob: "MockObject m s = Some ob"
    using assms(3) by (auto simp: AddNewExpectation_def split: option.splits)
  define sr where "sr = RegisterUseByOnCallOrExpectCall ti ob file line s"
  define s3 where "s3 = upd_mocker m (\<lambda>k. k\<lparr>mocker_expectations := mocker_expectations k @ [length (exps sr)]\<rparr>)
    (sr\<lparr>exps := exps sr @ [new_expectation m file line src mts]\<rparr>)"
  have fr: "exps sr = exps s" "mockers sr = mockers s" "sequences sr = sequences s"
    "implicit_sequence sr = implicit_sequence s"
    by (simp_all add: sr_def RegisterUseByOnCallOrExpectCall_def)
  have res: "e = length (exps s)" "s1 = (case implicit_sequence s3 of None \<Rightarrow> s3
      | Some q \<Rightarrow> Sequence_AddExpectation q (length (exps s)) s3)"
    unfolding fr(1) [symmetric]
    using assms(3) ob
    by (auto simp: AddNewExpectation_def sr_def [symmetric] s3_def Let_def split: option.splits)
  have ks: "set (mocker_expectations k) \<subseteq> {e. e \<le> length (exps s)}" if k: "k \<in> set (mockers s3)" for k
  proof -
    have old: "k' \<in> set (mockers s) \<Longrightarrow> set (mocker_expectations k') \<subseteq> {e. e < length (exps s)}" for k'
      using assms(1) by (simp add: mock_ok_def)
    from k [unfolded s3_def, THEN set_upd_mocker [rotated]] fr(1,2) assms(2)
    have "k \<in> set (mockers s) \<or> mocker_expectations k = mocker_expectations (mockers s ! m) @ [length (exps s)]"
      by auto
    with old [of k] old [OF nth_mem [OF assms(2)]] show ?thesis by fastforce
  qed
  have "fresh_exp (length (exps s)) (new_expectation m file line src mts)"
    by (simp add: fresh_exp_def new_expectation_def)
  then have s3: "stmt_ok (exps s) s3"
    using ks assms(1) fr by (auto simp: stmt_ok_def s3_def mock_ok_def intro: less_imp_le)
  have sq: "sequences s3 = sequences s" "implicit_sequence s3 = implicit_sequence s" by (simp_all add: s3_def fr)
  show ?thesis
  proof (cases "implicit_sequence s")
    case None
    with res s3 sq show ?thesis by simp
  next
    case (Some q)
    then have "q < length (sequences s3)" using assms(1) sq by (simp add: mock_ok_def)
    with Some res sq stmt_ok_add_sequence [OF s3 this] show ?thesis by simp
  qed
qed

lemma InternalExpectedAt_stmt:
  assumes "mock_ok s" and "m < length (mockers s)"
    and "InternalExpectedAt env ti m file line obj cl mts s = Some (e, s1)"
  shows "e = length (exps s) \<and> stmt_ok (exps s) s1 \<and> length (sequences s1) = length (sequences s)"
proof -
  obtain evs src where "AddNewExpectation ti m file line src mts (Gmock_Mock.emit evs s) = Some (e, s1)"
    using assms(3) unfolding InternalExpectedAt_def Let_def by blast
  from AddNewExpectation_stmt [OF _ _ this] show ?thesis
    using frame_ok [OF frame_updates(1) assms(1)] assms(2) by simp
qed

lemma stmt_done:
  assumes "engine_inv xs" and "stmt_ok xs s"
  shows "mock_ok s"
proof -
  obtain x where x: "exps s = xs @ [x]" "fresh_exp (length xs) x" using assms(2) by (auto simp: stmt_ok_def)
  note inv = engine_invD [OF assms(1)]
  have "exps_wf (xs @ [x])"
    using inv(1) x(2) by (auto simp: exps_wf_def fresh_exp_def nth_append subset_iff less_Suc_eq)
  moreover have "exp_inv (xs @ [x]) ((xs @ [x]) ! e)" if "e < Suc (length xs)" for e
  proof (cases "e < length xs")
    case True
    have "retired ((xs @ [x]) ! p) = retired (xs ! p)" if "p \<in> set (immediate_prerequisites (xs ! e))" for p
      using exps_wfD [OF inv(1) True that] True by (simp add: nth_append)
    then show ?thesis using inv(3) [OF True] True by (simp add: exp_inv_def nth_append)
  next
    case False
    then have "e = length xs" using that by simp
    with x(2) show ?thesis by (simp add: exp_inv_def fresh_exp_def)
  qed
  ultimately have "engine_inv (exps s)" by (simp add: engine_inv_def x(1))
  with assms(2) x(1) show ?thesis by (auto simp: mock_ok_def stmt_ok_def less_Suc_eq_le)
qed

section \<open>Calls\<close>

text \<open>When an expectation takes a call, and the action of its next call.\<close>

definition should_handle :: "('v, 'r) exps \<Rightarrow> 'v list \<Rightarrow> nat \<Rightarrow> bool" where
  "should_handle xs args e \<longleftrightarrow>
    \<not> retired (xs ! e) \<and> (\<forall>p \<in> ancestors xs e. IsSatisfied (xs ! p)) \<and> Expectation_Matches args (xs ! e)"

definition next_action :: "('v, 'r) expectation \<Rightarrow> ('v, 'r) mock_action" where
  "next_action x =
    (if call_count x < int (length (untyped_actions x)) then untyped_actions x ! nat (call_count x)
     else repeated_action x)"

lemma same_states_trans:
  "list_all2 same_state xs ys \<Longrightarrow> list_all2 same_state ys zs \<Longrightarrow> list_all2 same_state xs zs"
  by (rule list_all2_trans [OF same_state_trans])

lemma should_handle_same:
  assumes "list_all2 same_state xs ys" and "exps_wf xs" and "e < length xs"
  shows "should_handle ys args e = should_handle xs args e"
proof -
  note eq = same_state_inv [OF assms(1)]
  have s: "same_state (xs ! e) (ys ! e)" using assms(1,3) by (rule list_all2_nthD)
  have "p < length xs" if "p \<in> ancestors xs e" for p
    using ancestors_less [OF assms(2) that] assms(3) by simp
  then have "(\<forall>p \<in> ancestors ys e. IsSatisfied (ys ! p)) = (\<forall>p \<in> ancestors xs e. IsSatisfied (xs ! p))"
    using eq(2,3) by auto
  with s show ?thesis by (simp add: should_handle_def same_state_def Expectation_Matches_def)
qed

definition only_exps :: "('v, 'r) gmock \<Rightarrow> ('v, 'r) gmock \<Rightarrow> bool" where
  "only_exps s s' \<longleftrightarrow>
    mockers s' = mockers s \<and> sequences s' = sequences s \<and> implicit_sequence s' = implicit_sequence s"

lemma only_exps_simps [simp]:
  "only_exps s s" "only_exps s (Gmock_Mock.emit evs s') = only_exps s s'"
  "only_exps s (s'\<lparr>exps := xs\<rparr>) = only_exps s s'"
  by (simp_all add: only_exps_def)

lemma only_exps_trans: "only_exps s s' \<Longrightarrow> only_exps s' s'' \<Longrightarrow> only_exps s s''"
  by (simp add: only_exps_def)

lemma find_cong_on: "(\<And>x. x \<in> set xs \<Longrightarrow> P x = Q x) \<Longrightarrow> find P xs = find Q xs"
  by (induction xs) auto

lemma find_SomeD: "find P xs = Some x \<Longrightarrow> x \<in> set xs \<and> P x"
  by (induction xs) (auto split: if_splits)

lemma find_matching_loop_spec:
  assumes "engine_inv (exps s)" and "set es \<subseteq> {e. e < length (exps s)}"
  shows "\<exists>s'. find_matching_loop env args es s = Some (find (should_handle (exps s) args) es, s')
    \<and> list_all2 same_state (exps s) (exps s') \<and> only_exps s s'"
  using assms
proof (induction es arbitrary: s)
  case Nil
  show ?case by (simp add: list.rel_refl)
next
  case (Cons e es)
  have e: "e < length (exps s)" using Cons.prems(2) by simp
  obtain ys evs where sh: "list_all2 same_state (exps s) ys"
    "ShouldHandleArguments env args e (exps s) = Some (should_handle (exps s) args e, ys, evs)"
    using ShouldHandleArguments_spec [OF Cons.prems(1) e, of env args] by (auto simp: should_handle_def)
  define s1 where "s1 = Gmock_Mock.emit evs (s\<lparr>exps := ys\<rparr>)"
  have len: "length ys = length (exps s)" using sh(1) by (simp add: list_all2_lengthD)
  have cong: "find (should_handle ys args) es = find (should_handle (exps s) args) es"
    using should_handle_same [OF sh(1) engine_invD(1) [OF Cons.prems(1)]] Cons.prems(2)
    by (intro find_cong_on) auto
  obtain s' where "find_matching_loop env args es s1 = Some (find (should_handle ys args) es, s')"
    "list_all2 same_state ys (exps s')" "only_exps s1 s'"
    using Cons.IH [of s1] same_state_inv(1) [OF sh(1)] Cons.prems len by (auto simp: s1_def)
  moreover have "only_exps s s1" by (simp add: s1_def)
  ultimately show ?case
    using sh cong same_states_trans [OF sh(1)]
    by (cases "should_handle (exps s) args e")
      (auto simp: s1_def [symmetric] Let_def intro: only_exps_trans, auto simp: s1_def)
qed

lemma ExplainMatchResultTo_returns:
  assumes "engine_inv xs" and "e < length xs"
  shows "ExplainMatchResultTo env args xs e \<noteq> None"
proof -
  obtain ok where "all_prerequisites_satisfied xs e = Some ok"
    using all_prerequisites_satisfied_spec [OF engine_invD(1) [OF assms(1)] assms(2)] by blast
  moreover obtain u where "FindUnsatisfiedPrerequisites (length xs) xs e [] = Some u"
    using FindUnsatisfiedPrerequisites_spec [OF assms(1) assms(2) assms(2)] by blast
  ultimately show ?thesis by (auto simp: ExplainMatchResultTo_def Let_def)
qed

lemma PrintTried_returns:
  assumes "engine_inv (exps s)" and "set (mocker_expectations (mockers s ! m)) \<subseteq> {e. e < length (exps s)}"
  shows "\<exists>t. PrintTriedExpectationsLocked env m args s = Some t"
proof -
  have "\<exists>t. tried_loop env args (exps s) n i es = Some t" if "set es \<subseteq> {e. e < length (exps s)}" for n i es
    using that
  proof (induction es arbitrary: i)
    case (Cons e es)
    then obtain t where "tried_loop env args (exps s) n (i + 1) es = Some t" by fastforce
    moreover obtain w where "ExplainMatchResultTo env args (exps s) e = Some w"
      using ExplainMatchResultTo_returns [OF assms(1)] Cons.prems by fastforce
    ultimately show ?case by simp
  qed simp
  from this [OF assms(2), of "length (mocker_expectations (mockers s ! m))" 0]
  show ?thesis by (auto simp: PrintTriedExpectationsLocked_def Let_def)
qed

lemma next_action_current:
  assumes "engine_inv xs" and "e < length xs" and "\<not> IsSaturated (xs ! e)"
  shows "fst (GetCurrentAction env t (handled e xs ! e)) = next_action (xs ! e)"
proof -
  have "0 \<le> call_count (xs ! e)" using engine_invD(3) [OF assms(1,2)] by (simp add: exp_inv_def)
  then show ?thesis
    by (auto simp: GetCurrentAction_def Let_def next_action_def
        handled_nth [OF engine_invD(1) [OF assms(1)] assms(2,2)])
qed

lemma same_state_next:
  "same_state x y \<Longrightarrow> next_action y = next_action x \<and> IsSaturated y = IsSaturated x"
  by (simp add: same_state_def next_action_def IsSaturated_def)

text \<open>
  The expectation that takes a call of mocker \<open>m\<close>: the newest of its expectations that should handle
  the arguments.  \<open>chosen\<close> adds whether the call is excessive.
\<close>

definition chosen :: "('v, 'r) gmock \<Rightarrow> nat \<Rightarrow> 'v list \<Rightarrow> (nat \<times> bool) option" where
  "chosen s m args =
    map_option (\<lambda>e. (e, IsSaturated (exps s ! e)))
      (find (should_handle (exps s) args) (rev (mocker_expectations (mockers s ! m))))"

definition chosen_action :: "('v, 'r) gmock \<Rightarrow> (nat \<times> bool) option \<Rightarrow> ('v, 'r) mock_action option" where
  "chosen_action s c =
    (case c of
       Some (e, False) \<Rightarrow>
         (case next_action (exps s ! e) of DoDefault \<Rightarrow> None | Perform f \<Rightarrow> Some (Perform f))
     | _ \<Rightarrow> None)"

lemma UntypedFindMatchingExpectation_spec:
  assumes "mock_ok s" and "m < length (mockers s)"
  shows "\<exists>what why s' ys.
    UntypedFindMatchingExpectation env m args s =
      Some (chosen s m args, chosen_action s (chosen s m args), what, why, s')
    \<and> list_all2 same_state (exps s) ys \<and> only_exps s s'
    \<and> exps s' = (case chosen s m args of None \<Rightarrow> ys | Some (e, _) \<Rightarrow> handled e ys)"
proof -
  have inv: "engine_inv (exps s)" using assms(1) by (simp add: mock_ok_def)
  have es: "set (mocker_expectations (mockers s ! m)) \<subseteq> {e. e < length (exps s)}"
    using assms nth_mem [OF assms(2)] by (simp add: mock_ok_def)
  obtain s1 where f: "FindMatchingExpectationLocked env m args s =
      Some (find (should_handle (exps s) args) (rev (mocker_expectations (mockers s ! m))), s1)"
    and same: "list_all2 same_state (exps s) (exps s1)" and only: "only_exps s s1"
    using find_matching_loop_spec [OF inv, of "rev (mocker_expectations (mockers s ! m))" env args] es
    by (auto simp: FindMatchingExpectationLocked_def)
  have inv1: "engine_inv (exps s1)" using same_state_inv(1) [OF same] inv by simp
  have len: "length (exps s1) = length (exps s)" using same by (simp add: list_all2_lengthD)
  show ?thesis
  proof (cases "find (should_handle (exps s) args) (rev (mocker_expectations (mockers s ! m)))")
    case None
    have "mockers s1 = mockers s" using only by (simp add: only_exps_def)
    then obtain t where "PrintTriedExpectationsLocked env m args s1 = Some t"
      using PrintTried_returns [OF inv1, of m env args] es len by auto
    with None f same only show ?thesis
      by (auto simp: UntypedFindMatchingExpectation_def chosen_def chosen_action_def)
  next
    case (Some e)
    then have "e < length (exps s)" using es find_SomeD [OF Some] by auto
    then have e1: "e < length (exps s1)" by (simp add: len)
    have s: "next_action (exps s1 ! e) = next_action (exps s ! e)"
      "IsSaturated (exps s1 ! e) = IsSaturated (exps s ! e)"
      using same_state_next list_all2_nthD [OF same] e1 len by auto
    have "\<exists>what why evs.
      GetActionForArguments env (DescribeDefaultActionTo args (mockers s1 ! m)) e (exps s1) =
        Some (if IsSaturated (exps s ! e) then None else Some (next_action (exps s ! e)),
          what, why, handled e (exps s1), evs)"
      using GetActionForArguments_spec [OF inv1 e1, of env "DescribeDefaultActionTo args (mockers s1 ! m)"]
        next_action_current [OF inv1 e1] s
      by (cases "IsSaturated (exps s ! e)") simp_all
    then obtain what why evs where g:
      "GetActionForArguments env (DescribeDefaultActionTo args (mockers s1 ! m)) e (exps s1) =
        Some (if IsSaturated (exps s ! e) then None else Some (next_action (exps s ! e)),
          what, why, handled e (exps s1), evs)" by blast
    with Some f s(2) same only show ?thesis
      by (auto simp: UntypedFindMatchingExpectation_def chosen_def chosen_action_def Let_def
          split: mock_action.splits)
  qed
qed

text \<open>The whole call: the result of the action is passed on, and reporting changes nothing else.\<close>

lemma report_result:
  assumes "only_exps s s'"
  shows "\<exists>oc s''.
    (if b then Some (X, c, s')
     else case Y of
            Returned r \<Rightarrow> Some (Returned r, c, Gmock_Mock.emit (g r) s')
          | Threw t \<Rightarrow> Some (Threw t, c, s')
          | Aborted t \<Rightarrow> Some (Aborted t, c, s')) = Some (oc, c, s'')
    \<and> exps s'' = exps s' \<and> only_exps s s'' \<and> (oc = X \<or> oc = Y)"
  using assms by (cases Y) auto

lemma UntypedInvokeWith_spec:
  assumes "mock_ok s" and "m < length (mockers s)"
  shows "\<exists>oc s' ys. UntypedInvokeWith env m args s = Some (oc, chosen s m args, s')
    \<and> list_all2 same_state (exps s) ys \<and> only_exps s s'
    \<and> exps s' = (case chosen s m args of None \<Rightarrow> ys | Some (e, _) \<Rightarrow> handled e ys)
    \<and> (\<forall>f. chosen_action s (chosen s m args) = Some (Perform f) \<longrightarrow> oc = Returned (f args))
    \<and> (chosen_action s (chosen s m args) = None \<longrightarrow>
         (mocker_expectations (mockers s ! m) = [] \<and> MockObject m s = None)
         \<or> (\<exists>desc. oc = PerformDefaultAction args desc (mockers s ! m)))"
proof (cases "mocker_expectations (mockers s ! m) = []")
  case True
  have same: "list_all2 same_state (exps s) (exps s)" by (simp add: list.rel_refl)
  have ch: "chosen s m args = None" "chosen_action s None = None"
    using True by (simp_all add: chosen_def chosen_action_def)
  show ?thesis
  proof (cases "MockObject m s")
    case None
    with True same ch show ?thesis by (simp add: UntypedInvokeWith_def Let_def)
  next
    case (Some obj)
    define desc where "desc = UntypedDescribeUninterestingCall env args (mockers s ! m)"
    have "\<exists>oc s'. UntypedInvokeWith env m args s = Some (oc, None, s') \<and> exps s' = exps s \<and> only_exps s s'
        \<and> (oc = PerformDefaultAction args '''' (mockers s ! m) \<or> oc = PerformDefaultAction args desc (mockers s ! m))"
      using True Some
      unfolding UntypedInvokeWith_def Let_def desc_def [symmetric]
      by (cases "PerformDefaultAction args desc (mockers s ! m)") (auto split: CallReaction.splits)
    with same ch show ?thesis by auto
  qed
next
  case False
  obtain what why s' ys where f: "UntypedFindMatchingExpectation env m args s =
      Some (chosen s m args, chosen_action s (chosen s m args), what, why, s')"
    and rest: "list_all2 same_state (exps s) ys" "only_exps s s'"
      "exps s' = (case chosen s m args of None \<Rightarrow> ys | Some (e, _) \<Rightarrow> handled e ys)"
    using UntypedFindMatchingExpectation_spec [OF assms, of env args] by blast
  define perform where "perform = (\<lambda>desc. case chosen_action s (chosen s m args) of
      None \<Rightarrow> PerformDefaultAction args desc (mockers s ! m) | Some a \<Rightarrow> Action_Perform a args)"
  define ss where "ss = what @ ''    Function call: '' @ mock_name (mockers s ! m) @ PrintArgs env args"
  have "\<exists>oc s''. UntypedInvokeWith env m args s = Some (oc, chosen s m args, s'')
      \<and> exps s'' = exps s' \<and> only_exps s s'' \<and> (oc = perform '''' \<or> oc = perform ss)"
    unfolding UntypedInvokeWith_def Let_def if_not_P [OF False] f option.case prod.case perform_def ss_def
    by (rule report_result [OF rest(2)])
  then obtain oc desc s'' where res: "UntypedInvokeWith env m args s = Some (oc, chosen s m args, s'')"
    "oc = perform desc" "only_exps s s''" "exps s'' = exps s'" by blast
  have "\<forall>f. chosen_action s (chosen s m args) = Some (Perform f) \<longrightarrow> oc = Returned (f args)"
    "chosen_action s (chosen s m args) = None \<longrightarrow> oc = PerformDefaultAction args desc (mockers s ! m)"
    using res(2) by (simp_all add: perform_def Action_Perform_def)
  with res rest show ?thesis by auto
qed

section \<open>Every step\<close>

text \<open>What a step may do to the expectations that exist.\<close>

definition exps_grow :: "('v, 'r) exps \<Rightarrow> ('v, 'r) exps \<Rightarrow> bool" where
  "exps_grow xs ys \<longleftrightarrow>
    length xs \<le> length ys
    \<and> (\<forall>e < length xs.
         immediate_prerequisites (ys ! e) = immediate_prerequisites (xs ! e)
         \<and> cardinality (ys ! e) = cardinality (xs ! e)
         \<and> call_count (xs ! e) \<le> call_count (ys ! e) \<and> (retired (xs ! e) \<longrightarrow> retired (ys ! e)))"

lemma exps_grow_refl [simp]: "exps_grow xs xs"
  by (simp add: exps_grow_def)

lemma exps_growD:
  assumes "exps_grow xs ys" and "e < length xs"
  shows "e < length ys" "immediate_prerequisites (ys ! e) = immediate_prerequisites (xs ! e)"
    "cardinality (ys ! e) = cardinality (xs ! e)" "call_count (xs ! e) \<le> call_count (ys ! e)"
    "retired (xs ! e) \<Longrightarrow> retired (ys ! e)"
  using assms by (auto simp: exps_grow_def)

lemma exps_grow_trans:
  assumes "exps_grow xs ys" and "exps_grow ys zs"
  shows "exps_grow xs zs"
proof -
  have "length xs \<le> length zs" using assms by (simp add: exps_grow_def)
  moreover have "immediate_prerequisites (zs ! e) = immediate_prerequisites (xs ! e)
      \<and> cardinality (zs ! e) = cardinality (xs ! e)
      \<and> call_count (xs ! e) \<le> call_count (zs ! e) \<and> (retired (xs ! e) \<longrightarrow> retired (zs ! e))"
    if "e < length xs" for e
    using exps_growD [OF assms(1) that] exps_growD [OF assms(2) exps_growD(1) [OF assms(1) that]] by auto
  ultimately show ?thesis by (simp add: exps_grow_def)
qed

lemma exps_grow_ancestors:
  assumes "exps_grow xs ys" and "exps_wf xs" and "e < length xs"
  shows "ancestors ys e = ancestors xs e"
  using assms(3)
proof (induction e rule: less_induct)
  case (less e)
  have pre: "immediate_prerequisites (ys ! e) = immediate_prerequisites (xs ! e)" "length xs \<le> length ys"
    using assms(1) less.prems by (auto simp: exps_grow_def)
  have "ancestors ys p = ancestors xs p" if "p \<in> set (immediate_prerequisites (xs ! e))" for p
    using less.IH [of p] exps_wfD [OF assms(2) less.prems that] less.prems by simp
  then show ?case using pre less.prems by (simp add: ancestors_unfold)
qed

lemma exps_grow_append: "exps_grow xs (xs @ ys)"
  by (simp add: exps_grow_def nth_append)

lemma exps_grow_same: "list_all2 same_state xs ys \<Longrightarrow> exps_grow xs ys"
  by (auto simp: exps_grow_def list_all2_conv_all_nth same_state_def)

lemma exps_grow_handled: "exps_wf xs \<Longrightarrow> e < length xs \<Longrightarrow> exps_grow xs (handled e xs)"
  by (auto simp: exps_grow_def handled_nth Let_def)

text \<open>A step keeps the invariant, and a call is taken by an active expectation whose ancestors are
  satisfied and, unless the call is excessive, retired by it.\<close>

definition step_safe ::
  "('v, 'r) exps \<Rightarrow> (nat \<times> bool) option \<Rightarrow> ('v, 'r) exps \<Rightarrow> bool" where
  "step_safe xs l ys \<longleftrightarrow>
    (case l of
       None \<Rightarrow> True
     | Some (e, ex) \<Rightarrow>
         e < length xs \<and> \<not> retired (xs ! e) \<and> (\<forall>p \<in> ancestors xs e. IsSatisfied (xs ! p))
         \<and> call_count (ys ! e) = call_count (xs ! e) + 1
         \<and> ex = IsSaturated (xs ! e)
         \<and> (\<not> ex \<longrightarrow> (\<forall>p \<in> ancestors xs e. retired (ys ! p))))"

lemma call_step:
  assumes "mock_ok s" and "m < length (mockers s)"
    and "UntypedInvokeWith env m args s = Some (oc, fnd, s')"
  shows "mock_ok s' \<and> exps_grow (exps s) (exps s') \<and> step_safe (exps s) fnd (exps s')"
proof -
  have inv: "engine_inv (exps s)" using assms(1) by (simp add: mock_ok_def)
  obtain ys where ys: "list_all2 same_state (exps s) ys" "only_exps s s'" "fnd = chosen s m args"
    "exps s' = (case chosen s m args of None \<Rightarrow> ys | Some (e, _) \<Rightarrow> handled e ys)"
    using UntypedInvokeWith_spec [OF assms(1,2), of env args] assms(3) by auto
  note eq = same_state_inv [OF ys(1)]
  have len: "length ys = length (exps s)" using ys(1) by (simp add: list_all2_lengthD)
  have ok: "mock_ok s'" if "engine_inv (exps s')" "length (exps s') = length (exps s)"
    using that assms(1) ys(2) by (simp add: mock_ok_def only_exps_def)
  show ?thesis
  proof (cases "find (should_handle (exps s) args) (rev (mocker_expectations (mockers s ! m)))")
    case None
    with ys eq inv len ok show ?thesis by (simp add: chosen_def step_safe_def exps_grow_same)
  next
    case (Some e)
    have "set (mocker_expectations (mockers s ! m)) \<subseteq> {e. e < length (exps s)}"
      using assms(1) nth_mem [OF assms(2)] by (simp add: mock_ok_def)
    with find_SomeD [OF Some] have e: "e < length (exps s)" "should_handle (exps s) args e" by auto
    have s': "exps s' = handled e ys" "fnd = Some (e, IsSaturated (exps s ! e))"
      using Some ys(3,4) by (simp_all add: chosen_def)
    have st: "same_state (exps s ! i) (ys ! i)" if "i < length (exps s)" for i
      using ys(1) that by (rule list_all2_nthD)
    have anc: "ancestors ys e = ancestors (exps s) e" "p \<in> ancestors (exps s) e \<Longrightarrow> p < length (exps s)" for p
      using eq(2) ancestors_less [OF engine_invD(1) [OF inv], of p e] e(1) by auto
    have inv': "engine_inv ys" using eq(1) inv by simp
    have hd: "\<not> retired (ys ! e)" "\<forall>p \<in> ancestors ys e. IsSatisfied (ys ! p)"
      using e anc eq(3) st [OF e(1)] by (auto simp: should_handle_def same_state_def)
    have sat: "IsSaturated (ys ! e) = IsSaturated (exps s ! e)" "call_count (ys ! e) = call_count (exps s ! e)"
      using same_state_next [OF st [OF e(1)]] st [OF e(1)] by (simp_all add: same_state_def)
    have "mock_ok s'"
      using engine_inv_handled [OF inv' _ hd] e(1) len by (intro ok) (simp_all add: s'(1))
    moreover have "exps_grow (exps s) (exps s')"
      unfolding s'(1) using e(1) len engine_invD(1) [OF inv']
      by (intro exps_grow_trans [OF exps_grow_same [OF ys(1)] exps_grow_handled]) auto
    moreover have "step_safe (exps s) fnd (exps s')"
      using e sat anc len engine_invD(1) [OF inv']
      by (auto simp: step_safe_def s' should_handle_def handled_nth Let_def)
    ultimately show ?thesis by blast
  qed
qed

lemma mock_step_ok:
  assumes "mock_step env s l s'" and "mock_ok s"
  shows "mock_ok s' \<and> exps_grow (exps s) (exps s') \<and> step_safe (exps s) l (exps s')"
proof -
  have fr: ?thesis if "frame s s'" "l = None"
    using that assms(2) frame_ok by (auto simp: frame_def step_safe_def)
  from assms(1) show ?thesis
  proof cases
    case (new_mocker k)
    then show ?thesis using assms(2) by (auto simp: mock_ok_def step_safe_def)
  next
    case (expect m ti fl line obj cl mts e s1 cs)
    have "e = length (exps s)" "stmt_ok (exps s) s1" "length (sequences s1) = length (sequences s)"
      using InternalExpectedAt_stmt [OF assms(2) expect(2,3)] by auto
    then have st: "stmt_ok (exps s) s'"
      using expect(4,5) stmt_ok_clauses [of "exps s" s1 cs env s'] by simp
    moreover have "engine_inv (exps s)" using assms(2) by (simp add: mock_ok_def)
    ultimately have "mock_ok s'" by (rule stmt_done [rotated])
    moreover have "exps_grow (exps s) (exps s')" using st exps_grow_append by (auto simp: stmt_ok_def)
    ultimately show ?thesis using expect(1) by (simp add: step_safe_def)
  next
    case (on_call m ti fl line obj cl mts s1 fs)
    have "frame s s1"
      using on_call(4)
      by (auto simp: InternalDefaultActionSetAt_def AddNewOnCallSpec_def split: option.splits
          intro!: frame_trans [OF frame_trans [OF frame_updates(1) frame_updates(4)] frame_upd_mocker])
    then show ?thesis using on_call(1,2) by (intro fr) (auto intro: frame_trans frame_fold frame_mocker_ops)
  next
    case sequence
    then show ?thesis using assms(2) by (auto simp: mock_ok_def step_safe_def new_Sequence_def less_SucI)
  next
    case enter_sequence
    then show ?thesis
      using assms(2)
      by (auto simp: mock_ok_def step_safe_def InSequence_constructor_def new_Sequence_def split: option.splits)
  next
    case (leave_sequence created)
    then show ?thesis using assms(2) by (auto simp: mock_ok_def step_safe_def InSequence_destructor_def)
  next
    case (call m args oc)
    then show ?thesis using call_step [OF assms(2)] by blast
  qed (use fr in \<open>simp_all add: frame_mocker_ops frame_verify\<close>)
qed

lemma mock_run_append:
  "mock_run env s (a @ b) s'' \<longleftrightarrow> (\<exists>s'. mock_run env s a s' \<and> mock_run env s' b s'')"
proof
  assume "mock_run env s (a @ b) s''"
  then show "\<exists>s'. mock_run env s a s' \<and> mock_run env s' b s''"
  proof (induction s "a @ b" s'' arbitrary: b rule: mock_run.induct)
    case (run_refl s)
    then show ?case by (auto intro: mock_run.intros)
  next
    case (run_step s tr s' l s'')
    show ?case
    proof (cases b rule: rev_cases)
      case Nil
      with run_step show ?thesis by (metis append_Nil2 mock_run.simps)
    next
      case (snoc b' y)
      with run_step show ?thesis by (metis append_assoc append1_eq_conv mock_run.run_step)
    qed
  qed
next
  assume "\<exists>s'. mock_run env s a s' \<and> mock_run env s' b s''"
  then obtain s' where "mock_run env s' b s''" "mock_run env s a s'" by blast
  then show "mock_run env s (a @ b) s''"
    by (induction rule: mock_run.induct) (auto intro: mock_run.intros simp: append_assoc [symmetric] simp del: append_assoc)
qed

inductive_cases mock_run_NilE: "mock_run env s [] s'"
inductive_cases mock_run_snocE: "mock_run env s (tr @ [l]) s'"

lemma mock_run_single: "mock_run env s [l] s' \<Longrightarrow> mock_step env s l s'"
  using mock_run_snocE [of env s "[]" l s'] by (auto elim: mock_run_NilE)

lemma mock_run_ok:
  "mock_run env s tr s' \<Longrightarrow> mock_ok s \<Longrightarrow> mock_ok s' \<and> exps_grow (exps s) (exps s')"
  by (induction rule: mock_run.induct) (auto dest: mock_step_ok intro: exps_grow_trans)

text \<open>An expectation that is retired takes no further call.\<close>

lemma retired_takes_no_call:
  "mock_run env s tr s' \<Longrightarrow> mock_ok s \<Longrightarrow> p < length (exps s) \<Longrightarrow> retired (exps s ! p)
    \<Longrightarrow> Some (p, ex) \<notin> set tr"
proof (induction rule: mock_run.induct)
  case (run_step s tr s' l s'')
  have "mock_ok s'" "exps_grow (exps s) (exps s')" using mock_run_ok [OF run_step.hyps(1) run_step.prems(1)] by auto
  moreover from this(2) have "retired (exps s' ! p)" using exps_growD run_step.prems by blast
  ultimately have "l \<noteq> Some (p, ex)"
    using mock_step_ok [OF run_step.hyps(2)] by (auto simp: step_safe_def)
  with run_step show ?case by auto
qed simp

section \<open>Verification\<close>

definition within_bounds :: "('v, 'r) expectation \<Rightarrow> bool" where
  "within_bounds x \<longleftrightarrow> card_min (cardinality x) \<le> call_count x \<and> call_count x \<le> card_max (cardinality x)"

lemma verify_expectation_spec:
  assumes "card_ok (cardinality x)"
  shows "fst (verify_expectation x) \<longleftrightarrow> within_bounds x"
    and "snd (verify_expectation x) = [] \<longleftrightarrow> card_min (cardinality x) \<le> call_count x"
  using assms
  by (auto simp: verify_expectation_def IsOverSaturated_def IsSatisfied_def count_defs within_bounds_def
      card_ok_def Expect_def)

definition mocker_met :: "('v, 'r) gmock \<Rightarrow> (('v, 'r) expectation \<Rightarrow> bool) \<Rightarrow> nat \<Rightarrow> bool" where
  "mocker_met s P m \<longleftrightarrow> (\<forall>e \<in> set (mocker_expectations (mockers s ! m)). P (exps s ! e))"

lemma verify_loop_spec:
  assumes "mock_ok s" and "set ms \<subseteq> {m. m < length (mockers s)}"
  shows "\<exists>s' evs. verify_loop ms b s = (b \<and> (\<forall>m \<in> set ms. mocker_met s within_bounds m), s')
    \<and> gmock_events s' = gmock_events s @ evs
    \<and> (evs = [] \<longleftrightarrow> (\<forall>m \<in> set ms. mocker_met s (\<lambda>x. card_min (cardinality x) \<le> call_count x) m))
    \<and> (\<forall>m \<in> set ms. mocker_expectations (mockers s' ! m) = [])
    \<and> (\<forall>m. mocker_expectations (mockers s ! m) = [] \<longrightarrow> m < length (mockers s) \<longrightarrow>
         mocker_expectations (mockers s' ! m) = [])"
  using assms
proof (induction ms arbitrary: b s)
  case Nil
  then show ?case by simp
next
  case (Cons m ms)
  have m: "m < length (mockers s)" using Cons.prems(2) by simp
  obtain ok s1 where v: "mocker_VerifyAndClearExpectationsLocked m s = (ok, s1)" by fastforce
  define es where "es = mocker_expectations (mockers s ! m)"
  define evs where "evs = concat (map (\<lambda>e. snd (verify_expectation (exps s ! e))) es)"
  have "set es \<subseteq> {e. e < length (exps s)}" using Cons.prems(1) nth_mem [OF m] by (simp add: mock_ok_def es_def)
  then have card: "card_ok (cardinality (exps s ! e))" if "e \<in> set es" for e
    using Cons.prems(1) that by (auto simp: mock_ok_def engine_inv_def exp_inv_def)
  have ok: "ok = mocker_met s within_bounds m"
    using v verify_expectation_spec(1) [OF card]
    by (auto simp: mocker_VerifyAndClearExpectationsLocked_def Let_def mocker_met_def es_def [symmetric]
        list_all_iff)
  have s1: "s1 = upd_mocker m (\<lambda>k. k\<lparr>mocker_expectations := []\<rparr>) (Gmock_Mock.emit evs s)"
    using v by (simp add: mocker_VerifyAndClearExpectationsLocked_def Let_def evs_def es_def comp_def)
  have evs: "evs = [] \<longleftrightarrow> mocker_met s (\<lambda>x. card_min (cardinality x) \<le> call_count x) m"
    using verify_expectation_spec(2) [OF card] by (auto simp: evs_def mocker_met_def es_def [symmetric])
  have mk: "mocker_expectations (mockers s1 ! m') =
      (if m' = m then [] else mocker_expectations (mockers s ! m'))" for m'
    using m by (simp add: s1 upd_mocker_def)
  have met: "mocker_met s1 P m' = (m' = m \<or> mocker_met s P m')" for P m'
    by (simp add: mocker_met_def mk) (simp add: s1)
  have len: "length (mockers s1) = length (mockers s)" by (simp add: s1)
  have ok1: "mock_ok s1" using frame_ok [OF frame_mocker_ops(3) Cons.prems(1), of m] v by simp
  have ms: "set ms \<subseteq> {m. m < length (mockers s1)}" using Cons.prems(2) len by simp
  obtain s' evs' where IH: "verify_loop ms (if \<not> ok then False else b) s1 =
      ((if \<not> ok then False else b) \<and> (\<forall>m \<in> set ms. mocker_met s1 within_bounds m), s')"
    "gmock_events s' = gmock_events s1 @ evs'"
    "evs' = [] \<longleftrightarrow> (\<forall>m \<in> set ms. mocker_met s1 (\<lambda>x. card_min (cardinality x) \<le> call_count x) m)"
    "\<forall>m \<in> set ms. mocker_expectations (mockers s' ! m) = []"
    "\<forall>m. mocker_expectations (mockers s1 ! m) = [] \<longrightarrow> m < length (mockers s1) \<longrightarrow>
         mocker_expectations (mockers s' ! m) = []"
    using Cons.IH [OF ok1 ms, of "if \<not> ok then False else b"] by blast
  have "gmock_events s1 = gmock_events s @ evs" by (simp add: s1 upd_mocker_def emit_def)
  then have "gmock_events s' = gmock_events s @ (evs @ evs')" using IH(2) by simp
  moreover have "evs @ evs' = [] \<longleftrightarrow>
      (\<forall>m \<in> set (m # ms). mocker_met s (\<lambda>x. card_min (cardinality x) \<le> call_count x) m)"
    using evs IH(3) met by auto
  moreover have "verify_loop (m # ms) b s =
      (b \<and> (\<forall>m \<in> set (m # ms). mocker_met s within_bounds m), s')"
    using IH(1) ok met by (auto simp: v)
  moreover have "\<forall>m' \<in> set (m # ms). mocker_expectations (mockers s' ! m') = []"
    using IH(4,5) mk m len by auto
  moreover have "\<forall>m'. mocker_expectations (mockers s ! m') = [] \<longrightarrow> m' < length (mockers s) \<longrightarrow>
         mocker_expectations (mockers s' ! m') = []"
    using IH(5) mk len by auto
  ultimately show ?case by blast
qed

section \<open>Guarantees\<close>

lemma mock_run_new: "mock_run env new_gmock tr s \<Longrightarrow> mock_ok s"
  using mock_run_ok mock_ok_new by blast

text \<open>
  C28.  Dispatch of a mock call: after any sequence of statements and calls, a call of a function
  mocker returns; it is handled by the newest expectation of the mocker that is active, has all
  (transitive) pre-requisites satisfied and matches the arguments, and by none if there is no such
  expectation.  The call counts of the others stay.  A call that is not excessive performs the next
  \<open>WillOnce\<close> action, after the last of them the \<open>WillRepeatedly\<close> action, and its result is returned;
  otherwise the default action is performed.
\<close>

theorem mock_dispatch_exact:
  assumes "mock_run env new_gmock tr s" and "m < length (mockers s)"
  shows "\<exists>oc s'. UntypedInvokeWith env m args s = Some (oc, chosen s m args, s')
    \<and> (\<forall>i < length (exps s). call_count (exps s' ! i) =
         call_count (exps s ! i) + (if map_option fst (chosen s m args) = Some i then 1 else 0))
    \<and> (case chosen_action s (chosen s m args) of
         Some act \<Rightarrow> \<exists>f. act = Perform f \<and> oc = Returned (f args)
       | None \<Rightarrow> (mocker_expectations (mockers s ! m) = [] \<and> MockObject m s = None)
                \<or> (\<exists>desc. oc = PerformDefaultAction args desc (mockers s ! m)))"
proof -
  have ok: "mock_ok s" using mock_run_new [OF assms(1)] .
  then have inv: "engine_inv (exps s)" by (simp add: mock_ok_def)
  obtain oc s' ys where r: "UntypedInvokeWith env m args s = Some (oc, chosen s m args, s')"
    "list_all2 same_state (exps s) ys"
    "exps s' = (case chosen s m args of None \<Rightarrow> ys | Some (e, _) \<Rightarrow> handled e ys)"
    "\<forall>f. chosen_action s (chosen s m args) = Some (Perform f) \<longrightarrow> oc = Returned (f args)"
    "chosen_action s (chosen s m args) = None \<longrightarrow>
         (mocker_expectations (mockers s ! m) = [] \<and> MockObject m s = None)
         \<or> (\<exists>desc. oc = PerformDefaultAction args desc (mockers s ! m))"
    using UntypedInvokeWith_spec [OF ok assms(2), of env args] by (elim exE conjE) (rule that)
  have len: "length ys = length (exps s)" using r(2) by (simp add: list_all2_lengthD)
  have wf: "exps_wf ys" using same_state_inv(1) [OF r(2)] inv by (simp add: engine_invD)
  have "call_count (exps s' ! i) =
      call_count (exps s ! i) + (if map_option fst (chosen s m args) = Some i then 1 else 0)"
    if i: "i < length (exps s)" for i
  proof -
    have c: "call_count (ys ! i) = call_count (exps s ! i)"
      using list_all2_nthD [OF r(2) i] by (simp add: same_state_def)
    show ?thesis
    proof (cases "chosen s m args")
      case None
      with r(3) c show ?thesis by simp
    next
      case (Some ch)
      obtain e ex where ch: "ch = (e, ex)" by (cases ch)
      have "e < length (exps s)"
        using call_step [OF ok assms(2) r(1)] Some ch by (auto simp: step_safe_def)
      with Some ch r(3) c i len show ?thesis by (simp add: handled_nth [OF wf] Let_def)
    qed
  qed
  moreover have "chosen_action s (chosen s m args) = Some act \<Longrightarrow> \<exists>f. act = Perform f" for act
    by (cases act) (auto simp: chosen_action_def split: option.splits prod.splits bool.splits mock_action.splits)
  ultimately show ?thesis using r(1,4,5) by (auto split: option.split)
qed

text \<open>
  C29.  Order of mock calls: when an expectation has handled a call that was not excessive, its
  pre-requisites and theirs (the members before it in its sequences and those of its \<open>After\<close> clauses)
  are satisfied, and none of them handles a call ever after.
\<close>

theorem mock_calls_ordered:
  assumes "mock_run env new_gmock (tr1 @ [Some (e, False)] @ tr2) s"
    and "p \<in> ancestors (exps s) e"
  shows "Some (p, ex) \<notin> set tr2 \<and> within_bounds (exps s ! p)"
proof -
  obtain s1 s2 where run: "mock_run env new_gmock tr1 s1" "mock_step env s1 (Some (e, False)) s2"
    "mock_run env s2 tr2 s"
    using assms(1) unfolding mock_run_append by (blast dest: mock_run_single)
  note ok1 = mock_run_new [OF run(1)]
  have st: "mock_ok s2" "exps_grow (exps s1) (exps s2)" "step_safe (exps s1) (Some (e, False)) (exps s2)"
    using mock_step_ok [OF run(2) ok1] by auto
  have fin: "mock_ok s" "exps_grow (exps s2) (exps s)" using mock_run_ok [OF run(3) st(1)] by auto
  have wf: "exps_wf (exps s1)" using ok1 by (simp add: mock_ok_def engine_invD)
  have e: "e < length (exps s1)" using st(3) by (simp add: step_safe_def)
  have p: "p \<in> ancestors (exps s1) e"
    using assms(2) exps_grow_ancestors [OF exps_grow_trans [OF st(2) fin(2)] wf e] by simp
  have pl: "p < length (exps s1)" using ancestors_less [OF wf p] e by simp
  have "retired (exps s2 ! p)" using st(3) p by (simp add: step_safe_def)
  moreover have pl2: "p < length (exps s2)" using exps_growD(1) [OF st(2) pl] .
  ultimately have "retired (exps s ! p)" "Some (p, ex) \<notin> set tr2"
    using exps_growD(5) [OF fin(2)] retired_takes_no_call [OF run(3) st(1)] by auto
  moreover have "p < length (exps s)" using exps_growD(1) [OF fin(2) pl2] .
  ultimately show ?thesis
    using fin(1) by (auto simp: mock_ok_def engine_inv_def exp_inv_def IsSatisfied_def count_defs within_bounds_def)
qed


text \<open>
  The explanation of an unexpected call: whenever the pre-requisites of an expectation are not
  all satisfied, \<open>FindUnsatisfiedPrerequisites\<close> returns at least one, and all it returns are
  unsatisfied (transitive) pre-requisites; it returns none iff \<open>AllPrerequisitesAreSatisfied\<close> returns
  true.  It does not look below pre-requisites that have been called.
\<close>

theorem unsatisfied_prerequisites_exact:
  assumes "mock_run env new_gmock tr s" and "e < length (exps s)"
  shows "\<exists>unsat. FindUnsatisfiedPrerequisites (length (exps s)) (exps s) e [] = Some unsat
    \<and> (\<forall>p \<in> set unsat. p \<in> ancestors (exps s) e \<and> \<not> within_bounds (exps s ! p))
    \<and> AllPrerequisitesAreSatisfied (length (exps s)) (exps s) e = Some (unsat = [])"
proof -
  have inv: "engine_inv (exps s)" using mock_run_new [OF assms(1)] by (simp add: mock_ok_def)
  obtain u where u: "FindUnsatisfiedPrerequisites (length (exps s)) (exps s) e [] = Some u"
    "lists_unsatisfied (exps s) (ancestors (exps s) e) [] u"
    using FindUnsatisfiedPrerequisites_spec [OF inv assms(2,2), of "[]"] by blast
  have eq: "IsSatisfied x = within_bounds x" for x :: "('a, 'b) expectation"
    by (simp add: IsSatisfied_def count_defs within_bounds_def)
  have "AllPrerequisitesAreSatisfied (length (exps s)) (exps s) e =
      Some (\<forall>p \<in> ancestors (exps s) e. IsSatisfied (exps s ! p))"
    by (rule AllPrerequisitesAreSatisfied_spec [OF engine_invD(1) [OF inv] assms(2,2)])
  moreover have "(\<forall>p \<in> ancestors (exps s) e. IsSatisfied (exps s ! p)) = (u = [])"
    using u(2) unfolding lists_unsatisfied_def by (cases u) auto
  ultimately show ?thesis using u by (auto simp: lists_unsatisfied_def eq)
qed

section \<open>A test with two ordered expectations\<close>

text \<open>
  One mock object with one function of no arguments and two expectations: the first returns 7, the
  second comes after the first and returns 9; both expect one call.
\<close>

definition demo_env :: "(nat, nat) mock_env" where
  "demo_env = \<lparr>print_value = nat_to_string, print_result = nat_to_string, stack_trace_text = (\<lambda>_. ''''),
     gmock_flags = default_gmock_flags\<rparr>"

definition demo_mocker :: "(nat, nat) mocker" where
  "demo_mocker = \<lparr>mock_obj = None, mock_name = ''f'', on_call_specs = [], mocker_expectations = [],
     returns_void = False, default_value = Some 0\<rparr>"

definition demo_owned :: "(nat, nat) gmock" where
  "demo_owned = RegisterOwner 0 5 (new_gmock\<lparr>mockers := [demo_mocker]\<rparr>)"

definition demo_expect :: "(nat, nat) clause list \<Rightarrow> (nat, nat) gmock \<Rightarrow> (nat, nat) gmock" where
  "demo_expect cs s =
    (case InternalExpectedAt demo_env None 0 ''t.cc'' 1 ''mock'' ''f()'' [] s of
       None \<Rightarrow> s
     | Some (e, s1) \<Rightarrow> (case apply_clauses demo_env e cs s1 of None \<Rightarrow> s | Some s' \<Rightarrow> s'))"

definition demo_first :: "(nat, nat) gmock" where
  "demo_first = demo_expect [Will_Once (Perform (\<lambda>_. 7))] demo_owned"

definition demo_second :: "(nat, nat) gmock" where
  "demo_second = demo_expect [After [0], Will_Once (Perform (\<lambda>_. 9))] demo_first"

definition demo_call :: "(nat, nat) gmock \<Rightarrow> (nat, nat) gmock" where
  "demo_call s = (case UntypedInvokeWith demo_env 0 [] s of None \<Rightarrow> s | Some (_, _, s') \<Rightarrow> s')"

definition demo_label :: "(nat, nat) gmock \<Rightarrow> (nat \<times> bool) option option" where
  "demo_label s = map_option (\<lambda>(_, fnd, _). fnd) (UntypedInvokeWith demo_env 0 [] s)"

definition demo_ok :: "(nat, nat) clause list \<Rightarrow> (nat, nat) gmock \<Rightarrow> bool" where
  "demo_ok cs s \<longleftrightarrow>
    0 < length (mockers s)
    \<and> (case InternalExpectedAt demo_env None 0 ''t.cc'' 1 ''mock'' ''f()'' [] s of
         None \<Rightarrow> False
       | Some (e, s1) \<Rightarrow>
           list_all (clause_ok e (length (sequences s))) cs
           \<and> (case apply_clauses demo_env e cs s1 of None \<Rightarrow> False | Some _ \<Rightarrow> True))"

lemma demo_expect_step: "demo_ok cs s \<Longrightarrow> mock_step demo_env s None (demo_expect cs s)"
  by (auto simp: demo_ok_def demo_expect_def list_all_iff intro!: mock_step.expect split: option.splits)

lemma demo_call_step:
  "demo_label s = Some l \<Longrightarrow> 0 < length (mockers s) \<Longrightarrow> mock_step demo_env s l (demo_call s)"
  by (auto simp: demo_label_def demo_call_def intro!: mock_step.call)

lemma demo_checks:
  "demo_ok [Will_Once (Perform (\<lambda>_. 7))] demo_owned"
  "demo_ok [After [0], Will_Once (Perform (\<lambda>_. 9))] demo_first"
  "demo_label demo_second = Some (Some (0, False))" "length (mockers demo_second) = 1"
  "demo_label (demo_call demo_second) = Some (Some (1, False))"
  "length (mockers (demo_call demo_second)) = 1"
  "demo_label (demo_call (demo_call demo_second)) = Some (Some (1, True))"
  "length (mockers (demo_call (demo_call demo_second))) = 1"
  by code_simp+

lemma demo_setup: "mock_run demo_env new_gmock [None, None, None, None] demo_second"
proof -
  have "mock_run demo_env new_gmock ([] @ [None]) (new_gmock\<lparr>mockers := mockers new_gmock @ [demo_mocker]\<rparr>)"
    by (intro run_step [OF run_refl] mock_step.new_mocker) (simp add: demo_mocker_def)
  then have "mock_run demo_env new_gmock [None] (new_gmock\<lparr>mockers := [demo_mocker]\<rparr>)"
    by (simp add: new_gmock_def)
  moreover have "mock_step demo_env (new_gmock\<lparr>mockers := [demo_mocker]\<rparr>) None demo_owned"
    unfolding demo_owned_def by (rule mock_step.register) simp
  ultimately have "mock_run demo_env new_gmock [None, None] demo_owned" using run_step by fastforce
  with demo_expect_step [OF demo_checks(1)] have "mock_run demo_env new_gmock [None, None, None] demo_first"
    unfolding demo_first_def using run_step by fastforce
  with demo_expect_step [OF demo_checks(2)] show ?thesis unfolding demo_second_def using run_step by fastforce
qed

lemma demo_run:
  "mock_run demo_env new_gmock
    ([None, None, None, None, Some (0, False)] @ [Some (1, False)] @ [Some (1, True)])
    (demo_call (demo_call (demo_call demo_second)))"
proof -
  have "mock_run demo_env new_gmock ([None, None, None, None] @ [Some (0, False)]) (demo_call demo_second)"
    using demo_call_step [OF demo_checks(3)] demo_checks(4) by (intro run_step [OF demo_setup]) simp
  then have "mock_run demo_env new_gmock (([None, None, None, None] @ [Some (0, False)]) @ [Some (1, False)])
      (demo_call (demo_call demo_second))"
    by (rule run_step) (use demo_call_step [OF demo_checks(5)] demo_checks(6) in simp)
  then have "mock_run demo_env new_gmock
      ((([None, None, None, None] @ [Some (0, False)]) @ [Some (1, False)]) @ [Some (1, True)])
      (demo_call (demo_call (demo_call demo_second)))"
    by (rule run_step) (use demo_call_step [OF demo_checks(7)] demo_checks(8) in simp)
  then show ?thesis by simp
qed

lemma demo_ancestor: "0 \<in> ancestors (exps (demo_call (demo_call (demo_call demo_second)))) 1"
proof -
  have "length (exps (demo_call (demo_call (demo_call demo_second)))) = 2"
    "immediate_prerequisites (exps (demo_call (demo_call (demo_call demo_second))) ! 1) = [0]" by code_simp+
  then have "(0, 1) \<in> prereq (exps (demo_call (demo_call (demo_call demo_second))))"
    by (simp add: prereq_def)
  then show ?thesis by (auto simp: ancestors_def)
qed

theorem mock_dispatch_exact_witness:
  "\<exists>oc s'. UntypedInvokeWith demo_env 0 [] demo_second = Some (oc, chosen demo_second 0 [], s')
    \<and> call_count (exps s' ! 0) = call_count (exps demo_second ! 0) +
         (if map_option fst (chosen demo_second 0 []) = Some 0 then 1 else 0)"
proof -
  have "0 < length (mockers demo_second)" "0 < length (exps demo_second)" by code_simp+
  with mock_dispatch_exact [OF demo_setup, of 0 "[]"] show ?thesis by blast
qed

theorem mock_calls_ordered_witness:
  "Some (0, False) \<notin> set [Some (1 :: nat, True)]
   \<and> within_bounds (exps (demo_call (demo_call (demo_call demo_second))) ! 0)"
  using mock_calls_ordered [OF demo_run demo_ancestor, of False] by simp


theorem unsatisfied_prerequisites_exact_witness:
  "FindUnsatisfiedPrerequisites 2 (exps demo_second) 1 [] = Some [0]
   \<and> AllPrerequisitesAreSatisfied 2 (exps demo_second) 1 = Some False"
proof -
  have len: "length (exps demo_second) = 2" by code_simp
  have find: "FindUnsatisfiedPrerequisites 2 (exps demo_second) 1 [] = Some [0]" by code_simp
  from unsatisfied_prerequisites_exact [OF demo_setup, of 1, unfolded len find] show ?thesis
    unfolding find by auto
qed

end
