(* ===== verification/Gtest_Regex.thy ===== *)
theory Gtest_Regex
  imports C_Strings Gtest_Printers
begin

text \<open>
  The simple regular expressions of googletest (\<open>gtest-port.cc\<close>, the \<open>GTEST_USES_SIMPLE_RE\<close> branch
  that is compiled where POSIX regular expressions are missing): the character classes, the
  validator with its messages, the backtracking matcher, and the class \<open>RE\<close>.  The matcher returns
  \<open>None\<close> where the C++ code would read past the NUL that ends the pattern.

  The reference is a syntax tree of anchors, atoms and repetitions, its concrete syntax and its
  language.  The validator accepts exactly the concrete syntax of the well-formed trees, and on
  these the matcher never leaves the pattern and decides the language.
\<close>

section \<open>Character classes\<close>

definition IsInSet :: "char \<Rightarrow> string \<Rightarrow> bool" where
  "IsInSet ch str \<longleftrightarrow> ch \<noteq> CHR 0x00 \<and> strchr str ch \<noteq> None"

definition IsAsciiDigit :: "char \<Rightarrow> bool" where
  "IsAsciiDigit ch \<longleftrightarrow> (48 :: nat) \<le> of_char ch \<and> (of_char ch :: nat) \<le> 57"

definition IsAsciiPunct :: "char \<Rightarrow> bool" where
  "IsAsciiPunct ch \<longleftrightarrow>
    IsInSet ch (''^-!'' @ [dquote] @ ''#$%&'' @ [CHR 0x27] @ ''()*+,./:;<=>?@['' @ [backslash] @ '']_'' @ [CHR 0x60] @ ''{|}~'')"

definition IsRepeat :: "char \<Rightarrow> bool" where
  "IsRepeat ch \<longleftrightarrow> IsInSet ch ''?*+''"

definition IsAsciiWhiteSpace :: "char \<Rightarrow> bool" where
  "IsAsciiWhiteSpace ch \<longleftrightarrow>
    IsInSet ch [CHR '' '', CHR 0x0C, CHR 0x0A, CHR 0x0D, CHR 0x09, CHR 0x0B]"

definition IsAsciiWordChar :: "char \<Rightarrow> bool" where
  "IsAsciiWordChar ch \<longleftrightarrow>
    (let n = (of_char ch :: nat) in
      97 \<le> n \<and> n \<le> 122 \<or> 65 \<le> n \<and> n \<le> 90 \<or> 48 \<le> n \<and> n \<le> 57 \<or> ch = CHR ''_'')"

definition IsValidEscape :: "char \<Rightarrow> bool" where
  "IsValidEscape c \<longleftrightarrow> IsAsciiPunct c \<or> IsInSet c ''dDfnrsStvwW''"

definition AtomMatchesChar :: "bool \<Rightarrow> char \<Rightarrow> char \<Rightarrow> bool" where
  "AtomMatchesChar escaped pattern_char ch \<longleftrightarrow>
    (if escaped then
       if pattern_char = CHR ''d'' then IsAsciiDigit ch
       else if pattern_char = CHR ''D'' then \<not> IsAsciiDigit ch
       else if pattern_char = CHR ''f'' then ch = CHR 0x0C
       else if pattern_char = CHR ''n'' then ch = CHR 0x0A
       else if pattern_char = CHR ''r'' then ch = CHR 0x0D
       else if pattern_char = CHR ''s'' then IsAsciiWhiteSpace ch
       else if pattern_char = CHR ''S'' then \<not> IsAsciiWhiteSpace ch
       else if pattern_char = CHR ''t'' then ch = CHR 0x09
       else if pattern_char = CHR ''v'' then ch = CHR 0x0B
       else if pattern_char = CHR ''w'' then IsAsciiWordChar ch
       else if pattern_char = CHR ''W'' then \<not> IsAsciiWordChar ch
       else IsAsciiPunct pattern_char \<and> pattern_char = ch
     else pattern_char = CHR ''.'' \<and> ch \<noteq> CHR 0x0A \<or> pattern_char = ch)"

section \<open>Validation\<close>

definition FormatRegexSyntaxError :: "string \<Rightarrow> nat \<Rightarrow> string" where
  "FormatRegexSyntaxError regex i =
    ''Syntax error at index '' @ nat_to_string i
    @ '' in simple regular expression '' @ [dquote] @ regex @ [dquote] @ '': ''"

text \<open>
  The loop at index \<open>i\<close>, where the pattern reads \<open>rest\<close>; \<open>errs\<close> are the messages of the failures
  added so far.  An error does not stop the loop, apart from the backslash at the end.
  \<open>plain_error\<close> is the chain of conditions on a character that is not escaped.
\<close>

definition plain_error :: "nat \<Rightarrow> char \<Rightarrow> string \<Rightarrow> bool \<Rightarrow> string option" where
  "plain_error i ch rest prev_repeatable =
    (if ch = CHR ''^'' \<and> 0 < i then
       Some ([CHR 0x27] @ ''^'' @ [CHR 0x27] @ '' can only appear at the beginning.'')
     else if ch = CHR ''$'' \<and> rest \<noteq> [] then
       Some ([CHR 0x27] @ ''$'' @ [CHR 0x27] @ '' can only appear at the end.'')
     else if IsInSet ch ''()[]{}|'' then Some ([CHR 0x27, ch, CHR 0x27] @ '' is unsupported.'')
     else if IsRepeat ch \<and> \<not> prev_repeatable then
       Some ([CHR 0x27, ch, CHR 0x27] @ '' can only follow a repeatable token.'')
     else None)"

fun validate_loop :: "string \<Rightarrow> nat \<Rightarrow> string \<Rightarrow> bool \<Rightarrow> bool \<Rightarrow> string list \<Rightarrow> string list \<times> bool" where
  "validate_loop regex i [] prev_repeatable is_valid errs = (errs, is_valid)"
| "validate_loop regex i (ch # rest) prev_repeatable is_valid errs =
    (if ch = backslash then
       (case rest of
          [] \<Rightarrow>
            (errs @ [FormatRegexSyntaxError regex i
               @ [CHR 0x27, backslash, CHR 0x27] @ '' cannot appear at the end.''], False)
        | c # rest' \<Rightarrow>
            if \<not> IsValidEscape c then
              validate_loop regex (i + 2) rest' True False
                (errs @ [FormatRegexSyntaxError regex i
                   @ ''invalid escape sequence '' @ [dquote, backslash, c, dquote] @ ''.''])
            else validate_loop regex (i + 2) rest' True is_valid errs)
     else
       (case plain_error i ch rest prev_repeatable of
          None \<Rightarrow> validate_loop regex (i + 1) rest (\<not> IsInSet ch ''^$?*+'') is_valid errs
        | Some m \<Rightarrow>
            validate_loop regex (i + 1) rest (\<not> IsInSet ch ''^$?*+'') False
              (errs @ [FormatRegexSyntaxError regex i @ m])))"

definition ValidateRegex :: "string option \<Rightarrow> string list \<times> bool" where
  "ValidateRegex regex =
    (case regex of
       None \<Rightarrow> ([''NULL is not a valid simple regular expression.''], False)
     | Some r \<Rightarrow> validate_loop r 0 r False True [])"

section \<open>Matching\<close>

text \<open>
  \<open>MatchRepetitionAndRegexAtHead\<close> after \<open>i\<close> matches of the atom, \<open>str\<close> being what is left; its caller
  \<open>MatchRegexAtHead\<close> passes the pattern after the repetition character.  \<open>repeat\<close> selects the
  bounds, which are \<open>size_t\<close> values as \<open>i\<close> is.
\<close>

definition min_count :: "char \<Rightarrow> uint64" where
  "min_count repeat = (if repeat = CHR ''+'' then 1 else 0)"

definition max_count :: "char \<Rightarrow> uint64" where
  "max_count repeat = (if repeat = CHR ''?'' then 1 else (- 1) - 1)"

function (sequential)
  MatchRegexAtHead :: "string \<Rightarrow> string \<Rightarrow> bool option" and
  MatchRepetitionAndRegexAtHead ::
    "bool \<Rightarrow> char \<Rightarrow> char \<Rightarrow> uint64 \<Rightarrow> string \<Rightarrow> string \<Rightarrow> bool option" where
  "MatchRegexAtHead [] str = Some True"
| "MatchRegexAtHead (r # regex) str =
    (if r = CHR ''$'' then Some (str = [])
     else
       let escaped = (r = backslash)
       in case (if escaped then regex else r # regex) of
            [] \<Rightarrow> None
          | c # regex' \<Rightarrow>
              (case regex' of
                 [] \<Rightarrow>
                   (case str of
                      [] \<Rightarrow> Some False
                    | ch # str' \<Rightarrow>
                        if AtomMatchesChar escaped c ch then MatchRegexAtHead [] str'
                        else Some False)
               | q # regex'' \<Rightarrow>
                   if IsRepeat q then MatchRepetitionAndRegexAtHead escaped c q 0 regex'' str
                   else
                     (case str of
                        [] \<Rightarrow> Some False
                      | ch # str' \<Rightarrow>
                          if AtomMatchesChar escaped c ch then MatchRegexAtHead regex' str'
                          else Some False)))"
| "MatchRepetitionAndRegexAtHead escaped c repeat i regex str =
    (if max_count repeat < i then Some False
     else
       case (if min_count repeat \<le> i then MatchRegexAtHead regex str else Some False) of
         None \<Rightarrow> None
       | Some True \<Rightarrow> Some True
       | Some False \<Rightarrow>
           (case str of
              [] \<Rightarrow> Some False
            | ch # str' \<Rightarrow>
                if AtomMatchesChar escaped c ch
                then MatchRepetitionAndRegexAtHead escaped c repeat (i + 1) regex str'
                else Some False))"
  by pat_completeness auto
termination
  by (relation "inv_image (less_than <*lex*> less_than <*lex*> less_than)
        (\<lambda>x. case x of Inl (r, s) \<Rightarrow> (length r, length s, 0)
                     | Inr (e, c, q, i, r, s) \<Rightarrow> (length r, length s, 1 :: nat))")
    (auto split: if_splits)

fun match_anywhere_loop :: "string \<Rightarrow> string \<Rightarrow> bool option" where
  "match_anywhere_loop regex [] = MatchRegexAtHead regex []"
| "match_anywhere_loop regex (ch # str) =
    (case MatchRegexAtHead regex (ch # str) of
       None \<Rightarrow> None
     | Some True \<Rightarrow> Some True
     | Some False \<Rightarrow> match_anywhere_loop regex str)"

definition MatchRegexAnywhere :: "string option \<Rightarrow> string option \<Rightarrow> bool option" where
  "MatchRegexAnywhere regex str =
    (case (regex, str) of
       (Some r, Some s) \<Rightarrow>
         if r \<noteq> [] \<and> hd r = CHR ''^'' then MatchRegexAtHead (tl r) s
         else match_anywhere_loop r s
     | _ \<Rightarrow> Some False)"

section \<open>The class RE\<close>

record RE =
  re_pattern :: "string option"
  re_full_pattern :: "string option"
  re_is_valid :: bool

text \<open>\<open>RE_Init\<close> also returns the messages of the failures that the validation adds.\<close>

definition RE_Init :: "string option \<Rightarrow> RE \<times> string list" where
  "RE_Init regex =
    (let (errs, valid) = ValidateRegex regex
     in case regex of
          None \<Rightarrow> (\<lparr>re_pattern = None, re_full_pattern = None, re_is_valid = valid\<rparr>, errs)
        | Some r \<Rightarrow>
            if \<not> valid then (\<lparr>re_pattern = Some r, re_full_pattern = None, re_is_valid = False\<rparr>, errs)
            else
              let len = length r;
                  b0 = (if r \<noteq> [] \<and> r ! 0 = CHR ''^'' then [] else ''^'');
                  b1 = b0 @ r;
                  b2 = (if len = 0 \<or> r ! (len - 1) \<noteq> CHR ''$'' then b1 @ ''$'' else b1)
              in (\<lparr>re_pattern = Some r, re_full_pattern = Some b2, re_is_valid = True\<rparr>, errs))"

definition FullMatch :: "string option \<Rightarrow> RE \<Rightarrow> bool option" where
  "FullMatch str re = (if re_is_valid re then MatchRegexAnywhere (re_full_pattern re) str else Some False)"

definition PartialMatch :: "string option \<Rightarrow> RE \<Rightarrow> bool option" where
  "PartialMatch str re = (if re_is_valid re then MatchRegexAnywhere (re_pattern re) str else Some False)"

section \<open>Reference syntax and language\<close>

text \<open>
  An expression is an optional \<open>^\<close>, a list of atoms with a repetition each, and an optional \<open>$\<close>.
  An atom is a character, escaped or not.
\<close>

datatype repetition = Once | Optional | Star | Plus

datatype re_item = Item (item_escaped: bool) (item_char: char) (item_rep: repetition)

datatype simple_re = Re (bol: bool) (items: "re_item list") (eol: bool)

fun show_rep :: "repetition \<Rightarrow> string" where
  "show_rep Once = ''''"
| "show_rep Optional = ''?''"
| "show_rep Star = ''*''"
| "show_rep Plus = ''+''"

fun show_item :: "re_item \<Rightarrow> string" where
  "show_item (Item e c q) = (if e then [backslash] else []) @ [c] @ show_rep q"

definition show_items :: "re_item list \<Rightarrow> string" where
  "show_items its = concat (map show_item its)"

fun show_re :: "simple_re \<Rightarrow> string" where
  "show_re (Re b its e) = (if b then ''^'' else []) @ show_items its @ (if e then ''$'' else [])"

fun item_ok :: "re_item \<Rightarrow> bool" where
  "item_ok (Item e c q) \<longleftrightarrow>
    (if e then IsValidEscape c else c \<notin> set ([backslash] @ ''^$()[]{}|?*+''))"

definition re_ok :: "simple_re \<Rightarrow> bool" where
  "re_ok re \<longleftrightarrow> list_all item_ok (items re)"

fun rep_count :: "repetition \<Rightarrow> nat \<Rightarrow> bool" where
  "rep_count Once n \<longleftrightarrow> n = 1"
| "rep_count Optional n \<longleftrightarrow> n \<le> 1"
| "rep_count Star n \<longleftrightarrow> True"
| "rep_count Plus n \<longleftrightarrow> 1 \<le> n"

fun items_lang :: "re_item list \<Rightarrow> string set" where
  "items_lang [] = {[]}"
| "items_lang (Item e c q # its) =
    {u @ v | u v. list_all (AtomMatchesChar e c) u \<and> rep_count q (length u) \<and> v \<in> items_lang its}"

text \<open>What the expression matches at the head of a string, and anywhere in it.\<close>

definition head_match :: "re_item list \<Rightarrow> bool \<Rightarrow> string \<Rightarrow> bool" where
  "head_match its e s \<longleftrightarrow> (\<exists>u v. s = u @ v \<and> u \<in> items_lang its \<and> (e \<longrightarrow> v = []))"

fun partial_lang :: "simple_re \<Rightarrow> string \<Rightarrow> bool" where
  "partial_lang (Re b its e) s \<longleftrightarrow>
    (\<exists>w u v. s = w @ u @ v \<and> u \<in> items_lang its \<and> (b \<longrightarrow> w = []) \<and> (e \<longrightarrow> v = []))"

section \<open>The matcher decides the language\<close>

lemma backslash_code: "backslash = CHR 0x5C"
  by (simp add: backslash_def char_of_def bit_0)

lemma IsInSet_iff: "IsInSet c s \<longleftrightarrow> c \<noteq> CHR 0x00 \<and> c \<in> set s"
  by (simp add: IsInSet_def strchr_None_iff)

lemma IsRepeat_iff: "IsRepeat c \<longleftrightarrow> c \<in> {CHR ''?'', CHR ''*'', CHR ''+''}"
  by (auto simp: IsRepeat_def IsInSet_iff)

lemma head_match_Nil [simp]: "head_match [] e s \<longleftrightarrow> (e \<longrightarrow> s = [])"
  by (auto simp: head_match_def)

lemma head_match_item:
  "head_match (Item e c q # its) el s \<longleftrightarrow>
    (\<exists>u v. s = u @ v \<and> list_all (AtomMatchesChar e c) u \<and> rep_count q (length u)
       \<and> head_match its el v)"
  unfolding head_match_def items_lang.simps mem_Collect_eq by (metis append.assoc)

lemma head_match_once:
  "head_match (Item e c Once # its) el s \<longleftrightarrow>
    (case s of [] \<Rightarrow> False | ch # s' \<Rightarrow> AtomMatchesChar e c ch \<and> head_match its el s')"
proof (cases s)
  case (Cons ch s')
  show ?thesis
  proof
    assume "head_match (Item e c Once # its) el s"
    then obtain u v where "s = u @ v" "list_all (AtomMatchesChar e c) u" "length u = 1"
      "head_match its el v" by (auto simp: head_match_item)
    with Cons show "case s of [] \<Rightarrow> False | ch # s' \<Rightarrow> AtomMatchesChar e c ch \<and> head_match its el s'"
      by (cases u) auto
  next
    assume "case s of [] \<Rightarrow> False | ch # s' \<Rightarrow> AtomMatchesChar e c ch \<and> head_match its el s'"
    with Cons have "s = [ch] @ s' \<and> list_all (AtomMatchesChar e c) [ch] \<and> rep_count Once (length [ch])
        \<and> head_match its el s'" by simp
    then show "head_match (Item e c Once # its) el s" unfolding head_match_item by blast
  qed
qed (auto simp: head_match_item)

text \<open>The repetition loop, for a rest of the pattern that decides \<open>P\<close>.\<close>

lemma uint64_suc: "unat i + 1 < 2 ^ 64 \<Longrightarrow> unat (i + 1 :: uint64) = unat i + 1"
  by (simp add: unat_word_ariths(1))

lemma counts_rep:
  assumes "unat i + 1 < 2 ^ 64" and "q \<noteq> Once"
  shows "max_count (hd (show_rep q)) < i \<longleftrightarrow> q = Optional \<and> 1 < unat i"
    and "min_count (hd (show_rep q)) \<le> i \<longleftrightarrow> (q = Plus \<longrightarrow> 1 \<le> unat i)"
proof -
  have "unat ((- 1) - 1 :: uint64) = 2 ^ 64 - 2" by simp
  then show "max_count (hd (show_rep q)) < i \<longleftrightarrow> q = Optional \<and> 1 < unat i"
    using assms by (cases q) (auto simp: max_count_def word_less_nat_alt)
  show "min_count (hd (show_rep q)) \<le> i \<longleftrightarrow> (q = Plus \<longrightarrow> 1 \<le> unat i)"
    using assms by (cases q) (auto simp: min_count_def word_le_nat_alt)
qed

lemma split_head_iff:
  "(\<exists>u v. s = u @ v \<and> list_all A u \<and> N (length u) \<and> P v) \<longleftrightarrow>
    N 0 \<and> P s \<or>
    (\<exists>c s'. s = c # s' \<and> A c
      \<and> (\<exists>u v. s' = u @ v \<and> list_all A u \<and> N (Suc (length u)) \<and> P v))"
  (is "?L \<longleftrightarrow> ?R")
proof
  assume ?L
  then obtain u v where *: "s = u @ v" "list_all A u" "N (length u)" "P v" by blast
  then show ?R by (cases u) auto
next
  assume ?R
  then show ?L
  proof (elim disjE exE conjE)
    assume "N 0" "P s"
    then have "s = [] @ s \<and> list_all A [] \<and> N (length ([] :: 'a list)) \<and> P s" by simp
    then show ?L by blast
  next
    fix c s' u v
    assume "s = c # s'" "A c" "s' = u @ v" "list_all A u" "N (Suc (length u))" "P v"
    then have "s = (c # u) @ v \<and> list_all A (c # u) \<and> N (length (c # u)) \<and> P v" by simp
    then show ?L by blast
  qed
qed

lemma repetition_decides:
  assumes "\<And>t. length t \<le> length s \<Longrightarrow> MatchRegexAtHead regex t = Some (P t)"
    and "unat i + length s + 1 < 2 ^ 64" and "q \<noteq> Once"
  shows "MatchRepetitionAndRegexAtHead e c (hd (show_rep q)) i regex s =
    Some (\<exists>u v. s = u @ v \<and> list_all (AtomMatchesChar e c) u
      \<and> rep_count q (unat i + length u) \<and> P v)"
  using assms
proof (induction s arbitrary: i)
  case Nil
  have b: "unat i + 1 < 2 ^ 64" using Nil.prems(2) by simp
  have "rep_count q (unat i) \<longleftrightarrow>
      \<not> (q = Optional \<and> 1 < unat i) \<and> (q = Plus \<longrightarrow> 1 \<le> unat i)"
    using Nil.prems(3) by (cases q) auto
  with Nil.prems(1) show ?case
    by (subst MatchRepetitionAndRegexAtHead.simps)
      (auto simp: counts_rep [OF b Nil.prems(3)] split: bool.splits)
next
  case (Cons ch s)
  have IH: "MatchRepetitionAndRegexAtHead e c (hd (show_rep q)) (i + 1) regex s =
      Some (\<exists>u v. s = u @ v \<and> list_all (AtomMatchesChar e c) u
        \<and> rep_count q (Suc (unat i + length u)) \<and> P v)"
    using Cons.IH [of "i + 1"] Cons.prems by (simp add: uint64_suc)
  have P: "MatchRegexAtHead regex (ch # s) = Some (P (ch # s))" using Cons.prems(1) by simp
  note split = split_head_iff [where A = "AtomMatchesChar e c" and P = P and s = "ch # s"
      and N = "\<lambda>n. rep_count q (unat i + n)"]
  have range: "q = Optional \<and> 1 < unat i \<Longrightarrow> \<not> rep_count q (unat i + n)" for n by auto
  have low: "\<not> (q = Plus \<longrightarrow> 1 \<le> unat i) \<Longrightarrow> \<not> rep_count q (unat i + 0)" by auto
  have ok: "\<not> (q = Optional \<and> 1 < unat i) \<Longrightarrow> (q = Plus \<longrightarrow> 1 \<le> unat i)
      \<Longrightarrow> rep_count q (unat i + 0)" using Cons.prems(3) by (cases q) auto
  have b: "unat i + 1 < 2 ^ 64" using Cons.prems(2) by simp
  show ?case
    using range low ok
    unfolding split
    by (subst MatchRepetitionAndRegexAtHead.simps)
      (auto simp: P IH counts_rep [OF b Cons.prems(3)]
        simp del: MatchRepetitionAndRegexAtHead.simps split: bool.splits, use IH in simp)
qed

lemma not_repeat_head:
  assumes "list_all item_ok its"
  shows "case show_items its @ (if el then ''$'' else []) of [] \<Rightarrow> True | q # _ \<Rightarrow> \<not> IsRepeat q"
proof (cases "its")
  case Nil
  then show ?thesis by (simp add: show_items_def IsRepeat_iff)
next
  case (Cons a its')
  with assms show ?thesis
    by (cases a) (auto simp: show_items_def IsRepeat_iff backslash_code split: if_splits)
qed

lemma head_decides:
  assumes "list_all item_ok its" and "length s + 1 < 2 ^ 64"
  shows "MatchRegexAtHead (show_items its @ (if el then ''$'' else [])) s = Some (head_match its el s)"
  using assms
proof (induction "its" arbitrary: s)
  case Nil
  then show ?case by (auto simp: show_items_def)
next
  case (Cons a its)
  obtain e c q where a: "a = Item e c q" by (cases a)
  define rest where "rest = show_items its @ (if el then ''$'' else [])"
  have ok: "item_ok (Item e c q)" "list_all item_ok its" using Cons.prems(1) a by auto
  have IH: "length t \<le> length s \<Longrightarrow> MatchRegexAtHead rest t = Some (head_match its el t)" for t
    using Cons.IH [OF ok(2), of t] Cons.prems(2) rest_def by simp
  have whole: "show_items (a # its) @ (if el then ''$'' else []) =
      (if e then [backslash] else []) @ c # show_rep q @ rest"
    by (simp add: a rest_def show_items_def)
  have head: "MatchRegexAtHead ((if e then [backslash] else []) @ c # r) s =
      (case r of
         q # r' \<Rightarrow>
           if IsRepeat q then MatchRepetitionAndRegexAtHead e c q 0 r' s
           else (case s of [] \<Rightarrow> Some False | ch # s' \<Rightarrow>
             if AtomMatchesChar e c ch then MatchRegexAtHead r s' else Some False)
       | [] \<Rightarrow> (case s of [] \<Rightarrow> Some False | ch # s' \<Rightarrow>
             if AtomMatchesChar e c ch then MatchRegexAtHead r s' else Some False))" for r
    using ok(1) by (cases e) (auto simp: backslash_code split: list.splits)
  show ?case
  proof (cases "q = Once")
    case True
    have "case rest of [] \<Rightarrow> True | q # _ \<Rightarrow> \<not> IsRepeat q"
      unfolding rest_def by (rule not_repeat_head [OF ok(2)])
    then have "MatchRegexAtHead ((if e then [backslash] else []) @ c # rest) s =
        (case s of [] \<Rightarrow> Some False | ch # s' \<Rightarrow>
             if AtomMatchesChar e c ch then MatchRegexAtHead rest s' else Some False)"
      unfolding head by (cases rest) simp_all
    then have "MatchRegexAtHead ((if e then [backslash] else []) @ c # rest) s =
        Some (head_match (a # its) el s)"
      unfolding True a head_match_once using IH by (cases s) simp_all
    then show ?thesis by (simp only: whole True show_rep.simps append_Nil)
  next
    case False
    then obtain r where r: "show_rep q = [r]" "IsRepeat r"
      by (cases q) (auto simp: IsRepeat_iff)
    have "MatchRepetitionAndRegexAtHead e c r 0 rest s = Some (head_match (a # its) el s)"
      using repetition_decides [OF IH _ False, of s 0] Cons.prems(2)
      by (simp add: r(1) a head_match_item del: MatchRepetitionAndRegexAtHead.simps)
    with r(1,2) show ?thesis
      unfolding whole head by (simp del: MatchRepetitionAndRegexAtHead.simps)
  qed
qed

lemma partial_lang_suffix:
  "partial_lang (Re False its el) s \<longleftrightarrow> (\<exists>w t. s = w @ t \<and> head_match its el t)"
  unfolding head_match_def partial_lang.simps by blast

lemma anywhere_decides:
  assumes "list_all item_ok its" and "length s + 1 < 2 ^ 64"
  shows "match_anywhere_loop (show_items its @ (if el then ''$'' else [])) s =
    Some (partial_lang (Re False its el) s)"
  using assms(2)
proof (induction s)
  case Nil
  show ?case using head_decides [OF assms(1), of "[]" el] by (auto simp: head_match_def)
next
  case (Cons ch s)
  have "partial_lang (Re False its el) (ch # s) \<longleftrightarrow>
      head_match its el (ch # s) \<or> partial_lang (Re False its el) s"
    unfolding partial_lang_suffix by (auto simp: Cons_eq_append_conv)
  with Cons head_decides [OF assms(1) Cons.prems] show ?case by (auto split: bool.splits)
qed

section \<open>The validator accepts the syntax\<close>

lemma plain_error_None:
  "plain_error i ch rest prev = None \<longleftrightarrow>
    \<not> (ch = CHR ''^'' \<and> 0 < i) \<and> \<not> (ch = CHR ''$'' \<and> rest \<noteq> [])
    \<and> ch \<notin> set ''()[]{}|'' \<and> (ch \<in> set ''?*+'' \<longrightarrow> prev)"
  by (auto simp: plain_error_def IsRepeat_def IsInSet_iff)

lemmas plain_error_NoneI = plain_error_None [THEN iffD2]

lemma repeatable_iff: "\<not> IsInSet ch ''^$?*+'' \<longleftrightarrow> ch \<notin> set ''^$?*+''"
  by (auto simp: IsInSet_iff)

definition starts_caret :: "string \<Rightarrow> bool" where
  "starts_caret r \<longleftrightarrow> r \<noteq> [] \<and> hd r = CHR ''^''"

text \<open>What follows index \<open>i > 0\<close> of a valid pattern, after a repeatable token or not.\<close>

definition tail_syntax :: "bool \<Rightarrow> string \<Rightarrow> bool" where
  "tail_syntax prev rest \<longleftrightarrow>
    (\<exists>q its el. rest = show_rep q @ show_items its @ (if el then ''$'' else [])
      \<and> list_all item_ok its \<and> (q = Once \<or> prev))"

lemma tail_syntax_item:
  assumes "tail_syntax True rest" and "item_ok (Item e c Once)"
  shows "tail_syntax prev ((if e then [backslash] else []) @ c # rest)"
proof -
  obtain q its el where *: "rest = show_rep q @ show_items its @ (if el then ''$'' else [])"
    "list_all item_ok its" using assms(1) by (auto simp: tail_syntax_def)
  have "(if e then [backslash] else []) @ c # rest =
      show_rep Once @ show_items (Item e c q # its) @ (if el then ''$'' else [])
      \<and> list_all item_ok (Item e c q # its) \<and> (Once = Once \<or> prev)"
    using assms(2) *(2) by (simp add: *(1) show_items_def)
  then show ?thesis unfolding tail_syntax_def by blast
qed

lemma tail_syntax_rep:
  assumes "tail_syntax False rest" and "ch \<in> set ''?*+''"
  shows "tail_syntax True (ch # rest)"
proof -
  obtain q where "show_rep q = [ch]" using assms(2) by (auto intro: that [of Optional] that [of Star] that [of Plus])
  with assms(1) show ?thesis unfolding tail_syntax_def
    by (metis append_Cons append_Nil show_rep.simps(1))
qed

lemma tail_syntax_end: "tail_syntax prev []" "tail_syntax prev ''$''"
proof -
  have "[] = show_rep Once @ show_items [] @ (if False then ''$'' else [])
      \<and> list_all item_ok [] \<and> (Once = Once \<or> prev)"
    and "''$'' = show_rep Once @ show_items [] @ (if True then ''$'' else [])
      \<and> list_all item_ok [] \<and> (Once = Once \<or> prev)" by (simp_all add: show_items_def)
  then show "tail_syntax prev []" "tail_syntax prev ''$''" unfolding tail_syntax_def by blast+
qed

lemma validate_sound:
  "snd (validate_loop r i rest prev v errs) \<Longrightarrow> 0 < i \<or> \<not> starts_caret rest
    \<Longrightarrow> v \<and> tail_syntax prev rest"
proof (induction r i rest prev v errs rule: validate_loop.induct)
  case (1 r i prev v errs)
  then show ?case by (simp add: tail_syntax_end)
next
  case (2 r i ch rest prev v errs)
  show ?case
  proof (cases "ch = backslash")
    case True
    with 2 show ?thesis
      by (auto split: list.splits if_splits dest: tail_syntax_item [where e = True and prev = prev])
  next
    case False
    with 2 have ok: "plain_error i ch rest prev = None" by (auto split: option.splits)
    with 2 False have IH: "v \<and> tail_syntax (ch \<notin> set ''^$?*+'') rest"
      by (simp add: repeatable_iff)
    consider "ch = CHR ''$''" | "ch \<in> set ''?*+''" | "item_ok (Item False ch Once)"
      using ok "2.prems"(2) False unfolding plain_error_None starts_caret_def by auto
    then show ?thesis
    proof cases
      case 1
      with ok IH show ?thesis by (simp add: plain_error_None tail_syntax_end)
    next
      case 2
      then have "ch \<in> set ''^$?*+''" by auto
      with IH have "v" "tail_syntax False rest" by metis+
      moreover have "prev" using ok 2 unfolding plain_error_None by blast
      ultimately show ?thesis using tail_syntax_rep 2 by simp
    next
      case 3
      with IH have "tail_syntax True rest" by auto
      from tail_syntax_item [OF this 3] IH show ?thesis by simp
    qed
  qed
qed

lemma validate_item:
  assumes "item_ok (Item e c q)"
  shows "validate_loop r i (show_item (Item e c q) @ rest) prev v errs =
    validate_loop r (i + length (show_item (Item e c q))) rest (q = Once) v errs"
proof -
  have rep: "validate_loop r j (show_rep q @ rest) True v errs =
      validate_loop r (j + length (show_rep q)) rest (q = Once) v errs" for j
    by (cases q) (auto simp: plain_error_NoneI repeatable_iff backslash_code)
  show ?thesis
  proof (cases e)
    case True
    with assms show ?thesis by (simp add: rep)
  next
    case False
    with assms have "plain_error i c (show_rep q @ rest) prev = None" "c \<noteq> backslash"
      "\<not> IsInSet c ''^$?*+''"
      by (auto simp: plain_error_None repeatable_iff)
    with False show ?thesis by (simp add: rep)
  qed
qed

lemma validate_items:
  "list_all item_ok its \<Longrightarrow>
    validate_loop r i (show_items its @ (if el then ''$'' else [])) prev v errs = (errs, v)"
proof (induction its arbitrary: i prev)
  case Nil
  then show ?case by (simp add: show_items_def plain_error_NoneI backslash_code)
next
  case (Cons a its)
  obtain e c q where a: "a = Item e c q" by (cases a)
  have "show_items (a # its) @ t = show_item (Item e c q) @ show_items its @ t" for t
    by (simp add: show_items_def a)
  with Cons a show ?case by (simp only: validate_item list.pred_inject(2))
qed

lemma validate_show_re:
  assumes "re_ok re"
  shows "ValidateRegex (Some (show_re re)) = ([], True)"
proof -
  obtain b its el where re: "re = Re b its el" by (cases re)
  with assms have ok: "list_all item_ok its" by (simp add: re_ok_def)
  show ?thesis
    by (simp add: ValidateRegex_def re validate_items [OF ok] plain_error_NoneI backslash_code)
qed

lemma valid_shows:
  assumes "snd (ValidateRegex (Some r))"
  shows "\<exists>re. re_ok re \<and> r = show_re re"
proof -
  have loop: "snd (validate_loop r 0 r False True [])" using assms by (simp add: ValidateRegex_def)
  have close: "\<exists>re. re_ok re \<and> (if b then ''^'' else []) @ t = show_re re"
    if tl: "tail_syntax False t" for b t
  proof -
    obtain q its el where "t = show_rep q @ show_items its @ (if el then ''$'' else [])"
      "list_all item_ok its" "q = Once" using tl unfolding tail_syntax_def by blast
    then have "re_ok (Re b its el) \<and> (if b then ''^'' else []) @ t = show_re (Re b its el)"
      by (simp add: re_ok_def)
    then show ?thesis by blast
  qed
  show ?thesis
  proof (cases "\<exists>t. r = CHR ''^'' # t")
    case True
    then obtain t where r: "r = CHR ''^'' # t" by blast
    have "tail_syntax False t"
        using loop validate_sound [of r 1 t False True "[]"]
      by (simp add: r plain_error_NoneI backslash_code IsInSet_iff)
    from close [OF this, of True] show ?thesis by (simp add: r)
  next
    case False
    then have "\<not> starts_caret r" by (cases r) (auto simp: starts_caret_def)
    with loop validate_sound have "tail_syntax False r" by blast
    from close [OF this, of False] show ?thesis by simp
  qed
qed

text \<open>
  Regular expression syntax: \<open>ValidateRegex\<close> returns true on exactly the concrete syntax of
  well-formed expressions: an optional \<open>^\<close>, atoms with at most one repetition each, an optional
  \<open>$\<close>.
\<close>

theorem validate_regex_exact:
  "snd (ValidateRegex (Some r)) \<longleftrightarrow> (\<exists>re. re_ok re \<and> r = show_re re)"
  using valid_shows validate_show_re by fastforce

section \<open>RE matches the language\<close>

text \<open>
  The full pattern must end in \<open>$\<close>; \<open>RE::Init\<close> appends one unless the last character is a \<open>$\<close>, which
  it is also where that \<open>$\<close> is escaped.
\<close>

definition escaped_dollar_end :: "simple_re \<Rightarrow> bool" where
  "escaped_dollar_end re \<longleftrightarrow>
    \<not> eol re \<and> items re \<noteq> [] \<and> last (items re) = Item True (CHR ''$'') Once"

lemma last_show_items:
  assumes "list_all item_ok its" and "its \<noteq> []"
  shows "last (show_items its) = CHR ''$'' \<longleftrightarrow> last its = Item True (CHR ''$'') Once"
proof -
  obtain e c q where l: "last its = Item e c q" by (cases "last its")
  have "item_ok (Item e c q)" using assms l last_in_set unfolding list_all_iff by metis
  moreover have "show_items its = show_items (butlast its) @ show_item (Item e c q)"
    using append_butlast_last_id [OF assms(2)] l by (metis concat_append concat.simps append_Nil2 list.simps(8,9) map_append show_items_def)
  ultimately show ?thesis by (cases q; cases e) (auto simp: l)
qed

lemma show_items_hd:
  assumes "list_all item_ok its"
  shows "\<not> starts_caret (show_items its @ (if el then ''$'' else []))"
proof (cases its)
  case (Cons a its')
  with assms show ?thesis by (cases a) (auto simp: starts_caret_def show_items_def backslash_code)
qed (simp add: starts_caret_def show_items_def)

lemma MatchRegexAnywhere_caret: "MatchRegexAnywhere (Some (CHR ''^'' # r)) (Some s) = MatchRegexAtHead r s"
  by (simp add: MatchRegexAnywhere_def)

lemma MatchRegexAnywhere_plain:
  "\<not> starts_caret r \<Longrightarrow> MatchRegexAnywhere (Some r) (Some s) = match_anywhere_loop r s"
  by (auto simp: MatchRegexAnywhere_def starts_caret_def)

lemma RE_Init_show:
  assumes "re_ok (Re b its el)"
  shows "fst (RE_Init (Some (show_re (Re b its el)))) =
    \<lparr>re_pattern = Some (show_re (Re b its el)),
     re_full_pattern = Some (''^'' @ show_items its
       @ (if escaped_dollar_end (Re b its el) then [] else ''$'')),
     re_is_valid = True\<rparr>"
proof -
  define r where "r = show_re (Re b its el)"
  have ok: "list_all item_ok its" using assms by (simp add: re_ok_def)
  have start: "(if r \<noteq> [] \<and> r ! 0 = CHR ''^'' then [] else ''^'') @ r =
      ''^'' @ show_items its @ (if el then ''$'' else [])"
    using show_items_hd [OF ok, of el]
    by (cases b) (auto simp: r_def hd_conv_nth [symmetric] starts_caret_def)
  have stop: "length r = 0 \<or> r ! (length r - 1) \<noteq> CHR ''$'' \<longleftrightarrow>
      \<not> el \<and> \<not> escaped_dollar_end (Re b its el)"
  proof (cases "its = []")
    case True
    then show ?thesis by (auto simp: r_def escaped_dollar_end_def show_items_def)
  next
    case False
    then have "show_items its \<noteq> []" by (cases its; cases "hd its") (auto simp: show_items_def)
    then have "r \<noteq> []" "last r = (if el then CHR ''$'' else last (show_items its))"
      by (auto simp: r_def)
    then have "length r = 0 \<or> r ! (length r - 1) \<noteq> CHR ''$'' \<longleftrightarrow> \<not> el \<and> last (show_items its) \<noteq> CHR ''$''"
      by (simp add: last_conv_nth)
    then show ?thesis
      using last_show_items [OF ok False] False by (auto simp: escaped_dollar_end_def)
  qed
  have valid: "ValidateRegex (Some r) = ([], True)"
    unfolding r_def by (rule validate_show_re [OF assms])
  have "escaped_dollar_end (Re b its el) \<Longrightarrow> \<not> el" by (simp add: escaped_dollar_end_def)
  then show ?thesis
    unfolding r_def [symmetric] RE_Init_def valid Let_def prod.case option.case start stop
    by (cases el) auto
qed

lemma items_lang_once:
  "items_lang (Item e c Once # its) =
    {ch # v | ch v. AtomMatchesChar e c ch \<and> v \<in> items_lang its}"
  by (auto simp: length_Suc_conv) (metis append_Cons append_Nil length_Cons list.pred_inject list.size(3))

text \<open>
  C31.  Regular expression matching: for every valid expression and every string that \<open>size_t\<close> can
  index, the matcher never reads past the pattern, \<open>RE::PartialMatch\<close> holds iff the language of the
  expression has a word at a place of the string that the anchors allow, and \<open>RE::FullMatch\<close> holds
  iff the whole string is such a word, except where the expression ends in an escaped \<open>$\<close>: there
  \<open>RE::Init\<close> forgets the end anchor, and a word at the head of the string is enough.
\<close>

theorem regex_decides_language:
  assumes "re_ok re" and "length s + 1 < 2 ^ 64"
  shows "PartialMatch (Some s) (fst (RE_Init (Some (show_re re)))) = Some (partial_lang re s)
    \<and> FullMatch (Some s) (fst (RE_Init (Some (show_re re)))) =
        Some (if escaped_dollar_end re then \<exists>u v. s = u @ v \<and> u \<in> items_lang (items re)
              else s \<in> items_lang (items re))"
proof -
  obtain b its el where re: "re = Re b its el" by (cases re)
  with assms(1) have ok: "list_all item_ok its" and ok': "re_ok (Re b its el)"
    by (simp_all add: re_ok_def)
  have partial: "PartialMatch (Some s) (fst (RE_Init (Some (show_re re)))) = Some (partial_lang re s)"
  proof (cases b)
    case True
    have "head_match its el s \<longleftrightarrow> partial_lang (Re True its el) s" by (auto simp: head_match_def)
    with True show ?thesis
      using head_decides [OF ok assms(2), of el]
      unfolding re PartialMatch_def RE_Init_show [OF ok']
      by (simp add: MatchRegexAnywhere_caret del: partial_lang.simps)
  next
    case False
    then show ?thesis
      using anywhere_decides [OF ok assms(2), of el]
        MatchRegexAnywhere_plain [OF show_items_hd [OF ok, of el]]
      unfolding re PartialMatch_def RE_Init_show [OF ok'] by (simp del: partial_lang.simps)
  qed
  have "FullMatch (Some s) (fst (RE_Init (Some (show_re re)))) =
      Some (head_match its (\<not> escaped_dollar_end re) s)"
    using head_decides [OF ok assms(2), of "\<not> escaped_dollar_end re"]
    unfolding re FullMatch_def RE_Init_show [OF ok']
    by (simp add: MatchRegexAnywhere_caret split: if_splits)
  then have "FullMatch (Some s) (fst (RE_Init (Some (show_re re)))) =
      Some (if escaped_dollar_end re then \<exists>u v. s = u @ v \<and> u \<in> items_lang (items re)
            else s \<in> items_lang (items re))"
    by (simp add: head_match_def re)
  with partial show ?thesis by blast
qed

theorem regex_decides_language_witness:
  "FullMatch (Some ''a$b'')
     (fst (RE_Init (Some (show_re (Re False [Item False (CHR ''a'') Once, Item True (CHR ''$'') Once] False)))))
   = Some True
   \<and> ''a$b'' \<notin> items_lang [Item False (CHR ''a'') Once, Item True (CHR ''$'') Once]"
proof -
  have ok: "re_ok (Re False [Item False (CHR ''a'') Once, Item True (CHR ''$'') Once] False)"
    by code_simp
  have lang: "items_lang [Item False (CHR ''a'') Once, Item True (CHR ''$'') Once] = {''a$''}"
  proof -
    have "AtomMatchesChar False (CHR ''a'') c \<longleftrightarrow> c = CHR ''a''"
      "AtomMatchesChar True (CHR ''$'') c \<longleftrightarrow> c = CHR ''$''" for c
      by (auto simp: AtomMatchesChar_def IsAsciiPunct_def IsInSet_iff)
    then show ?thesis by (auto simp: items_lang_once simp del: items_lang.simps(2))
  qed
  have esc: "escaped_dollar_end (Re False [Item False (CHR ''a'') Once, Item True (CHR ''$'') Once] False)"
    by (simp add: escaped_dollar_end_def)
  have word: "(\<exists>u v. ''a$b'' = u @ v \<and> u \<in> {''a$''}) = True" by simp
  have "length ''a$b'' + 1 < (2 :: nat) ^ 64" by simp
  from regex_decides_language [OF ok this, unfolded if_P [OF esc] simple_re.sel lang word]
  show ?thesis unfolding lang by simp
qed

end
