(* ===== verification/Gmock_Matchers.thy ===== *)
theory Gmock_Matchers
  imports Gmock_Expectations Gtest_Regex Gtest_Assertions
begin

text \<open>
  The matcher library of googlemock (\<open>gmock-matchers.h\<close>): each class is a function that builds a
  matcher, with its result, explanation and two descriptions.  \<open>MatchAndExplain\<close> returns the
  explanation for a listener that is interested; the result is the same for one that is not.

  \<open>pv\<close> is \<open>UniversalPrint\<close> for the type of the values and \<open>ty\<close> the name of that type.  A pointer is an
  option.  A container is the list of its elements.
\<close>

section \<open>Values\<close>

definition IsReadableTypeName :: "string \<Rightarrow> bool" where
  "IsReadableTypeName type_name \<longleftrightarrow>
    length type_name \<le> 20 \<or> \<not> list_ex (\<lambda>c. c = CHR ''<'' \<or> c = CHR ''('') type_name"

definition MatchPrintAndExplain :: "('v \<Rightarrow> string) \<Rightarrow> string \<Rightarrow> 'v matcher \<Rightarrow> 'v \<Rightarrow> bool \<times> string" where
  "MatchPrintAndExplain pv ty m value =
    (let (match, inner) = MatchAndExplain m value
     in (match,
         pv value @ (if IsReadableTypeName ty then '' (of type '' @ ty @ '')'' else [])
         @ PrintIfNotEmpty inner))"

definition ComparisonMatcher :: "string \<Rightarrow> string \<Rightarrow> ('v \<Rightarrow> 'v \<Rightarrow> bool) \<Rightarrow> ('v \<Rightarrow> string) \<Rightarrow> 'v \<Rightarrow> 'v matcher" where
  "ComparisonMatcher desc negdesc oper pv rhs =
    \<lparr>MatchAndExplain = (\<lambda>lhs. (oper lhs rhs, [])),
     DescribeTo = desc @ '' '' @ pv rhs,
     DescribeNegationTo = negdesc @ '' '' @ pv rhs\<rparr>"

definition isnt :: string where "isnt = ''isn'' @ [CHR 0x27] @ ''t''"
definition doesnt :: string where "doesnt = ''doesn'' @ [CHR 0x27] @ ''t''"

definition EqMatcher :: "('v \<Rightarrow> string) \<Rightarrow> 'v \<Rightarrow> 'v matcher" where
  "EqMatcher = ComparisonMatcher ''is equal to'' (isnt @ '' equal to'') (=)"
definition NeMatcher :: "('v \<Rightarrow> string) \<Rightarrow> 'v \<Rightarrow> 'v matcher" where
  "NeMatcher = ComparisonMatcher (isnt @ '' equal to'') ''is equal to'' (\<noteq>)"
definition LtMatcher :: "('v :: ord \<Rightarrow> string) \<Rightarrow> 'v \<Rightarrow> 'v matcher" where
  "LtMatcher = ComparisonMatcher ''is <'' (isnt @ '' <'') (<)"
definition GtMatcher :: "('v :: ord \<Rightarrow> string) \<Rightarrow> 'v \<Rightarrow> 'v matcher" where
  "GtMatcher = ComparisonMatcher ''is >'' (isnt @ '' >'') (>)"
definition LeMatcher :: "('v :: ord \<Rightarrow> string) \<Rightarrow> 'v \<Rightarrow> 'v matcher" where
  "LeMatcher = ComparisonMatcher ''is <='' (isnt @ '' <='') (\<le>)"
definition GeMatcher :: "('v :: ord \<Rightarrow> string) \<Rightarrow> 'v \<Rightarrow> 'v matcher" where
  "GeMatcher = ComparisonMatcher ''is >='' (isnt @ '' >='') (\<ge>)"

definition IsNullMatcher :: "'v option matcher" where
  "IsNullMatcher = \<lparr>MatchAndExplain = (\<lambda>p. (p = None, [])), DescribeTo = ''is NULL'',
     DescribeNegationTo = isnt @ '' NULL''\<rparr>"

definition NotNullMatcher :: "'v option matcher" where
  "NotNullMatcher = \<lparr>MatchAndExplain = (\<lambda>p. (p \<noteq> None, [])), DescribeTo = isnt @ '' NULL'',
     DescribeNegationTo = ''is NULL''\<rparr>"

definition PairMatch :: "string \<Rightarrow> ('a \<Rightarrow> 'b \<Rightarrow> bool) \<Rightarrow> ('a \<times> 'b) matcher" where
  "PairMatch desc oper =
    \<lparr>MatchAndExplain = (\<lambda>(x, y). (oper x y, [])), DescribeTo = ''are '' @ desc,
     DescribeNegationTo = ''aren'' @ [CHR 0x27] @ ''t '' @ desc\<rparr>"

definition TrulyMatcher :: "('v \<Rightarrow> bool) \<Rightarrow> 'v matcher" where
  "TrulyMatcher predicate =
    \<lparr>MatchAndExplain = (\<lambda>x. (if predicate x then True else False, [])),
     DescribeTo = ''satisfies the given predicate'',
     DescribeNegationTo = doesnt @ '' satisfy the given predicate''\<rparr>"

section \<open>Strings\<close>

text \<open>\<open>s.find(nul)\<close>.\<close>

fun find_nul :: "string \<Rightarrow> nat option" where
  "find_nul [] = None"
| "find_nul (c # s) = (if c = CHR 0x00 then Some 0 else map_option Suc (find_nul s))"

lemma find_nul_less: "find_nul s = Some i \<Longrightarrow> i < length s"
  by (induction s arbitrary: i) (auto split: if_splits)

function CaseInsensitiveStringEquals :: "string \<Rightarrow> string \<Rightarrow> bool" where
  "CaseInsensitiveStringEquals s1 s2 =
    (if \<not> CaseInsensitiveCStringEquals (Some (c_str s1)) (Some (c_str s2)) then False
     else
       case (find_nul s1, find_nul s2) of
         (Some i1, Some i2) \<Rightarrow> CaseInsensitiveStringEquals (drop (i1 + 1) s1) (drop (i2 + 1) s2)
       | (a, b) \<Rightarrow> a = b)"
  by pat_completeness auto
termination
  by (relation "measure (\<lambda>(s1, _). length s1)") (auto dest!: find_nul_less [OF sym])

declare CaseInsensitiveStringEquals.simps [simp del]

text \<open>
  The overloads for a C string take the NULL pointer as \<open>None\<close>.  \<open>cstr\<close> builds them: \<open>null\<close> is the
  result for the NULL pointer.
\<close>

definition cstr_matcher :: "bool \<Rightarrow> string matcher \<Rightarrow> string option matcher" where
  "cstr_matcher null m =
    \<lparr>MatchAndExplain = (\<lambda>p. case p of None \<Rightarrow> (null, []) | Some s \<Rightarrow> MatchAndExplain m (c_str s)),
     DescribeTo = DescribeTo m, DescribeNegationTo = DescribeNegationTo m\<rparr>"

definition StrEqualityMatcher :: "(string \<Rightarrow> string) \<Rightarrow> string \<Rightarrow> bool \<Rightarrow> bool \<Rightarrow> string matcher" where
  "StrEqualityMatcher pv str expect_eq case_sensitive =
    (let describe = (\<lambda>eq. (if eq then ''is '' else isnt @ '' '') @ ''equal to ''
                          @ (if \<not> case_sensitive then ''(ignoring case) '' else []) @ pv str)
     in \<lparr>MatchAndExplain = (\<lambda>s. let eq = (if case_sensitive then s = str
                                          else CaseInsensitiveStringEquals s str)
                                 in (expect_eq = eq, [])),
         DescribeTo = describe expect_eq, DescribeNegationTo = describe (\<not> expect_eq)\<rparr>)"

definition StrEquality_cstr :: "(string \<Rightarrow> string) \<Rightarrow> string \<Rightarrow> bool \<Rightarrow> bool \<Rightarrow> string option matcher" where
  "StrEquality_cstr pv str expect_eq case_sensitive =
    cstr_matcher (\<not> expect_eq) (StrEqualityMatcher pv str expect_eq case_sensitive)"

text \<open>\<open>s.find(sub) != npos\<close>.\<close>

fun has_substr :: "string \<Rightarrow> string \<Rightarrow> bool" where
  "has_substr sub [] \<longleftrightarrow> sub = []"
| "has_substr sub (c # s) \<longleftrightarrow> has_prefix sub (c # s) \<or> has_substr sub s"

definition HasSubstrMatcher :: "(string \<Rightarrow> string) \<Rightarrow> string \<Rightarrow> string matcher" where
  "HasSubstrMatcher pv sub =
    \<lparr>MatchAndExplain = (\<lambda>s. (has_substr sub s, [])), DescribeTo = ''has substring '' @ pv sub,
     DescribeNegationTo = ''has no substring '' @ pv sub\<rparr>"

definition StartsWithMatcher :: "(string \<Rightarrow> string) \<Rightarrow> string \<Rightarrow> string matcher" where
  "StartsWithMatcher pv prefix =
    \<lparr>MatchAndExplain = (\<lambda>s. (length prefix \<le> length s \<and> take (length prefix) s = prefix, [])),
     DescribeTo = ''starts with '' @ pv prefix,
     DescribeNegationTo = doesnt @ '' start with '' @ pv prefix\<rparr>"

definition EndsWithMatcher :: "(string \<Rightarrow> string) \<Rightarrow> string \<Rightarrow> string matcher" where
  "EndsWithMatcher pv suffix =
    \<lparr>MatchAndExplain = (\<lambda>s. (length suffix \<le> length s \<and> drop (length s - length suffix) s = suffix, [])),
     DescribeTo = ''ends with '' @ pv suffix,
     DescribeNegationTo = doesnt @ '' end with '' @ pv suffix\<rparr>"

text \<open>\<open>RE::FullMatch\<close> and \<open>RE::PartialMatch\<close> take the \<open>c_str()\<close> of a string.\<close>

definition MatchesRegexMatcher :: "(string \<Rightarrow> string) \<Rightarrow> RE \<Rightarrow> bool \<Rightarrow> string matcher" where
  "MatchesRegexMatcher pv regex full_match =
    \<lparr>MatchAndExplain = (\<lambda>s. ((if full_match then FullMatch (Some (c_str s)) regex
                              else PartialMatch (Some (c_str s)) regex) = Some True, [])),
     DescribeTo = (if full_match then ''matches'' else ''contains'') @ '' regular expression ''
       @ pv (case re_pattern regex of Some p \<Rightarrow> p | None \<Rightarrow> []),
     DescribeNegationTo = doesnt @ '' '' @ (if full_match then ''match'' else ''contain'')
       @ '' regular expression '' @ pv (case re_pattern regex of Some p \<Rightarrow> p | None \<Rightarrow> [])\<rparr>"

section \<open>Logic\<close>

definition NotMatcher :: "'v matcher \<Rightarrow> 'v matcher" where
  "NotMatcher m =
    \<lparr>MatchAndExplain = (\<lambda>x. let (r, why) = MatchAndExplain m x in (\<not> r, why)),
     DescribeTo = DescribeNegationTo m, DescribeNegationTo = DescribeTo m\<rparr>"

definition join_explanations :: "string \<Rightarrow> string \<Rightarrow> string" where
  "join_explanations s1 s2 =
    (if s1 = [] then s2 else s1 @ (if s2 \<noteq> [] then '', and '' @ s2 else []))"

definition BothOfMatcher :: "'v matcher \<Rightarrow> 'v matcher \<Rightarrow> 'v matcher" where
  "BothOfMatcher m1 m2 =
    \<lparr>MatchAndExplain = (\<lambda>x.
       let (r1, s1) = MatchAndExplain m1 x
       in if \<not> r1 then (False, s1)
          else let (r2, s2) = MatchAndExplain m2 x
               in if \<not> r2 then (False, s2) else (True, join_explanations s1 s2)),
     DescribeTo = ''('' @ DescribeTo m1 @ '') and ('' @ DescribeTo m2 @ '')'',
     DescribeNegationTo = ''('' @ DescribeNegationTo m1 @ '') or ('' @ DescribeNegationTo m2 @ '')''\<rparr>"

definition EitherOfMatcher :: "'v matcher \<Rightarrow> 'v matcher \<Rightarrow> 'v matcher" where
  "EitherOfMatcher m1 m2 =
    \<lparr>MatchAndExplain = (\<lambda>x.
       let (r1, s1) = MatchAndExplain m1 x
       in if r1 then (True, s1)
          else let (r2, s2) = MatchAndExplain m2 x
               in if r2 then (True, s2) else (False, join_explanations s1 s2)),
     DescribeTo = ''('' @ DescribeTo m1 @ '') or ('' @ DescribeTo m2 @ '')'',
     DescribeNegationTo = ''('' @ DescribeNegationTo m1 @ '') and ('' @ DescribeNegationTo m2 @ '')''\<rparr>"

text \<open>\<open>MatcherList::CreateMatcher\<close> of two or more matchers, combined from the right.\<close>

fun combine_matchers :: "('v matcher \<Rightarrow> 'v matcher \<Rightarrow> 'v matcher) \<Rightarrow> 'v matcher \<Rightarrow> 'v matcher list \<Rightarrow> 'v matcher" where
  "combine_matchers f m [] = m"
| "combine_matchers f m (m' # ms) = f m (combine_matchers f m' ms)"

definition AllOf :: "'v matcher \<Rightarrow> 'v matcher list \<Rightarrow> 'v matcher" where
  "AllOf = combine_matchers BothOfMatcher"

definition AnyOf :: "'v matcher \<Rightarrow> 'v matcher list \<Rightarrow> 'v matcher" where
  "AnyOf = combine_matchers EitherOfMatcher"

section \<open>Parts of a value\<close>

definition PointeeMatcher :: "('v \<Rightarrow> string) \<Rightarrow> string \<Rightarrow> 'v matcher \<Rightarrow> 'v option matcher" where
  "PointeeMatcher pv ty m =
    \<lparr>MatchAndExplain = (\<lambda>p. case p of
       None \<Rightarrow> (False, [])
     | Some x \<Rightarrow> let (r, why) = MatchPrintAndExplain pv ty m x in (r, ''which points to '' @ why)),
     DescribeTo = ''points to a value that '' @ DescribeTo m,
     DescribeNegationTo = ''does not point to a value that '' @ DescribeTo m\<rparr>"

text \<open>
  \<open>Field\<close>, \<open>Property\<close> and \<open>ResultOf\<close> match the image of the object under a function; the first two
  also take a pointer to the object.
\<close>

definition image_matcher ::
  "string \<Rightarrow> string \<Rightarrow> ('f \<Rightarrow> string) \<Rightarrow> string \<Rightarrow> ('v \<Rightarrow> 'f) \<Rightarrow> 'f matcher \<Rightarrow> 'v matcher" where
  "image_matcher intro desc pv ty f m =
    \<lparr>MatchAndExplain = (\<lambda>x. let (r, why) = MatchPrintAndExplain pv ty m (f x) in (r, intro @ why)),
     DescribeTo = desc @ DescribeTo m, DescribeNegationTo = desc @ DescribeNegationTo m\<rparr>"

definition FieldMatcher :: "('f \<Rightarrow> string) \<Rightarrow> string \<Rightarrow> ('v \<Rightarrow> 'f) \<Rightarrow> 'f matcher \<Rightarrow> 'v matcher" where
  "FieldMatcher = image_matcher ''whose given field is '' ''is an object whose given field ''"

definition PropertyMatcher :: "('f \<Rightarrow> string) \<Rightarrow> string \<Rightarrow> ('v \<Rightarrow> 'f) \<Rightarrow> 'f matcher \<Rightarrow> 'v matcher" where
  "PropertyMatcher = image_matcher ''whose given property is '' ''is an object whose given property ''"

definition ResultOfMatcher :: "('f \<Rightarrow> string) \<Rightarrow> string \<Rightarrow> ('v \<Rightarrow> 'f) \<Rightarrow> 'f matcher \<Rightarrow> 'v matcher" where
  "ResultOfMatcher = image_matcher ''which is mapped by the given callable to ''
     ''is mapped by the given callable to a value that ''"

definition through_pointer :: "'v matcher \<Rightarrow> 'v option matcher" where
  "through_pointer m =
    \<lparr>MatchAndExplain = (\<lambda>p. case p of
       None \<Rightarrow> (False, [])
     | Some x \<Rightarrow> let (r, why) = MatchAndExplain m x in (r, ''which points to an object '' @ why)),
     DescribeTo = DescribeTo m, DescribeNegationTo = DescribeNegationTo m\<rparr>"

definition KeyMatcher :: "'k matcher \<Rightarrow> ('k \<times> 'v) matcher" where
  "KeyMatcher m =
    \<lparr>MatchAndExplain = (\<lambda>kv. let (r, why) = MatchAndExplain m (fst kv)
                         in (r, if why \<noteq> [] then ''whose first field is a value '' @ why else [])),
     DescribeTo = ''has a key that '' @ DescribeTo m,
     DescribeNegationTo = doesnt @ '' have a key that '' @ DescribeTo m\<rparr>"

definition Pair_ExplainSuccess :: "string \<Rightarrow> string \<Rightarrow> string" where
  "Pair_ExplainSuccess e1 e2 =
    ''whose both fields match''
    @ (if e1 \<noteq> [] then '', where the first field is a value '' @ e1 else [])
    @ (if e2 \<noteq> [] then '', '' @ (if e1 \<noteq> [] then ''and '' else ''where '')
                       @ ''the second field is a value '' @ e2 else [])"

definition PairMatcher :: "'a matcher \<Rightarrow> 'b matcher \<Rightarrow> ('a \<times> 'b) matcher" where
  "PairMatcher m1 m2 =
    \<lparr>MatchAndExplain = (\<lambda>p.
       let (r1, e1) = MatchAndExplain m1 (fst p)
       in if \<not> r1 then (False, ''whose first field does not match'' @ PrintIfNotEmpty e1)
          else let (r2, e2) = MatchAndExplain m2 (snd p)
               in if \<not> r2 then (False, ''whose second field does not match'' @ PrintIfNotEmpty e2)
                  else (True, Pair_ExplainSuccess e1 e2)),
     DescribeTo = ''has a first field that '' @ DescribeTo m1
       @ '', and has a second field that '' @ DescribeTo m2,
     DescribeNegationTo = ''has a first field that '' @ DescribeNegationTo m1
       @ '', or has a second field that '' @ DescribeNegationTo m2\<rparr>"

section \<open>Containers\<close>

definition size_result :: "string \<Rightarrow> nat matcher \<Rightarrow> 'e list \<Rightarrow> bool \<times> string" where
  "size_result what m es =
    (let (r, why) = MatchAndExplain m (length es)
     in (r, what @ nat_to_string (length es) @ (if r then '' matches'' else '' '' @ doesnt @ '' match'')
            @ PrintIfNotEmpty why))"

definition SizeIsMatcher :: "nat matcher \<Rightarrow> 'e list matcher" where
  "SizeIsMatcher m =
    \<lparr>MatchAndExplain = size_result ''whose size '' m, DescribeTo = ''size '' @ DescribeTo m,
     DescribeNegationTo = ''size '' @ DescribeNegationTo m\<rparr>"

definition BeginEndDistanceIsMatcher :: "nat matcher \<Rightarrow> 'e list matcher" where
  "BeginEndDistanceIsMatcher m =
    \<lparr>MatchAndExplain = size_result ''whose distance between begin() and end() '' m,
     DescribeTo = ''distance between begin() and end() '' @ DescribeTo m,
     DescribeNegationTo = ''distance between begin() and end() '' @ DescribeNegationTo m\<rparr>"

text \<open>
  One of the two loops of \<open>ContainerEqMatcher\<close>: the elements of \<open>es\<close> that \<open>other\<close> does not hold, with
  the header before the first of them; the flag says that the header has been printed.
\<close>

fun difference_loop :: "('e \<Rightarrow> string) \<Rightarrow> string \<Rightarrow> 'e list \<Rightarrow> 'e list \<Rightarrow> bool \<Rightarrow> bool \<times> string" where
  "difference_loop pv header other [] printed_header = (printed_header, [])"
| "difference_loop pv header other (e # es) printed_header =
    (if e \<notin> set other
     then let (p, os) = difference_loop pv header other es True
          in (p, (if printed_header then '', '' else header) @ pv e @ os)
     else difference_loop pv header other es printed_header)"

definition ContainerEqMatcher :: "('e \<Rightarrow> string) \<Rightarrow> ('e list \<Rightarrow> string) \<Rightarrow> 'e list \<Rightarrow> 'e list matcher" where
  "ContainerEqMatcher pv pvs expected =
    \<lparr>MatchAndExplain = (\<lambda>lhs.
       if lhs = expected then (True, [])
       else let (printed_header, extra) =
                  difference_loop pv ''which has these unexpected elements: '' expected lhs False;
                (_, missing) =
                  difference_loop pv
                    ((if printed_header then '','' @ [newline] @ ''and'' else ''which'')
                     @ '' '' @ doesnt @ '' have these expected elements: '') lhs expected False
            in (False, extra @ missing)),
     DescribeTo = ''equals '' @ pvs expected,
     DescribeNegationTo = ''does not equal '' @ pvs expected\<rparr>"

text \<open>
  \<open>WhenSorted(m)\<close>: \<open>std::sort\<close> with \<open>LessComparator\<close> on a type whose \<open><\<close> is a total order.  (For a
  weaker order the result of \<open>std::sort\<close> is not determined.)
\<close>

definition WhenSortedMatcher :: "('e :: linorder list \<Rightarrow> string) \<Rightarrow> 'e list matcher \<Rightarrow> 'e list matcher" where
  "WhenSortedMatcher pvs m =
    \<lparr>MatchAndExplain = (\<lambda>lhs.
       let sorted_container = sort lhs;
           (match, why) = MatchAndExplain m sorted_container
       in (match, ''which is '' @ pvs sorted_container @ '' when sorted'' @ PrintIfNotEmpty why)),
     DescribeTo = ''(when sorted) '' @ DescribeTo m,
     DescribeNegationTo = ''(when sorted) '' @ DescribeNegationTo m\<rparr>"

fun pointwise_loop ::
  "('a \<Rightarrow> string) \<Rightarrow> ('b \<Rightarrow> string) \<Rightarrow> ('a \<times> 'b) matcher \<Rightarrow> nat \<Rightarrow> 'a list \<Rightarrow> 'b list \<Rightarrow> bool \<times> string" where
  "pointwise_loop pa pb m i (x # xs) (y # ys) =
    (let (r, why) = MatchAndExplain m (x, y)
     in if \<not> r
        then (False, ''where the value pair ('' @ pa x @ '', '' @ pb y @ '') at index #''
                     @ nat_to_string i @ '' don'' @ [CHR 0x27] @ ''t match'' @ PrintIfNotEmpty why)
        else pointwise_loop pa pb m (i + 1) xs ys)"
| "pointwise_loop pa pb m i xs ys = (True, [])"

definition PointwiseMatcher ::
  "('a \<Rightarrow> string) \<Rightarrow> ('b \<Rightarrow> string) \<Rightarrow> ('b list \<Rightarrow> string) \<Rightarrow> ('a \<times> 'b) matcher \<Rightarrow> 'b list \<Rightarrow> 'a list matcher" where
  "PointwiseMatcher pa pb pbs m rhs =
    \<lparr>MatchAndExplain = (\<lambda>lhs.
       if length lhs \<noteq> length rhs
       then (False, ''which contains '' @ nat_to_string (length lhs) @ '' values'')
       else pointwise_loop pa pb m 0 lhs rhs),
     DescribeTo = ''contains '' @ nat_to_string (length rhs)
       @ '' values, where each value and its corresponding value in '' @ pbs rhs @ '' '' @ DescribeTo m,
     DescribeNegationTo = doesnt @ '' contain exactly '' @ nat_to_string (length rhs)
       @ '' values, or contains a value x at some index i where x and the i-th value of ''
       @ pbs rhs @ '' '' @ DescribeNegationTo m\<rparr>"

text \<open>\<open>QuantifierMatcherImpl::MatchAndExplainImpl\<close>.\<close>

fun MatchAndExplainImpl :: "bool \<Rightarrow> 'e matcher \<Rightarrow> nat \<Rightarrow> 'e list \<Rightarrow> bool \<times> string" where
  "MatchAndExplainImpl all_elements_should_match m i [] = (all_elements_should_match, [])"
| "MatchAndExplainImpl all_elements_should_match m i (e # es) =
    (let (matches, why) = MatchAndExplain m e
     in if matches \<noteq> all_elements_should_match
        then (\<not> all_elements_should_match,
              ''whose element #'' @ nat_to_string i
              @ (if matches then '' matches'' else '' '' @ doesnt @ '' match'') @ PrintIfNotEmpty why)
        else MatchAndExplainImpl all_elements_should_match m (i + 1) es)"

definition ContainsMatcher :: "'e matcher \<Rightarrow> 'e list matcher" where
  "ContainsMatcher m =
    \<lparr>MatchAndExplain = MatchAndExplainImpl False m 0,
     DescribeTo = ''contains at least one element that '' @ DescribeTo m,
     DescribeNegationTo = doesnt @ '' contain any element that '' @ DescribeTo m\<rparr>"

definition EachMatcher :: "'e matcher \<Rightarrow> 'e list matcher" where
  "EachMatcher m =
    \<lparr>MatchAndExplain = MatchAndExplainImpl True m 0,
     DescribeTo = ''only contains elements that '' @ DescribeTo m,
     DescribeNegationTo = ''contains some element that '' @ DescribeNegationTo m\<rparr>"

section \<open>\<open>ElementsAre\<close>\<close>

definition ElementsAre_Elements :: "nat \<Rightarrow> string" where
  "ElementsAre_Elements n = nat_to_string n @ (if n = 1 then '' element'' else '' elements'')"

fun describe_elements :: "string \<Rightarrow> nat \<Rightarrow> string list \<Rightarrow> string" where
  "describe_elements sep i [] = []"
| "describe_elements sep i (d # ds) =
    ''element #'' @ nat_to_string i @ '' '' @ d @ (if ds \<noteq> [] then sep @ [newline] else [])
    @ describe_elements sep (i + 1) ds"

text \<open>
  The pass over elements and matchers in pairs: the number of pairs that matched before it stopped,
  whether it stopped at a mismatch, the explanations and the elements not yet walked (the mismatched
  one included).
\<close>

fun elements_walk :: "'e matcher list \<Rightarrow> 'e list \<Rightarrow> nat \<times> bool \<times> string list \<times> 'e list" where
  "elements_walk (m # ms) (e # es) =
    (let (match, why) = MatchAndExplain m e
     in if \<not> match then (0, True, [why], e # es)
        else let (n, mismatch_found, explanations, rest) = elements_walk ms es
             in (n + 1, mismatch_found, why # explanations, rest))"
| "elements_walk ms es = (0, False, [], es)"

fun reasons_loop :: "nat \<Rightarrow> string list \<Rightarrow> bool \<Rightarrow> string" where
  "reasons_loop i [] reason_printed = []"
| "reasons_loop i (s # ss) reason_printed =
    (if s \<noteq> []
     then (if reason_printed then '','' @ [newline] @ ''and '' else [])
          @ ''whose element #'' @ nat_to_string i @ '' matches, '' @ s @ reasons_loop (i + 1) ss True
     else reasons_loop (i + 1) ss reason_printed)"

definition ElementsAreMatcher :: "'e matcher list \<Rightarrow> 'e list matcher" where
  "ElementsAreMatcher ms =
    \<lparr>MatchAndExplain = (\<lambda>es.
       let (exam_pos, mismatch_found, explanations, rest) = elements_walk ms es;
           actual_count = exam_pos + length rest
       in if actual_count \<noteq> length ms
          then (False, if actual_count \<noteq> 0 then ''which has '' @ ElementsAre_Elements actual_count else [])
          else if mismatch_found
          then (False, ''whose element #'' @ nat_to_string exam_pos @ '' '' @ doesnt @ '' match''
                       @ PrintIfNotEmpty (explanations ! exam_pos))
          else (True, reasons_loop 0 explanations False)),
     DescribeTo =
       (if length ms = 0 then ''is empty''
        else if length ms = 1 then ''has 1 element that '' @ DescribeTo (ms ! 0)
        else ''has '' @ ElementsAre_Elements (length ms) @ '' where'' @ [newline]
             @ describe_elements '','' 0 (map DescribeTo ms)),
     DescribeNegationTo =
       (if length ms = 0 then isnt @ '' empty''
        else doesnt @ '' have '' @ ElementsAre_Elements (length ms) @ '', or'' @ [newline]
             @ describe_elements '', or'' 0 (map DescribeNegationTo ms))\<rparr>"


section \<open>Case-insensitive equality\<close>

lemma tolower_nul: "tolower c = CHR 0x00 \<longleftrightarrow> c = CHR 0x00"
  by (auto simp: tolower_def Let_def char_of_def of_char_def split: if_splits)

lemma c_str_whole: "find_nul s = None \<Longrightarrow> c_str s = s"
  by (induction s) (auto simp: c_str_def split: if_splits)

lemma find_nul_tolower: "find_nul (map tolower s) = find_nul s"
  by (induction s) (auto simp: tolower_nul)

lemma c_str_split: "find_nul s = Some i \<Longrightarrow> s = c_str s @ CHR 0x00 # drop (i + 1) s \<and> length (c_str s) = i"
  by (induction s arbitrary: i) (auto simp: c_str_def split: if_splits)


lemma case_insensitive_heads:
  "CaseInsensitiveCStringEquals (Some (c_str s1)) (Some (c_str s2)) \<longleftrightarrow>
   map tolower (c_str s1) = map tolower (c_str s2)"
  by (simp add: CaseInsensitiveCStringEquals_def)

lemma map_append_nul_iff:
  assumes "length xs = length ys"
  shows "map f (xs @ c # xs') = map f (ys @ c # ys') \<longleftrightarrow> map f xs = map f ys \<and> map f xs' = map f ys'"
  using assms by auto

lemma CaseInsensitiveStringEquals_iff:
  "CaseInsensitiveStringEquals s1 s2 \<longleftrightarrow> map tolower s1 = map tolower s2"
proof (induction s1 s2 rule: CaseInsensitiveStringEquals.induct)
  case (1 s1 s2)
  have nul: "find_nul s1 = find_nul s2" if "map tolower s1 = map tolower s2"
    using find_nul_tolower [of s1] find_nul_tolower [of s2] that by simp
  show ?case
  proof (cases "find_nul s1"; cases "find_nul s2")
    fix i1 i2 assume i: "find_nul s1 = Some i1" "find_nul s2 = Some i2"
    show ?case
    proof (cases "map tolower (c_str s1) = map tolower (c_str s2)")
      case True
      then have len: "length (c_str s1) = length (c_str s2)" using map_eq_imp_length_eq by blast
      have "map tolower s1 = map tolower s2 \<longleftrightarrow>
            map tolower (drop (i1 + 1) s1) = map tolower (drop (i2 + 1) s2)"
        using map_append_nul_iff [OF len, of tolower "CHR 0x00" "drop (i1 + 1) s1" "drop (i2 + 1) s2"]
          c_str_split [OF i(1)] c_str_split [OF i(2)] True by metis
      then show ?thesis
        using 1 [OF _ refl i] True
        by (subst CaseInsensitiveStringEquals.simps) (simp add: case_insensitive_heads i)
    next
      case False
      have "map tolower (c_str s1) = map tolower (c_str s2)" if eq: "map tolower s1 = map tolower s2"
      proof -
        have "take i1 (map tolower s1) = take i2 (map tolower s2)" using nul [OF eq] i eq by simp
        then show ?thesis using c_str_split [OF i(1)] c_str_split [OF i(2)]
          by (metis append_eq_conv_conj take_map)
      qed
      then show ?thesis using False
        by (subst CaseInsensitiveStringEquals.simps) (auto simp: case_insensitive_heads)
    qed
  next
    assume "find_nul s1 = None" "find_nul s2 = None"
    then show ?case
      by (subst CaseInsensitiveStringEquals.simps) (simp add: CaseInsensitiveCStringEquals_def c_str_whole)
  next
    fix i assume "find_nul s1 = None" "find_nul s2 = Some i"
    then show ?case using nul by (subst CaseInsensitiveStringEquals.simps) auto
  next
    fix i assume "find_nul s1 = Some i" "find_nul s2 = None"
    then show ?case using nul by (subst CaseInsensitiveStringEquals.simps) auto
  qed
qed

section \<open>What each matcher accepts\<close>

lemmas matcher_defs =
  Matches_def NotMatcher_def BothOfMatcher_def EitherOfMatcher_def ContainsMatcher_def EachMatcher_def
  ContainerEqMatcher_def WhenSortedMatcher_def PointwiseMatcher_def SizeIsMatcher_def size_result_def
  PointeeMatcher_def MatchPrintAndExplain_def KeyMatcher_def PairMatcher_def StrEqualityMatcher_def
  HasSubstrMatcher_def StartsWithMatcher_def EndsWithMatcher_def image_matcher_def through_pointer_def
  FieldMatcher_def PropertyMatcher_def ResultOfMatcher_def BeginEndDistanceIsMatcher_def

lemma Matches_Not [simp]: "Matches (NotMatcher m) x \<longleftrightarrow> \<not> Matches m x"
  by (simp add: matcher_defs split: prod.splits)

lemma Matches_BothOf [simp]: "Matches (BothOfMatcher m1 m2) x \<longleftrightarrow> Matches m1 x \<and> Matches m2 x"
  by (simp add: matcher_defs split: prod.splits)

lemma Matches_EitherOf [simp]: "Matches (EitherOfMatcher m1 m2) x \<longleftrightarrow> Matches m1 x \<or> Matches m2 x"
  by (simp add: matcher_defs split: prod.splits)

lemma Matches_AllOf [simp]: "Matches (AllOf m ms) x \<longleftrightarrow> list_all (\<lambda>m. Matches m x) (m # ms)"
  unfolding AllOf_def by (induction ms arbitrary: m) auto

lemma Matches_AnyOf [simp]: "Matches (AnyOf m ms) x \<longleftrightarrow> list_ex (\<lambda>m. Matches m x) (m # ms)"
  unfolding AnyOf_def by (induction ms arbitrary: m) auto

lemma quantifier_matches:
  "fst (MatchAndExplainImpl True m i es) = list_all (Matches m) es"
  "fst (MatchAndExplainImpl False m i es) = list_ex (Matches m) es"
  by (induction es arbitrary: i) (auto simp: Matches_def split: prod.splits)

lemma pointwise_matches:
  "length xs = length ys \<Longrightarrow>
   fst (pointwise_loop pa pb m i xs ys) = list_all2 (\<lambda>x y. Matches m (x, y)) xs ys"
  by (induction pa pb m i xs ys rule: pointwise_loop.induct) (auto simp: Matches_def split: prod.splits)

lemma elements_walk_result:
  assumes "elements_walk ms es = (n, mismatch, whys, rest)"
  shows "list_all2 Matches ms es \<longleftrightarrow> \<not> mismatch \<and> n + length rest = length ms"
  using assms
  by (induction ms es arbitrary: n mismatch whys rest rule: elements_walk.induct)
     (auto simp: Matches_def split: prod.splits if_splits)

lemma has_substr_iff: "has_substr sub s \<longleftrightarrow> (\<exists>p q. s = p @ sub @ q)"
proof (induction s)
  case (Cons c s)
  note IH = Cons.IH
  show ?case
  proof
    assume "has_substr sub (c # s)"
    then show "\<exists>p q. c # s = p @ sub @ q"
    proof (cases "has_prefix sub (c # s)")
      case True
      then show ?thesis by (auto simp: has_prefix_iff intro: exI [of _ "[]"])
    next
      case False
      with \<open>has_substr sub (c # s)\<close> obtain p q where "s = p @ sub @ q" using Cons.IH by auto
      then have "c # s = (c # p) @ sub @ q" by simp
      then show ?thesis by blast
    qed
  next
    assume "\<exists>p q. c # s = p @ sub @ q"
    then obtain p q where eq: "c # s = p @ sub @ q" by blast
    then show "has_substr sub (c # s)"
    proof (cases p)
      case Nil
      then have "has_prefix sub (c # s)" using eq by (auto simp: has_prefix_iff)
      then show ?thesis by simp
    next
      case (Cons d p')
      then have "s = p' @ sub @ q" using eq by simp
      then show ?thesis using IH by auto
    qed
  qed
qed simp


lemma Matches_ElementsAre [simp]: "Matches (ElementsAreMatcher ms) es \<longleftrightarrow> list_all2 Matches ms es"
  unfolding Matches_def [of "ElementsAreMatcher ms"]
  by (cases "elements_walk ms es")
     (auto simp: ElementsAreMatcher_def Let_def dest: elements_walk_result split: prod.splits)

lemma Matches_Pointwise [simp]:
  "Matches (PointwiseMatcher pa pb pbs m rhs) lhs \<longleftrightarrow> list_all2 (\<lambda>x y. Matches m (x, y)) lhs rhs"
  using pointwise_matches [of lhs rhs pa pb m 0]
  unfolding Matches_def [of "PointwiseMatcher pa pb pbs m rhs"]
  by (auto simp: PointwiseMatcher_def dest: list_all2_lengthD)

lemma Matches_quantified [simp]:
  "Matches (EachMatcher m) es \<longleftrightarrow> list_all (Matches m) es"
  "Matches (ContainsMatcher m) es \<longleftrightarrow> list_ex (Matches m) es"
  unfolding Matches_def [of "EachMatcher m"] Matches_def [of "ContainsMatcher m"]
  by (simp_all add: EachMatcher_def ContainsMatcher_def quantifier_matches)

section \<open>Explanations of the container matchers\<close>

text \<open>Elements joined by \<open>", "\<close>.\<close>

fun comma_separated :: "string list \<Rightarrow> string" where
  "comma_separated [] = []"
| "comma_separated [s] = s"
| "comma_separated (s # ss) = s @ '', '' @ comma_separated ss"

lemma difference_loop_printed:
  "difference_loop pv header other es True =
     (True, concat (map (\<lambda>e. '', '' @ pv e) (filter (\<lambda>e. e \<notin> set other) es)))"
  by (induction es) auto

lemma comma_separated_Cons: "comma_separated (s # ss) = s @ concat (map (\<lambda>s. '', '' @ s) ss)"
  by (induction ss arbitrary: s) auto

lemma difference_loop_exact:
  "difference_loop pv header other es False =
     (let d = filter (\<lambda>e. e \<notin> set other) es
      in (d \<noteq> [], if d = [] then [] else header @ comma_separated (map pv d)))"
  by (induction es)
     (auto simp: difference_loop_printed comma_separated_Cons Let_def comp_def)

lemma quantifier_explains_first:
  assumes "i < length es" "Matches m (es ! i) \<noteq> q" "\<forall>j < i. Matches m (es ! j) = q"
  shows "MatchAndExplainImpl q m n es =
    (\<not> q, ''whose element #'' @ nat_to_string (n + i) @ (if q then '' '' @ doesnt @ '' match'' else '' matches'')
          @ PrintIfNotEmpty (snd (MatchAndExplain m (es ! i))))"
  using assms
proof (induction es arbitrary: i n)
  case (Cons e es)
  show ?case
  proof (cases i)
    case 0
    then show ?thesis using Cons.prems by (auto simp: Matches_def split: prod.splits)
  next
    case (Suc k)
    then have "Matches m e = q" and "\<forall>j < k. Matches m (es ! j) = q"
      using Cons.prems(3) by (auto dest: spec [of _ 0])
    then show ?thesis
      using Suc Cons.prems(1,2) Cons.IH [of k "n + 1"] by (auto simp: Matches_def split: prod.splits)
  qed
qed simp

section \<open>Properties\<close>


text \<open>
  Why a container matcher failed: \<open>ContainerEq\<close> lists exactly the elements of the container that
  are not expected and the expected ones it does not have, in order and each with its header, and so
  says nothing at all when the two containers differ only in order or multiplicity; \<open>Each\<close> names the
  first element that does not match, and \<open>Contains\<close> the first that does.
\<close>

theorem container_explanations:
  assumes "lhs \<noteq> expected" and "i < length es" and "Matches m (es ! i) \<noteq> q"
    and "\<forall>j < i. Matches m (es ! j) = q"
  shows "snd (MatchAndExplain (ContainerEqMatcher pv pvs expected) lhs) =
      (let extra = filter (\<lambda>e. e \<notin> set expected) lhs; missing = filter (\<lambda>e. e \<notin> set lhs) expected
       in (if extra = [] then [] else ''which has these unexpected elements: '' @ comma_separated (map pv extra))
        @ (if missing = [] then []
           else (if extra = [] then ''which'' else '','' @ [newline] @ ''and'')
                @ '' '' @ doesnt @ '' have these expected elements: '' @ comma_separated (map pv missing))) \<and>
    MatchAndExplain (if q then EachMatcher m else ContainsMatcher m) es =
      (\<not> q, ''whose element #'' @ nat_to_string i @ (if q then '' '' @ doesnt @ '' match'' else '' matches'')
            @ PrintIfNotEmpty (snd (MatchAndExplain m (es ! i))))"
  using assms(1) quantifier_explains_first [OF assms(2-4), of 0]
  by (cases q) (simp_all add: ContainerEqMatcher_def difference_loop_exact Let_def EachMatcher_def ContainsMatcher_def)

theorem container_explanations_witness:
  "snd (MatchAndExplain (ContainerEqMatcher nat_to_string (\<lambda>_. []) [1, 2 :: nat]) [2, 1, 1]) = [] \<and>
   MatchAndExplain (EachMatcher (EqMatcher (\<lambda>_. []) (3 :: nat))) [3, 4, 3] =
     (False, ''whose element #'' @ nat_to_string 1 @ '' doesn'' @ [CHR 0x27] @ ''t match'')"
  using container_explanations [of "[2, 1, 1]" "[1, 2]" 1 "[3, 4, 3 :: nat]" "EqMatcher (\<lambda>_. []) 3" True nat_to_string "\<lambda>_. []"]
  by (simp add: EqMatcher_def ComparisonMatcher_def Matches_def PrintIfNotEmpty_def doesnt_def)

end
