(* ===== verification/Gtest_Filepath.thy ===== *)
theory Gtest_Filepath
  imports Gtest_Assertions "HOL-Library.Monad_Syntax"
begin

text \<open>
  File paths of googletest (\<open>gtest-filepath.h\<close>, \<open>gtest-filepath.cc\<close>, the branches for systems whose
  path separator is \<open>/\<close>).  A \<open>FilePath\<close> is the string \<open>pathname_\<close>; its constructor from a string
  normalises it.

  The file system is a parameter: \<open>stat fs p\<close> is \<open>None\<close> where \<open>stat()\<close> fails, and otherwise whether
  \<open>p\<close> is a directory; \<open>mkdir fs p\<close> is the result of \<open>mkdir()\<close> with the file system after it.
\<close>

type_synonym FilePath = string

definition kPathSeparator :: char where "kPathSeparator = CHR ''/''"

definition kCurrentDirectoryString :: string where "kCurrentDirectoryString = ''./''"

definition IsPathSeparator :: "char \<Rightarrow> bool" where
  "IsPathSeparator c \<longleftrightarrow> c = kPathSeparator"

function normalize_loop :: "string \<Rightarrow> string" where
  "normalize_loop [] = []"
| "normalize_loop (c # src) =
    (if \<not> IsPathSeparator c then c # normalize_loop src
     else c # normalize_loop (dropWhile IsPathSeparator src))"
  by pat_completeness auto
termination
  by (relation "measure length") (auto simp: less_Suc_eq_le length_dropWhile_le)

definition Normalize :: "string \<Rightarrow> FilePath" where
  "Normalize pathname = normalize_loop (c_str pathname)"

definition GetCurrentDir :: "string option \<Rightarrow> FilePath" where
  "GetCurrentDir getcwd_result = Normalize (case getcwd_result of None \<Rightarrow> [] | Some cwd \<Rightarrow> cwd)"

definition RemoveExtension :: "string \<Rightarrow> FilePath \<Rightarrow> FilePath" where
  "RemoveExtension extension p =
    (let dot_extension = ''.'' @ extension
     in if EndsWithCaseInsensitive p dot_extension
        then Normalize (take (length p - length dot_extension) p) else p)"

definition FindLastPathSeparator :: "FilePath \<Rightarrow> string option" where
  "FindLastPathSeparator p = strrchr (c_str p) kPathSeparator"

definition RemoveDirectoryName :: "FilePath \<Rightarrow> FilePath" where
  "RemoveDirectoryName p =
    (case FindLastPathSeparator p of Some last_sep \<Rightarrow> Normalize (drop 1 last_sep) | None \<Rightarrow> p)"

definition RemoveFileName :: "FilePath \<Rightarrow> FilePath" where
  "RemoveFileName p =
    Normalize (case FindLastPathSeparator p of
                 Some last_sep \<Rightarrow> take (length (c_str p) - length last_sep + 1) (c_str p)
               | None \<Rightarrow> kCurrentDirectoryString)"

definition IsDirectory :: "FilePath \<Rightarrow> bool" where
  "IsDirectory p \<longleftrightarrow> p \<noteq> [] \<and> IsPathSeparator (p ! (length p - 1))"

definition RemoveTrailingPathSeparator :: "FilePath \<Rightarrow> FilePath" where
  "RemoveTrailingPathSeparator p = (if IsDirectory p then Normalize (take (length p - 1) p) else p)"

definition ConcatPaths :: "FilePath \<Rightarrow> FilePath \<Rightarrow> FilePath" where
  "ConcatPaths directory relative_path =
    (if directory = [] then relative_path
     else Normalize (RemoveTrailingPathSeparator directory @ [kPathSeparator] @ relative_path))"

definition MakeFileName :: "FilePath \<Rightarrow> FilePath \<Rightarrow> int \<Rightarrow> string \<Rightarrow> FilePath" where
  "MakeFileName directory base_name number extension =
    ConcatPaths directory (Normalize
      (if number = 0 then base_name @ ''.'' @ extension
       else base_name @ ''_'' @ int_to_string number @ ''.'' @ extension))"

definition IsRootDirectory :: "FilePath \<Rightarrow> bool" where
  "IsRootDirectory p \<longleftrightarrow> length p = 1 \<and> IsPathSeparator (p ! 0)"

text \<open>\<open>pathname_.c_str()[0]\<close> of the empty path is the NUL.\<close>

definition IsAbsolutePath :: "FilePath \<Rightarrow> bool" where
  "IsAbsolutePath p \<longleftrightarrow> (case p of [] \<Rightarrow> False | c # _ \<Rightarrow> IsPathSeparator c)"

section \<open>Operations on the file system\<close>

definition FileOrDirectoryExists :: "('fs \<Rightarrow> string \<Rightarrow> bool option) \<Rightarrow> 'fs \<Rightarrow> FilePath \<Rightarrow> bool" where
  "FileOrDirectoryExists stat fs p \<longleftrightarrow> stat fs (c_str p) \<noteq> None"

definition DirectoryExists :: "('fs \<Rightarrow> string \<Rightarrow> bool option) \<Rightarrow> 'fs \<Rightarrow> FilePath \<Rightarrow> bool" where
  "DirectoryExists stat fs p \<longleftrightarrow> stat fs (c_str p) = Some True"

definition CreateFolder ::
  "('fs \<Rightarrow> string \<Rightarrow> bool option) \<Rightarrow> ('fs \<Rightarrow> string \<Rightarrow> int \<times> 'fs) \<Rightarrow> FilePath \<Rightarrow> 'fs \<Rightarrow> bool \<times> 'fs" where
  "CreateFolder stat mkdir p fs =
    (let (result, fs') = mkdir fs (c_str p)
     in if result = - 1 then (DirectoryExists stat fs' p, fs') else (True, fs'))"

definition parent :: "FilePath \<Rightarrow> FilePath" where
  "parent p = RemoveFileName (RemoveTrailingPathSeparator p)"

text \<open>\<open>None\<close> is a call that never returns.\<close>

partial_function (option) CreateDirectoriesRecursively ::
  "('fs \<Rightarrow> string \<Rightarrow> bool option) \<Rightarrow> ('fs \<Rightarrow> string \<Rightarrow> int \<times> 'fs) \<Rightarrow> FilePath \<Rightarrow> 'fs \<Rightarrow> (bool \<times> 'fs) option" where
  "CreateDirectoriesRecursively stat mkdir p fs =
    (if \<not> IsDirectory p then Some (False, fs)
     else if length p = 0 \<or> DirectoryExists stat fs p then Some (True, fs)
     else Option.bind (CreateDirectoriesRecursively stat mkdir (parent p) fs)
            (\<lambda>(ok, fs'). if \<not> ok then Some (False, fs') else Some (CreateFolder stat mkdir p fs')))"

text \<open>
  \<open>number\<close> is an \<open>int\<close>; \<open>None\<close> where its increment overflows.
\<close>

function unique_loop ::
  "('fs \<Rightarrow> string \<Rightarrow> bool option) \<Rightarrow> 'fs \<Rightarrow> FilePath \<Rightarrow> FilePath \<Rightarrow> string \<Rightarrow> int \<Rightarrow> FilePath option" where
  "unique_loop stat fs directory base_name extension number =
    (if number \<ge> 2147483647 then None
     else let full_pathname = MakeFileName directory base_name number extension
          in if FileOrDirectoryExists stat fs full_pathname
             then unique_loop stat fs directory base_name extension (number + 1)
             else Some full_pathname)"
  by pat_completeness auto
termination
  by (relation "measure (\<lambda>(_, _, _, _, _, number). nat (2147483647 - number))") auto

declare unique_loop.simps [simp del]

definition GenerateUniqueFileName ::
  "('fs \<Rightarrow> string \<Rightarrow> bool option) \<Rightarrow> 'fs \<Rightarrow> FilePath \<Rightarrow> FilePath \<Rightarrow> string \<Rightarrow> FilePath option" where
  "GenerateUniqueFileName stat fs directory base_name extension =
    unique_loop stat fs directory base_name extension 0"

section \<open>Normal paths\<close>

text \<open>The values a \<open>FilePath\<close> can have: no NUL and no two separators in a row.\<close>

fun no_double :: "string \<Rightarrow> bool" where
  "no_double (a # b # s) \<longleftrightarrow> \<not> (IsPathSeparator a \<and> IsPathSeparator b) \<and> no_double (b # s)"
| "no_double _ \<longleftrightarrow> True"

definition normal :: "FilePath \<Rightarrow> bool" where
  "normal p \<longleftrightarrow> CHR 0x00 \<notin> set p \<and> no_double p"

lemma sep_eq [simp]: "IsPathSeparator c \<longleftrightarrow> c = CHR ''/''"
  by (simp add: IsPathSeparator_def kPathSeparator_def)

lemma no_double_Cons: "no_double (c # s) \<longleftrightarrow> \<not> (c = CHR ''/'' \<and> s \<noteq> [] \<and> hd s = CHR ''/'') \<and> no_double s"
  by (cases s) auto

lemma c_str_normal [simp]: "CHR 0x00 \<notin> set p \<Longrightarrow> c_str p = p"
  by (induction p) (auto simp: c_str_def)

lemma path_nul_free [simp]: "CHR 0x00 \<notin> set (c_str s)"
  by (auto simp: c_str_def dest: set_takeWhileD)

lemma normalize_loop_set: "set (normalize_loop s) \<subseteq> set s"
  by (induction s rule: normalize_loop.induct) (auto dest: set_dropWhileD)

lemma normalize_loop_hd: "s \<noteq> [] \<Longrightarrow> normalize_loop s \<noteq> [] \<and> hd (normalize_loop s) = hd s"
  by (cases s) auto

lemma normalize_loop_no_double: "no_double (normalize_loop s)"
proof (induction s rule: normalize_loop.induct)
  case (2 c s)
  have "hd (normalize_loop (dropWhile IsPathSeparator s)) \<noteq> CHR ''/''"
    if "normalize_loop (dropWhile IsPathSeparator s) \<noteq> []"
  proof -
    from that have ne: "dropWhile IsPathSeparator s \<noteq> []" by (metis normalize_loop.simps(1))
    then have "\<not> IsPathSeparator (hd (dropWhile IsPathSeparator s))" by (rule hd_dropWhile)
    then show ?thesis using normalize_loop_hd [OF ne] by (metis sep_eq)
  qed
  then show ?case using 2 by (auto simp: no_double_Cons)
qed simp

lemma normal_Normalize [simp, intro]: "normal (Normalize s)"
  using normalize_loop_set [of "c_str s"] normalize_loop_no_double path_nul_free [of s]
  by (auto simp: normal_def Normalize_def)

lemma normalize_loop_id: "no_double s \<Longrightarrow> normalize_loop s = s"
proof (induction s rule: normalize_loop.induct)
  case (2 c s)
  show ?case
  proof (cases "c = CHR ''/''")
    case True
    then have "dropWhile IsPathSeparator s = s" using 2(3) by (cases s) auto
    then show ?thesis using 2(2,3) True by (auto simp: no_double_Cons)
  next
    case False
    then show ?thesis using 2(1,3) by (auto simp: no_double_Cons)
  qed
qed simp

lemma Normalize_normal [simp]: "normal p \<Longrightarrow> Normalize p = p"
  by (simp add: normal_def Normalize_def normalize_loop_id)

lemma no_double_append:
  "no_double (xs @ ys) \<longleftrightarrow> no_double xs \<and> no_double ys \<and>
     \<not> (xs \<noteq> [] \<and> ys \<noteq> [] \<and> last xs = CHR ''/'' \<and> hd ys = CHR ''/'')"
  by (induction xs) (auto simp: no_double_Cons hd_append split: if_splits)

lemma normal_append:
  "normal (xs @ ys) \<longleftrightarrow> normal xs \<and> normal ys \<and>
     \<not> (xs \<noteq> [] \<and> ys \<noteq> [] \<and> last xs = CHR ''/'' \<and> hd ys = CHR ''/'')"
  by (auto simp: normal_def no_double_append)


lemma strrchr_split:
  "strrchr s c = Some t \<Longrightarrow> \<exists>u r. s = u @ c # r \<and> t = c # r \<and> c \<notin> set r"
proof (induction s arbitrary: t)
  case (Cons a s)
  show ?case
  proof (cases "strrchr s c")
    case None
    then have "c \<notin> set s" by (induction s) (auto split: option.splits if_splits)
    moreover have "a = c" "t = c # s" using Cons.prems None by (auto split: if_splits)
    ultimately have "a # s = [] @ c # s \<and> t = c # s \<and> c \<notin> set s" by simp
    then show ?thesis by blast
  next
    case (Some t')
    from Cons.IH [OF this] obtain u r where "s = u @ c # r" "t' = c # r" "c \<notin> set r" by blast
    then have "a # s = (a # u) @ c # r \<and> t = c # r \<and> c \<notin> set r" using Cons.prems Some by simp
    then show ?thesis by blast
  qed
qed simp

lemma strrchr_None: "strrchr s c = None \<longleftrightarrow> c \<notin> set s"
  by (induction s) (auto split: option.splits)

text \<open>A path splits at its last separator.\<close>

lemma last_separator:
  assumes "normal p"
  obtains (sep) u r where "p = u @ CHR ''/'' # r" "CHR ''/'' \<notin> set r"
      "RemoveFileName p = u @ ''/''" "RemoveDirectoryName p = r" "normal u" "u \<noteq> [] \<longrightarrow> last u \<noteq> CHR ''/''"
  | (none) "CHR ''/'' \<notin> set p" "RemoveFileName p = ''./''" "RemoveDirectoryName p = p"
proof (cases "strrchr p (CHR ''/'')")
  case None
  moreover have "Normalize ''./'' = ''./''" by (simp add: normal_def)
  moreover have "c_str p = p" using assms by (simp add: normal_def)
  moreover have "CHR ''/'' \<notin> set p" using None by (simp add: strrchr_None)
  ultimately show ?thesis
    using none by (simp add: RemoveFileName_def RemoveDirectoryName_def
        FindLastPathSeparator_def kPathSeparator_def kCurrentDirectoryString_def)
next
  case (Some t)
  then obtain u r where p: "p = u @ CHR ''/'' # r" "t = CHR ''/'' # r" "CHR ''/'' \<notin> set r"
    using strrchr_split by blast
  have n: "normal u" "normal r" "normal (u @ ''/'')" "u \<noteq> [] \<longrightarrow> last u \<noteq> CHR ''/''"
    using assms p(1) normal_append [of "u @ ''/''" r] normal_append [of u "CHR ''/'' # r"]
    by auto
  have "c_str p = p" using assms by (simp add: normal_def)
  then have "RemoveFileName p = u @ ''/''" "RemoveDirectoryName p = r"
    using p Some n by (simp_all add: RemoveFileName_def RemoveDirectoryName_def FindLastPathSeparator_def
        kPathSeparator_def)
  then show ?thesis using sep p n by blast
qed

lemma normal_operations [simp, intro]:
  assumes "normal p"
  shows "normal (RemoveExtension e p)" "normal (RemoveDirectoryName p)" "normal (RemoveFileName p)"
    "normal (RemoveTrailingPathSeparator p)"
  using assms
  by (auto simp: RemoveExtension_def RemoveDirectoryName_def RemoveFileName_def
      RemoveTrailingPathSeparator_def Let_def split: option.splits)

lemma normal_ConcatPaths [simp, intro]: "normal r \<Longrightarrow> normal (ConcatPaths d r)"
  by (simp add: ConcatPaths_def)

lemma normal_MakeFileName [simp, intro]: "normal (MakeFileName d b n e)"
  by (simp add: MakeFileName_def)

lemma IsDirectory_iff: "IsDirectory p \<longleftrightarrow> (\<exists>u. p = u @ ''/'')"
proof (cases p rule: rev_cases)
  case (snoc u c)
  then show ?thesis by (simp add: IsDirectory_def nth_append)
qed (simp add: IsDirectory_def)

lemma RemoveTrailing_dir: "normal (u @ ''/'') \<Longrightarrow> RemoveTrailingPathSeparator (u @ ''/'') = u"
  by (simp add: RemoveTrailingPathSeparator_def IsDirectory_iff normal_append)


section \<open>Creating directories\<close>

lemma parent_is_directory: "normal p \<Longrightarrow> IsDirectory (parent p)"
  unfolding parent_def
  by (rule last_separator [of "RemoveTrailingPathSeparator p"]) (auto simp: IsDirectory_iff)

lemma normal_parent [simp, intro]: "normal p \<Longrightarrow> normal (parent p)"
  by (simp add: parent_def)

lemma normal_parents [simp, intro]: "normal p \<Longrightarrow> normal ((parent ^^ n) p)"
  by (induction n) auto

text \<open>The parents of a path end at the current directory.\<close>

lemma parents_reach_current:
  assumes "normal p" "IsDirectory p"
  shows "\<exists>n. (parent ^^ n) p = ''./''"
  using assms
proof (induction "count_list p (CHR ''/'')" arbitrary: p rule: less_induct)
  case less
  obtain u where u: "p = u @ ''/''" using less.prems by (auto simp: IsDirectory_iff)
  have rem: "RemoveTrailingPathSeparator p = u" using less.prems u RemoveTrailing_dir by simp
  have "normal u" using less.prems(1) u normal_append by simp
  then show ?case
  proof (cases rule: last_separator)
    case (sep v r)
    then have "parent p = v @ ''/''" by (simp add: parent_def rem)
    moreover have "count_list (v @ ''/'') (CHR ''/'') < count_list p (CHR ''/'')"
      using sep(1,2) u by (simp add: count_list_0_iff)
    ultimately obtain n where "(parent ^^ n) (parent p) = ''./''"
      using less.hyps [of "parent p"] less.prems parent_is_directory by fastforce
    then have "(parent ^^ Suc n) p = ''./''" by (simp only: funpow_Suc_right comp_apply)
    then show ?thesis by blast
  next
    case none
    then have "(parent ^^ 1) p = ''./''" by (simp add: parent_def rem)
    then show ?thesis by blast
  qed
qed

lemma create_returns_if:
  assumes "normal p" "DirectoryExists stat fs ((parent ^^ n) p)"
  shows "CreateDirectoriesRecursively stat mkdir p fs \<noteq> None"
  using assms
proof (induction n arbitrary: p)
  case 0
  then show ?case by (subst CreateDirectoriesRecursively.simps) auto
next
  case (Suc n)
  from Suc.IH [of "parent p"] Suc.prems have "CreateDirectoriesRecursively stat mkdir (parent p) fs \<noteq> None"
    by (simp add: funpow_Suc_right del: funpow.simps)
  then show ?case by (subst CreateDirectoriesRecursively.simps) (auto split: if_splits)
qed

lemma create_diverges_if:
  assumes "CreateDirectoriesRecursively stat mkdir p fs = Some r"
  shows "\<not> (normal p \<and> IsDirectory p \<and> (\<forall>n. \<not> DirectoryExists stat fs ((parent ^^ n) p)))"
proof (rule CreateDirectoriesRecursively.raw_induct [OF _ assms, where
      P = "\<lambda>stat mkdir p fs r. \<not> (normal p \<and> IsDirectory p \<and> (\<forall>n. \<not> DirectoryExists stat fs ((parent ^^ n) p)))"])
  fix create :: "('b \<Rightarrow> string \<Rightarrow> bool option) \<Rightarrow> ('b \<Rightarrow> string \<Rightarrow> int \<times> 'b) \<Rightarrow> string \<Rightarrow> 'b \<Rightarrow> (bool \<times> 'b) option"
  fix stat :: "'b \<Rightarrow> string \<Rightarrow> bool option" and mkdir p fs r
  assume IH: "\<And>stat mkdir p fs r. create stat mkdir p fs = Some r
      \<Longrightarrow> \<not> (normal p \<and> IsDirectory p \<and> (\<forall>n. \<not> DirectoryExists stat fs ((parent ^^ n) p)))"
    and eq: "(if \<not> IsDirectory p then Some (False, fs)
      else if length p = 0 \<or> DirectoryExists stat fs p then Some (True, fs)
      else Option.bind (create stat mkdir (parent p) fs)
            (\<lambda>(ok, fs'). if \<not> ok then Some (False, fs') else Some (CreateFolder stat mkdir p fs'))) = Some r"
  show "\<not> (normal p \<and> IsDirectory p \<and> (\<forall>n. \<not> DirectoryExists stat fs ((parent ^^ n) p)))"
  proof
    assume a: "normal p \<and> IsDirectory p \<and> (\<forall>n. \<not> DirectoryExists stat fs ((parent ^^ n) p))"
    then have no: "\<not> DirectoryExists stat fs ((parent ^^ n) p)" for n by blast
    have "\<not> DirectoryExists stat fs p" "length p \<noteq> 0" using no [of 0] a by (auto simp: IsDirectory_def)
    with eq a obtain q where q: "create stat mkdir (parent p) fs = Some q"
      by (auto simp: bind_eq_Some_conv)
    have "\<not> DirectoryExists stat fs ((parent ^^ n) (parent p))" for n
      using no [of "Suc n"] by (simp add: funpow_Suc_right del: funpow.simps)
    with IH [OF q] a parent_is_directory show False by blast
  qed
qed

section \<open>Unique names\<close>

lemma unique_loop_exact:
  assumes "0 \<le> n"
  shows "unique_loop stat fs d b e n = Some q \<longleftrightarrow>
    (\<exists>k. n \<le> k \<and> k < 2147483647 \<and> q = MakeFileName d b k e \<and> \<not> FileOrDirectoryExists stat fs q \<and>
         (\<forall>i. n \<le> i \<and> i < k \<longrightarrow> FileOrDirectoryExists stat fs (MakeFileName d b i e)))"
  using assms
proof (induction stat fs d b e n rule: unique_loop.induct)
  case (1 stat fs d b e n)
  show ?case
  proof (cases "n < 2147483647 \<and> FileOrDirectoryExists stat fs (MakeFileName d b n e)")
    case True
    then have "unique_loop stat fs d b e n = unique_loop stat fs d b e (n + 1)"
      by (subst unique_loop.simps) simp
    moreover have "n \<le> i \<longleftrightarrow> i = n \<or> n + 1 \<le> i" for i :: int by auto
    ultimately show ?thesis using 1 True by auto
  next
    case False
    then have "unique_loop stat fs d b e n = (if 2147483647 \<le> n then None else Some (MakeFileName d b n e))"
      by (subst unique_loop.simps) (auto simp: Let_def)
    moreover have "k = n" if "n \<le> k" "\<forall>i. n \<le> i \<and> i < k \<longrightarrow> FileOrDirectoryExists stat fs (MakeFileName d b i e)"
      "n < 2147483647" for k
      using that False by (metis order_le_less order_refl)
    ultimately show ?thesis using False by (auto, metis)
  qed
qed

text \<open>
  \<open>GenerateUniqueFileName\<close> returns the first of the numbered names that does not exist.
\<close>

lemma unique_file_name:
  "GenerateUniqueFileName stat fs d b e = Some q \<longleftrightarrow>
    (\<exists>k. 0 \<le> k \<and> k < 2147483647 \<and> q = MakeFileName d b k e \<and> \<not> FileOrDirectoryExists stat fs q \<and>
         (\<forall>i. 0 \<le> i \<and> i < k \<longrightarrow> FileOrDirectoryExists stat fs (MakeFileName d b i e)))"
  by (simp add: GenerateUniqueFileName_def unique_loop_exact)

section \<open>Properties\<close>

text \<open>
  File paths stay in normal form: the constructor makes any string a path without NUL and without
  two separators in a row, does not change such a path, and every operation on normal paths returns
  one.  A normal path with a separator is its directory followed by its file name, and \<open>ConcatPaths\<close>
  puts the two together again, also for a file in the root directory, whose directory is \<open>/\<close>.
\<close>

theorem file_path_normal:
  assumes "normal p" and "normal d" and "CHR ''/'' \<in> set p"
  shows "normal (Normalize s) \<and> Normalize p = p \<and> normal (RemoveExtension e p) \<and>
    normal (RemoveDirectoryName p) \<and> normal (RemoveFileName p) \<and> normal (RemoveTrailingPathSeparator p) \<and>
    normal (ConcatPaths d p) \<and> normal (MakeFileName d p n e) \<and>
    RemoveFileName p @ RemoveDirectoryName p = p \<and>
    ConcatPaths (RemoveFileName p) (RemoveDirectoryName p) = p"
proof -
  from assms(1) have "RemoveFileName p @ RemoveDirectoryName p = p \<and>
    ConcatPaths (RemoveFileName p) (RemoveDirectoryName p) = p"
  proof (cases rule: last_separator)
    case (sep u r)
    then have "RemoveTrailingPathSeparator (RemoveFileName p) = u"
      using RemoveTrailing_dir normal_operations(3) [OF assms(1)] by simp
    then show ?thesis using sep assms(1) by (simp add: ConcatPaths_def kPathSeparator_def)
  qed (use assms in simp)
  then show ?thesis using assms by simp
qed

theorem file_path_normal_witness:
  "ConcatPaths (RemoveFileName ''/a_file'') (RemoveDirectoryName ''/a_file'') = ''/a_file'' \<and>
   RemoveFileName ''/a_file'' = ''/''"
proof -
  have n: "normal ''/a_file''" "RemoveFileName ''/a_file'' = ''/''" by code_simp+
  have "CHR ''/'' \<in> set ''/a_file''" by simp
  from file_path_normal [OF n(1) n(1) this] n(2) show ?thesis by blast
qed



end
