(* ===== verification/Gtest_Floating.thy ===== *)
theory Gtest_Floating
  imports Gmock_Matchers
begin

unbundle bit_operations_syntax

text \<open>
  Comparison of floating-point numbers: the class \<open>FloatingPoint\<close> of \<open>gtest-internal.h\<close>, the helpers
  of the floating-point assertions (\<open>gtest.h\<close>, \<open>gtest.cc\<close>) and the matchers \<open>FloatEq\<close>, \<open>NanSensitiveFloatEq\<close>
  and their \<open>double\<close> variants (\<open>gmock-matchers.h\<close>).

  A \<open>float\<close> or \<open>double\<close> is its bit pattern, a word \<open>'w\<close> of 32 or 64 bits with \<open>fb\<close> fraction bits, 23
  or 52.  \<open>pv\<close> prints a number with the precision the code sets, \<open>sub\<close> is the subtraction of the machine.
\<close>

section \<open>The class FloatingPoint\<close>

definition kExponentBitCount :: "'w :: len itself \<Rightarrow> nat \<Rightarrow> nat" where
  "kExponentBitCount w fb = LENGTH('w) - 1 - fb"

definition kSignBitMask :: "'w :: len word" where
  "kSignBitMask = push_bit (LENGTH('w) - 1) 1"

definition kFractionBitMask :: "nat \<Rightarrow> 'w :: len word" where
  "kFractionBitMask fb = drop_bit (kExponentBitCount TYPE('w) fb + 1) (NOT 0)"

definition kExponentBitMask :: "nat \<Rightarrow> 'w :: len word" where
  "kExponentBitMask fb = NOT (kSignBitMask OR kFractionBitMask fb)"

definition kMaxUlps :: nat where "kMaxUlps = 4"

definition Infinity :: "nat \<Rightarrow> 'w :: len word" where
  "Infinity fb = kExponentBitMask fb"

definition exponent_bits :: "nat \<Rightarrow> 'w :: len word \<Rightarrow> 'w word" where
  "exponent_bits fb x = kExponentBitMask fb AND x"

definition fraction_bits :: "nat \<Rightarrow> 'w :: len word \<Rightarrow> 'w word" where
  "fraction_bits fb x = kFractionBitMask fb AND x"

definition sign_bit :: "'w :: len word \<Rightarrow> 'w word" where
  "sign_bit x = kSignBitMask AND x"

definition is_nan :: "nat \<Rightarrow> 'w :: len word \<Rightarrow> bool" where
  "is_nan fb x \<longleftrightarrow> exponent_bits fb x = kExponentBitMask fb \<and> fraction_bits fb x \<noteq> 0"

definition SignAndMagnitudeToBiased :: "'w :: len word \<Rightarrow> 'w word" where
  "SignAndMagnitudeToBiased sam =
    (if kSignBitMask AND sam \<noteq> 0 then NOT sam + 1 else kSignBitMask OR sam)"

definition DistanceBetweenSignAndMagnitudeNumbers :: "'w :: len word \<Rightarrow> 'w word \<Rightarrow> 'w word" where
  "DistanceBetweenSignAndMagnitudeNumbers sam1 sam2 =
    (let biased1 = SignAndMagnitudeToBiased sam1; biased2 = SignAndMagnitudeToBiased sam2
     in if biased1 \<ge> biased2 then biased1 - biased2 else biased2 - biased1)"

definition AlmostEquals :: "nat \<Rightarrow> 'w :: len word \<Rightarrow> 'w word \<Rightarrow> bool" where
  "AlmostEquals fb lhs rhs \<longleftrightarrow>
    (if is_nan fb lhs \<or> is_nan fb rhs then False
     else unat (DistanceBetweenSignAndMagnitudeNumbers lhs rhs) \<le> kMaxUlps)"

section \<open>The numbers\<close>

text \<open>
  The number read as a signed count of representable numbers from zero, and its value as a multiple
  of the smallest positive number: the exponent field 0 and 1 have that spacing, and each further
  exponent doubles it.  Infinity is the number after the largest finite one.
\<close>

definition ulps :: "'w :: len word \<Rightarrow> int" where
  "ulps x = (let m = uint x mod 2 ^ (LENGTH('w) - 1)
             in if bit x (LENGTH('w) - 1) then - m else m)"

definition magnitude_value :: "nat \<Rightarrow> nat \<Rightarrow> nat" where
  "magnitude_value fb n =
    (let e = n div 2 ^ fb; m = n mod 2 ^ fb in if e = 0 then m else (2 ^ fb + m) * 2 ^ (e - 1))"

definition fp_value :: "nat \<Rightarrow> 'w :: len word \<Rightarrow> int" where
  "fp_value fb x = sgn (ulps x) * int (magnitude_value fb (nat \<bar>ulps x\<bar>))"

text \<open>The comparisons of C++: false on a NaN.\<close>

definition fp_less :: "nat \<Rightarrow> 'w :: len word \<Rightarrow> 'w word \<Rightarrow> bool" where
  "fp_less fb x y \<longleftrightarrow> \<not> is_nan fb x \<and> \<not> is_nan fb y \<and> fp_value fb x < fp_value fb y"

definition fp_le :: "nat \<Rightarrow> 'w :: len word \<Rightarrow> 'w word \<Rightarrow> bool" where
  "fp_le fb x y \<longleftrightarrow> \<not> is_nan fb x \<and> \<not> is_nan fb y \<and> fp_value fb x \<le> fp_value fb y"

definition fp_eq :: "nat \<Rightarrow> 'w :: len word \<Rightarrow> 'w word \<Rightarrow> bool" where
  "fp_eq fb x y \<longleftrightarrow> \<not> is_nan fb x \<and> \<not> is_nan fb y \<and> fp_value fb x = fp_value fb y"

definition fabs :: "'w :: len word \<Rightarrow> 'w word" where
  "fabs x = x AND NOT kSignBitMask"

section \<open>Assertions and matchers\<close>

definition CmpHelperFloatingPointEQ ::
  "'c arith \<Rightarrow> ('w word \<Rightarrow> string) \<Rightarrow> nat \<Rightarrow> string \<Rightarrow> string \<Rightarrow> 'w :: len word \<Rightarrow> 'w word \<Rightarrow> AssertionResult option" where
  "CmpHelperFloatingPointEQ A pv fb lhs_expression rhs_expression lhs_value rhs_value =
    (if AlmostEquals fb lhs_value rhs_value then Some AssertionSuccess
     else EqFailure A lhs_expression rhs_expression (StringStreamToString (pv lhs_value))
            (StringStreamToString (pv rhs_value)) False)"

definition FloatingPointLE ::
  "('w word \<Rightarrow> string) \<Rightarrow> nat \<Rightarrow> string \<Rightarrow> string \<Rightarrow> 'w :: len word \<Rightarrow> 'w word \<Rightarrow> AssertionResult" where
  "FloatingPointLE pv fb expr1 expr2 val1 val2 =
    (if fp_less fb val1 val2 then AssertionSuccess
     else if AlmostEquals fb val1 val2 then AssertionSuccess
     else fail_with [''Expected: ('', expr1, '') <= ('', expr2, '')'' @ [newline], ''  Actual: '',
            StringStreamToString (pv val1), '' vs '', StringStreamToString (pv val2)])"

definition FloatLE :: "(32 word \<Rightarrow> string) \<Rightarrow> string \<Rightarrow> string \<Rightarrow> 32 word \<Rightarrow> 32 word \<Rightarrow> AssertionResult" where
  "FloatLE pv = FloatingPointLE pv 23"

definition DoubleLE :: "(64 word \<Rightarrow> string) \<Rightarrow> string \<Rightarrow> string \<Rightarrow> 64 word \<Rightarrow> 64 word \<Rightarrow> AssertionResult" where
  "DoubleLE pv = FloatingPointLE pv 52"

definition DoubleNearPredFormat ::
  "('w word \<Rightarrow> string) \<Rightarrow> nat \<Rightarrow> ('w word \<Rightarrow> 'w word \<Rightarrow> 'w word) \<Rightarrow> string \<Rightarrow> string \<Rightarrow> string \<Rightarrow>
   'w :: len word \<Rightarrow> 'w word \<Rightarrow> 'w word \<Rightarrow> AssertionResult" where
  "DoubleNearPredFormat pv fb sub expr1 expr2 abs_error_expr val1 val2 abs_error =
    (let diff = fabs (sub val1 val2)
     in if fp_le fb diff abs_error then AssertionSuccess
        else fail_with [''The difference between '', expr1, '' and '', expr2, '' is '', pv diff, '', which exceeds '',
               abs_error_expr, '', where'' @ [newline], expr1, '' evaluates to '', pv val1, '','' @ [newline], expr2,
               '' evaluates to '', pv val2, '', and'' @ [newline], abs_error_expr, '' evaluates to '',
               pv abs_error, ''.''])"

text \<open>
  The maximal absolute error is \<open>None\<close> for the constructor that stores \<open>-1\<close>; the other checks that
  it is not negative.
\<close>

definition FloatingEqMatcher ::
  "('w word \<Rightarrow> string) \<Rightarrow> nat \<Rightarrow> ('w word \<Rightarrow> 'w word \<Rightarrow> 'w word) \<Rightarrow> 'w :: len word \<Rightarrow> bool \<Rightarrow> 'w word option \<Rightarrow> 'w word matcher" where
  "FloatingEqMatcher pv fb sub expected nan_eq_nan max_abs_error =
    \<lparr>MatchAndExplain = (\<lambda>value.
       if is_nan fb value \<or> is_nan fb expected
       then (if is_nan fb value \<and> is_nan fb expected then (nan_eq_nan, []) else (False, []))
       else (case max_abs_error of
               Some e \<Rightarrow>
                 if fp_eq fb value expected then (True, [])
                 else (let diff = sub value expected
                       in if fp_le fb (fabs diff) e then (True, [])
                          else (False, ''which is '' @ pv diff @ '' from '' @ pv expected))
             | None \<Rightarrow> (AlmostEquals fb value expected, []))),
     DescribeTo =
       (if is_nan fb expected then (if nan_eq_nan then ''is NaN'' else ''never matches'')
        else ''is approximately '' @ pv expected
             @ (case max_abs_error of None \<Rightarrow> [] | Some e \<Rightarrow> '' (absolute error <= '' @ pv e @ '')'')),
     DescribeNegationTo =
       (if is_nan fb expected then (if nan_eq_nan then isnt @ '' NaN'' else ''is anything'')
        else isnt @ '' approximately '' @ pv expected
             @ (case max_abs_error of None \<Rightarrow> [] | Some e \<Rightarrow> '' (absolute error > '' @ pv e @ '')''))\<rparr>"

definition FloatingNearMatcher ::
  "('w word \<Rightarrow> string) \<Rightarrow> nat \<Rightarrow> ('w word \<Rightarrow> 'w word \<Rightarrow> 'w word) \<Rightarrow> 'w :: len word \<Rightarrow> bool \<Rightarrow> 'w word \<Rightarrow>
   'w word matcher option" where
  "FloatingNearMatcher pv fb sub expected nan_eq_nan max_abs_error =
    (if fp_le fb 0 max_abs_error then Some (FloatingEqMatcher pv fb sub expected nan_eq_nan (Some max_abs_error))
     else None)"

section \<open>Biased numbers\<close>

lemma sign_test: "kSignBitMask AND x \<noteq> 0 \<longleftrightarrow> bit (x :: 'w :: len word) (LENGTH('w) - 1)"
proof -
  have "kSignBitMask AND x = (if bit x (LENGTH('w) - 1) then push_bit (LENGTH('w) - 1) 1 else 0)"
    by (rule bit_eqI) (auto simp: kSignBitMask_def bit_simps)
  then show ?thesis by (auto simp: push_bit_eq_mult)
qed

lemma word_double: "(2 :: int) ^ LENGTH('w :: len) = 2 * 2 ^ (LENGTH('w) - 1)"
  by (metis One_nat_def Suc_pred len_gt_0 power_Suc)

lemma word_halves:
  fixes x :: "'w :: len word"
  shows "0 \<le> uint x" "uint x < 2 * 2 ^ (LENGTH('w) - 1)"
    "bit x (LENGTH('w) - 1) \<longleftrightarrow> 2 ^ (LENGTH('w) - 1) \<le> uint x"
proof -
  show "0 \<le> uint x" by simp
  show lt: "uint x < 2 * 2 ^ (LENGTH('w) - 1)" using uint_lt2p [of x] word_double [where 'w = 'w] by simp
  have "bit x (LENGTH('w) - 1) \<longleftrightarrow> odd (uint x div 2 ^ (LENGTH('w) - 1))"
    using bit_uint_iff [of x "LENGTH('w) - 1"] by (simp add: bit_iff_odd [of "uint x"])
  moreover have "uint x div 2 ^ (LENGTH('w) - 1) = (if 2 ^ (LENGTH('w) - 1) \<le> uint x then 1 else 0)"
  proof (cases "2 ^ (LENGTH('w) - 1) \<le> uint x")
    case True
    have "(uint x - 2 ^ (LENGTH('w) - 1)) div 2 ^ (LENGTH('w) - 1) = 0"
      using True lt by (intro div_pos_pos_trivial) auto
    then show ?thesis using True by (simp add: div_pos_geq)
  qed (simp add: div_pos_pos_trivial)
  ultimately show "bit x (LENGTH('w) - 1) \<longleftrightarrow> 2 ^ (LENGTH('w) - 1) \<le> uint x" by auto
qed

lemma ulps_eq:
  fixes x :: "'w :: len word"
  shows "ulps x = (if bit x (LENGTH('w) - 1) then 2 ^ (LENGTH('w) - 1) - uint x else uint x)"
proof (cases "bit x (LENGTH('w) - 1)")
  case True
  then have "uint x mod 2 ^ (LENGTH('w) - 1) = uint x - 2 ^ (LENGTH('w) - 1)"
    using word_halves [of x] True
      mod_pos_pos_trivial [of "uint x - 2 ^ (LENGTH('w) - 1)" "2 ^ (LENGTH('w) - 1)"]
    by simp
  then show ?thesis using True by (simp add: ulps_def)
next
  case False
  then show ?thesis using word_halves [of x] by (simp add: ulps_def)
qed

lemma uint_SignAndMagnitudeToBiased:
  fixes x :: "'w :: len word"
  shows "uint (SignAndMagnitudeToBiased x) = ulps x + 2 ^ (LENGTH('w) - 1)"
proof (cases "bit x (LENGTH('w) - 1)")
  case True
  then have "0 < uint x" using word_halves(3) [of x] by (metis less_le_trans zero_less_numeral zero_less_power)
  have "SignAndMagnitudeToBiased x = - x"
    using True by (simp add: SignAndMagnitudeToBiased_def sign_test minus_eq_not_plus_1)
  moreover have "uint (- x) = 2 ^ LENGTH('w) - uint x"
    using \<open>0 < uint x\<close> uint_lt2p [of x]
    by (simp add: uint_word_ariths zmod_zminus1_eq_if)
  ultimately show ?thesis using True word_double [where 'w = 'w] by (simp add: ulps_eq)
next
  case False
  have "kSignBitMask OR x = kSignBitMask + x"
    by (rule disjunctive_add_eq_or [symmetric], rule bit_eqI)
       (use False in \<open>auto simp: kSignBitMask_def bit_simps\<close>)
  moreover have k: "uint (kSignBitMask :: 'w word) = 2 ^ (LENGTH('w) - 1)"
    by (simp add: kSignBitMask_def push_bit_eq_mult uint_2p word_gt_0)
  moreover have "uint (kSignBitMask + x) = uint (kSignBitMask :: 'w word) + uint x"
    using False k word_halves [of x] word_double [where 'w = 'w] by (simp add: uint_word_ariths)
  ultimately show ?thesis using False by (simp add: SignAndMagnitudeToBiased_def sign_test ulps_eq)
qed

lemma uint_Distance:
  "uint (DistanceBetweenSignAndMagnitudeNumbers x y) = \<bar>ulps x - ulps y\<bar>"
proof -
  have le: "SignAndMagnitudeToBiased y \<le> SignAndMagnitudeToBiased x \<longleftrightarrow> ulps y \<le> ulps x" for x y :: "'a word"
    by (simp add: word_le_def uint_SignAndMagnitudeToBiased)
  have sub: "uint (SignAndMagnitudeToBiased x - SignAndMagnitudeToBiased y) = ulps x - ulps y"
    if "ulps y \<le> ulps x" for x y :: "'a word"
    using that le [of y x] uint_SignAndMagnitudeToBiased [of x] uint_SignAndMagnitudeToBiased [of y]
    by (simp add: uint_minus_simple_alt)
  show ?thesis
    by (cases "ulps y \<le> ulps x") (simp_all add: DistanceBetweenSignAndMagnitudeNumbers_def Let_def le sub)
qed

section \<open>Order of the values\<close>

lemma magnitude_value_step: "magnitude_value fb n < magnitude_value fb (Suc n)"
proof (cases "Suc n mod 2 ^ fb = 0")
  case True
  then have m: "n mod 2 ^ fb = 2 ^ fb - 1" and e: "Suc n div 2 ^ fb = Suc (n div 2 ^ fb)"
    by (simp_all add: mod_Suc div_Suc split: if_splits)
  show ?thesis
  proof (cases "n div 2 ^ fb")
    case 0
    then show ?thesis using m e True by (simp add: magnitude_value_def)
  next
    case (Suc k)
    have "(2 ^ fb + (2 ^ fb - 1)) * 2 ^ k < (2 ^ fb * 2) * (2 :: nat) ^ k"
    proof (rule mult_strict_right_mono)
      have "0 < (2 :: nat) ^ fb" by simp
      then show "2 ^ fb + (2 ^ fb - 1) < 2 ^ fb * (2 :: nat)" by linarith
    qed simp
    then show ?thesis using m e True Suc by (simp add: magnitude_value_def mult.assoc)
  qed
next
  case False
  then have "Suc n mod 2 ^ fb = Suc (n mod 2 ^ fb)" and "Suc n div 2 ^ fb = n div 2 ^ fb"
    by (simp_all add: mod_Suc div_Suc split: if_splits)
  then show ?thesis by (simp add: magnitude_value_def Let_def)
qed

lemma magnitude_value_less: "magnitude_value fb m < magnitude_value fb n \<longleftrightarrow> m < n"
  using strict_mono_less [of "magnitude_value fb"] magnitude_value_step by (simp add: strict_mono_Suc_iff)

lemma magnitude_value_0 [simp]: "magnitude_value fb 0 = 0"
  by (simp add: magnitude_value_def)

lemma magnitude_value_pos: "0 < n \<Longrightarrow> 0 < magnitude_value fb n"
  using magnitude_value_less [of fb 0 n] by simp

lemma fp_value_less: "fp_value fb x < fp_value fb y \<longleftrightarrow> ulps x < ulps y"
proof -
  have neg: "int (magnitude_value fb m) * - 1 < int (magnitude_value fb n) * - 1 \<longleftrightarrow> n < m" for m n
    by (simp add: magnitude_value_less)
  have "sgn a * int (magnitude_value fb (nat \<bar>a\<bar>)) < sgn b * int (magnitude_value fb (nat \<bar>b\<bar>)) \<longleftrightarrow> a < b"
    for a b :: int
    using magnitude_value_pos [of "nat \<bar>a\<bar>" fb] magnitude_value_pos [of "nat \<bar>b\<bar>" fb]
      magnitude_value_less [of fb "nat \<bar>a\<bar>" "nat \<bar>b\<bar>"] magnitude_value_less [of fb "nat \<bar>b\<bar>" "nat \<bar>a\<bar>"]
    by (cases a "0 :: int" rule: linorder_cases; cases b "0 :: int" rule: linorder_cases)
       (auto simp: sgn_if)
  then show ?thesis by (simp add: fp_value_def)
qed

section \<open>Properties\<close>

lemma fp_value_eq: "fp_value fb x = fp_value fb y \<longleftrightarrow> ulps x = ulps (y :: 'w :: len word)"
  using fp_value_less [of fb x y] fp_value_less [of fb y x] by linarith

lemma ulps_fabs: "ulps (fabs x) = \<bar>ulps (x :: 'w :: len word)\<bar>"
proof -
  have "fabs x = take_bit (LENGTH('w) - 1) x"
    by (rule bit_eqI) (auto simp: fabs_def kSignBitMask_def bit_simps)
  then have "uint (fabs x) = uint x mod 2 ^ (LENGTH('w) - 1)" "\<not> bit (fabs x) (LENGTH('w) - 1)"
    by (simp_all add: bit_simps unsigned_take_bit_eq flip: take_bit_eq_mod)
  then show ?thesis by (simp add: ulps_def Let_def)
qed

lemma unat_le_uint: "unat x \<le> n \<longleftrightarrow> uint x \<le> int n"
  unfolding uint_nat by (rule of_nat_le_iff [symmetric])

lemma AlmostEquals_ulps:
  "AlmostEquals fb x y \<longleftrightarrow> \<not> is_nan fb x \<and> \<not> is_nan fb y \<and> \<bar>ulps x - ulps y\<bar> \<le> 4"
  by (auto simp: AlmostEquals_def kMaxUlps_def unat_le_uint uint_Distance)

text \<open>
  C35.  Comparison of floating-point numbers, for \<open>float\<close>, \<open>double\<close> and any other width: two numbers
  are almost equal iff neither is a NaN and at most four steps from one representable number to the
  next lead from one to the other, where the steps follow the order of the values.  The unsigned
  arithmetic on biased numbers never wraps.  \<open>FloatLE\<close> and \<open>DoubleLE\<close> hold iff neither number is a NaN and
  the first is at most four steps above the second; the matcher accepts almost equal numbers, and a
  NaN for a NaN when it is told to; with a maximal error it accepts equal numbers, infinities
  included, and those whose difference is small enough in magnitude.
\<close>

theorem floating_point_ulps:
  fixes x y :: "'w :: len word"
  shows "(AlmostEquals fb x y \<longleftrightarrow> \<not> is_nan fb x \<and> \<not> is_nan fb y \<and> \<bar>ulps x - ulps y\<bar> \<le> 4) \<and>
    (fp_value fb x < fp_value fb y \<longleftrightarrow> ulps x < ulps y) \<and>
    uint (SignAndMagnitudeToBiased x) = ulps x + 2 ^ (LENGTH('w) - 1) \<and>
    uint (DistanceBetweenSignAndMagnitudeNumbers x y) = \<bar>ulps x - ulps y\<bar> \<and>
    (success (FloatingPointLE pv fb e1 e2 x y) \<longleftrightarrow> \<not> is_nan fb x \<and> \<not> is_nan fb y \<and> ulps x \<le> ulps y + 4) \<and>
    (Matches (FloatingEqMatcher pv fb sub y nan_eq_nan None) x \<longleftrightarrow>
       AlmostEquals fb x y \<or> nan_eq_nan \<and> is_nan fb x \<and> is_nan fb y) \<and>
    (Matches (FloatingEqMatcher pv fb sub y nan_eq_nan (Some e)) x \<longleftrightarrow>
       \<not> is_nan fb x \<and> \<not> is_nan fb y \<and> (ulps x = ulps y \<or> fp_le fb (fabs (sub x y)) e) \<or>
       nan_eq_nan \<and> is_nan fb x \<and> is_nan fb y) \<and>
    ulps (fabs x) = \<bar>ulps x\<bar>"
proof -
  have fw: "success (fail_with ps) = False" for ps
  proof -
    have "success (fold AppendMessage ps r) = success r" for r
      by (induction ps arbitrary: r) (simp_all add: AppendMessage_def)
    then show ?thesis by (simp add: fail_with_def AssertionFailure_def)
  qed
  have "success (FloatingPointLE pv fb e1 e2 x y) \<longleftrightarrow> \<not> is_nan fb x \<and> \<not> is_nan fb y \<and> ulps x \<le> ulps y + 4"
    by (auto simp: FloatingPointLE_def fp_less_def fp_value_less AlmostEquals_ulps fw AssertionSuccess_def
        split: if_splits)
  moreover have "Matches (FloatingEqMatcher pv fb sub y nan_eq_nan None) x \<longleftrightarrow>
       AlmostEquals fb x y \<or> nan_eq_nan \<and> is_nan fb x \<and> is_nan fb y"
    by (auto simp: Matches_def FloatingEqMatcher_def AlmostEquals_def)
  moreover have "Matches (FloatingEqMatcher pv fb sub y nan_eq_nan (Some e)) x \<longleftrightarrow>
       \<not> is_nan fb x \<and> \<not> is_nan fb y \<and> (ulps x = ulps y \<or> fp_le fb (fabs (sub x y)) e) \<or>
       nan_eq_nan \<and> is_nan fb x \<and> is_nan fb y"
    by (auto simp: Matches_def FloatingEqMatcher_def fp_eq_def fp_value_eq Let_def)
  ultimately show ?thesis
    by (simp add: AlmostEquals_ulps fp_value_less uint_SignAndMagnitudeToBiased uint_Distance ulps_fabs)
qed

end
