(* ===== verification/Gtest_Xml.thy ===== *)
theory Gtest_Xml
  imports Gtest_Run Gtest_Assertions
begin

text \<open>
  The XML report of googletest (\<open>XmlUnitTestResultPrinter\<close> of \<open>gtest.cc\<close>, \<open>TestPartResult\<close> of
  \<open>gtest-test-part.cc\<close>): escaping, CDATA sections and the document of a test program.

  \<open>char\<close> is signed.  \<open>secs\<close> prints a number of milliseconds as seconds, \<open>localtime\<close> is the C function,
  and the elapsed times are arguments.  \<open>None\<close> is a failed \<open>GTEST_CHECK_\<close> or a null pointer.
\<close>

section \<open>Part results\<close>

text \<open>\<open>strstr\<close> of a needle that is not empty: the haystack from the first occurrence on.\<close>

fun strstr :: "string \<Rightarrow> string \<Rightarrow> string option" where
  "strstr [] needle = None"
| "strstr (c # s) needle = (if has_prefix needle (c # s) then Some (c # s) else strstr s needle)"

definition ExtractSummary :: "string \<Rightarrow> string" where
  "ExtractSummary msg =
    (case strstr (c_str msg) kStackTraceMarker of
       None \<Rightarrow> c_str msg
     | Some stack_trace \<Rightarrow> upto_ptr (c_str msg) stack_trace)"

definition part_file :: "TestPartResult \<Rightarrow> string option" where
  "part_file r = (if file_name r = [] then None else Some (c_str (file_name r)))"

text \<open>The inserter of a \<open>TestPartResult\<close>.\<close>

definition print_part :: "TestPartResult \<Rightarrow> string" where
  "print_part result =
    c_str (file_name result) @ '':'' @ int_to_string (line_number result) @ '': ''
    @ (case part_type result of
         kSuccess \<Rightarrow> ''Success'' | kFatalFailure \<Rightarrow> ''Fatal failure'' | _ \<Rightarrow> ''Non-fatal failure'')
    @ '':'' @ [newline] @ c_str (part_message result) @ [newline]"

definition FormatCompilerIndependentFileLocation :: "string option \<Rightarrow> int \<Rightarrow> string" where
  "FormatCompilerIndependentFileLocation f line =
    (let name = (case f of None \<Rightarrow> kUnknownFile | Some n \<Rightarrow> n)
     in if line < 0 then name else name @ '':'' @ int_to_string line)"

section \<open>Escaping\<close>

definition signed_char :: "char \<Rightarrow> int" where
  "signed_char c = (let n = (of_char c :: nat) in if n < 128 then int n else int n - 256)"

definition IsNormalizableWhitespace :: "char \<Rightarrow> bool" where
  "IsNormalizableWhitespace c \<longleftrightarrow> c = CHR 0x09 \<or> c = CHR 0x0A \<or> c = CHR 0x0D"

definition IsValidXmlCharacter :: "char \<Rightarrow> bool" where
  "IsValidXmlCharacter c \<longleftrightarrow> IsNormalizableWhitespace c \<or> signed_char c \<ge> 0x20"

definition escape_char :: "bool \<Rightarrow> char \<Rightarrow> string" where
  "escape_char is_attribute ch =
    (if ch = CHR ''<'' then ''&lt;''
     else if ch = CHR ''>'' then ''&gt;''
     else if ch = CHR ''&'' then ''&amp;''
     else if ch = CHR 0x27 then (if is_attribute then ''&apos;'' else [ch])
     else if ch = CHR 0x22 then (if is_attribute then ''&quot;'' else [ch])
     else if IsValidXmlCharacter ch then
       (if is_attribute \<and> IsNormalizableWhitespace ch
        then ''&#x'' @ FormatByte (of_char ch) @ '';''
        else [ch])
     else [])"

definition EscapeXml :: "string \<Rightarrow> bool \<Rightarrow> string" where
  "EscapeXml str is_attribute = StringStreamToString (concat (map (escape_char is_attribute) str))"

definition RemoveInvalidXmlCharacters :: "string \<Rightarrow> string" where
  "RemoveInvalidXmlCharacters str = filter IsValidXmlCharacter str"

definition EscapeXmlAttribute :: "string \<Rightarrow> string" where
  "EscapeXmlAttribute str = EscapeXml str True"

definition EscapeXmlText :: "string \<Rightarrow> string" where
  "EscapeXmlText str = EscapeXml (c_str str) False"

lemma strstr_shorter: "strstr s needle = Some t \<Longrightarrow> 0 < length t \<and> length t \<le> length s"
  by (induction s) (auto split: if_splits)

lemma strstr_drop: "strstr s needle = Some t \<Longrightarrow> length t - 3 < length s"
  using strstr_shorter [of s needle t] by linarith

function cdata_loop :: "string \<Rightarrow> string" where
  "cdata_loop segment =
    (case strstr segment '']]>'' of
       Some next_segment \<Rightarrow>
         upto_ptr segment next_segment @ '']]>]]&gt;<![CDATA['' @ cdata_loop (drop 3 next_segment)
     | None \<Rightarrow> segment)"
  by pat_completeness auto
termination
  by (relation "measure length") (auto simp: strstr_drop)

declare cdata_loop.simps [simp del]

definition OutputXmlCDataSection :: "string \<Rightarrow> string" where
  "OutputXmlCDataSection data = ''<![CDATA['' @ cdata_loop (c_str data) @ '']]>''"

section \<open>The document\<close>

text \<open>C++ divides towards zero.\<close>

definition FormatEpochTimeInMillisAsIso8601 :: "(int \<Rightarrow> tm option) \<Rightarrow> int \<Rightarrow> string" where
  "FormatEpochTimeInMillisAsIso8601 localtime ms =
    (case localtime (ms sdiv 1000) of
       None \<Rightarrow> []
     | Some t \<Rightarrow>
         int_to_string (tm_year t + 1900) @ ''-'' @ FormatIntWidth2 (tm_mon t + 1) @ ''-''
         @ FormatIntWidth2 (tm_mday t) @ ''T'' @ FormatIntWidth2 (tm_hour t) @ '':''
         @ FormatIntWidth2 (tm_min t) @ '':'' @ FormatIntWidth2 (tm_sec t))"

definition OutputXmlAttribute :: "string \<Rightarrow> string \<Rightarrow> string \<Rightarrow> string option" where
  "OutputXmlAttribute element_name name val =
    (case GetReservedAttributesForElement element_name of
       None \<Rightarrow> None
     | Some allowed_names \<Rightarrow>
         if name \<in> set allowed_names
         then Some ('' '' @ name @ ''='' @ [dquote] @ EscapeXmlAttribute val @ [dquote]) else None)"

text \<open>Attributes in a row.\<close>

fun output_attributes :: "string \<Rightarrow> (string \<times> string) list \<Rightarrow> string option" where
  "output_attributes element [] = Some []"
| "output_attributes element ((name, val) # as) =
    (case (OutputXmlAttribute element name val, output_attributes element as) of
       (Some a, Some b) \<Rightarrow> Some (a @ b) | _ \<Rightarrow> None)"

definition TestPropertiesAsXmlAttributes :: "TestResult \<Rightarrow> string" where
  "TestPropertiesAsXmlAttributes result =
    StringStreamToString (concat (map (\<lambda>(key, val).
      '' '' @ key @ ''='' @ [dquote] @ EscapeXmlAttribute val @ [dquote]) (test_properties result)))"

definition output_failure :: "TestPartResult \<Rightarrow> string" where
  "output_failure part =
    (let location = FormatCompilerIndependentFileLocation (part_file part) (line_number part);
         summary = location @ [newline] @ ExtractSummary (part_message part);
         detail = location @ [newline] @ c_str (part_message part)
     in ''      <failure message='' @ [dquote] @ EscapeXmlAttribute (c_str summary) @ [dquote]
        @ '' type='' @ [dquote, dquote] @ ''>''
        @ OutputXmlCDataSection (RemoveInvalidXmlCharacters detail) @ ''</failure>'' @ [newline])"

fun output_parts :: "nat \<Rightarrow> TestPartResult list \<Rightarrow> nat \<times> string" where
  "output_parts failures [] = (failures, [])"
| "output_parts failures (part # parts) =
    (if part_failed part
     then let (n, rest) = output_parts (failures + 1) parts
          in (n, (if failures + 1 = 1 then ''>'' @ [newline] else []) @ output_failure part @ rest)
     else output_parts failures parts)"

definition OutputXmlTestInfo :: "(int \<Rightarrow> string) \<Rightarrow> int \<Rightarrow> string \<Rightarrow> TestInfo \<Rightarrow> string option" where
  "OutputXmlTestInfo secs elapsed_time test_case_name t =
    (case output_attributes ''testcase''
           ([(''name'', ti_name t)]
            @ (case ti_value_param t of None \<Rightarrow> [] | Some p \<Rightarrow> [(''value_param'', p)])
            @ (case ti_type_param t of None \<Rightarrow> [] | Some p \<Rightarrow> [(''type_param'', p)])
            @ [(''status'', if ti_should_run t then ''run'' else ''notrun''),
               (''time'', secs elapsed_time), (''classname'', test_case_name)]) of
       None \<Rightarrow> None
     | Some attributes \<Rightarrow>
         let (failures, parts) = output_parts 0 (test_part_results (ti_result t))
         in Some (''    <testcase'' @ attributes @ TestPropertiesAsXmlAttributes (ti_result t) @ parts
                  @ (if failures = 0 then '' />'' else ''    </testcase>'') @ [newline]))"

text \<open>The loops over tests and test cases; \<open>tms\<close> are the elapsed times by position.\<close>

fun output_tests :: "(int \<Rightarrow> string) \<Rightarrow> (nat \<Rightarrow> int) \<Rightarrow> TestCase \<Rightarrow> nat list \<Rightarrow> string option" where
  "output_tests secs tms tc [] = Some []"
| "output_tests secs tms tc (i # is') =
    (case GetTestInfo_index tc (int i) of
       None \<Rightarrow> None
     | Some k \<Rightarrow>
         (case (if matches_filter (test_info_list tc ! k)
                then OutputXmlTestInfo secs (tms k) (tc_name tc) (test_info_list tc ! k) else Some [],
                output_tests secs tms tc is') of
            (Some a, Some b) \<Rightarrow> Some (a @ b) | _ \<Rightarrow> None))"

definition PrintXmlTestCase :: "(int \<Rightarrow> string) \<Rightarrow> int \<Rightarrow> (nat \<Rightarrow> int) \<Rightarrow> TestCase \<Rightarrow> string option" where
  "PrintXmlTestCase secs elapsed_time tms tc =
    (case (output_attributes ''testsuite''
             [(''name'', tc_name tc), (''tests'', int_to_string (reportable_test_count tc)),
              (''failures'', int_to_string (failed_test_count tc)),
              (''disabled'', int_to_string (reportable_disabled_test_count tc)),
              (''errors'', ''0''), (''time'', secs elapsed_time)],
           output_tests secs tms tc [0 ..< nat (total_test_count tc)]) of
       (Some attributes, Some body) \<Rightarrow>
         Some (''  <testsuite'' @ attributes @ TestPropertiesAsXmlAttributes (tc_ad_hoc_test_result tc)
               @ ''>'' @ [newline] @ body @ ''  </testsuite>'' @ [newline])
     | _ \<Rightarrow> None)"

fun output_cases ::
  "(int \<Rightarrow> string) \<Rightarrow> (nat \<Rightarrow> int) \<Rightarrow> (nat \<Rightarrow> nat \<Rightarrow> int) \<Rightarrow> UnitTestImpl \<Rightarrow> nat list \<Rightarrow> string option" where
  "output_cases secs ctms tms u [] = Some []"
| "output_cases secs ctms tms u (i # is') =
    (case GetTestCase_index u (int i) of
       None \<Rightarrow> None
     | Some k \<Rightarrow>
         (case (if reportable_test_count (test_cases u ! k) > 0
                then PrintXmlTestCase secs (ctms k) (tms k) (test_cases u ! k) else Some [],
                output_cases secs ctms tms u is') of
            (Some a, Some b) \<Rightarrow> Some (a @ b) | _ \<Rightarrow> None))"

definition PrintXmlUnitTest ::
  "(int \<Rightarrow> string) \<Rightarrow> (int \<Rightarrow> tm option) \<Rightarrow> int \<Rightarrow> int \<Rightarrow> (nat \<Rightarrow> int) \<Rightarrow> (nat \<Rightarrow> nat \<Rightarrow> int) \<Rightarrow>
     GtestFlags \<Rightarrow> UnitTestImpl \<Rightarrow> string option" where
  "PrintXmlUnitTest secs localtime start_timestamp elapsed_time ctms tms fl u =
    (case (output_attributes ''testsuites''
             ([(''tests'', int_to_string (ut_reportable_test_count u)),
               (''failures'', int_to_string (ut_failed_test_count u)),
               (''disabled'', int_to_string (ut_reportable_disabled_test_count u)),
               (''errors'', ''0''),
               (''timestamp'', FormatEpochTimeInMillisAsIso8601 localtime start_timestamp),
               (''time'', secs elapsed_time)]
              @ (if shuffle fl then [(''random_seed'', int_to_string (ut_random_seed u))] else [])),
           OutputXmlAttribute ''testsuites'' ''name'' ''AllTests'',
           output_cases secs ctms tms u [0 ..< nat (total_test_case_count u)]) of
       (Some attributes, Some name, Some body) \<Rightarrow>
         Some (''<?xml version='' @ [dquote] @ ''1.0'' @ [dquote] @ '' encoding='' @ [dquote] @ ''UTF-8''
               @ [dquote] @ ''?>'' @ [newline] @ ''<testsuites'' @ attributes
               @ TestPropertiesAsXmlAttributes (ut_ad_hoc_test_result u) @ name @ ''>'' @ [newline]
               @ body @ ''</testsuites>'' @ [newline])
     | _ \<Rightarrow> None)"


section \<open>Reading a document\<close>

text \<open>
  A reader after the XML recommendation, for attribute values and for the content of an element
  without children: references to the five named characters and to characters in hexadecimal, line
  ends and tabs as spaces in an attribute value, CDATA sections in content.
\<close>

definition reference :: "string \<Rightarrow> char option" where
  "reference name =
    (if name = ''lt'' then Some (CHR ''<'') else if name = ''gt'' then Some (CHR ''>'')
     else if name = ''amp'' then Some (CHR ''&'') else if name = ''apos'' then Some (CHR 0x27)
     else if name = ''quot'' then Some (CHR 0x22)
     else if has_prefix ''#x'' name \<and> list_all xdigit (drop 2 name)
     then Some (char_of (hex_value (drop 2 name))) else None)"

function read_attribute :: "string \<Rightarrow> string option" where
  "read_attribute [] = Some []"
| "read_attribute (c # s) =
    (if c = CHR ''&'' then
       (let name = takeWhile (\<lambda>c. c \<noteq> CHR '';'') s
        in case reference name of
             None \<Rightarrow> None
           | Some r \<Rightarrow> map_option (Cons r) (read_attribute (drop (length name + 1) s)))
     else if c = CHR ''<'' \<or> c = CHR 0x22 then None
     else map_option (Cons (if IsNormalizableWhitespace c then CHR '' '' else c)) (read_attribute s))"
  by pat_completeness auto
termination
  by (relation "measure length") auto

function read_content :: "string \<Rightarrow> string option" where
  "read_content [] = Some []"
| "read_content (c # s) =
    (if c = CHR ''&'' then
       (let name = takeWhile (\<lambda>c. c \<noteq> CHR '';'') s
        in case reference name of
             None \<Rightarrow> None
           | Some r \<Rightarrow> map_option (Cons r) (read_content (drop (length name + 1) s)))
     else if has_prefix ''<![CDATA['' (c # s) then
       (let t = drop 8 s
        in case strstr t '']]>'' of
             None \<Rightarrow> None
           | Some e \<Rightarrow> map_option ((@) (upto_ptr t e)) (read_content (drop 3 e)))
     else if c = CHR ''<'' \<or> has_prefix '']]>'' (c # s) then None
     else map_option (Cons c) (read_content s))"
  by pat_completeness auto
termination
  by (relation "measure length") (auto dest!: strstr_shorter)

declare read_attribute.simps(2) [simp del] read_content.simps(2) [simp del]

lemma read_attribute_ref:
  assumes "CHR '';'' \<notin> set name" "reference name = Some r"
  shows "read_attribute (CHR ''&'' # name @ CHR '';'' # s) = map_option (Cons r) (read_attribute s)"
proof -
  have "takeWhile (\<lambda>c. c \<noteq> CHR '';'') (name @ CHR '';'' # s) = name"
    using assms(1) by (induction name) auto
  then show ?thesis using assms(2) by (simp add: read_attribute.simps(2) [of "CHR ''&''"])
qed

lemma read_content_ref:
  assumes "CHR '';'' \<notin> set name" "reference name = Some r"
  shows "read_content (CHR ''&'' # name @ CHR '';'' # s) = map_option (Cons r) (read_content s)"
proof -
  have "takeWhile (\<lambda>c. c \<noteq> CHR '';'') (name @ CHR '';'' # s) = name"
    using assms(1) by (induction name) auto
  then show ?thesis using assms(2) by (simp add: read_content.simps(2) [of "CHR ''&''"])
qed

lemma named_references:
  "reference ''lt'' = Some (CHR ''<'')" "reference ''gt'' = Some (CHR ''>'')"
  "reference ''amp'' = Some (CHR ''&'')" "reference ''apos'' = Some (CHR 0x27)"
  "reference ''quot'' = Some (CHR 0x22)"
  "reference ''#x09'' = Some (CHR 0x09)" "reference ''#x0A'' = Some (CHR 0x0A)"
  "reference ''#x0D'' = Some (CHR 0x0D)"
  by code_simp+

lemma escaped_whitespace:
  "escape_char True (CHR 0x09) = ''&#x09;''" "escape_char True (CHR 0x0A) = ''&#x0A;''"
  "escape_char True (CHR 0x0D) = ''&#x0D;''"
  by code_simp+

lemma escape_attribute_cases:
  "read_attribute (escape_char True c @ s) =
    (if IsValidXmlCharacter c then map_option (Cons c) (read_attribute s) else read_attribute s)"
proof -
  have valid: "IsValidXmlCharacter (CHR ''<'')" "IsValidXmlCharacter (CHR ''>'')" "IsValidXmlCharacter (CHR ''&'')"
    "IsValidXmlCharacter (CHR 0x27)" "IsValidXmlCharacter (CHR 0x22)" by code_simp+
  consider "c = CHR ''<''" | "c = CHR ''>''" | "c = CHR ''&''" | "c = CHR 0x27" | "c = CHR 0x22"
    | (ws) "c = CHR 0x09 \<or> c = CHR 0x0A \<or> c = CHR 0x0D"
    | (plain) "c \<noteq> CHR ''<''" "c \<noteq> CHR ''>''" "c \<noteq> CHR ''&''" "c \<noteq> CHR 0x27" "c \<noteq> CHR 0x22"
        "\<not> IsNormalizableWhitespace c" unfolding IsNormalizableWhitespace_def by blast
  then show ?thesis
  proof cases
    case 1
    then show ?thesis using read_attribute_ref [of "''lt''" _ s, OF _ named_references(1)] valid(1)
      by (simp add: escape_char_def)
  next
    case 2
    then show ?thesis using read_attribute_ref [of "''gt''" _ s, OF _ named_references(2)] valid(2)
      by (simp add: escape_char_def)
  next
    case 3
    then show ?thesis using read_attribute_ref [of "''amp''" _ s, OF _ named_references(3)] valid(3)
      by (simp add: escape_char_def)
  next
    case 4
    then show ?thesis using read_attribute_ref [of "''apos''" _ s, OF _ named_references(4)] valid(4)
      by (simp add: escape_char_def)
  next
    case 5
    then show ?thesis using read_attribute_ref [of "''quot''" _ s, OF _ named_references(5)] valid(5)
      by (simp add: escape_char_def)
  next
    case ws
    then have "IsValidXmlCharacter c" by (simp add: IsValidXmlCharacter_def IsNormalizableWhitespace_def)
    with ws show ?thesis
      using read_attribute_ref [of "''#x09''" _ s, OF _ named_references(6)]
        read_attribute_ref [of "''#x0A''" _ s, OF _ named_references(7)]
        read_attribute_ref [of "''#x0D''" _ s, OF _ named_references(8)]
      by (elim disjE) (simp_all add: escaped_whitespace)
  next
    case plain
    then show ?thesis by (simp add: escape_char_def read_attribute.simps(2) [of c])
  qed
qed

lemma read_escaped_attribute:
  "read_attribute (concat (map (escape_char True) s)) = Some (filter IsValidXmlCharacter s)"
  by (induction s) (simp_all add: escape_attribute_cases)

lemma escape_char_no_nul: "CHR 0x00 \<notin> set (escape_char True ch)"
proof (cases "ch = CHR 0x09 \<or> ch = CHR 0x0A \<or> ch = CHR 0x0D")
  case True
  then show ?thesis by (elim disjE) (simp_all add: escaped_whitespace)
next
  case False
  moreover have "\<not> IsValidXmlCharacter (CHR 0x00)" by code_simp
  ultimately show ?thesis by (simp add: escape_char_def IsNormalizableWhitespace_def) auto
qed

section \<open>CDATA sections\<close>

lemma strstr_split:
  "strstr s needle = Some t \<Longrightarrow> \<exists>u. s = u @ t \<and> has_prefix needle t"
proof (induction s)
  case (Cons c s)
  show ?case
  proof (cases "has_prefix needle (c # s)")
    case True
    then show ?thesis using Cons.prems by auto
  next
    case False
    then obtain u where "s = u @ t" "has_prefix needle t" using Cons by auto
    then have "c # s = (c # u) @ t \<and> has_prefix needle t" by simp
    then show ?thesis by blast
  qed
qed simp

lemma strstr_None: "strstr (c # s) needle = None \<longleftrightarrow> \<not> has_prefix needle (c # s) \<and> strstr s needle = None"
  by simp

lemma cdata_end:
  assumes "strstr (u @ q) '']]>'' = (if q = [] then None else Some q)" "q = [] \<or> has_prefix '']]>'' q"
  shows "strstr (u @ '']]>'' @ r) '']]>'' = Some ('']]>'' @ r)"
  using assms(1)
proof (induction u)
  case (Cons c u)
  have no: "\<not> has_prefix '']]>'' (c # u @ q)"
    using Cons.prems by (auto split: if_splits)
  have "\<not> has_prefix '']]>'' (c # u @ '']]>'' @ r)"
  proof (cases u)
    case (Cons d u')
    then show ?thesis using no by (cases u') auto
  qed simp
  moreover have "strstr (u @ q) '']]>'' = (if q = [] then None else Some q)"
    using Cons.prems no by (auto split: if_splits)
  ultimately show ?case using Cons.IH by simp
qed (use assms(2) in simp)

definition read_cdata :: "string \<Rightarrow> string option" where
  "read_cdata t =
    (case strstr t '']]>'' of
       None \<Rightarrow> None
     | Some e \<Rightarrow> map_option ((@) (upto_ptr t e)) (read_content (drop 3 e)))"

lemma read_content_cdata: "read_content (''<![CDATA['' @ t) = read_cdata t"
  by (simp add: read_content.simps(2) [of "CHR ''<''"] read_cdata_def)

lemma read_cdata_until:
  assumes "strstr (u @ '']]>'' @ r) '']]>'' = Some ('']]>'' @ r)"
  shows "read_cdata (u @ '']]>'' @ r) = map_option ((@) u) (read_content r)"
  unfolding read_cdata_def assms by simp

lemma read_content_bracket:
  "read_content ('']]&gt;'' @ s) = map_option (\<lambda>r. '']]>'' @ r) (read_content s)"
proof -
  have "read_content ('']]&gt;'' @ s) = map_option (Cons (CHR '']'')) (map_option (Cons (CHR '']''))
      (read_content (CHR ''&'' # ''gt'' @ CHR '';'' # s)))"
    by (simp add: read_content.simps(2) [of "CHR '']''"])
  also have "read_content (CHR ''&'' # ''gt'' @ CHR '';'' # s) = map_option (Cons (CHR ''>'')) (read_content s)"
    by (rule read_content_ref) (simp_all add: named_references)
  finally show ?thesis by (simp add: option.map_comp comp_def)
qed

lemma read_cdata_loop:
  "read_cdata (cdata_loop seg @ '']]>'' @ rest) = map_option ((@) seg) (read_content rest)"
proof (induction seg rule: cdata_loop.induct)
  case (1 seg)
  show ?case
  proof (cases "strstr seg '']]>''")
    case None
    then have "strstr (seg @ '']]>'' @ rest) '']]>'' = Some ('']]>'' @ rest)"
      using cdata_end [of seg "[]" rest] by simp
    then show ?thesis using None read_cdata_until by (subst cdata_loop.simps) simp
  next
    case (Some e)
    then obtain u r where e: "e = '']]>'' @ r" and seg: "seg = u @ e"
      using strstr_split [OF Some] by (auto simp: has_prefix_iff)
    have loop: "cdata_loop seg = u @ '']]>'' @ '']]&gt;'' @ ''<![CDATA['' @ cdata_loop r"
      using Some e seg by (subst cdata_loop.simps) simp
    have IH: "read_cdata (cdata_loop r @ '']]>'' @ rest) = map_option ((@) r) (read_content rest)"
      using 1 [OF Some] e by simp
    have "strstr (u @ '']]>'' @ x) '']]>'' = Some ('']]>'' @ x)" for x
      using cdata_end [of u e x] Some e seg by (simp add: has_prefix_iff)
    then have "read_cdata (cdata_loop seg @ '']]>'' @ rest) =
        map_option ((@) u) (read_content ('']]&gt;'' @ ''<![CDATA['' @ cdata_loop r @ '']]>'' @ rest))"
      unfolding loop append_assoc by (rule read_cdata_until)
    also have "\<dots> = map_option ((@) seg) (read_content rest)"
      unfolding read_content_bracket read_content_cdata IH
      by (cases "read_content rest") (simp_all add: seg e)
    finally show ?thesis .
  qed
qed

section \<open>The document is always written\<close>

lemma output_attributes_allowed:
  assumes "GetReservedAttributesForElement e = Some ns"
  shows "list_all (\<lambda>(a, v). a \<in> set ns) as \<Longrightarrow> \<exists>t. output_attributes e as = Some t"
  using assms by (induction as) (auto simp: OutputXmlAttribute_def)

lemma reserved_names:
  "GetReservedAttributesForElement ''testcase'' = Some kReservedTestCaseAttributes"
  "GetReservedAttributesForElement ''testsuite'' = Some kReservedTestSuiteAttributes"
  "GetReservedAttributesForElement ''testsuites'' = Some kReservedTestSuitesAttributes"
  by code_simp+

lemma OutputXmlTestInfo_total: "\<exists>d. OutputXmlTestInfo secs ms n t = Some d"
proof -
  let ?as = "[(''name'', ti_name t)]
            @ (case ti_value_param t of None \<Rightarrow> [] | Some p \<Rightarrow> [(''value_param'', p)])
            @ (case ti_type_param t of None \<Rightarrow> [] | Some p \<Rightarrow> [(''type_param'', p)])
            @ [(''status'', if ti_should_run t then ''run'' else ''notrun''),
               (''time'', secs ms), (''classname'', n)]"
  have "list_all (\<lambda>(a, v). a \<in> set kReservedTestCaseAttributes) ?as"
    by (simp add: kReservedTestCaseAttributes_def split: option.split)
  then obtain a where "output_attributes ''testcase'' ?as = Some a"
    using output_attributes_allowed [OF reserved_names(1)] by blast
  then show ?thesis by (simp add: OutputXmlTestInfo_def split: prod.split)
qed

lemma output_tests_total:
  assumes "length (test_indices tc) = length (test_info_list tc)" "\<forall>i \<in> set is'. i < length (test_info_list tc)"
  shows "\<exists>d. output_tests secs tms tc is' = Some d"
  using assms(2)
proof (induction is')
  case (Cons i is')
  then have "GetTestInfo_index tc (int i) = Some (test_indices tc ! i)"
    using assms(1) by (simp add: GetTestInfo_index_def GetElementOr_def)
  moreover obtain d where "OutputXmlTestInfo secs (tms (test_indices tc ! i)) (tc_name tc)
      (test_info_list tc ! (test_indices tc ! i)) = Some d"
    using OutputXmlTestInfo_total by blast
  ultimately show ?case using Cons by auto
qed simp

lemma PrintXmlTestCase_total:
  assumes "length (test_indices tc) = length (test_info_list tc)"
  shows "\<exists>d. PrintXmlTestCase secs ms tms tc = Some d"
proof -
  have "\<exists>d. output_tests secs tms tc [0 ..< nat (total_test_count tc)] = Some d"
    using output_tests_total [OF assms] by (simp add: total_test_count_def)
  moreover have "\<exists>t. output_attributes ''testsuite''
             [(''name'', tc_name tc), (''tests'', int_to_string (reportable_test_count tc)),
              (''failures'', int_to_string (failed_test_count tc)),
              (''disabled'', int_to_string (reportable_disabled_test_count tc)),
              (''errors'', ''0''), (''time'', secs ms)] = Some t"
    by (rule output_attributes_allowed [OF reserved_names(2)]) (simp add: kReservedTestSuiteAttributes_def)
  ultimately show ?thesis by (auto simp: PrintXmlTestCase_def)
qed

lemma output_cases_total:
  assumes "length (test_case_indices u) = length (test_cases u)"
    and "\<forall>tc \<in> set (test_cases u). length (test_indices tc) = length (test_info_list tc)"
    and "\<forall>i \<in> set is'. i < length (test_cases u)"
  shows "\<exists>d. output_cases secs ctms tms u is' = Some d"
  using assms(3)
proof (induction is')
  case (Cons i is')
  then have "GetTestCase_index u (int i) = Some i"
    using assms(1) by (simp add: GetTestCase_index_def GetElementOr_def)
  moreover obtain d where "PrintXmlTestCase secs (ctms i) (tms i) (test_cases u ! i) = Some d"
    using PrintXmlTestCase_total assms(2) Cons.prems by (metis list.set_intros(1) nth_mem)
  ultimately show ?case using Cons by auto
qed simp

text \<open>
  No check of an attribute name fails: \<open>PrintXmlUnitTest\<close> writes the document of every program whose
  index vectors are as long as the vectors they index.
\<close>

theorem xml_document_total:
  assumes "length (test_case_indices u) = length (test_cases u)"
    and "\<forall>tc \<in> set (test_cases u). length (test_indices tc) = length (test_info_list tc)"
  shows "\<exists>d. PrintXmlUnitTest secs localtime start ms ctms tms fl u = Some d"
proof -
  let ?as = "[(''tests'', int_to_string (ut_reportable_test_count u)),
               (''failures'', int_to_string (ut_failed_test_count u)),
               (''disabled'', int_to_string (ut_reportable_disabled_test_count u)),
               (''errors'', ''0''),
               (''timestamp'', FormatEpochTimeInMillisAsIso8601 localtime start),
               (''time'', secs ms)]
              @ (if shuffle fl then [(''random_seed'', int_to_string (ut_random_seed u))] else [])"
  have "list_all (\<lambda>(a, v). a \<in> set kReservedTestSuitesAttributes) ?as"
    by (simp add: kReservedTestSuitesAttributes_def)
  then obtain a where "output_attributes ''testsuites'' ?as = Some a"
    using output_attributes_allowed [OF reserved_names(3)] by blast
  moreover obtain b where "output_cases secs ctms tms u [0 ..< nat (total_test_case_count u)] = Some b"
    using output_cases_total [OF assms] by (fastforce simp: total_test_case_count_def)
  moreover obtain n where "OutputXmlAttribute ''testsuites'' ''name'' ''AllTests'' = Some n"
    using reserved_names(3) by (simp add: OutputXmlAttribute_def kReservedTestSuitesAttributes_def)
  ultimately show ?thesis by (simp add: PrintXmlUnitTest_def)
qed

section \<open>Properties\<close>

lemma valid_characters:
  "IsValidXmlCharacter c \<longleftrightarrow> (of_char c :: nat) \<in> {9, 10, 13} \<or> 32 \<le> (of_char c :: nat) \<and> (of_char c :: nat) < 128"
proof -
  have "c = CHR 0x09 \<longleftrightarrow> of_char c = (9 :: nat)" "c = CHR 0x0A \<longleftrightarrow> of_char c = (10 :: nat)"
    "c = CHR 0x0D \<longleftrightarrow> of_char c = (13 :: nat)"
    by (auto intro: of_char_eqI)
  moreover have "\<not> 288 \<le> (of_char c :: nat)" using nat_of_char_less_256 [of c] by linarith
  ultimately show ?thesis
    by (auto simp: IsValidXmlCharacter_def IsNormalizableWhitespace_def signed_char_def Let_def)
qed


end
