(* ===== verification/Gtest_Listeners.thy ===== *)
theory Gtest_Listeners
  imports Gtest_Xml
begin

text \<open>
  The listeners of a googletest program (\<open>gtest.cc\<close>, \<open>gtest-internal-inl.h\<close>): the repeater and the
  registry \<open>TestEventListeners\<close>, the console output \<open>PrettyUnitTestResultPrinter\<close> and the
  \<open>StreamingListener\<close>.

  A listener is named by a number, the null pointer is \<open>None\<close>.  A printing method returns the text it
  writes; \<open>use_color\<close> is the value \<open>ShouldUseColor\<close> had first, and elapsed times are arguments.
\<close>

section \<open>Repeating events\<close>

record TestEventRepeater =
  forwarding_enabled :: bool
  listeners :: "nat list"

definition TestEventRepeater_new :: TestEventRepeater where
  "TestEventRepeater_new = \<lparr>forwarding_enabled = True, listeners = []\<rparr>"

definition Repeater_Append :: "nat \<Rightarrow> TestEventRepeater \<Rightarrow> TestEventRepeater" where
  "Repeater_Append listener r = r\<lparr>listeners := listeners r @ [listener]\<rparr>"

fun release_loop :: "nat \<Rightarrow> nat list \<Rightarrow> nat option \<times> nat list" where
  "release_loop listener [] = (None, [])"
| "release_loop listener (l # ls) =
    (if l = listener then (Some listener, ls)
     else let (res, rest) = release_loop listener ls in (res, l # rest))"

text \<open>No element of the list is the null pointer.\<close>

definition Repeater_Release :: "nat option \<Rightarrow> TestEventRepeater \<Rightarrow> nat option \<times> TestEventRepeater" where
  "Repeater_Release listener r =
    (case listener of
       None \<Rightarrow> (None, r)
     | Some l \<Rightarrow> let (res, ls) = release_loop l (listeners r) in (res, r\<lparr>listeners := ls\<rparr>))"

text \<open>The events that \<open>GTEST_REVERSE_REPEATER_METHOD_\<close> and \<open>OnTestIterationEnd\<close> forward in reverse.\<close>

fun reverse_event :: "event \<Rightarrow> bool" where
  "reverse_event OnEnvironmentsSetUpEnd = True"
| "reverse_event OnEnvironmentsTearDownEnd = True"
| "reverse_event (OnTestEnd _ _) = True"
| "reverse_event (OnTestCaseEnd _) = True"
| "reverse_event OnTestProgramEnd = True"
| "reverse_event (OnTestIterationEnd _) = True"
| "reverse_event _ = False"

definition repeat_event :: "event \<Rightarrow> TestEventRepeater \<Rightarrow> (nat \<times> event) list" where
  "repeat_event e r =
    (if forwarding_enabled r
     then map (\<lambda>l. (l, e)) (if reverse_event e then rev (listeners r) else listeners r) else [])"

section \<open>The registry of listeners\<close>

record TestEventListeners =
  repeater :: TestEventRepeater
  default_result_printer :: "nat option"
  default_xml_generator :: "nat option"

definition TestEventListeners_new :: TestEventListeners where
  "TestEventListeners_new =
    \<lparr>repeater = TestEventRepeater_new, default_result_printer = None, default_xml_generator = None\<rparr>"

definition Listeners_Append :: "nat \<Rightarrow> TestEventListeners \<Rightarrow> TestEventListeners" where
  "Listeners_Append listener t = t\<lparr>repeater := Repeater_Append listener (repeater t)\<rparr>"

definition Listeners_Release :: "nat option \<Rightarrow> TestEventListeners \<Rightarrow> nat option \<times> TestEventListeners" where
  "Listeners_Release listener t =
    (let t1 = (if listener = default_result_printer t then t\<lparr>default_result_printer := None\<rparr>
               else if listener = default_xml_generator t then t\<lparr>default_xml_generator := None\<rparr>
               else t);
         (res, r) = Repeater_Release listener (repeater t1)
     in (res, t1\<lparr>repeater := r\<rparr>))"

text \<open>The two setters also return the listener they delete.\<close>

definition SetDefaultResultPrinter :: "nat option \<Rightarrow> TestEventListeners \<Rightarrow> nat option \<times> TestEventListeners" where
  "SetDefaultResultPrinter listener t =
    (if default_result_printer t \<noteq> listener then
       let (del, t1) = Listeners_Release (default_result_printer t) t;
           t2 = t1\<lparr>default_result_printer := listener\<rparr>
       in (del, case listener of None \<Rightarrow> t2 | Some l \<Rightarrow> Listeners_Append l t2)
     else (None, t))"

definition SetDefaultXmlGenerator :: "nat option \<Rightarrow> TestEventListeners \<Rightarrow> nat option \<times> TestEventListeners" where
  "SetDefaultXmlGenerator listener t =
    (if default_xml_generator t \<noteq> listener then
       let (del, t1) = Listeners_Release (default_xml_generator t) t;
           t2 = t1\<lparr>default_xml_generator := listener\<rparr>
       in (del, case listener of None \<Rightarrow> t2 | Some l \<Rightarrow> Listeners_Append l t2)
     else (None, t))"

definition EventForwardingEnabled :: "TestEventListeners \<Rightarrow> bool" where
  "EventForwardingEnabled t = forwarding_enabled (repeater t)"

definition SuppressEventForwarding :: "TestEventListeners \<Rightarrow> TestEventListeners" where
  "SuppressEventForwarding t = t\<lparr>repeater := (repeater t)\<lparr>forwarding_enabled := False\<rparr>\<rparr>"

section \<open>Console output\<close>

definition FormatCountableNoun :: "int \<Rightarrow> string \<Rightarrow> string \<Rightarrow> string" where
  "FormatCountableNoun n singular_form plural_form =
    int_to_string n @ '' '' @ (if n = 1 then singular_form else plural_form)"

definition FormatTestCount :: "int \<Rightarrow> string" where
  "FormatTestCount test_count = FormatCountableNoun test_count ''test'' ''tests''"

definition FormatTestCaseCount :: "int \<Rightarrow> string" where
  "FormatTestCaseCount test_case_count = FormatCountableNoun test_case_count ''test case'' ''test cases''"

definition TestPartResultTypeToString :: "TestPartResult_Type \<Rightarrow> string" where
  "TestPartResultTypeToString t =
    (case t of kSuccess \<Rightarrow> ''Success'' | kNonFatalFailure \<Rightarrow> ''Failure'' @ [newline]
     | kFatalFailure \<Rightarrow> ''Failure'' @ [newline])"

definition PrintTestPartResultToString :: "TestPartResult \<Rightarrow> string" where
  "PrintTestPartResultToString r =
    StringStreamToString (FormatFileLocation (part_file r) (line_number r) @ '' ''
      @ TestPartResultTypeToString (part_type r) @ c_str (part_message r))"

definition PrintTestPartResult :: "TestPartResult \<Rightarrow> string" where
  "PrintTestPartResult r = c_str (PrintTestPartResultToString r) @ [newline]"

datatype GTestColor = COLOR_DEFAULT | COLOR_RED | COLOR_GREEN | COLOR_YELLOW

definition GetAnsiColorCode :: "GTestColor \<Rightarrow> string option" where
  "GetAnsiColorCode c =
    (case c of COLOR_RED \<Rightarrow> Some ''1'' | COLOR_GREEN \<Rightarrow> Some ''2'' | COLOR_YELLOW \<Rightarrow> Some ''3''
     | COLOR_DEFAULT \<Rightarrow> None)"

definition color_terminals :: "string list" where
  "color_terminals = [''xterm'', ''xterm-color'', ''xterm-256color'', ''screen'', ''screen-256color'', ''tmux'',
     ''tmux-256color'', ''rxvt-unicode'', ''rxvt-unicode-256color'', ''linux'', ''cygwin'']"

text \<open>\<open>TERM\<close> of the environment is an argument.\<close>

definition ShouldUseColor :: "GtestFlags \<Rightarrow> string option \<Rightarrow> bool \<Rightarrow> bool" where
  "ShouldUseColor fl term_var stdout_is_tty =
    (let gtest_color = Some (c_str (color fl))
     in if CaseInsensitiveCStringEquals gtest_color (Some ''auto'')
        then stdout_is_tty \<and> list_ex (\<lambda>t. CStringEquals term_var (Some t)) color_terminals
        else CaseInsensitiveCStringEquals gtest_color (Some ''yes'')
           \<or> CaseInsensitiveCStringEquals gtest_color (Some ''true'')
           \<or> CaseInsensitiveCStringEquals gtest_color (Some ''t'')
           \<or> CStringEquals gtest_color (Some ''1''))"

definition escape_code :: string where "escape_code = [CHR 0x1B, CHR ''[''] "

definition ColoredPrintf :: "bool \<Rightarrow> GTestColor \<Rightarrow> string \<Rightarrow> string" where
  "ColoredPrintf use_color c txt =
    (case (use_color, GetAnsiColorCode c) of
       (True, Some code) \<Rightarrow> escape_code @ ''0;3'' @ code @ ''m'' @ txt @ escape_code @ ''m''
     | _ \<Rightarrow> txt)"

definition PrintFullTestCommentIfPresent :: "TestInfo \<Rightarrow> string" where
  "PrintFullTestCommentIfPresent t =
    (case (ti_type_param t, ti_value_param t) of
       (None, None) \<Rightarrow> []
     | (Some ty, None) \<Rightarrow> '', where TypeParam = '' @ ty
     | (None, Some v) \<Rightarrow> '', where GetParam() = '' @ v
     | (Some ty, Some v) \<Rightarrow> '', where TypeParam = '' @ ty @ '' and GetParam() = '' @ v)"

definition PrintTestName :: "string \<Rightarrow> string \<Rightarrow> string" where
  "PrintTestName test_case test = test_case @ ''.'' @ test"

definition kUniversalFilter :: string where "kUniversalFilter = ''*''"

text \<open>\<open>shard\<close> is what \<open>ShouldShard\<close> found: the index of the shard and the text of the total.\<close>

definition Pretty_OnTestIterationStart ::
  "bool \<Rightarrow> GtestFlags \<Rightarrow> (int \<times> string) option \<Rightarrow> UnitTestImpl \<Rightarrow> int \<Rightarrow> string" where
  "Pretty_OnTestIterationStart use_color fl shard u iteration =
    (if sint (repeat fl) \<noteq> 1
     then [newline] @ ''Repeating all tests (iteration '' @ int_to_string (iteration + 1) @ '') . . .''
          @ [newline, newline] else [])
    @ (let filt = c_str (filter_flag fl)
       in if \<not> CStringEquals (Some filt) (Some kUniversalFilter)
          then ColoredPrintf use_color COLOR_YELLOW (''Note: Google Test filter = '' @ filt @ [newline]) else [])
    @ (case shard of
         None \<Rightarrow> []
       | Some (shard_index, total_shards) \<Rightarrow>
           ColoredPrintf use_color COLOR_YELLOW (''Note: This is test shard '' @ int_to_string (shard_index + 1)
             @ '' of '' @ total_shards @ ''.'' @ [newline]))
    @ (if shuffle fl
       then ColoredPrintf use_color COLOR_YELLOW (''Note: Randomizing tests'' @ [CHR 0x27]
              @ '' orders with a seed of '' @ int_to_string (ut_random_seed u) @ '' .'' @ [newline]) else [])
    @ ColoredPrintf use_color COLOR_GREEN ''[==========] ''
    @ ''Running '' @ FormatTestCount (ut_test_to_run_count u) @ '' from ''
    @ FormatTestCaseCount (test_case_to_run_count u) @ ''.'' @ [newline]"

definition Pretty_OnEnvironmentsSetUpStart :: "bool \<Rightarrow> string" where
  "Pretty_OnEnvironmentsSetUpStart use_color =
    ColoredPrintf use_color COLOR_GREEN ''[----------] '' @ ''Global test environment set-up.'' @ [newline]"

definition Pretty_OnTestCaseStart :: "bool \<Rightarrow> TestCase \<Rightarrow> string" where
  "Pretty_OnTestCaseStart use_color tc =
    ColoredPrintf use_color COLOR_GREEN ''[----------] ''
    @ FormatCountableNoun (test_to_run_count tc) ''test'' ''tests'' @ '' from '' @ tc_name tc
    @ (case tc_type_param tc of None \<Rightarrow> [newline] | Some p \<Rightarrow> '', where TypeParam = '' @ p @ [newline])"

definition Pretty_OnTestStart :: "bool \<Rightarrow> TestInfo \<Rightarrow> string" where
  "Pretty_OnTestStart use_color t =
    ColoredPrintf use_color COLOR_GREEN ''[ RUN      ] '' @ PrintTestName (ti_test_case_name t) (ti_name t)
    @ [newline]"

definition Pretty_OnTestPartResult :: "TestPartResult \<Rightarrow> string" where
  "Pretty_OnTestPartResult r = (if part_type r = kSuccess then [] else PrintTestPartResult r)"

definition Pretty_OnTestEnd :: "bool \<Rightarrow> GtestFlags \<Rightarrow> int \<Rightarrow> TestInfo \<Rightarrow> string" where
  "Pretty_OnTestEnd use_color fl elapsed_time t =
    (if \<not> TestResult_Failed (ti_result t) then ColoredPrintf use_color COLOR_GREEN ''[       OK ] ''
     else ColoredPrintf use_color COLOR_RED ''[  FAILED  ] '')
    @ PrintTestName (ti_test_case_name t) (ti_name t)
    @ (if TestResult_Failed (ti_result t) then PrintFullTestCommentIfPresent t else [])
    @ (if print_time fl then '' ('' @ int_to_string elapsed_time @ '' ms)'' @ [newline] else [newline])"

definition Pretty_OnTestCaseEnd :: "bool \<Rightarrow> GtestFlags \<Rightarrow> int \<Rightarrow> TestCase \<Rightarrow> string" where
  "Pretty_OnTestCaseEnd use_color fl elapsed_time tc =
    (if \<not> print_time fl then []
     else ColoredPrintf use_color COLOR_GREEN ''[----------] ''
          @ FormatCountableNoun (test_to_run_count tc) ''test'' ''tests'' @ '' from '' @ tc_name tc
          @ '' ('' @ int_to_string elapsed_time @ '' ms total)'' @ [newline, newline])"

definition Pretty_OnEnvironmentsTearDownStart :: "bool \<Rightarrow> string" where
  "Pretty_OnEnvironmentsTearDownStart use_color =
    ColoredPrintf use_color COLOR_GREEN ''[----------] '' @ ''Global test environment tear-down'' @ [newline]"

definition failed_line :: "bool \<Rightarrow> TestCase \<Rightarrow> TestInfo \<Rightarrow> string" where
  "failed_line use_color tc t =
    ColoredPrintf use_color COLOR_RED ''[  FAILED  ] '' @ tc_name tc @ ''.'' @ ti_name t
    @ PrintFullTestCommentIfPresent t @ [newline]"

text \<open>The loops return the lines; \<open>None\<close> where a position has no test case or test.\<close>

fun failed_in_case :: "bool \<Rightarrow> TestCase \<Rightarrow> nat list \<Rightarrow> string list option" where
  "failed_in_case use_color tc [] = Some []"
| "failed_in_case use_color tc (j # js) =
    (case GetTestInfo_index tc (int j) of
       None \<Rightarrow> None
     | Some k \<Rightarrow>
         let t = test_info_list tc ! k
         in if \<not> ti_should_run t \<or> \<not> TestResult_Failed (ti_result t) then failed_in_case use_color tc js
            else map_option (Cons (failed_line use_color tc t)) (failed_in_case use_color tc js))"

fun failed_in_cases :: "bool \<Rightarrow> UnitTestImpl \<Rightarrow> nat list \<Rightarrow> string list option" where
  "failed_in_cases use_color u [] = Some []"
| "failed_in_cases use_color u (i # is') =
    (case GetTestCase_index u (int i) of
       None \<Rightarrow> None
     | Some k \<Rightarrow>
         let tc = test_cases u ! k
         in if \<not> tc_should_run tc \<or> failed_test_count tc = 0 then failed_in_cases use_color u is'
            else (case (failed_in_case use_color tc [0 ..< nat (total_test_count tc)],
                        failed_in_cases use_color u is') of
                    (Some a, Some b) \<Rightarrow> Some (a @ b) | _ \<Rightarrow> None))"

definition PrintFailedTests :: "bool \<Rightarrow> UnitTestImpl \<Rightarrow> string list option" where
  "PrintFailedTests use_color u =
    (if ut_failed_test_count u = 0 then Some []
     else failed_in_cases use_color u [0 ..< nat (total_test_case_count u)])"

definition pad2 :: "int \<Rightarrow> string" where
  "pad2 n = replicate (2 - length (int_to_string n)) (CHR '' '') @ int_to_string n"

definition Pretty_OnTestIterationEnd :: "bool \<Rightarrow> GtestFlags \<Rightarrow> int \<Rightarrow> UnitTestImpl \<Rightarrow> string option" where
  "Pretty_OnTestIterationEnd use_color fl elapsed_time u =
    (let head = ColoredPrintf use_color COLOR_GREEN ''[==========] ''
           @ FormatTestCount (ut_test_to_run_count u) @ '' from ''
           @ FormatTestCaseCount (test_case_to_run_count u) @ '' ran.''
           @ (if print_time fl then '' ('' @ int_to_string elapsed_time @ '' ms total)'' else [])
           @ [newline] @ ColoredPrintf use_color COLOR_GREEN ''[  PASSED  ] ''
           @ FormatTestCount (ut_successful_test_count u) @ ''.'' @ [newline];
         num_failures = ut_failed_test_count u;
         failed = (if UnitTest_Failed u
           then map_option (\<lambda>ls. ColoredPrintf use_color COLOR_RED ''[  FAILED  ] ''
                  @ FormatTestCount (ut_failed_test_count u) @ '', listed below:'' @ [newline] @ concat ls
                  @ [newline] @ pad2 num_failures @ '' FAILED '' @ (if num_failures = 1 then ''TEST'' else ''TESTS'')
                  @ [newline]) (PrintFailedTests use_color u)
           else Some []);
         num_disabled = ut_reportable_disabled_test_count u;
         disabled = (if num_disabled \<noteq> 0 \<and> \<not> also_run_disabled_tests fl
           then (if num_failures = 0 then [newline] else [])
                @ ColoredPrintf use_color COLOR_YELLOW (''  YOU HAVE '' @ int_to_string num_disabled @ '' DISABLED ''
                    @ (if num_disabled = 1 then ''TEST'' else ''TESTS'') @ [newline, newline])
           else [])
     in map_option (\<lambda>f. head @ f @ disabled) failed)"

section \<open>Streaming\<close>

definition url_char :: "char \<Rightarrow> string" where
  "url_char ch =
    (if ch = CHR ''%'' \<or> ch = CHR ''='' \<or> ch = CHR ''&'' \<or> ch = newline
     then ''%'' @ FormatByte (of_char ch) else [ch])"

definition UrlEncode :: "string \<Rightarrow> string" where
  "UrlEncode str = concat (map url_char (c_str str))"

definition FormatBool :: "bool \<Rightarrow> string" where
  "FormatBool v = (if v then ''1'' else ''0'')"

text \<open>
  \<open>SocketWriter\<close>: the descriptor, \<open>-1\<close> when there is no connection, and what was sent.  \<open>None\<close> is a
  failed \<open>GTEST_CHECK_\<close>, which aborts the program.
\<close>

record socket =
  sockfd :: int
  sent :: "string list"

text \<open>
  The addresses are what \<open>getaddrinfo\<close> found, none when it failed: for each the result of \<open>socket\<close>
  and whether \<open>connect\<close> succeeds.
\<close>

fun connect_loop :: "int \<Rightarrow> (int \<times> bool) list \<Rightarrow> int" where
  "connect_loop fd [] = fd"
| "connect_loop fd ((s, connects) # addrs) =
    (if fd \<noteq> - 1 then fd else connect_loop (if s \<noteq> - 1 \<and> \<not> connects then - 1 else s) addrs)"

definition MakeConnection :: "(int \<times> bool) list \<Rightarrow> socket \<Rightarrow> socket option" where
  "MakeConnection addrs s = (if sockfd s = - 1 then Some (s\<lparr>sockfd := connect_loop (sockfd s) addrs\<rparr>) else None)"

definition Send :: "string \<Rightarrow> socket \<Rightarrow> socket option" where
  "Send msg s = (if sockfd s \<noteq> - 1 then Some (s\<lparr>sent := sent s @ [msg]\<rparr>) else None)"

definition SendLn :: "string \<Rightarrow> socket \<Rightarrow> socket option" where
  "SendLn msg s = Send (msg @ [newline]) s"

definition CloseConnection :: "socket \<Rightarrow> socket option" where
  "CloseConnection s = (if sockfd s \<noteq> - 1 then Some (s\<lparr>sockfd := - 1\<rparr>) else None)"

definition StreamingListener_new :: "(int \<times> bool) list \<Rightarrow> socket option" where
  "StreamingListener_new addrs =
    Option.bind (MakeConnection addrs \<lparr>sockfd = - 1, sent = []\<rparr>) (SendLn ''gtest_streaming_protocol_version=1.0'')"

definition Stream_OnTestProgramStart :: "socket \<Rightarrow> socket option" where
  "Stream_OnTestProgramStart = SendLn ''event=TestProgramStart''"

definition Stream_OnTestProgramEnd :: "UnitTestImpl \<Rightarrow> socket \<Rightarrow> socket option" where
  "Stream_OnTestProgramEnd u s =
    Option.bind (SendLn (''event=TestProgramEnd&passed='' @ FormatBool (\<not> UnitTest_Failed u)) s) CloseConnection"

definition Stream_OnTestIterationStart :: "int \<Rightarrow> socket \<Rightarrow> socket option" where
  "Stream_OnTestIterationStart iteration = SendLn (''event=TestIterationStart&iteration='' @ int_to_string iteration)"

definition Stream_OnTestIterationEnd :: "UnitTestImpl \<Rightarrow> int \<Rightarrow> socket \<Rightarrow> socket option" where
  "Stream_OnTestIterationEnd u elapsed_time = SendLn (''event=TestIterationEnd&passed=''
     @ FormatBool (\<not> UnitTest_Failed u) @ ''&elapsed_time='' @ int_to_string elapsed_time @ ''ms'')"

definition Stream_OnTestCaseStart :: "TestCase \<Rightarrow> socket \<Rightarrow> socket option" where
  "Stream_OnTestCaseStart tc = SendLn (''event=TestCaseStart&name='' @ tc_name tc)"

definition Stream_OnTestCaseEnd :: "TestCase \<Rightarrow> int \<Rightarrow> socket \<Rightarrow> socket option" where
  "Stream_OnTestCaseEnd tc elapsed_time = SendLn (''event=TestCaseEnd&passed=''
     @ FormatBool (\<not> TestCase_Failed tc) @ ''&elapsed_time='' @ int_to_string elapsed_time @ ''ms'')"

definition Stream_OnTestStart :: "TestInfo \<Rightarrow> socket \<Rightarrow> socket option" where
  "Stream_OnTestStart t = SendLn (''event=TestStart&name='' @ ti_name t)"

definition Stream_OnTestEnd :: "TestInfo \<Rightarrow> int \<Rightarrow> socket \<Rightarrow> socket option" where
  "Stream_OnTestEnd t elapsed_time = SendLn (''event=TestEnd&passed=''
     @ FormatBool (\<not> TestResult_Failed (ti_result t)) @ ''&elapsed_time='' @ int_to_string elapsed_time @ ''ms'')"

definition part_line :: "TestPartResult \<Rightarrow> string" where
  "part_line r =
    ''event=TestPartResult&file='' @ UrlEncode (case part_file r of None \<Rightarrow> [] | Some f \<Rightarrow> f)
    @ ''&line='' @ int_to_string (line_number r) @ ''&message='' @ UrlEncode (c_str (part_message r))"

definition Stream_OnTestPartResult :: "TestPartResult \<Rightarrow> socket \<Rightarrow> socket option" where
  "Stream_OnTestPartResult r = SendLn (part_line r)"

text \<open>A listener without a connection aborts the program in its constructor.\<close>

lemma connect_loop_fails: "connect_loop fd addrs = - 1 \<longleftrightarrow> fd = - 1 \<and> (\<forall>(s, c) \<in> set addrs. c \<longrightarrow> s = - 1)"
  by (induction fd addrs rule: connect_loop.induct) auto

theorem streaming_aborts:
  "StreamingListener_new addrs = None \<longleftrightarrow> (\<forall>(s, c) \<in> set addrs. c \<longrightarrow> s = - 1)"
  by (simp add: StreamingListener_new_def MakeConnection_def SendLn_def Send_def connect_loop_fails)

section \<open>The registry keeps its listeners\<close>

text \<open>
  The state the registry is in: no listener is registered twice, and the two default listeners are
  registered and different.
\<close>

definition listeners_ok :: "TestEventListeners \<Rightarrow> bool" where
  "listeners_ok t \<longleftrightarrow>
    distinct (listeners (repeater t)) \<and>
    set_option (default_result_printer t) \<subseteq> set (listeners (repeater t)) \<and>
    set_option (default_xml_generator t) \<subseteq> set (listeners (repeater t)) \<and>
    (default_result_printer t = None \<or> default_result_printer t \<noteq> default_xml_generator t)"

lemma release_loop_eq:
  "release_loop l ls = (if l \<in> set ls then Some l else None, remove1 l ls)"
  by (induction ls) auto

definition without :: "nat option \<Rightarrow> nat list \<Rightarrow> nat list" where
  "without l ls = (case l of None \<Rightarrow> ls | Some x \<Rightarrow> remove1 x ls)"

lemma Listeners_Release_eq:
  "Listeners_Release l t =
    (case l of None \<Rightarrow> None | Some x \<Rightarrow> if x \<in> set (listeners (repeater t)) then Some x else None,
     t\<lparr>repeater := (repeater t)\<lparr>listeners := without l (listeners (repeater t))\<rparr>,
       default_result_printer := (if l = default_result_printer t then None else default_result_printer t),
       default_xml_generator := (if l \<noteq> default_result_printer t \<and> l = default_xml_generator t then None
                                 else default_xml_generator t)\<rparr>)"
  by (cases l) (auto simp: Listeners_Release_def Repeater_Release_def release_loop_eq without_def Let_def)

lemma Release_ok:
  assumes "listeners_ok t"
  shows "listeners_ok (snd (Listeners_Release l t))"
  using assms
  by (cases l; cases "default_result_printer t"; cases "default_xml_generator t")
     (auto simp: Listeners_Release_eq listeners_ok_def without_def)

lemma Listeners_Append_ok:
  "listeners_ok t \<Longrightarrow> l \<notin> set (listeners (repeater t)) \<Longrightarrow> listeners_ok (Listeners_Append l t)"
  by (auto simp: listeners_ok_def Listeners_Append_def Repeater_Append_def)

lemma SetDefaultResultPrinter_eq:
  assumes "listeners_ok t" and "set_option l \<inter> set (listeners (repeater t)) = {}"
  shows "SetDefaultResultPrinter l t =
      (default_result_printer t,
       t\<lparr>repeater := (repeater t)\<lparr>listeners := without (default_result_printer t) (listeners (repeater t))
                                     @ (case l of None \<Rightarrow> [] | Some x \<Rightarrow> [x])\<rparr>,
         default_result_printer := l\<rparr>)"
  using assms
  by (cases l; cases "default_result_printer t"; cases t; cases "repeater t")
     (auto simp: SetDefaultResultPrinter_def Listeners_Release_eq Listeners_Append_def Repeater_Append_def
       listeners_ok_def without_def)

lemma SetDefaultXmlGenerator_eq:
  assumes "listeners_ok t" and "set_option l \<inter> set (listeners (repeater t)) = {}"
  shows "SetDefaultXmlGenerator l t =
      (default_xml_generator t,
       t\<lparr>repeater := (repeater t)\<lparr>listeners := without (default_xml_generator t) (listeners (repeater t))
                                     @ (case l of None \<Rightarrow> [] | Some x \<Rightarrow> [x])\<rparr>,
         default_xml_generator := l\<rparr>)"
  using assms
  by (cases l; cases "default_xml_generator t"; cases t; cases "repeater t")
     (auto simp: SetDefaultXmlGenerator_def Listeners_Release_eq Listeners_Append_def Repeater_Append_def
       listeners_ok_def without_def)

lemma defaults_ok:
  assumes "listeners_ok t" and "set_option l \<inter> set (listeners (repeater t)) = {}"
  shows "listeners_ok (snd (SetDefaultResultPrinter l t))" and "listeners_ok (snd (SetDefaultXmlGenerator l t))"
  using assms
  by (cases l; cases "default_result_printer t"; cases "default_xml_generator t";
      auto simp: SetDefaultResultPrinter_eq SetDefaultXmlGenerator_eq listeners_ok_def without_def)+

lemma count_list_pairs: "distinct ls \<Longrightarrow> count_list (map (\<lambda>l. (l, e)) ls) (x, e) = (if x \<in> set ls then 1 else 0)"
  by (induction ls) auto

text \<open>
  The listeners of a program: setting the default printer to a listener that is not registered
  yet removes and deletes the previous one, appends the new one and leaves the others, in particular
  the XML generator, in place and in order; so does setting the XML generator.  The registry stays
  consistent under every operation.  While forwarding is enabled an event goes to every registered
  listener exactly once, the events that end something in the reverse of the order of registration.
\<close>

theorem listeners_exact:
  assumes "listeners_ok t" and "set_option l \<inter> set (listeners (repeater t)) = {}"
    and "forwarding_enabled (repeater t)"
  shows "SetDefaultResultPrinter l t =
      (default_result_printer t,
       t\<lparr>repeater := (repeater t)\<lparr>listeners := without (default_result_printer t) (listeners (repeater t))
                                     @ (case l of None \<Rightarrow> [] | Some x \<Rightarrow> [x])\<rparr>,
         default_result_printer := l\<rparr>) \<and>
    SetDefaultXmlGenerator l t =
      (default_xml_generator t,
       t\<lparr>repeater := (repeater t)\<lparr>listeners := without (default_xml_generator t) (listeners (repeater t))
                                     @ (case l of None \<Rightarrow> [] | Some x \<Rightarrow> [x])\<rparr>,
         default_xml_generator := l\<rparr>) \<and>
    listeners_ok (snd (SetDefaultResultPrinter l t)) \<and> listeners_ok (snd (SetDefaultXmlGenerator l t)) \<and>
    listeners_ok (snd (Listeners_Release k t)) \<and>
    map fst (repeat_event e (repeater t)) =
      (if reverse_event e then rev (listeners (repeater t)) else listeners (repeater t)) \<and>
    (\<forall>x. count_list (repeat_event e (repeater t)) (x, e) = (if x \<in> set (listeners (repeater t)) then 1 else 0))"
  using assms SetDefaultResultPrinter_eq SetDefaultXmlGenerator_eq defaults_ok Release_ok
  by (auto simp: repeat_event_def comp_def count_list_pairs listeners_ok_def [of t])

theorem listeners_exact_witness:
  "let t = snd (SetDefaultXmlGenerator (Some 7) (snd (SetDefaultResultPrinter (Some 3) TestEventListeners_new)))
   in listeners (repeater t) = [3, 7] \<and>
      listeners (repeater (snd (SetDefaultResultPrinter (Some 5) t))) = [7, 5] \<and>
      fst (SetDefaultResultPrinter (Some 5) t) = Some 3 \<and>
      map fst (repeat_event OnTestProgramEnd (repeater t)) = [7, 3]"
  using listeners_exact [of "snd (SetDefaultXmlGenerator (Some 7) (snd (SetDefaultResultPrinter (Some 3)
      TestEventListeners_new)))" "Some 5" None OnTestProgramEnd]
  by (simp add: SetDefaultResultPrinter_def SetDefaultXmlGenerator_def Listeners_Release_eq Listeners_Append_def
      Repeater_Append_def listeners_ok_def without_def TestEventListeners_new_def TestEventRepeater_new_def)

section \<open>Reading the stream\<close>

text \<open>The receiver: a line is a list of fields \<open>name=value\<close> separated by \<open>&\<close>, with the values URL-decoded.\<close>

fun url_decode :: "string \<Rightarrow> string" where
  "url_decode (c # a # b # s) =
    (if c = CHR ''%'' then char_of (hex_value [a, b]) # url_decode s else c # url_decode (a # b # s))"
| "url_decode s = s"

fun split_char :: "char \<Rightarrow> string \<Rightarrow> string list" where
  "split_char c [] = [[]]"
| "split_char c (x # s) =
    (if x = c then [] # split_char c s
     else case split_char c s of [] \<Rightarrow> [] | f # fs \<Rightarrow> (x # f) # fs)"

definition read_field :: "string \<Rightarrow> string \<times> string" where
  "read_field f = (takeWhile (\<lambda>c. c \<noteq> CHR ''='') f, url_decode (tl (dropWhile (\<lambda>c. c \<noteq> CHR ''='') f)))"

definition read_line :: "string \<Rightarrow> (string \<times> string) list" where
  "read_line l = map read_field (split_char (CHR ''&'') l)"

lemma newline_code: "newline = CHR 0x0A"
  by code_simp

lemma url_char_special:
  "url_char (CHR ''%'') = ''%25''" "url_char (CHR ''='') = ''%3D''" "url_char (CHR ''&'') = ''%26''"
  "url_char newline = ''%0A''"
  by code_simp+

lemma url_decode_plain: "c \<noteq> CHR ''%'' \<Longrightarrow> url_decode (c # s) = c # url_decode s"
  by (cases s rule: url_decode.cases) (auto, (case_tac v; auto)?)

lemma url_decode_hex:
  "url_decode (''%25'' @ s) = CHR ''%'' # url_decode s" "url_decode (''%3D'' @ s) = CHR ''='' # url_decode s"
  "url_decode (''%26'' @ s) = CHR ''&'' # url_decode s" "url_decode (''%0A'' @ s) = newline # url_decode s"
proof -
  have "char_of (hex_value ''25'') = CHR ''%''" "char_of (hex_value ''3D'') = CHR ''=''"
    "char_of (hex_value ''26'') = CHR ''&''" "char_of (hex_value ''0A'') = newline" by code_simp+
  then show "url_decode (''%25'' @ s) = CHR ''%'' # url_decode s" "url_decode (''%3D'' @ s) = CHR ''='' # url_decode s"
    "url_decode (''%26'' @ s) = CHR ''&'' # url_decode s" "url_decode (''%0A'' @ s) = newline # url_decode s"
    by simp_all
qed

lemma url_decode_char: "url_decode (url_char c @ s) = c # url_decode s"
proof (cases "c = CHR ''%'' \<or> c = CHR ''='' \<or> c = CHR ''&'' \<or> c = newline")
  case True
  then show ?thesis using url_decode_hex [of s] url_char_special by (elim disjE) (simp_all del: url_decode.simps)
next
  case False
  then show ?thesis by (simp add: url_char_def url_decode_plain)
qed

lemma url_decode_encode: "url_decode (concat (map url_char s)) = s"
  by (induction s) (simp_all add: url_decode_char)

lemma url_char_safe: "CHR ''='' \<notin> set (url_char c) \<and> CHR ''&'' \<notin> set (url_char c) \<and> newline \<notin> set (url_char c)"
proof (cases "c = CHR ''%'' \<or> c = CHR ''='' \<or> c = CHR ''&'' \<or> c = newline")
  case True
  then show ?thesis using url_char_special by (elim disjE) (simp_all add: newline_code)
next
  case False
  then show ?thesis by (auto simp: url_char_def)
qed

lemma UrlEncode_safe: "CHR ''='' \<notin> set (UrlEncode s)" "CHR ''&'' \<notin> set (UrlEncode s)" "newline \<notin> set (UrlEncode s)"
  using url_char_safe by (auto simp: UrlEncode_def)

lemma int_to_string_safe:
  "CHR ''='' \<notin> set (int_to_string i)" "CHR ''&'' \<notin> set (int_to_string i)" "newline \<notin> set (int_to_string i)"
  "CHR ''%'' \<notin> set (int_to_string i)"
proof -
  have "c \<in> set (int_to_string i) \<Longrightarrow> c = CHR ''-'' \<or> 48 \<le> (of_char c :: nat) \<and> (of_char c :: nat) < 58" for c
    using int_to_string_all [of "\<lambda>c. c = CHR ''-'' \<or> 48 \<le> (of_char c :: nat) \<and> (of_char c :: nat) < 58" i] by auto
  from this [of "CHR ''=''"] this [of "CHR ''&''"] this [of newline] this [of "CHR ''%''"]
  show "CHR ''='' \<notin> set (int_to_string i)" "CHR ''&'' \<notin> set (int_to_string i)"
    "newline \<notin> set (int_to_string i)" "CHR ''%'' \<notin> set (int_to_string i)"
    by (auto simp: newline_code)
qed

lemma split_char_nonempty [simp]: "split_char c s \<noteq> []"
  by (induction s) (auto split: list.split)

lemma split_char_last: "c \<notin> set f \<Longrightarrow> split_char c f = [f]"
  by (induction f) auto

lemma split_char_field: "c \<notin> set f \<Longrightarrow> split_char c (f @ c # s) = f # split_char c s"
  by (induction f) auto

lemma url_decode_id: "CHR ''%'' \<notin> set s \<Longrightarrow> url_decode s = s"
  by (induction s) (auto simp: url_decode_plain)

lemma read_field_eq: "CHR ''='' \<notin> set n \<Longrightarrow> read_field (n @ CHR ''='' # v) = (n, url_decode v)"
  by (induction n) (auto simp: read_field_def)

text \<open>
  What the streaming listener sends can be read back: URL-encoding loses nothing and leaves no
  separator in the text, so the line of a test part is one line whose fields are the file, the line
  number and the message of the result.
\<close>

theorem stream_roundtrip:
  "url_decode (UrlEncode s) = c_str s \<and>
   newline \<notin> set (part_line r) \<and>
   read_line (part_line r) =
     [(''event'', ''TestPartResult''), (''file'', c_str (case part_file r of None \<Rightarrow> [] | Some f \<Rightarrow> f)),
      (''line'', int_to_string (line_number r)), (''message'', c_str (part_message r))]"
proof -
  let ?file = "UrlEncode (case part_file r of None \<Rightarrow> [] | Some f \<Rightarrow> f)"
  let ?line = "int_to_string (line_number r)"
  let ?msg = "UrlEncode (c_str (part_message r))"
  have dec: "url_decode (UrlEncode s) = c_str s" for s
    by (simp add: UrlEncode_def url_decode_encode)
  have fields: "split_char (CHR ''&'') (part_line r) =
      [''event'' @ CHR ''='' # ''TestPartResult'', ''file'' @ CHR ''='' # ?file,
       ''line'' @ CHR ''='' # ?line, ''message'' @ CHR ''='' # ?msg]"
    using split_char_field [of "CHR ''&''" "''event=TestPartResult''"]
      split_char_field [of "CHR ''&''" "''file='' @ ?file"] split_char_field [of "CHR ''&''" "''line='' @ ?line"]
      split_char_last [of "CHR ''&''" "''message='' @ ?msg"] UrlEncode_safe int_to_string_safe
    by (simp add: part_line_def del: split_char.simps)
  have "read_line (part_line r) =
      [(''event'', url_decode ''TestPartResult''), (''file'', url_decode ?file),
       (''line'', url_decode ?line), (''message'', url_decode ?msg)]"
    unfolding read_line_def fields by (simp add: read_field_def)
  moreover have "c_str (c_str m) = c_str m" for m by (simp add: c_str_def)
  ultimately show ?thesis
    using dec UrlEncode_safe(3) int_to_string_safe(3) url_decode_id [OF int_to_string_safe(4)]
    by (simp add: part_line_def newline_code)
qed

section \<open>The summary of a run\<close>

definition failed_lines :: "bool \<Rightarrow> TestCase \<Rightarrow> string list" where
  "failed_lines use_color tc = map (failed_line use_color tc) (filter TestFailed (test_info_list tc))"

lemma failed_in_case_eq:
  assumes "\<forall>j \<in> set js. j < length (test_indices tc)"
  shows "failed_in_case use_color tc js =
    Some (map (failed_line use_color tc) (filter TestFailed (map (\<lambda>j. test_info_list tc ! (test_indices tc ! j)) js)))"
  using assms by (induction js) (auto simp: GetTestInfo_index_def GetElementOr_def TestFailed_def)

lemma failed_in_case_perm:
  assumes "mset (test_indices tc) = mset [0 ..< length (test_info_list tc)]"
  shows "\<exists>ls. failed_in_case use_color tc [0 ..< nat (total_test_count tc)] = Some ls \<and>
    mset ls = mset (failed_lines use_color tc)"
proof -
  have len: "length (test_indices tc) = length (test_info_list tc)"
    using assms by (metis length_upt minus_nat.diff_0 size_mset)
  have "mset (map (\<lambda>j. test_info_list tc ! (test_indices tc ! j)) [0 ..< length (test_info_list tc)])
      = image_mset ((!) (test_info_list tc)) (mset (map ((!) (test_indices tc)) [0 ..< length (test_indices tc)]))"
    by (simp add: len multiset.map_comp comp_def)
  also have "\<dots> = mset (map ((!) (test_info_list tc)) [0 ..< length (test_info_list tc)])"
    by (simp only: map_nth assms flip: mset_map)
  finally have "mset (map (\<lambda>j. test_info_list tc ! (test_indices tc ! j)) [0 ..< length (test_info_list tc)])
      = mset (test_info_list tc)" by (simp only: map_nth)
  then show ?thesis
    using failed_in_case_eq [of "[0 ..< length (test_info_list tc)]" tc use_color] len
    by (simp add: total_test_count_def failed_lines_def)
qed

lemma length_failed_lines: "int (length (failed_lines use_color tc)) = failed_test_count tc"
  by (simp add: failed_lines_def failed_test_count_def CountIf_filter)

lemma failed_in_cases_perm:
  assumes "length (test_case_indices u) = length (test_cases u)"
    and "\<forall>tc \<in> set (test_cases u). mset (test_indices tc) = mset [0 ..< length (test_info_list tc)] \<and>
           (0 < failed_test_count tc \<longrightarrow> tc_should_run tc)"
    and "\<forall>i \<in> set is'. i < length (test_cases u)"
  shows "\<exists>ls. failed_in_cases use_color u is' = Some ls \<and>
    mset ls = mset (concat (map (\<lambda>i. failed_lines use_color (test_cases u ! i)) is'))"
  using assms(3)
proof (induction is')
  case (Cons i is')
  let ?tc = "test_cases u ! i"
  have i: "GetTestCase_index u (int i) = Some i"
    using assms(1) Cons.prems by (simp add: GetTestCase_index_def GetElementOr_def)
  have tc: "mset (test_indices ?tc) = mset [0 ..< length (test_info_list ?tc)]"
    "0 < failed_test_count ?tc \<longrightarrow> tc_should_run ?tc" using assms(2) Cons.prems by simp_all
  obtain a where a: "failed_in_case use_color ?tc [0 ..< nat (total_test_count ?tc)] = Some a"
    "mset a = mset (failed_lines use_color ?tc)" using failed_in_case_perm [OF tc(1)] by blast
  obtain b where b: "failed_in_cases use_color u is' = Some b"
    "mset b = mset (concat (map (\<lambda>i. failed_lines use_color (test_cases u ! i)) is'))" using Cons by auto
  have none: "failed_test_count ?tc = 0 \<Longrightarrow> failed_lines use_color ?tc = []"
    using length_failed_lines [of use_color ?tc] by simp
  have "failed_test_count ?tc \<noteq> 0 \<Longrightarrow> tc_should_run ?tc"
    using tc(2) length_failed_lines [of use_color ?tc] by linarith
  with i a b none show ?case by (auto simp: Let_def)
qed simp

text \<open>
  C33.  The summary at the end of an iteration: whatever the shuffled order is, \<open>PrintFailedTests\<close> finds
  all tests and prints one line for each test that ran and failed, none twice and no other, and the
  number of lines is the number of failed tests the summary announces.
\<close>

theorem failed_tests_listed:
  assumes "length (test_case_indices u) = length (test_cases u)"
    and "\<forall>tc \<in> set (test_cases u). mset (test_indices tc) = mset [0 ..< length (test_info_list tc)] \<and>
           (0 < failed_test_count tc \<longrightarrow> tc_should_run tc)"
  shows "\<exists>ls. PrintFailedTests use_color u = Some ls \<and>
    mset ls = mset (concat (map (\<lambda>tc. map (failed_line use_color tc) (filter TestFailed (test_info_list tc)))
                               (test_cases u))) \<and>
    int (length ls) = ut_failed_test_count u"
proof -
  let ?all = "concat (map (failed_lines use_color) (test_cases u))"
  have "int (length (concat (map (failed_lines use_color) tcs))) = SumOverTestCaseList failed_test_count tcs" for tcs
    by (induction tcs) (simp_all add: length_failed_lines)
  then have count: "int (length ?all) = ut_failed_test_count u" by (simp add: ut_failed_test_count_def)
  have "map (\<lambda>i. failed_lines use_color (test_cases u ! i)) [0 ..< length (test_cases u)]
      = map (failed_lines use_color) (test_cases u)"
    by (rule nth_equalityI) simp_all
  then obtain ls where "failed_in_cases use_color u [0 ..< nat (total_test_case_count u)] = Some ls"
    "mset ls = mset ?all"
    using failed_in_cases_perm [OF assms, of "[0 ..< length (test_cases u)]" use_color]
    by (auto simp: total_test_case_count_def)
  moreover from this(2) have "length ls = length ?all" by (metis size_mset)
  moreover have "ut_failed_test_count u = 0 \<Longrightarrow> ?all = []" using count by simp
  ultimately have "\<exists>ls. PrintFailedTests use_color u = Some ls \<and> mset ls = mset ?all \<and>
      int (length ls) = ut_failed_test_count u"
    using count by (auto simp: PrintFailedTests_def)
  then show ?thesis by (simp add: failed_lines_def [abs_def])
qed


definition two_tests :: UnitTestImpl where
  "two_tests = UnitTestImpl_new\<lparr>test_case_indices := [0], test_cases :=
    [(TestCase_new ''Raft'' None (\<lambda>_. []) (\<lambda>_. []))\<lparr>tc_should_run := True, test_indices := [1, 0],
       test_info_list :=
        [(TestInfo_new ''Raft'' ''vote'' None None Test_Class no_code)\<lparr>ti_should_run := True,
           ti_result := TestResult_new\<lparr>test_part_results :=
             [\<lparr>part_type = kFatalFailure, file_name = ''t.cc'', line_number = 7, part_message = ''no''\<rparr>]\<rparr>\<rparr>,
         (TestInfo_new ''Raft'' ''log'' None None Test_Class no_code)\<lparr>ti_should_run := True\<rparr>]\<rparr>]\<rparr>"

theorem failed_tests_listed_witness:
  "PrintFailedTests False two_tests = Some [''[  FAILED  ] Raft.vote'' @ [newline]] \<and>
   (\<exists>ls. PrintFailedTests False two_tests = Some ls \<and> int (length ls) = ut_failed_test_count two_tests)"
proof -
  have "length (test_case_indices two_tests) = length (test_cases two_tests)" by code_simp
  moreover have "\<forall>tc \<in> set (test_cases two_tests).
      mset (test_indices tc) = mset [0 ..< length (test_info_list tc)] \<and> (0 < failed_test_count tc \<longrightarrow> tc_should_run tc)"
    by (simp add: two_tests_def)
  ultimately have "\<exists>ls. PrintFailedTests False two_tests = Some ls \<and> int (length ls) = ut_failed_test_count two_tests"
    using failed_tests_listed [of two_tests False] by blast
  moreover have "PrintFailedTests False two_tests = Some [''[  FAILED  ] Raft.vote'' @ [newline]]" by code_simp
  ultimately show ?thesis by blast
qed

end
