(* ===== verification/Glog_Logfile.thy ===== *)
theory Glog_Logfile
  imports C_Strings "HOL-Library.Word"
begin

unbundle bit_operations_syntax

text \<open>
  The log files of glog (\<open>logging.cc\<close>, \<open>utilities.cc\<close>): the class \<open>LogFileObject\<close> with the choice of a
  directory, creation, rollover and flushing of a file.

  A record \<open>sys\<close> holds what one call reads of its environment, the clock, the process and the
  file system's permissions; \<open>log_state\<close> holds the global variables, the files with the bytes that have
  reached them, the symbolic links, and what was written elsewhere.  An open \<open>FILE\<close> is its name with
  the bytes that are still in its buffer.
\<close>

section \<open>Severities and flags\<close>

datatype LogSeverity = GLOG_INFO | GLOG_WARNING | GLOG_ERROR | GLOG_FATAL

fun severity_value :: "LogSeverity \<Rightarrow> int" where
  "severity_value GLOG_INFO = 0"
| "severity_value GLOG_WARNING = 1"
| "severity_value GLOG_ERROR = 2"
| "severity_value GLOG_FATAL = 3"

text \<open>The indices \<open>0 .. NUM_SEVERITIES - 1\<close> of a loop, upwards.\<close>

definition severities :: "LogSeverity list" where
  "severities = [GLOG_INFO, GLOG_WARNING, GLOG_ERROR, GLOG_FATAL]"

fun LogSeverityNames :: "LogSeverity \<Rightarrow> string" where
  "LogSeverityNames GLOG_INFO = ''INFO''"
| "LogSeverityNames GLOG_WARNING = ''WARNING''"
| "LogSeverityNames GLOG_ERROR = ''ERROR''"
| "LogSeverityNames GLOG_FATAL = ''FATAL''"

record log_flags =
  logtostderr :: bool
  alsologtostderr :: bool
  colorlogtostderr :: bool
  stderrthreshold :: int
  alsologtoemail :: string
  log_prefix :: bool
  minloglevel :: int
  logbuflevel :: int
  logbufsecs :: int
  logemaillevel :: int
  logmailer :: string
  log_dir :: string
  log_link :: string
  max_log_size :: int
  stop_logging_if_full_disk :: bool
  log_backtrace_at :: string

definition BoolFromEnv :: "(string \<Rightarrow> string option) \<Rightarrow> string \<Rightarrow> bool \<Rightarrow> bool" where
  "BoolFromEnv getenv varname defval =
    (case getenv varname of
       None \<Rightarrow> defval
     | Some valstr \<Rightarrow> (case c_str valstr of [] \<Rightarrow> True | c # _ \<Rightarrow> c \<in> set ''tTyY1''))"

definition DefaultLogDir :: "(string \<Rightarrow> string option) \<Rightarrow> string" where
  "DefaultLogDir getenv =
    (case getenv ''GOOGLE_LOG_DIR'' of
       Some (c # d) \<Rightarrow> c # d
     | _ \<Rightarrow> (case getenv ''TEST_TMPDIR'' of Some (c # d) \<Rightarrow> c # d | _ \<Rightarrow> []))"

definition default_log_flags :: "(string \<Rightarrow> string option) \<Rightarrow> log_flags" where
  "default_log_flags getenv =
    \<lparr>logtostderr = BoolFromEnv getenv ''GOOGLE_LOGTOSTDERR'' False,
     alsologtostderr = BoolFromEnv getenv ''GOOGLE_ALSOLOGTOSTDERR'' False,
     colorlogtostderr = False, stderrthreshold = severity_value GLOG_ERROR, alsologtoemail = [],
     log_prefix = True, minloglevel = 0, logbuflevel = 0, logbufsecs = 30, logemaillevel = 999,
     logmailer = ''/bin/mail'', log_dir = DefaultLogDir getenv, log_link = [], max_log_size = 1800,
     stop_logging_if_full_disk = False, log_backtrace_at = []\<rparr>"

definition MaxLogSize :: "log_flags \<Rightarrow> int" where
  "MaxLogSize fl = (if max_log_size fl > 0 then max_log_size fl else 1)"

section \<open>Environment and state\<close>

record sys =
  CycleClock_Now :: int
  localtime :: "int \<Rightarrow> tm"
  usecs :: int
  getpid :: int
  gettid :: int
  nodename :: "string option"
  getenv :: "string \<Rightarrow> string option"
  is_dir :: "string \<Rightarrow> bool"
  path_exists :: "string \<Rightarrow> bool"
  permitted :: "string \<Rightarrow> bool"
  fdopen_ok :: bool
  disk_full :: bool
  errno_text :: string
  strerror_r :: "int \<Rightarrow> string option"
  stacktrace :: string
  popen_ok :: "string \<Rightarrow> bool"
  pclose_ok :: bool

datatype log_event =
    Stderr string
  | Mail string string string
  | Sink_Send nat LogSeverity string string int tm string
  | Sink_Wait nat
  | Logger_Write nat bool int string
  | Logger_Flush nat
  | Syslog LogSeverity string
  | Vector_Push nat string
  | String_Assign nat string

record log_state =
  files :: "string \<Rightarrow> string option"
  links :: "string \<Rightarrow> string option"
  stop_writing :: bool
  main_thread_pid :: int
  program_invocation_short_name :: "string option"
  my_user_name :: string
  logging_directories_list :: "string list option"
  cached_hostname :: string
  outs :: "log_event list"

definition out :: "log_event \<Rightarrow> 'z log_state_scheme \<Rightarrow> 'z log_state_scheme" where
  "out e st = st\<lparr>outs := outs st @ [e]\<rparr>"

definition ProgramInvocationShortName :: "'z log_state_scheme \<Rightarrow> string" where
  "ProgramInvocationShortName st =
    (case program_invocation_short_name st of Some n \<Rightarrow> n | None \<Rightarrow> ''UNKNOWN'')"

definition IsGoogleLoggingInitialized :: "'z log_state_scheme \<Rightarrow> bool" where
  "IsGoogleLoggingInitialized st \<longleftrightarrow> program_invocation_short_name st \<noteq> None"

definition PidHasChanged :: "sys \<Rightarrow> 'z log_state_scheme \<Rightarrow> bool \<times> 'z log_state_scheme" where
  "PidHasChanged sy st =
    (if main_thread_pid st = getpid sy then (False, st) else (True, st\<lparr>main_thread_pid := getpid sy\<rparr>))"

definition const_basename :: "string \<Rightarrow> string" where
  "const_basename filepath = (case strrchr filepath (CHR ''/'') of None \<Rightarrow> filepath | Some base \<Rightarrow> drop 1 base)"

definition MyUserNameInitializer :: "sys \<Rightarrow> 'z log_state_scheme \<Rightarrow> 'z log_state_scheme" where
  "MyUserNameInitializer sy st =
    st\<lparr>my_user_name := (case getenv sy ''USER'' of Some user \<Rightarrow> user | None \<Rightarrow> ''invalid-user'')\<rparr>"

definition GetHostName :: "sys \<Rightarrow> string" where
  "GetHostName sy = (case nodename sy of None \<Rightarrow> [] | Some n \<Rightarrow> n)"

definition LogDestination_hostname :: "sys \<Rightarrow> 'z log_state_scheme \<Rightarrow> string \<times> 'z log_state_scheme" where
  "LogDestination_hostname sy st =
    (if cached_hostname st = [] then
       let h = GetHostName sy; h' = (if h = [] then ''(unknown)'' else h) in (h', st\<lparr>cached_hostname := h'\<rparr>)
     else (cached_hostname st, st))"

section \<open>Directories\<close>

fun temp_loop :: "(string \<Rightarrow> bool) \<Rightarrow> string option list \<Rightarrow> string list option" where
  "temp_loop dir [] = Some []"
| "temp_loop dir (None # cs) = temp_loop dir cs"
| "temp_loop dir (Some d # cs) =
    (if d = [] then None
     else let dstr = (if last d \<noteq> CHR ''/'' then d @ ''/'' else d)
          in if dir d then Some [dstr] else map_option (Cons dstr) (temp_loop dir cs))"

text \<open>\<open>None\<close> where \<open>dstr[dstr.size() - 1]\<close> reads before an empty string.\<close>

definition GetTempDirectories :: "sys \<Rightarrow> string list option" where
  "GetTempDirectories sy =
    temp_loop (is_dir sy) [getenv sy ''TEST_TMPDIR'', getenv sy ''TMPDIR'', getenv sy ''TMP'', Some ''/tmp'']"

definition GetExistingTempDirectories :: "sys \<Rightarrow> string list option" where
  "GetExistingTempDirectories sy = map_option (filter (path_exists sy)) (GetTempDirectories sy)"

definition GetLoggingDirectories ::
  "log_flags \<Rightarrow> sys \<Rightarrow> 'z log_state_scheme \<Rightarrow> (string list \<times> 'z log_state_scheme) option" where
  "GetLoggingDirectories fl sy st =
    (case logging_directories_list st of
       Some l \<Rightarrow> Some (l, st)
     | None \<Rightarrow>
         map_option (\<lambda>l. (l, st\<lparr>logging_directories_list := Some l\<rparr>))
           (if log_dir fl \<noteq> [] then Some [c_str (log_dir fl)]
            else map_option (\<lambda>l. l @ [''./'']) (GetTempDirectories sy)))"

section \<open>LogFileObject\<close>

record LogFileObject =
  base_filename_selected :: bool
  base_filename :: string
  symlink_basename :: string
  filename_extension :: string
  lf_file :: "(string \<times> string) option"
  lf_severity :: LogSeverity
  bytes_since_flush :: "32 word"
  file_length :: "32 word"
  rollover_attempt :: "32 word"
  next_flush_time :: int

definition kRolloverAttemptFrequency :: "32 word" where "kRolloverAttemptFrequency = 0x20"

definition LogFileObject_new :: "LogSeverity \<Rightarrow> string option \<Rightarrow> 'z log_state_scheme \<Rightarrow> LogFileObject" where
  "LogFileObject_new severity name st =
    \<lparr>base_filename_selected = (name \<noteq> None), base_filename = (case name of None \<Rightarrow> [] | Some n \<Rightarrow> n),
     symlink_basename = ProgramInvocationShortName st, filename_extension = [], lf_file = None,
     lf_severity = severity, bytes_since_flush = 0, file_length = 0,
     rollover_attempt = kRolloverAttemptFrequency - 1, next_flush_time = 0\<rparr>"

text \<open>\<open>fflush\<close>: the buffered bytes reach the file.\<close>

definition flush_file :: "LogFileObject \<Rightarrow> 'z log_state_scheme \<Rightarrow> 'z log_state_scheme" where
  "flush_file obj st =
    (case lf_file obj of
       None \<Rightarrow> st
     | Some (name, buf) \<Rightarrow> (case files st name of None \<Rightarrow> st | Some c \<Rightarrow> st\<lparr>files := (files st)(name \<mapsto> c @ buf)\<rparr>))"

text \<open>\<open>fclose\<close> of the open file, if there is one.\<close>

definition close_file :: "LogFileObject \<Rightarrow> 'z log_state_scheme \<Rightarrow> LogFileObject \<times> 'z log_state_scheme" where
  "close_file obj st = (obj\<lparr>lf_file := None\<rparr>, flush_file obj st)"

definition LogFileObject_delete :: "LogFileObject \<Rightarrow> 'z log_state_scheme \<Rightarrow> 'z log_state_scheme" where
  "LogFileObject_delete obj st = snd (close_file obj st)"

definition SetBasename :: "string \<Rightarrow> LogFileObject \<Rightarrow> 'z log_state_scheme \<Rightarrow> LogFileObject \<times> 'z log_state_scheme" where
  "SetBasename name obj0 st =
    (let obj = obj0\<lparr>base_filename_selected := True\<rparr>
     in if base_filename obj \<noteq> name then
          let (obj1, st1) = (if lf_file obj \<noteq> None
                then let (o1, s1) = close_file obj st
                     in (o1\<lparr>rollover_attempt := kRolloverAttemptFrequency - 1\<rparr>, s1)
                else (obj, st))
          in (obj1\<lparr>base_filename := name\<rparr>, st1)
        else (obj, st))"

definition SetExtension :: "string \<Rightarrow> LogFileObject \<Rightarrow> 'z log_state_scheme \<Rightarrow> LogFileObject \<times> 'z log_state_scheme" where
  "SetExtension ext obj st =
    (if filename_extension obj \<noteq> ext then
       let (obj1, st1) = (if lf_file obj \<noteq> None
             then let (o1, s1) = close_file obj st
                  in (o1\<lparr>rollover_attempt := kRolloverAttemptFrequency - 1\<rparr>, s1)
             else (obj, st))
       in (obj1\<lparr>filename_extension := ext\<rparr>, st1)
     else (obj, st))"

definition SetSymlinkBasename :: "string \<Rightarrow> LogFileObject \<Rightarrow> LogFileObject" where
  "SetSymlinkBasename name obj = obj\<lparr>symlink_basename := name\<rparr>"

definition FlushUnlocked ::
  "log_flags \<Rightarrow> sys \<Rightarrow> LogFileObject \<Rightarrow> 'z log_state_scheme \<Rightarrow> LogFileObject \<times> 'z log_state_scheme" where
  "FlushUnlocked fl sy obj st =
    (let obj1 = (case lf_file obj of
                   None \<Rightarrow> obj
                 | Some (name, buf) \<Rightarrow> obj\<lparr>lf_file := Some (name, []), bytes_since_flush := 0\<rparr>);
         nxt = logbufsecs fl * 1000000
     in (obj1\<lparr>next_flush_time := CycleClock_Now sy + nxt\<rparr>, flush_file obj st))"

text \<open>\<open>unlink\<close> and \<open>symlink\<close>, which fail silently.\<close>

definition unlink :: "sys \<Rightarrow> string \<Rightarrow> 'z log_state_scheme \<Rightarrow> 'z log_state_scheme" where
  "unlink sy path st =
    (if permitted sy path then st\<lparr>files := (files st)(path := None), links := (links st)(path := None)\<rparr> else st)"

definition symlink :: "sys \<Rightarrow> string \<Rightarrow> string \<Rightarrow> 'z log_state_scheme \<Rightarrow> 'z log_state_scheme" where
  "symlink sy dest path st =
    (if permitted sy path \<and> files st path = None \<and> links st path = None
     then st\<lparr>links := (links st)(path \<mapsto> dest)\<rparr> else st)"

definition make_links ::
  "log_flags \<Rightarrow> sys \<Rightarrow> string \<Rightarrow> LogFileObject \<Rightarrow> 'z log_state_scheme \<Rightarrow> 'z log_state_scheme" where
  "make_links fl sy filename obj st =
    (if symlink_basename obj \<noteq> [] then
       let slash = strrchr filename (CHR ''/'');
           linkname = symlink_basename obj @ ''.'' @ LogSeverityNames (lf_severity obj);
           dir = (case slash of None \<Rightarrow> [] | Some s \<Rightarrow> upto_ptr filename (drop 1 s));
           linkpath = c_str (dir @ linkname);
           linkdest = (case slash of None \<Rightarrow> filename | Some s \<Rightarrow> drop 1 s);
           st1 = symlink sy linkdest linkpath (unlink sy linkpath st)
       in if log_link fl \<noteq> [] then
            let linkpath2 = c_str (log_link fl @ ''/'' @ linkname)
            in symlink sy filename linkpath2 (unlink sy linkpath2 st1)
          else st1
     else st)"

definition CreateLogfile ::
  "log_flags \<Rightarrow> sys \<Rightarrow> string \<Rightarrow> LogFileObject \<Rightarrow> 'z log_state_scheme \<Rightarrow> bool \<times> LogFileObject \<times> 'z log_state_scheme" where
  "CreateLogfile fl sy time_pid_string obj st =
    (let filename = c_str (base_filename obj @ filename_extension obj @ time_pid_string)
     in if \<not> permitted sy filename \<or> files st filename \<noteq> None \<or> links st filename \<noteq> None then (False, obj, st)
        else let st1 = st\<lparr>files := (files st)(filename \<mapsto> [])\<rparr>
             in if \<not> fdopen_ok sy then (False, obj\<lparr>lf_file := None\<rparr>, unlink sy filename st1)
                else (True, obj\<lparr>lf_file := Some (filename, [])\<rparr>, make_links fl sy filename obj st1))"

definition time_pid :: "sys \<Rightarrow> int \<Rightarrow> 'z log_state_scheme \<Rightarrow> string" where
  "time_pid sy timestamp st =
    (let t = localtime sy timestamp
     in int_to_string (1900 + tm_year t) @ setw 2 (CHR ''0'') (1 + tm_mon t) @ setw 2 (CHR ''0'') (tm_mday t)
        @ ''-'' @ setw 2 (CHR ''0'') (tm_hour t) @ setw 2 (CHR ''0'') (tm_min t) @ setw 2 (CHR ''0'') (tm_sec t)
        @ ''.'' @ int_to_string (main_thread_pid st))"

definition default_basename :: "sys \<Rightarrow> LogFileObject \<Rightarrow> 'z log_state_scheme \<Rightarrow> string" where
  "default_basename sy obj st =
    ProgramInvocationShortName st @ ''.'' @ GetHostName sy @ ''.''
    @ (if my_user_name st = [] then ''invalid-user'' else my_user_name st)
    @ ''.log.'' @ LogSeverityNames (lf_severity obj) @ ''.''"

fun try_dirs ::
  "log_flags \<Rightarrow> sys \<Rightarrow> string \<Rightarrow> string \<Rightarrow> string list \<Rightarrow> LogFileObject \<Rightarrow> 'z log_state_scheme \<Rightarrow>
   bool \<times> LogFileObject \<times> 'z log_state_scheme" where
  "try_dirs fl sy stripped time_pid_string [] obj st = (False, obj, st)"
| "try_dirs fl sy stripped time_pid_string (dir # dirs) obj st =
    (case CreateLogfile fl sy time_pid_string (obj\<lparr>base_filename := dir @ ''/'' @ stripped\<rparr>) st of
       (True, obj1, st1) \<Rightarrow> (True, obj1, st1)
     | (False, obj1, st1) \<Rightarrow> try_dirs fl sy stripped time_pid_string dirs obj1 st1)"

definition file_header :: "sys \<Rightarrow> int \<Rightarrow> string \<Rightarrow> string" where
  "file_header sy timestamp host =
    (let t = localtime sy timestamp
     in ''Log file created at: '' @ int_to_string (1900 + tm_year t) @ ''/'' @ setw 2 (CHR ''0'') (1 + tm_mon t)
        @ ''/'' @ setw 2 (CHR ''0'') (tm_mday t) @ '' '' @ setw 2 (CHR ''0'') (tm_hour t) @ '':''
        @ setw 2 (CHR ''0'') (tm_min t) @ '':'' @ setw 2 (CHR ''0'') (tm_sec t) @ [newline]
        @ ''Running on machine: '' @ host @ [newline]
        @ ''Log line format: [IWEF]mmdd hh:mm:ss.uuuuuu '' @ ''threadid file:line] msg'' @ [newline])"

text \<open>\<open>fwrite\<close> to the open file: a full disk takes nothing.\<close>

definition fwrite :: "sys \<Rightarrow> string \<Rightarrow> LogFileObject \<Rightarrow> LogFileObject" where
  "fwrite sy s obj =
    (if disk_full sy then obj
     else obj\<lparr>lf_file := map_option (\<lambda>(name, buf). (name, buf @ s)) (lf_file obj)\<rparr>)"

definition count_bytes :: "nat \<Rightarrow> LogFileObject \<Rightarrow> LogFileObject" where
  "count_bytes n obj =
    obj\<lparr>file_length := file_length obj + of_nat n, bytes_since_flush := bytes_since_flush obj + of_nat n\<rparr>"

text \<open>
  The part of \<open>Write\<close> for \<open>file_ == NULL\<close>.  The flag tells whether there is a file now; the outer
  \<open>None\<close> is an undefined read in \<open>GetTempDirectories\<close>.
\<close>

definition open_logfile ::
  "log_flags \<Rightarrow> sys \<Rightarrow> int \<Rightarrow> LogFileObject \<Rightarrow> 'z log_state_scheme \<Rightarrow> (bool \<times> LogFileObject \<times> 'z log_state_scheme) option" where
  "open_logfile fl sy timestamp obj0 st =
    (let obj = obj0\<lparr>rollover_attempt := rollover_attempt obj0 + 1\<rparr>
     in if rollover_attempt obj \<noteq> kRolloverAttemptFrequency then Some (False, obj, st)
        else let obj1 = obj\<lparr>rollover_attempt := 0\<rparr>; tp = time_pid sy timestamp st
             in map_option (\<lambda>(ok, obj2, st2).
                  if ok then let (host, st3) = LogDestination_hostname sy st2;
                                 header = file_header sy timestamp host
                             in (True, count_bytes (length header) (fwrite sy header obj2), st3)
                  else (False, obj2, st2))
                (if base_filename_selected obj then
                   Some (case CreateLogfile fl sy tp obj1 st of
                       (True, obj2, st2) \<Rightarrow> (True, obj2, st2)
                     | (False, obj2, st2) \<Rightarrow> (False, obj2,
                         out (Stderr (''Could not create log file: '' @ errno_text sy @ [newline]
                           @ ''COULD NOT CREATE LOGFILE '' @ [CHR 0x27] @ c_str tp @ [CHR 0x27, CHR ''!'', newline])) st2))
                 else map_option (\<lambda>(dirs, st1).
                   case try_dirs fl sy (default_basename sy obj1 st) tp dirs obj1 st1 of
                       (True, obj2, st2) \<Rightarrow> (True, obj2, st2)
                     | (False, obj2, st2) \<Rightarrow> (False, obj2,
                         out (Stderr (''Could not create logging file: '' @ errno_text sy @ [newline]
                           @ ''COULD NOT CREATE A LOGGINGFILE '' @ c_str tp @ ''!'')) st2))
                   (GetLoggingDirectories fl sy st)))"

definition write_message ::
  "log_flags \<Rightarrow> sys \<Rightarrow> bool \<Rightarrow> string \<Rightarrow> LogFileObject \<Rightarrow> 'z log_state_scheme \<Rightarrow> LogFileObject \<times> 'z log_state_scheme" where
  "write_message fl sy force_flush message obj st =
    (if \<not> stop_writing st then
       if stop_logging_if_full_disk fl \<and> disk_full sy then (fwrite sy message obj, st\<lparr>stop_writing := True\<rparr>)
       else let obj1 = count_bytes (length message) (fwrite sy message obj)
            in if force_flush \<or> bytes_since_flush obj1 \<ge> 1000000 \<or> CycleClock_Now sy \<ge> next_flush_time obj1
               then FlushUnlocked fl sy obj1 st else (obj1, st)
     else if CycleClock_Now sy \<ge> next_flush_time obj then (obj, st\<lparr>stop_writing := False\<rparr>)
     else (obj, st))"

definition LogFile_Write ::
  "log_flags \<Rightarrow> sys \<Rightarrow> bool \<Rightarrow> int \<Rightarrow> string \<Rightarrow> LogFileObject \<Rightarrow> 'z log_state_scheme \<Rightarrow>
   (LogFileObject \<times> 'z log_state_scheme) option" where
  "LogFile_Write fl sy force_flush timestamp message obj st =
    (if base_filename_selected obj \<and> base_filename obj = [] then Some (obj, st)
     else
       let full = uint (drop_bit 20 (file_length obj)) \<ge> MaxLogSize fl;
           (changed, st1) = (if full then (False, st) else PidHasChanged sy st);
           (obj2, st2) = (if full \<or> changed
              then let (o1, s1) = close_file obj st1
                   in (o1\<lparr>file_length := 0, bytes_since_flush := 0,
                          rollover_attempt := kRolloverAttemptFrequency - 1\<rparr>, s1)
              else (obj, st1))
       in if lf_file obj2 = None then
            (case open_logfile fl sy timestamp obj2 st2 of
               None \<Rightarrow> None
             | Some (False, obj3, st3) \<Rightarrow> Some (obj3, st3)
             | Some (True, obj3, st3) \<Rightarrow> Some (write_message fl sy force_flush message obj3 st3))
          else Some (write_message fl sy force_flush message obj2 st2))"

section \<open>Sizes\<close>

lemma unat_count: "unat (w :: 32 word) + n < 2 ^ 32 \<Longrightarrow> unat (w + of_nat n) = unat w + n"
  by (simp add: unat_word_ariths(1) unat_of_nat)

lemma length_megabytes:
  assumes "uint (drop_bit 20 (w :: 32 word)) < m"
  shows "unat w < nat m * 2 ^ 20"
proof -
  have "take_bit 32 (uint w) = uint w"
    using uint_lt2p [of w] by (simp add: take_bit_int_eq_self)
  then have "uint (drop_bit 20 w) = uint w div 2 ^ 20"
    by (simp add: unsigned_drop_bit_eq drop_bit_eq_div [where 'a = int])
  with assms have "uint w div 1048576 < m" by simp
  then have "uint w < m * 1048576" by linarith
  moreover have "int (unat w) = uint w" by simp
  ultimately have "int (unat w) < m * 1048576" by (simp only:)
  then have "unat w < nat m * 1048576" by linarith
  then show ?thesis by simp
qed

text \<open>What an open log file holds, in the file and in the buffer.\<close>

definition contents :: "LogFileObject \<Rightarrow> 'z log_state_scheme \<Rightarrow> string" where
  "contents obj st = (case lf_file obj of
     None \<Rightarrow> [] | Some (name, buf) \<Rightarrow> (case files st name of None \<Rightarrow> [] | Some c \<Rightarrow> c @ buf))"

lemma contents_files: "files st' = files st \<Longrightarrow> contents obj st' = contents obj st"
  by (simp add: contents_def split: option.split)

lemma contents_out [simp]: "contents obj (out e st) = contents obj st"
  by (rule contents_files) (simp add: out_def)

definition buffered :: "LogFileObject \<Rightarrow> string" where
  "buffered obj = (case lf_file obj of None \<Rightarrow> [] | Some (name, buf) \<Rightarrow> buf)"

text \<open>The counters count at least the bytes there are, and nothing when there is no file.\<close>

definition counted :: "LogFileObject \<Rightarrow> 'z log_state_scheme \<Rightarrow> bool" where
  "counted obj st \<longleftrightarrow>
    length (contents obj st) \<le> unat (file_length obj) \<and> length (buffered obj) \<le> unat (bytes_since_flush obj) \<and>
    (lf_file obj = None \<longrightarrow> file_length obj = 0 \<and> bytes_since_flush obj = 0)"

lemma contents_fwrite:
  "length (contents (fwrite sy s obj) st) \<le> length (contents obj st) + length s"
  "length (buffered (fwrite sy s obj)) \<le> length (buffered obj) + length s"
  by (auto simp: contents_def buffered_def fwrite_def split: option.splits)

lemma count_bytes_simps [simp]:
  "lf_file (count_bytes n obj) = lf_file obj" "contents (count_bytes n obj) st = contents obj st"
  "buffered (count_bytes n obj) = buffered obj" "next_flush_time (count_bytes n obj) = next_flush_time obj"
  "file_length (count_bytes n obj) = file_length obj + of_nat n"
  "bytes_since_flush (count_bytes n obj) = bytes_since_flush obj + of_nat n"
  by (simp_all add: count_bytes_def contents_def buffered_def)

lemma fwrite_simps [simp]:
  "file_length (fwrite sy s obj) = file_length obj" "bytes_since_flush (fwrite sy s obj) = bytes_since_flush obj"
  "lf_file (fwrite sy s obj) = None \<longleftrightarrow> lf_file obj = None" "next_flush_time (fwrite sy s obj) = next_flush_time obj"
  by (auto simp: fwrite_def)

lemma counted_append:
  assumes "counted obj st" "lf_file obj \<noteq> None" "unat (file_length obj) + length s < 2 ^ 32"
    "unat (bytes_since_flush obj) + length s < 2 ^ 32"
  shows "counted (count_bytes (length s) (fwrite sy s obj)) st"
  using assms contents_fwrite(1) [of sy s obj st] contents_fwrite(2) [of sy s obj]
  by (auto simp: counted_def unat_count)

lemma counted_FlushUnlocked:
  assumes "counted obj st" "lf_file obj \<noteq> None" "FlushUnlocked fl sy obj st = (obj', st')"
  shows "counted obj' st'" "buffered obj' = []" "file_length obj' = file_length obj" "bytes_since_flush obj' = 0"
    "contents obj' st' = contents obj st" "lf_file obj' \<noteq> None"
  using assms by (auto simp: FlushUnlocked_def flush_file_def counted_def contents_def buffered_def split: option.splits)

text \<open>A file that is open has fewer than a megabyte more than its maximal size.\<close>

definition within :: "log_flags \<Rightarrow> LogFileObject \<Rightarrow> bool" where
  "within fl obj \<longleftrightarrow> unat (file_length obj) < nat (MaxLogSize fl) * 2 ^ 20 + 2 ^ 20 \<and> unat (bytes_since_flush obj) < 1000000"

lemma write_message_ok:
  assumes "counted obj st" "lf_file obj \<noteq> None" "unat (file_length obj) < nat (MaxLogSize fl) * 2 ^ 20 + 2 ^ 19"
    "unat (bytes_since_flush obj) < 1000000" "length message < 2 ^ 19" "MaxLogSize fl \<le> 4094"
    "write_message fl sy force_flush message obj st = (obj', st')"
  shows "counted obj' st' \<and> within fl obj' \<and> lf_file obj' \<noteq> None \<and>
    (force_flush \<and> \<not> stop_writing st \<and> \<not> stop_writing st' \<longrightarrow> buffered obj' = [])"
proof (cases "stop_writing st \<or> stop_logging_if_full_disk fl \<and> disk_full sy")
  case True
  with assms show ?thesis
    by (auto simp: write_message_def fwrite_def within_def counted_def contents_def split: if_splits)
next
  case False
  let ?o = "count_bytes (length message) (fwrite sy message obj)"
  have u: "unat (file_length ?o) = unat (file_length obj) + length message"
    "unat (bytes_since_flush ?o) = unat (bytes_since_flush obj) + length message"
    using assms(3-6) unat_count [of "file_length obj" "length message"]
      unat_count [of "bytes_since_flush obj" "length message"] by simp_all
  have "unat (file_length obj) + length message < 2 ^ 32" "unat (bytes_since_flush obj) + length message < 2 ^ 32"
    using assms(3-6) by simp_all
  with assms(1,2) have c: "counted ?o st" by (intro counted_append)
  have w: "within fl ?o" if "\<not> bytes_since_flush ?o \<ge> 1000000"
    using that u assms(3,5) unfolding within_def by (simp add: word_le_nat_alt)
  show ?thesis
  proof (cases "force_flush \<or> bytes_since_flush ?o \<ge> 1000000 \<or> CycleClock_Now sy \<ge> next_flush_time ?o")
    case True
    with False assms(7) have fu: "FlushUnlocked fl sy ?o st = (obj', st')" by (auto simp: write_message_def Let_def split: if_splits)
    from counted_FlushUnlocked [OF c _ this] u assms(2,3,5) show ?thesis by (auto simp: within_def)
  next
    case no: False
    with False assms(7) have "obj' = ?o" "st' = st" by (auto simp: write_message_def Let_def split: if_splits)
    with c w no assms(2) show ?thesis by simp
  qed
qed

lemma unlink_files: "files (unlink sy p st) n = Some c \<Longrightarrow> files st n = Some c"
  by (auto simp: unlink_def split: if_splits)

lemma symlink_files [simp]: "files (symlink sy d p st) = files st"
  by (simp add: symlink_def)

lemma make_links_files: "files (make_links fl sy f obj st) n = Some c \<Longrightarrow> files st n = Some c"
  by (auto simp: make_links_def Let_def dest!: unlink_files split: if_splits)

lemma make_links_same [simp]:
  "cached_hostname (make_links fl sy f obj st) = cached_hostname st"
  "stop_writing (make_links fl sy f obj st) = stop_writing st"
  "cached_hostname (unlink sy f st) = cached_hostname st" "stop_writing (unlink sy f st) = stop_writing st"
  by (simp_all add: make_links_def unlink_def symlink_def Let_def)

lemma CreateLogfile_cases:
  assumes "CreateLogfile fl sy tp obj st = (ok, obj', st')" "lf_file obj = None"
  shows "file_length obj' = file_length obj \<and> bytes_since_flush obj' = bytes_since_flush obj \<and>
    buffered obj' = [] \<and> contents obj' st' = [] \<and> (ok \<longleftrightarrow> lf_file obj' \<noteq> None) \<and>
    cached_hostname st' = cached_hostname st \<and> stop_writing st' = stop_writing st"
  using assms
  by (auto simp: CreateLogfile_def Let_def contents_def buffered_def dest!: make_links_files
      split: if_splits option.splits)

lemma try_dirs_cases:
  assumes "try_dirs fl sy s tp dirs obj st = (ok, obj', st')" "lf_file obj = None"
  shows "file_length obj' = file_length obj \<and> bytes_since_flush obj' = bytes_since_flush obj \<and>
    buffered obj' = [] \<and> contents obj' st' = [] \<and> (ok \<longleftrightarrow> lf_file obj' \<noteq> None) \<and>
    cached_hostname st' = cached_hostname st \<and> stop_writing st' = stop_writing st"
  using assms
proof (induction dirs arbitrary: obj st)
  case Nil
  then show ?case by (auto simp: buffered_def contents_def)
next
  case (Cons dir dirs)
  obtain ok1 o1 s1 where c: "CreateLogfile fl sy tp (obj\<lparr>base_filename := dir @ ''/'' @ s\<rparr>) st = (ok1, o1, s1)"
    by (metis prod_cases3)
  with CreateLogfile_cases [OF c] Cons show ?case by (cases ok1) fastforce+
qed

text \<open>The object and the state after an attempt to create a file, before its header is written.\<close>

definition fresh ::
  "LogFileObject \<Rightarrow> 'z log_state_scheme \<Rightarrow> bool \<Rightarrow> LogFileObject \<Rightarrow> 'z log_state_scheme \<Rightarrow> bool" where
  "fresh obj st ok obj' st' \<longleftrightarrow>
    file_length obj' = file_length obj \<and> bytes_since_flush obj' = bytes_since_flush obj \<and>
    buffered obj' = [] \<and> contents obj' st' = [] \<and> (ok \<longleftrightarrow> lf_file obj' \<noteq> None) \<and>
    cached_hostname st' = cached_hostname st \<and> stop_writing st' = stop_writing st"

definition with_header ::
  "sys \<Rightarrow> int \<Rightarrow> bool \<times> LogFileObject \<times> 'z log_state_scheme \<Rightarrow> bool \<times> LogFileObject \<times> 'z log_state_scheme" where
  "with_header sy timestamp r =
    (case r of (ok, obj, st) \<Rightarrow>
       if ok then let (host, st') = LogDestination_hostname sy st; header = file_header sy timestamp host
                  in (True, count_bytes (length header) (fwrite sy header obj), st')
       else (False, obj, st))"

lemma fst_with_header: "fst (with_header sy timestamp (ok, o1, s1)) = ok"
  by (simp add: with_header_def split_def Let_def)

lemma open_logfile_cases:
  assumes "open_logfile fl sy timestamp obj st = Some r" "lf_file obj = None"
  shows "\<exists>ok o1 s1. fresh obj st ok o1 s1 \<and> r = with_header sy timestamp (ok, o1, s1)"
proof -
  let ?o = "obj\<lparr>rollover_attempt := rollover_attempt obj + 1\<rparr>"
  let ?o1 = "?o\<lparr>rollover_attempt := 0\<rparr>" and ?tp = "time_pid sy timestamp st"
  have fresh_out: "fresh obj st ok o1 (out e s1)" if "fresh ?o1 st ok o1 s1" for ok o1 s1 e
    using that by (simp add: fresh_def) (simp add: out_def)
  consider "rollover_attempt ?o \<noteq> kRolloverAttemptFrequency"
    | (sel) "rollover_attempt ?o = kRolloverAttemptFrequency" "base_filename_selected obj"
    | (dirs) "rollover_attempt ?o = kRolloverAttemptFrequency" "\<not> base_filename_selected obj" by blast
  then show ?thesis
  proof cases
    case 1
    then have "r = with_header sy timestamp (False, ?o, st)"
      using assms(1) by (auto simp: open_logfile_def with_header_def)
    moreover have "fresh obj st False ?o st" using assms(2) by (simp add: fresh_def buffered_def contents_def)
    ultimately show ?thesis by blast
  next
    case sel
    obtain ok o1 s1 where c: "CreateLogfile fl sy ?tp ?o1 st = (ok, o1, s1)" by (metis prod_cases3)
    with CreateLogfile_cases [OF c] assms(2) have f: "fresh ?o1 st ok o1 s1" by (simp add: fresh_def)
    then have f': "fresh obj st ok o1 s1" by (simp add: fresh_def)
    obtain e where "r = with_header sy timestamp (ok, o1, if ok then s1 else out e s1)"
      using assms(1) sel c by (cases ok) (auto simp: open_logfile_def with_header_def Let_def)
    then show ?thesis using f' fresh_out [OF f] by (cases ok) auto
  next
    case dirs
    then obtain ds s0 where d: "GetLoggingDirectories fl sy st = Some (ds, s0)"
      using assms(1) by (auto simp: open_logfile_def Let_def)
    obtain ok o1 s1 where c: "try_dirs fl sy (default_basename sy ?o1 st) ?tp ds ?o1 s0 = (ok, o1, s1)"
      by (metis prod_cases3)
    have "cached_hostname s0 = cached_hostname st" "stop_writing s0 = stop_writing st"
      using d by (auto simp: GetLoggingDirectories_def split: option.splits if_splits)
    with try_dirs_cases [OF c] assms(2) have f: "fresh ?o1 st ok o1 s1" by (simp add: fresh_def)
    then have f': "fresh obj st ok o1 s1" by (simp add: fresh_def)
    obtain e where "r = with_header sy timestamp (ok, o1, if ok then s1 else out e s1)"
      using assms(1) dirs c d by (cases ok) (auto simp: open_logfile_def with_header_def Let_def)
    then show ?thesis using f' fresh_out [OF f] by (cases ok) auto
  qed
qed

lemma open_logfile_ok:
  assumes "open_logfile fl sy timestamp obj st = Some (ok, obj', st')" "lf_file obj = None"
    "file_length obj = 0" "bytes_since_flush obj = 0"
    "length (file_header sy timestamp (fst (LogDestination_hostname sy st))) < 2 ^ 19"
  shows "counted obj' st' \<and> unat (file_length obj') < 2 ^ 19 \<and> unat (bytes_since_flush obj') < 2 ^ 19 \<and>
    (ok \<longleftrightarrow> lf_file obj' \<noteq> None) \<and> stop_writing st' = stop_writing st"
proof -
  obtain ok1 o1 s1 where r: "fresh obj st ok1 o1 s1" "(ok, obj', st') = with_header sy timestamp (ok1, o1, s1)"
    using open_logfile_cases [OF assms(1,2)] by blast
  from arg_cong [OF r(2), of fst] have "ok1 = ok" by (simp only: fst_with_header fst_conv)
  with r have 1: "fresh obj st ok o1 s1" "(ok, obj', st') = with_header sy timestamp (ok, o1, s1)" by simp_all
  let ?h = "file_header sy timestamp (fst (LogDestination_hostname sy st))"
  have host: "fst (LogDestination_hostname sy s1) = fst (LogDestination_hostname sy st)"
    using 1(1) by (simp add: fresh_def LogDestination_hostname_def Let_def)
  have c: "counted o1 s1" using 1(1) assms(3,4) by (auto simp: counted_def fresh_def)
  show ?thesis
  proof (cases ok)
    case True
    with 1 host have o: "obj' = count_bytes (length ?h) (fwrite sy ?h o1)" "st' = snd (LogDestination_hostname sy s1)"
      by (simp_all add: with_header_def split_def Let_def)
    have st: "files st' = files s1" "stop_writing st' = stop_writing s1"
      by (simp_all add: o LogDestination_hostname_def Let_def)
    have "counted obj' s1" unfolding o
      using c 1(1) True assms(3-5) by (intro counted_append) (auto simp: fresh_def)
    moreover have "contents obj' st' = contents obj' s1" using st(1) by (rule contents_files)
    ultimately have "counted obj' st'" by (simp add: counted_def)
    moreover have "unat (file_length obj') = length ?h" "unat (bytes_since_flush obj') = length ?h"
      "lf_file obj' \<noteq> None"
      using 1(1) True assms(3-5) unat_count [of 0 "length ?h"] unfolding o fresh_def by simp_all
    ultimately show ?thesis using 1(1) True assms(5) st unfolding fresh_def by simp
  next
    case False
    with 1 c assms(3,4) show ?thesis by (simp add: with_header_def fresh_def)
  qed
qed

text \<open>The first part of \<open>Write\<close>: a full file, or one of the parent process, is closed.\<close>

definition roll_over :: "log_flags \<Rightarrow> sys \<Rightarrow> LogFileObject \<Rightarrow> 'z log_state_scheme \<Rightarrow> bool" where
  "roll_over fl sy obj st \<longleftrightarrow> uint (drop_bit 20 (file_length obj)) \<ge> MaxLogSize fl \<or> main_thread_pid st \<noteq> getpid sy"

lemma Write_unfold:
  assumes "\<not> (base_filename_selected obj \<and> base_filename obj = [])"
  obtains o2 s2 where "LogFile_Write fl sy force_flush timestamp message obj st =
      (if lf_file o2 = None then
         (case open_logfile fl sy timestamp o2 s2 of
            None \<Rightarrow> None
          | Some (False, obj3, st3) \<Rightarrow> Some (obj3, st3)
          | Some (True, obj3, st3) \<Rightarrow> Some (write_message fl sy force_flush message obj3 st3))
       else Some (write_message fl sy force_flush message o2 s2))"
    "roll_over fl sy obj st \<Longrightarrow> o2 = obj\<lparr>lf_file := None, file_length := 0, bytes_since_flush := 0,
        rollover_attempt := kRolloverAttemptFrequency - 1\<rparr>"
    "\<not> roll_over fl sy obj st \<Longrightarrow> o2 = obj \<and> s2 = st"
    "stop_writing s2 = stop_writing st" "cached_hostname s2 = cached_hostname st"
proof -
  let ?full = "uint (drop_bit 20 (file_length obj)) \<ge> MaxLogSize fl"
  define p where "p = (if ?full then (False, st) else PidHasChanged sy st)"
  define q where "q = (if ?full \<or> fst p then let (o1, s1) = close_file obj (snd p)
      in (o1\<lparr>file_length := 0, bytes_since_flush := 0, rollover_attempt := kRolloverAttemptFrequency - 1\<rparr>, s1)
    else (obj, snd p))"
  have "stop_writing (flush_file o' s') = stop_writing s'" "cached_hostname (flush_file o' s') = cached_hostname s'"
    for o' and s' :: "'a log_state_scheme" by (simp_all add: flush_file_def split: option.split)
  then have "stop_writing (snd q) = stop_writing st" "cached_hostname (snd q) = cached_hostname st"
    by (simp_all add: q_def p_def PidHasChanged_def close_file_def)
  moreover have "?full \<or> fst p \<longleftrightarrow> roll_over fl sy obj st"
    by (auto simp: p_def PidHasChanged_def roll_over_def)
  moreover have "snd p = st" if "\<not> roll_over fl sy obj st"
    using that by (auto simp: p_def PidHasChanged_def roll_over_def)
  moreover have "LogFile_Write fl sy force_flush timestamp message obj st =
      (if lf_file (fst q) = None then
         (case open_logfile fl sy timestamp (fst q) (snd q) of
            None \<Rightarrow> None
          | Some (False, obj3, st3) \<Rightarrow> Some (obj3, st3)
          | Some (True, obj3, st3) \<Rightarrow> Some (write_message fl sy force_flush message obj3 st3))
       else Some (write_message fl sy force_flush message (fst q) (snd q)))"
    unfolding LogFile_Write_def if_not_P [OF assms] Let_def q_def p_def by (simp add: split_def)
  ultimately show ?thesis
    by (intro that [of "fst q" "snd q"]) (auto simp: q_def close_file_def)
qed

lemma Write_ok:
  assumes "counted obj st" "within fl obj" "MaxLogSize fl \<le> 4094" "length message < 2 ^ 19"
    "length (file_header sy timestamp (fst (LogDestination_hostname sy st))) < 2 ^ 19"
    "LogFile_Write fl sy force_flush timestamp message obj st = Some (obj', st')"
    "\<not> (base_filename_selected obj \<and> base_filename obj = [])"
  shows "counted obj' st' \<and> within fl obj' \<and>
    (force_flush \<and> \<not> stop_writing st \<and> \<not> stop_writing st' \<longrightarrow> buffered obj' = [])"
  using assms(7)
proof (cases rule: Write_unfold [of obj fl sy force_flush timestamp message st])
  case (1 o2 s2)
  have "nat (MaxLogSize fl) > 0" by (simp add: MaxLogSize_def)
  have o2: "counted o2 s2" "unat (file_length o2) < nat (MaxLogSize fl) * 2 ^ 20" "unat (bytes_since_flush o2) < 1000000"
    using 1(2,3) assms(1,2) length_megabytes [of "file_length obj" "MaxLogSize fl"] \<open>nat (MaxLogSize fl) > 0\<close>
    by (cases "roll_over fl sy obj st"; force simp: counted_def contents_def buffered_def within_def roll_over_def)+
  show ?thesis
  proof (cases "lf_file o2")
    case (Some f)
    then show ?thesis
      using 1 assms(3,4,6) o2 write_message_ok [of o2 s2 fl message sy force_flush obj' st'] by simp
  next
    case None
    with 1 assms(6) obtain ok o3 s3 where op: "open_logfile fl sy timestamp o2 s2 = Some (ok, o3, s3)"
      by (auto split: option.splits prod.splits)
    have host: "fst (LogDestination_hostname sy s2) = fst (LogDestination_hostname sy st)"
      using 1(5) by (simp add: LogDestination_hostname_def Let_def)
    from None o2(1) have "file_length o2 = 0" "bytes_since_flush o2 = 0" by (auto simp: counted_def)
    from open_logfile_ok [OF op None this] assms(5) host
    have o3: "counted o3 s3" "unat (file_length o3) < 2 ^ 19" "unat (bytes_since_flush o3) < 2 ^ 19"
      "ok \<longleftrightarrow> lf_file o3 \<noteq> None" "stop_writing s3 = stop_writing s2" by auto
    show ?thesis
    proof (cases ok)
      case True
      with 1 None op assms(6) have "write_message fl sy force_flush message o3 s3 = (obj', st')" by simp
      with o3 True 1(4) assms(3,4) \<open>nat (MaxLogSize fl) > 0\<close> show ?thesis
        using write_message_ok [of o3 s3 fl message sy force_flush obj' st'] by simp
    next
      case False
      with 1 None op assms(6) have "obj' = o3" "st' = s3" by simp_all
      moreover from o3(4) False have "lf_file o3 = None" by blast
      ultimately show ?thesis using o3 by (simp add: within_def buffered_def)
    qed
  qed
qed

section \<open>Appending\<close>

lemma last_int_to_string: "is_digit (last (int_to_string n))"
proof -
  have "is_digit (last (nat_to_string m))" for m
    using nat_to_string_digits [of "last (nat_to_string m)" m] by auto
  then show ?thesis by (simp add: int_to_string_def)
qed

lemma last_time_pid: "is_digit (last (time_pid sy ts st))" "time_pid sy ts st \<noteq> []"
  using last_int_to_string by (simp_all add: time_pid_def Let_def)

lemma name_no_nul: "CHR 0x00 \<notin> set s \<Longrightarrow> c_str s = s"
  by (auto simp: c_str_def takeWhile_eq_all_conv)

text \<open>The links never take the place of the log file: a log file ends with a digit, a link with a severity.\<close>

lemma make_links_keeps:
  assumes "is_digit (last filename)" "CHR 0x00 \<notin> set (symlink_basename obj)" "CHR 0x00 \<notin> set (log_link fl)"
    "CHR 0x00 \<notin> set filename"
  shows "files (make_links fl sy filename obj st) filename = files st filename"
proof -
  have sev: "\<not> is_digit (last (LogSeverityNames s))" "LogSeverityNames s \<noteq> []" "CHR 0x00 \<notin> set (LogSeverityNames s)" for s
    by (cases s; simp add: is_digit_def)+
  have link: "c_str (d @ symlink_basename obj @ ''.'' @ LogSeverityNames (lf_severity obj)) \<noteq> filename"
    if "CHR 0x00 \<notin> set d" for d
  proof -
    have "c_str (d @ symlink_basename obj @ ''.'' @ LogSeverityNames (lf_severity obj))
        = d @ symlink_basename obj @ ''.'' @ LogSeverityNames (lf_severity obj)"
      using that assms(2) sev(3) by (intro name_no_nul) simp
    then show ?thesis using assms(1) sev(1,2) [of "lf_severity obj"] by (auto simp del: append.simps)
  qed
  have "CHR 0x00 \<notin> set (upto_ptr filename t)" for t
    using assms(4) by (auto simp: upto_ptr_def dest: in_set_takeD)
  then have l1: "c_str ((case strrchr filename (CHR ''/'') of None \<Rightarrow> [] | Some s \<Rightarrow> upto_ptr filename (drop 1 s)) @
      symlink_basename obj @ ''.'' @ LogSeverityNames (lf_severity obj)) \<noteq> filename"
    by (intro link) (simp split: option.split)
  have l2: "c_str (log_link fl @ ''/'' @ symlink_basename obj @ ''.'' @ LogSeverityNames (lf_severity obj)) \<noteq> filename"
    using link [of "log_link fl @ ''/''"] assms(3) by simp
  have un: "files (unlink sy p s) filename = files s filename" if "p \<noteq> filename" for p and s :: "'a log_state_scheme"
    using that by (auto simp: unlink_def)
  show ?thesis unfolding make_links_def Let_def by (simp add: un l1 l2 del: append.simps)
qed

lemma int_to_string_no_nul: "CHR 0x00 \<notin> set (int_to_string n)"
  using int_to_string_all [of "\<lambda>c. c \<noteq> CHR 0x00" n] digit_char_neq [of _ "CHR 0x00"] by fastforce

lemma time_pid_no_nul: "CHR 0x00 \<notin> set (time_pid sy ts st)"
  by (auto simp: time_pid_def setw_def Let_def int_to_string_no_nul)

lemma write_message_appends:
  assumes "lf_file obj = Some (n, b)" "files st n = Some c" "\<not> disk_full sy" "\<not> stop_writing st"
    "write_message fl sy force_flush message obj st = (obj', st')"
  shows "contents obj' st' = c @ b @ message \<and> (force_flush \<longrightarrow> files st' n = Some (c @ b @ message)) \<and>
    (\<exists>b'. lf_file obj' = Some (n, b')) \<and> (\<forall>m. m \<noteq> n \<longrightarrow> files st' m = files st m)"
  using assms
  by (auto simp: write_message_def fwrite_def FlushUnlocked_def flush_file_def count_bytes_def contents_def Let_def
      split: if_splits)

text \<open>The name of the file that \<open>Write\<close> creates, when the base name was set, and whether it can be.\<close>

definition new_name :: "sys \<Rightarrow> int \<Rightarrow> LogFileObject \<Rightarrow> 'z log_state_scheme \<Rightarrow> string" where
  "new_name sy timestamp obj st = base_filename obj @ filename_extension obj @ time_pid sy timestamp st"

definition can_create :: "sys \<Rightarrow> int \<Rightarrow> LogFileObject \<Rightarrow> 'z log_state_scheme \<Rightarrow> bool" where
  "can_create sy timestamp obj st \<longleftrightarrow>
    permitted sy (new_name sy timestamp obj st) \<and> files st (new_name sy timestamp obj st) = None \<and>
    links st (new_name sy timestamp obj st) = None \<and> fdopen_ok sy"

lemma open_selected:
  assumes "base_filename_selected obj" "lf_file obj = None" "rollover_attempt obj = 31" "\<not> disk_full sy"
    "CHR 0x00 \<notin> set (base_filename obj @ filename_extension obj @ symlink_basename obj @ log_link fl)"
  shows "can_create sy timestamp obj st \<Longrightarrow> \<exists>o1 s1. open_logfile fl sy timestamp obj st = Some (True, o1, s1) \<and>
      lf_file o1 = Some (new_name sy timestamp obj st, file_header sy timestamp (fst (LogDestination_hostname sy st))) \<and>
      files s1 (new_name sy timestamp obj st) = Some [] \<and> stop_writing s1 = stop_writing st"
    and "\<not> can_create sy timestamp obj st \<Longrightarrow> \<exists>o1 s1. open_logfile fl sy timestamp obj st = Some (False, o1, s1) \<and>
      lf_file o1 = None \<and> rollover_attempt o1 = 0"
proof -
  let ?n = "new_name sy timestamp obj st" and ?o = "obj\<lparr>rollover_attempt := 0\<rparr>"
  let ?tp = "time_pid sy timestamp st"
  have n: "c_str (base_filename obj @ filename_extension obj @ ?tp) = ?n" "CHR 0x00 \<notin> set ?n" "is_digit (last ?n)"
    using assms(5) time_pid_no_nul [of sy timestamp st] last_time_pid [of sy timestamp st] by (simp_all add: new_name_def name_no_nul)
  have 32: "(31 :: 32 word) + 1 = kRolloverAttemptFrequency" by (simp add: kRolloverAttemptFrequency_def)
  show "\<exists>o1 s1. open_logfile fl sy timestamp obj st = Some (True, o1, s1) \<and>
      lf_file o1 = Some (?n, file_header sy timestamp (fst (LogDestination_hostname sy st))) \<and>
      files s1 ?n = Some [] \<and> stop_writing s1 = stop_writing st" if "can_create sy timestamp obj st"
  proof -
    let ?s = "make_links fl sy ?n ?o (st\<lparr>files := (files st)(?n \<mapsto> [])\<rparr>)"
    have "CreateLogfile fl sy ?tp ?o st = (True, ?o\<lparr>lf_file := Some (?n, [])\<rparr>, ?s)"
      using that n(1) by (simp add: CreateLogfile_def can_create_def Let_def)
    moreover have "files ?s ?n = Some []" using n assms(5) by (simp add: make_links_keeps)
    ultimately show ?thesis
      using assms 32 by (simp add: open_logfile_def Let_def fwrite_def count_bytes_def LogDestination_hostname_def split_def)
  qed
  show "\<exists>o1 s1. open_logfile fl sy timestamp obj st = Some (False, o1, s1) \<and> lf_file o1 = None \<and> rollover_attempt o1 = 0"
    if "\<not> can_create sy timestamp obj st"
  proof -
    let ?c = "CreateLogfile fl sy ?tp ?o st"
    have "\<not> fst ?c \<and> lf_file (fst (snd ?c)) = None \<and> rollover_attempt (fst (snd ?c)) = 0"
      using that n(1) assms(2) by (auto simp: CreateLogfile_def can_create_def Let_def)
    then obtain o1 s1 where "?c = (False, o1, s1)" "lf_file o1 = None" "rollover_attempt o1 = 0"
      by (cases ?c) auto
    then show ?thesis using assms 32 by (simp add: open_logfile_def Let_def)
  qed
qed

section \<open>Properties\<close>

definition some_sys :: sys where
  "some_sys = \<lparr>CycleClock_Now = 7, localtime = (\<lambda>_. \<lparr>tm_year = 116, tm_mon = 0, tm_mday = 2, tm_hour = 3, tm_min = 4,
      tm_sec = 5\<rparr>), usecs = 6, getpid = 42, gettid = 42, nodename = Some ''host'', getenv = (\<lambda>_. None), is_dir = (\<lambda>_. True),
     path_exists = (\<lambda>_. True), permitted = (\<lambda>_. True), fdopen_ok = True, disk_full = False, errno_text = [],
     strerror_r = (\<lambda>_. None), stacktrace = [], popen_ok = (\<lambda>_. True), pclose_ok = True\<rparr>"

definition empty_log :: log_state where
  "empty_log = \<lparr>files = (\<lambda>_. None), links = (\<lambda>_. None), stop_writing = False, main_thread_pid = 42,
     program_invocation_short_name = Some ''raft'', my_user_name = ''me'', logging_directories_list = None,
     cached_hostname = [], outs = []\<rparr>"

definition open_log :: LogFileObject where
  "open_log = (LogFileObject_new GLOG_INFO (Some ''/l/raft.'') empty_log)
     \<lparr>lf_file := Some (''/l/raft.1'', ''hello''), file_length := 5, bytes_since_flush := 5\<rparr>"



lemma Write_no_roll:
  assumes "\<not> (base_filename_selected obj \<and> base_filename obj = [])" "\<not> roll_over fl sy obj st"
  shows "LogFile_Write fl sy force_flush timestamp message obj st =
      (if lf_file obj = None then
         (case open_logfile fl sy timestamp obj st of
            None \<Rightarrow> None
          | Some (False, obj3, st3) \<Rightarrow> Some (obj3, st3)
          | Some (True, obj3, st3) \<Rightarrow> Some (write_message fl sy force_flush message obj3 st3))
       else Some (write_message fl sy force_flush message obj st))"
  by (rule Write_unfold [OF assms(1), of fl sy force_flush timestamp message st]) (use assms(2) in simp)

lemma Write_name_taken:
  assumes "\<not> (base_filename_selected obj \<and> base_filename obj = [])" "base_filename_selected obj" "\<not> disk_full sy"
    "MaxLogSize fl \<le> uint (drop_bit 20 (file_length obj))" "lf_file obj = Some (n, b)" "files st n = Some c"
    "n = new_name sy timestamp obj st"
    "CHR 0x00 \<notin> set (base_filename obj @ filename_extension obj @ symlink_basename obj @ log_link fl)"
  shows "\<exists>obj' st'. LogFile_Write fl sy force_flush timestamp message obj st = Some (obj', st') \<and>
    lf_file obj' = None \<and> rollover_attempt obj' = 0"
proof -
  let ?o = "obj\<lparr>lf_file := None, file_length := 0, bytes_since_flush := 0, rollover_attempt := kRolloverAttemptFrequency - 1\<rparr>"
  let ?s = "st\<lparr>files := (files st)(n \<mapsto> c @ b)\<rparr>"
  have "new_name sy timestamp ?o ?s = n" using assms(7) by (simp add: new_name_def time_pid_def)
  then have "\<not> can_create sy timestamp ?o ?s" by (simp add: can_create_def)
  from open_selected(2) [OF _ _ _ assms(3) _ this, of fl] assms(2,8)
  obtain o1 s1 where "open_logfile fl sy timestamp ?o ?s = Some (False, o1, s1)" "lf_file o1 = None" "rollover_attempt o1 = 0"
    by (auto simp: kRolloverAttemptFrequency_def)
  then show ?thesis
    using assms(4-6) unfolding LogFile_Write_def if_not_P [OF assms(1)]
    by (simp add: close_file_def flush_file_def Let_def)
qed

text \<open>
  C19.  What becomes of a message.  With an open file that is not full it is appended, and nothing else
  changes; a flushed one has reached the file.  Without a file only every 32nd message tries to
  create one, the others are lost.  When it is tried and the name is free and permitted the file
  starts with a header and the message; otherwise the message is lost too and the count starts
  anew.  The name only has the second in it, so a file that becomes full in the second it was
  created in is not replaced: its own name is taken.
\<close>

theorem log_write_exact:
  assumes "\<not> (base_filename_selected obj \<and> base_filename obj = [])" "\<not> disk_full sy" "\<not> stop_writing st"
  shows "(lf_file obj = Some (n, b) \<and> files st n = Some c \<and> \<not> roll_over fl sy obj st \<longrightarrow>
      (\<exists>obj' st'. LogFile_Write fl sy force_flush timestamp message obj st = Some (obj', st') \<and>
        contents obj' st' = c @ b @ message \<and> (force_flush \<longrightarrow> files st' n = Some (c @ b @ message)) \<and>
        (\<forall>m. m \<noteq> n \<longrightarrow> files st' m = files st m))) \<and>
    (lf_file obj = None \<and> rollover_attempt obj + 1 \<noteq> 32 \<and> \<not> roll_over fl sy obj st \<longrightarrow>
      LogFile_Write fl sy force_flush timestamp message obj st =
        Some (obj\<lparr>rollover_attempt := rollover_attempt obj + 1\<rparr>, st)) \<and>
    (base_filename_selected obj \<and>
       CHR 0x00 \<notin> set (base_filename obj @ filename_extension obj @ symlink_basename obj @ log_link fl) \<longrightarrow>
      (lf_file obj = None \<and> rollover_attempt obj = 31 \<and> \<not> roll_over fl sy obj st \<longrightarrow>
        (\<exists>obj' st'. LogFile_Write fl sy force_flush timestamp message obj st = Some (obj', st') \<and>
          (if can_create sy timestamp obj st then contents obj' st' = file_header sy timestamp (fst (LogDestination_hostname sy st)) @ message
           else lf_file obj' = None \<and> rollover_attempt obj' = 0))) \<and>
      (lf_file obj = Some (n, b) \<and> files st n = Some c \<and> MaxLogSize fl \<le> uint (drop_bit 20 (file_length obj)) \<and>
         n = new_name sy timestamp obj st \<longrightarrow>
        (\<exists>obj' st'. LogFile_Write fl sy force_flush timestamp message obj st = Some (obj', st') \<and>
          lf_file obj' = None \<and> rollover_attempt obj' = 0)))"
proof -
  note w = Write_no_roll [OF assms(1)]
  obtain o1 s1 where m: "write_message fl sy force_flush message obj st = (o1, s1)" by fastforce
  have 1: "\<exists>obj' st'. LogFile_Write fl sy force_flush timestamp message obj st = Some (obj', st') \<and>
        contents obj' st' = c @ b @ message \<and> (force_flush \<longrightarrow> files st' n = Some (c @ b @ message)) \<and>
        (\<forall>m. m \<noteq> n \<longrightarrow> files st' m = files st m)"
    if "lf_file obj = Some (n, b)" "files st n = Some c" "\<not> roll_over fl sy obj st"
    using write_message_appends [OF that(1,2) assms(2,3) m] w [OF that(3)] m that(1) by auto
  have 2: "LogFile_Write fl sy force_flush timestamp message obj st =
        Some (obj\<lparr>rollover_attempt := rollover_attempt obj + 1\<rparr>, st)"
    if "lf_file obj = None" "rollover_attempt obj + 1 \<noteq> 32" "\<not> roll_over fl sy obj st"
    using that(1,2) unfolding w [OF that(3)] by (simp add: open_logfile_def kRolloverAttemptFrequency_def Let_def)
  have 3: "\<exists>obj' st'. LogFile_Write fl sy force_flush timestamp message obj st = Some (obj', st') \<and>
        (if can_create sy timestamp obj st then contents obj' st' = file_header sy timestamp (fst (LogDestination_hostname sy st)) @ message
         else lf_file obj' = None \<and> rollover_attempt obj' = 0)"
    if "lf_file obj = None" "rollover_attempt obj = 31" "base_filename_selected obj"
      "CHR 0x00 \<notin> set (base_filename obj @ filename_extension obj @ symlink_basename obj @ log_link fl)"
      "\<not> roll_over fl sy obj st"
  proof (cases "can_create sy timestamp obj st")
    case True
    from open_selected(1) [OF that(3,1,2) assms(2) that(4) True]
    obtain o2 s2 where o2: "open_logfile fl sy timestamp obj st = Some (True, o2, s2)"
      "lf_file o2 = Some (new_name sy timestamp obj st, file_header sy timestamp (fst (LogDestination_hostname sy st)))"
      "files s2 (new_name sy timestamp obj st) = Some []" "stop_writing s2 = stop_writing st" by blast
    obtain o3 s3 where m3: "write_message fl sy force_flush message o2 s2 = (o3, s3)" by fastforce
    with write_message_appends [OF o2(2,3) assms(2) _ m3] o2 assms(3) w [OF that(5)] that(1) True show ?thesis by auto
  next
    case False
    from open_selected(2) [OF that(3,1,2) assms(2) that(4) False] w [OF that(5)] that(1) False show ?thesis by auto
  qed
  from 1 2 3 Write_name_taken [OF assms(1) _ assms(2)] show ?thesis by blast
qed

theorem log_write_exact_witness:
  "\<exists>obj' st'. LogFile_Write (default_log_flags (\<lambda>_. None)) some_sys False 0 ''x''
      (LogFileObject_new GLOG_INFO (Some ''/l/raft.'') empty_log) empty_log = Some (obj', st') \<and>
    contents obj' st' = file_header some_sys 0 ''host'' @ ''x''"
proof -
  let ?o = "LogFileObject_new GLOG_INFO (Some ''/l/raft.'') empty_log" and ?fl = "default_log_flags (\<lambda>_. None)"
  have "\<not> (base_filename_selected ?o \<and> base_filename ?o = [])" "\<not> disk_full some_sys" "\<not> stop_writing empty_log"
    "\<not> roll_over ?fl some_sys ?o empty_log" "lf_file ?o = None" "rollover_attempt ?o = 31" "base_filename_selected ?o"
    "CHR 0x00 \<notin> set (base_filename ?o @ filename_extension ?o @ symlink_basename ?o @ log_link ?fl)"
    "can_create some_sys 0 ?o empty_log" "fst (LogDestination_hostname some_sys empty_log) = ''host''"
    by code_simp+
  then show ?thesis
    using log_write_exact [of ?o some_sys empty_log "[]" "[]" "[]" ?fl False 0 "''x''"] by auto
qed

end
