(* ===== verification/Glog_Logging.thy ===== *)
theory Glog_Logging
  imports Glog_Logfile "HOL-Library.Monad_Syntax" "HOL-Library.Multiset"
begin

text \<open>
  Log messages of glog (\<open>logging.cc\<close>): the class \<open>LogDestination\<close> with loggers, sinks, standard error
  and e-mail, and the class \<open>LogMessage\<close> from its construction to the flush in its destructor.

  \<open>log_globals\<close> extends the state of the log files by the other global variables.  Loggers and sinks of
  the user are numbers; calling them is an event.  \<open>None\<close> is an undefined operation of the code.  The
  mutexes serialise whole operations, so an operation is one step.
\<close>

section \<open>State\<close>

record LogDestination =
  fileobject :: LogFileObject
  logger :: "nat option"

datatype sink_vector = No_Sinks | Sinks "nat list" | Deleted_Sinks

record log_globals = log_state +
  flags :: log_flags
  log_destinations :: "LogSeverity \<Rightarrow> LogDestination option"
  email_logging_severity :: int
  addresses :: string
  sinks :: sink_vector
  terminal_supports_color :: bool
  exit_on_dfatal :: bool
  num_messages :: "LogSeverity \<Rightarrow> int"
  already_warned_before_initgoogle :: bool
  fatal_msg_exclusive :: bool
  fatal_shared_text :: string
  crash_reason :: "(string \<times> int \<times> string) option"
  fatal_message :: string
  fatal_time :: int
  openlog_already_called :: bool
  errno :: int

definition TerminalSupportsColor :: "(string \<Rightarrow> string option) \<Rightarrow> bool" where
  "TerminalSupportsColor genv =
    (case genv ''TERM'' of
       None \<Rightarrow> False
     | Some t \<Rightarrow> t \<in> set [''xterm'', ''xterm-color'', ''xterm-256color'', ''screen-256color'', ''screen'', ''linux'', ''cygwin''])"

text \<open>The global variables before \<open>main\<close>, in an empty file system.\<close>

definition log_globals_new :: "sys \<Rightarrow> log_globals" where
  "log_globals_new sy =
    \<lparr>files = (\<lambda>_. None), links = (\<lambda>_. None), stop_writing = False, main_thread_pid = getpid sy,
     program_invocation_short_name = None,
     my_user_name = (case getenv sy ''USER'' of Some user \<Rightarrow> user | None \<Rightarrow> ''invalid-user''),
     logging_directories_list = None, cached_hostname = [], outs = [],
     flags = default_log_flags (getenv sy), log_destinations = (\<lambda>_. None), email_logging_severity = 99999,
     addresses = [], sinks = No_Sinks, terminal_supports_color = TerminalSupportsColor (getenv sy),
     exit_on_dfatal = True, num_messages = (\<lambda>_. 0), already_warned_before_initgoogle = False,
     fatal_msg_exclusive = True, fatal_shared_text = [], crash_reason = None, fatal_message = [], fatal_time = 0,
     openlog_already_called = False, errno = 0\<rparr>"

section \<open>Destinations\<close>

definition log_destination :: "LogSeverity \<Rightarrow> log_globals \<Rightarrow> LogDestination \<times> log_globals" where
  "log_destination severity g =
    (case log_destinations g severity of
       Some d \<Rightarrow> (d, g)
     | None \<Rightarrow> let d = \<lparr>fileobject = LogFileObject_new severity None g, logger = None\<rparr>
               in (d, g\<lparr>log_destinations := (log_destinations g)(severity \<mapsto> d)\<rparr>))"

definition set_fileobject :: "LogSeverity \<Rightarrow> LogFileObject \<Rightarrow> log_globals \<Rightarrow> log_globals" where
  "set_fileobject severity obj g =
    g\<lparr>log_destinations := (log_destinations g)(severity := map_option (\<lambda>d. d\<lparr>fileobject := obj\<rparr>) (log_destinations g severity))\<rparr>"

text \<open>The severities of a loop \<open>for (i = min_severity; i < NUM_SEVERITIES; i++)\<close>.\<close>

definition from_severity :: "LogSeverity \<Rightarrow> LogSeverity list" where
  "from_severity s = filter (\<lambda>i. severity_value s \<le> severity_value i) severities"

text \<open>The severities of a loop \<open>for (i = severity; i >= 0; --i)\<close>.\<close>

definition down_from :: "LogSeverity \<Rightarrow> LogSeverity list" where
  "down_from s = rev (filter (\<lambda>i. severity_value i \<le> severity_value s) severities)"

definition flush_unsafe_one :: "sys \<Rightarrow> LogSeverity \<Rightarrow> log_globals \<Rightarrow> log_globals" where
  "flush_unsafe_one sy i g =
    (case log_destinations g i of
       None \<Rightarrow> g
     | Some d \<Rightarrow> let (obj, g1) = FlushUnlocked (flags g) sy (fileobject d) g in set_fileobject i obj g1)"

definition FlushLogFilesUnsafe :: "sys \<Rightarrow> LogSeverity \<Rightarrow> log_globals \<Rightarrow> log_globals" where
  "FlushLogFilesUnsafe sy min_severity g = fold (flush_unsafe_one sy) (from_severity min_severity) g"

definition flush_one :: "sys \<Rightarrow> LogSeverity \<Rightarrow> log_globals \<Rightarrow> log_globals" where
  "flush_one sy i g =
    (let (d, g1) = log_destination i g
     in case logger d of
          Some k \<Rightarrow> out (Logger_Flush k) g1
        | None \<Rightarrow> let (obj, g2) = FlushUnlocked (flags g1) sy (fileobject d) g1 in set_fileobject i obj g2)"

definition FlushLogFiles :: "sys \<Rightarrow> LogSeverity \<Rightarrow> log_globals \<Rightarrow> log_globals" where
  "FlushLogFiles sy min_severity g = fold (flush_one sy) (from_severity min_severity) g"

definition SetLogDestination :: "LogSeverity \<Rightarrow> string \<Rightarrow> log_globals \<Rightarrow> log_globals" where
  "SetLogDestination severity name g =
    (let (d, g1) = log_destination severity g; (obj, g2) = SetBasename name (fileobject d) g1
     in set_fileobject severity obj g2)"

definition SetLogSymlink :: "LogSeverity \<Rightarrow> string \<Rightarrow> log_globals \<Rightarrow> log_globals" where
  "SetLogSymlink severity name g =
    (let (d, g1) = log_destination severity g in set_fileobject severity (SetSymlinkBasename name (fileobject d)) g1)"

definition set_extension_one :: "string \<Rightarrow> LogSeverity \<Rightarrow> log_globals \<Rightarrow> log_globals" where
  "set_extension_one ext severity g =
    (let (d, g1) = log_destination severity g; (obj, g2) = SetExtension ext (fileobject d) g1
     in set_fileobject severity obj g2)"

definition SetLogFilenameExtension :: "string \<Rightarrow> log_globals \<Rightarrow> log_globals" where
  "SetLogFilenameExtension ext g = fold (set_extension_one ext) severities g"

definition SetStderrLogging :: "LogSeverity \<Rightarrow> log_globals \<Rightarrow> log_globals" where
  "SetStderrLogging min_severity g = g\<lparr>flags := (flags g)\<lparr>stderrthreshold := severity_value min_severity\<rparr>\<rparr>"

definition LogToStderr :: "log_globals \<Rightarrow> log_globals" where
  "LogToStderr g = fold (\<lambda>i. SetLogDestination i []) severities (SetStderrLogging GLOG_INFO g)"

definition SetEmailLogging :: "LogSeverity \<Rightarrow> string \<Rightarrow> log_globals \<Rightarrow> log_globals" where
  "SetEmailLogging min_severity addrs g = g\<lparr>email_logging_severity := severity_value min_severity, addresses := addrs\<rparr>"

definition AddLogSink :: "nat \<Rightarrow> log_globals \<Rightarrow> log_globals option" where
  "AddLogSink destination g =
    (case sinks g of
       No_Sinks \<Rightarrow> Some (g\<lparr>sinks := Sinks [destination]\<rparr>)
     | Sinks ss \<Rightarrow> Some (g\<lparr>sinks := Sinks (ss @ [destination])\<rparr>)
     | Deleted_Sinks \<Rightarrow> None)"

text \<open>The loop of \<open>RemoveLogSink\<close> from index \<open>i\<close> down, given as \<open>i + 1\<close>.\<close>

fun remove_sink_loop :: "nat \<Rightarrow> nat \<Rightarrow> nat list \<Rightarrow> nat list" where
  "remove_sink_loop destination 0 ss = ss"
| "remove_sink_loop destination (Suc i) ss =
    (if ss ! i = destination then butlast (ss[i := ss ! (length ss - 1)])
     else remove_sink_loop destination i ss)"

definition RemoveLogSink :: "nat \<Rightarrow> log_globals \<Rightarrow> log_globals option" where
  "RemoveLogSink destination g =
    (case sinks g of
       No_Sinks \<Rightarrow> Some g
     | Sinks ss \<Rightarrow> Some (g\<lparr>sinks := Sinks (remove_sink_loop destination (length ss) ss)\<rparr>)
     | Deleted_Sinks \<Rightarrow> None)"

definition delete_destination :: "LogSeverity \<Rightarrow> log_globals \<Rightarrow> log_globals" where
  "delete_destination i g =
    (let g1 = (case log_destinations g i of None \<Rightarrow> g | Some d \<Rightarrow> LogFileObject_delete (fileobject d) g)
     in g1\<lparr>log_destinations := (log_destinations g1)(i := None)\<rparr>)"

text \<open>\<open>sinks_\<close> is deleted but keeps its value.  Deleting it twice is undefined.\<close>

definition DeleteLogDestinations :: "log_globals \<Rightarrow> log_globals option" where
  "DeleteLogDestinations g =
    (let g1 = fold delete_destination severities g
     in case sinks g1 of
          No_Sinks \<Rightarrow> Some g1
        | Sinks ss \<Rightarrow> Some (g1\<lparr>sinks := Deleted_Sinks\<rparr>)
        | Deleted_Sinks \<Rightarrow> None)"

section \<open>Where messages go\<close>

datatype GLogColor = COLOR_DEFAULT | COLOR_RED | COLOR_GREEN | COLOR_YELLOW

fun SeverityToColor :: "LogSeverity \<Rightarrow> GLogColor" where
  "SeverityToColor GLOG_INFO = COLOR_DEFAULT"
| "SeverityToColor GLOG_WARNING = COLOR_YELLOW"
| "SeverityToColor GLOG_ERROR = COLOR_RED"
| "SeverityToColor GLOG_FATAL = COLOR_RED"

fun GetAnsiColorCode :: "GLogColor \<Rightarrow> string" where
  "GetAnsiColorCode COLOR_RED = ''1''"
| "GetAnsiColorCode COLOR_GREEN = ''2''"
| "GetAnsiColorCode COLOR_YELLOW = ''3''"
| "GetAnsiColorCode COLOR_DEFAULT = []"

definition ColoredWriteToStderr :: "LogSeverity \<Rightarrow> string \<Rightarrow> log_globals \<Rightarrow> log_globals" where
  "ColoredWriteToStderr severity message g =
    (let color = (if terminal_supports_color g \<and> colorlogtostderr (flags g) then SeverityToColor severity else COLOR_DEFAULT)
     in if color = COLOR_DEFAULT then out (Stderr message) g
        else out (Stderr ([CHR 0x1B] @ ''[0;3'' @ GetAnsiColorCode color @ ''m'' @ message @ [CHR 0x1B] @ ''[m'')) g)"

definition MaybeLogToStderr :: "LogSeverity \<Rightarrow> string \<Rightarrow> log_globals \<Rightarrow> log_globals" where
  "MaybeLogToStderr severity message g =
    (if severity_value severity \<ge> stderrthreshold (flags g) \<or> alsologtostderr (flags g)
     then ColoredWriteToStderr severity message g else g)"

text \<open>\<open>StrError\<close>, with \<open>strerror_r\<close> as an argument: its text, or \<open>None\<close> when it fails.\<close>

definition StrError :: "(int \<Rightarrow> string option) \<Rightarrow> int \<Rightarrow> string" where
  "StrError strerror err =
    (let t = (case strerror err of None \<Rightarrow> [] | Some s \<Rightarrow> take 99 (c_str s))
     in if t = [] then take 99 (''Error number '' @ int_to_string err) else t)"

text \<open>\<open>SendEmailInternal\<close> for \<open>use_logging = false\<close>; \<open>errno_text\<close> is the text of the error of \<open>pclose\<close>.\<close>

definition SendEmailInternal :: "sys \<Rightarrow> string \<Rightarrow> string \<Rightarrow> string \<Rightarrow> log_globals \<Rightarrow> bool \<times> log_globals" where
  "SendEmailInternal sy dest subject body g =
    (if dest \<noteq> [] then
       let g1 = out (Stderr (''Trying to send TITLE: '' @ subject @ '' BODY: '' @ body @ '' to '' @ dest @ [newline])) g;
           cmd = logmailer (flags g) @ '' -s'' @ [CHR 0x22] @ subject @ [CHR 0x22] @ '' '' @ dest
       in if popen_ok sy cmd then
            let g2 = out (Mail dest cmd body) g1
            in if pclose_ok sy then (True, g2)
               else (False, out (Stderr (''Problems sending mail to '' @ dest @ '': '' @ errno_text sy @ [newline])) g2)
          else (False, out (Stderr (''Unable to send mail to '' @ dest @ [newline])) g1)
     else (False, g))"

definition MaybeLogToEmail :: "sys \<Rightarrow> LogSeverity \<Rightarrow> string \<Rightarrow> log_globals \<Rightarrow> log_globals" where
  "MaybeLogToEmail sy severity message g =
    (if severity_value severity \<ge> email_logging_severity g \<or> severity_value severity \<ge> logemaillevel (flags g) then
       let to0 = alsologtoemail (flags g);
           to1 = (if addresses g \<noteq> [] then (if to0 \<noteq> [] then to0 @ '','' else to0) @ addresses g else to0);
           subject = ''[LOG] '' @ LogSeverityNames severity @ '': '' @ ProgramInvocationShortName g;
           (host, g1) = LogDestination_hostname sy g;
           body = host @ [newline, newline] @ message
       in snd (SendEmailInternal sy (c_str to1) (c_str subject) (c_str body) g1)
     else g)"

definition logger_write ::
  "sys \<Rightarrow> LogSeverity \<Rightarrow> bool \<Rightarrow> int \<Rightarrow> string \<Rightarrow> LogDestination \<Rightarrow> log_globals \<Rightarrow> log_globals option" where
  "logger_write sy severity force_flush timestamp message d g =
    (case logger d of
       Some k \<Rightarrow> Some (out (Logger_Write k force_flush timestamp message) g)
     | None \<Rightarrow> map_option (\<lambda>(obj, g1). set_fileobject severity obj g1)
                 (LogFile_Write (flags g) sy force_flush timestamp message (fileobject d) g))"

definition MaybeLogToLogfile :: "sys \<Rightarrow> LogSeverity \<Rightarrow> int \<Rightarrow> string \<Rightarrow> log_globals \<Rightarrow> log_globals option" where
  "MaybeLogToLogfile sy severity timestamp message g =
    (let should_flush = (severity_value severity > logbuflevel (flags g)); (d, g1) = log_destination severity g
     in logger_write sy severity should_flush timestamp message d g1)"

fun logfiles_loop :: "sys \<Rightarrow> int \<Rightarrow> string \<Rightarrow> LogSeverity list \<Rightarrow> log_globals \<Rightarrow> log_globals option" where
  "logfiles_loop sy timestamp message [] g = Some g"
| "logfiles_loop sy timestamp message (i # is') g =
    Option.bind (MaybeLogToLogfile sy i timestamp message g) (logfiles_loop sy timestamp message is')"

definition LogToAllLogfiles :: "sys \<Rightarrow> LogSeverity \<Rightarrow> int \<Rightarrow> string \<Rightarrow> log_globals \<Rightarrow> log_globals option" where
  "LogToAllLogfiles sy severity timestamp message g =
    (if logtostderr (flags g) then Some (ColoredWriteToStderr severity message g)
     else logfiles_loop sy timestamp message (down_from severity) g)"


section \<open>LogMessage\<close>

datatype send_method =
  SendToLog | SendToSink | SendToSinkAndLog | SaveOrSendToLog | WriteToStringAndLog | SendToSyslogAndLog

text \<open>The member of the union that a constructor sets.\<close>

datatype send_target = No_Target | Sink_Target nat | Vector_Target nat | String_Target nat

text \<open>Where the data is: on the heap, or in one of the two static buffers for fatal messages.\<close>

datatype data_place = Heap | Fatal_Exclusive | Fatal_Shared

record LogMessageData =
  place :: data_place
  preserved_errno :: int
  message_text :: string
  msg_severity :: LogSeverity
  msg_line :: int
  send_method :: send_method
  target :: send_target
  timestamp :: int
  msg_tm :: tm
  num_prefix_chars :: nat
  basename :: string
  fullname :: string
  has_been_flushed :: bool
  first_fatal :: bool

definition kMaxLogMessageLen :: nat where "kMaxLogMessageLen = 30000"

definition kNoLogPrefix :: int where "kNoLogPrefix = - 1"

text \<open>\<open>LogStreamBuf\<close> leaves two bytes at the end of the buffer and ignores what does not fit.\<close>

definition stream_put :: "string \<Rightarrow> LogMessageData \<Rightarrow> LogMessageData" where
  "stream_put s d = d\<lparr>message_text := take (kMaxLogMessageLen - 2) (message_text d @ s)\<rparr>"

definition log_prefix_text :: "sys \<Rightarrow> LogSeverity \<Rightarrow> tm \<Rightarrow> int \<Rightarrow> string \<Rightarrow> int \<Rightarrow> string" where
  "log_prefix_text sy severity t us base line =
    [hd (LogSeverityNames severity)] @ setw 2 (CHR ''0'') (1 + tm_mon t) @ setw 2 (CHR ''0'') (tm_mday t) @ '' ''
    @ setw 2 (CHR ''0'') (tm_hour t) @ '':'' @ setw 2 (CHR ''0'') (tm_min t) @ '':'' @ setw 2 (CHR ''0'') (tm_sec t)
    @ ''.'' @ setw 6 (CHR ''0'') us @ '' '' @ setw 5 (CHR '' '') (gettid sy mod 2 ^ 32) @ '' ''
    @ base @ '':'' @ int_to_string line @ ''] ''"

text \<open>\<open>now\<close> is the second of \<open>WallTime_Now\<close>, and \<open>usecs\<close> the microseconds computed from it.\<close>

definition LogMessage_Init ::
  "sys \<Rightarrow> int \<Rightarrow> string \<Rightarrow> int \<Rightarrow> LogSeverity \<Rightarrow> send_method \<Rightarrow> log_globals \<Rightarrow> LogMessageData \<times> log_globals" where
  "LogMessage_Init sy now file line severity method g =
    (let (pl, first, g1) =
           (if severity \<noteq> GLOG_FATAL \<or> \<not> exit_on_dfatal g then (Heap, False, g)
            else if fatal_msg_exclusive g then (Fatal_Exclusive, True, g\<lparr>fatal_msg_exclusive := False\<rparr>)
            else (Fatal_Shared, False, g));
         t = localtime sy now;
         d0 = \<lparr>place = pl, preserved_errno = errno g,
               message_text = (if pl = Fatal_Shared then fatal_shared_text g else []),
               msg_severity = severity, msg_line = line, send_method = method, target = No_Target,
               timestamp = now, msg_tm = t, num_prefix_chars = 0,
               basename = const_basename file, fullname = file, has_been_flushed = False, first_fatal = first\<rparr>;
         d1 = (if log_prefix (flags g) \<and> line \<noteq> kNoLogPrefix
               then stream_put (log_prefix_text sy severity t (usecs sy) (basename d0) line) d0 else d0);
         d2 = d1\<lparr>num_prefix_chars := length (message_text d1)\<rparr>;
         d3 = (if log_backtrace_at (flags g) \<noteq> [] \<and>
                  c_str (log_backtrace_at (flags g)) = take 127 (basename d0 @ '':'' @ int_to_string line)
               then stream_put ('' (stacktrace:'' @ [newline] @ stacktrace sy @ '') '') d2 else d2)
     in (d3, g1))"

definition LogMessage_check ::
  "sys \<Rightarrow> int \<Rightarrow> string \<Rightarrow> int \<Rightarrow> string \<Rightarrow> log_globals \<Rightarrow> LogMessageData \<times> log_globals" where
  "LogMessage_check sy now file line result g =
    (let (d, g1) = LogMessage_Init sy now file line GLOG_FATAL SendToLog g
     in (stream_put (''Check failed: '' @ result @ '' '') d, g1))"

definition LogMessage_sink ::
  "sys \<Rightarrow> int \<Rightarrow> string \<Rightarrow> int \<Rightarrow> LogSeverity \<Rightarrow> nat option \<Rightarrow> bool \<Rightarrow> log_globals \<Rightarrow> LogMessageData \<times> log_globals" where
  "LogMessage_sink sy now file line severity sink also_send_to_log g =
    (let (d, g1) = LogMessage_Init sy now file line severity (if also_send_to_log then SendToSinkAndLog else SendToSink) g
     in (d\<lparr>target := (case sink of None \<Rightarrow> No_Target | Some k \<Rightarrow> Sink_Target k)\<rparr>, g1))"

definition LogMessage_outvec ::
  "sys \<Rightarrow> int \<Rightarrow> string \<Rightarrow> int \<Rightarrow> LogSeverity \<Rightarrow> nat option \<Rightarrow> log_globals \<Rightarrow> LogMessageData \<times> log_globals" where
  "LogMessage_outvec sy now file line severity outvec g =
    (let (d, g1) = LogMessage_Init sy now file line severity SaveOrSendToLog g
     in (d\<lparr>target := (case outvec of None \<Rightarrow> No_Target | Some k \<Rightarrow> Vector_Target k)\<rparr>, g1))"

definition LogMessage_string ::
  "sys \<Rightarrow> int \<Rightarrow> string \<Rightarrow> int \<Rightarrow> LogSeverity \<Rightarrow> nat option \<Rightarrow> log_globals \<Rightarrow> LogMessageData \<times> log_globals" where
  "LogMessage_string sy now file line severity message g =
    (let (d, g1) = LogMessage_Init sy now file line severity WriteToStringAndLog g
     in (d\<lparr>target := (case message of None \<Rightarrow> No_Target | Some k \<Rightarrow> String_Target k)\<rparr>, g1))"

text \<open>
  The message without prefix and newline, \<open>num_chars_to_log_ - num_prefix_chars_ - 1\<close> characters; \<open>None\<close>
  where that wraps around.
\<close>

definition message_body :: "LogMessageData \<Rightarrow> string \<Rightarrow> string option" where
  "message_body d msg =
    (if num_prefix_chars d + 1 \<le> length msg
     then Some (take (length msg - num_prefix_chars d - 1) (drop (num_prefix_chars d) msg)) else None)"

definition sink_send :: "LogMessageData \<Rightarrow> string \<Rightarrow> nat \<Rightarrow> log_globals \<Rightarrow> log_globals" where
  "sink_send d body k g =
    out (Sink_Send k (msg_severity d) (fullname d) (basename d) (msg_line d) (msg_tm d) body) g"

definition LogToSinks :: "LogMessageData \<Rightarrow> string \<Rightarrow> log_globals \<Rightarrow> log_globals option" where
  "LogToSinks d msg g =
    (case sinks g of
       No_Sinks \<Rightarrow> Some g
     | Sinks ss \<Rightarrow> map_option (\<lambda>body. fold (sink_send d body) (rev ss) g) (message_body d msg)
     | Deleted_Sinks \<Rightarrow> None)"

definition WaitForSinks :: "LogMessageData \<Rightarrow> log_globals \<Rightarrow> log_globals option" where
  "WaitForSinks d g =
    (let own = (case (send_method d, target d) of
                  (SendToSink, Sink_Target k) \<Rightarrow> [k]
                | (SendToSinkAndLog, Sink_Target k) \<Rightarrow> [k]
                | _ \<Rightarrow> [])
     in case sinks g of
          No_Sinks \<Rightarrow> Some (fold (\<lambda>k. out (Sink_Wait k)) own g)
        | Sinks ss \<Rightarrow> Some (fold (\<lambda>k. out (Sink_Wait k)) (rev ss @ own) g)
        | Deleted_Sinks \<Rightarrow> None)"

definition RecordCrashReason :: "LogMessageData \<Rightarrow> string \<Rightarrow> string \<times> int \<times> string" where
  "RecordCrashReason d msg = (fullname d, msg_line d, c_str (drop (num_prefix_chars d) msg))"

definition SetCrashReason :: "string \<times> int \<times> string \<Rightarrow> log_globals \<Rightarrow> log_globals" where
  "SetCrashReason r g = (if crash_reason g = None then g\<lparr>crash_reason := Some r\<rparr> else g)"

fun flush_fatal :: "sys \<Rightarrow> LogSeverity list \<Rightarrow> log_globals \<Rightarrow> log_globals option" where
  "flush_fatal sy [] g = Some g"
| "flush_fatal sy (i # is') g =
    (case log_destinations g i of
       None \<Rightarrow> flush_fatal sy is' g
     | Some d \<Rightarrow> Option.bind (logger_write sy i True 0 [] d g) (flush_fatal sy is'))"

text \<open>The end of \<open>SendToLog\<close> for a fatal message, up to the call of \<open>Fail\<close>.\<close>

definition send_fatal :: "sys \<Rightarrow> LogMessageData \<Rightarrow> string \<Rightarrow> log_globals \<Rightarrow> log_globals option" where
  "send_fatal sy d msg g =
    do {
      let g1 = (if first_fatal d
                then (SetCrashReason (RecordCrashReason d msg) g)\<lparr>fatal_message := take 255 msg, fatal_time := timestamp d\<rparr>
                else g);
      g2 \<leftarrow> (if \<not> logtostderr (flags g1) then flush_fatal sy severities g1 else Some g1);
      g3 \<leftarrow> WaitForSinks d g2;
      Some (out (Stderr (''*** Check failure stack trace: ***'' @ [newline])) g3)
    }"

definition before_init_warning :: string where
  "before_init_warning = ''WARNING: Logging before InitGoogleLogging() is '' @ ''written to STDERR'' @ [newline]"

text \<open>The flag of the result tells whether \<open>Fail\<close> was called.\<close>

definition send_to_log :: "sys \<Rightarrow> LogMessageData \<Rightarrow> string \<Rightarrow> log_globals \<Rightarrow> (bool \<times> log_globals) option" where
  "send_to_log sy d msg g =
    do {
      let g1 = (if \<not> already_warned_before_initgoogle g \<and> \<not> IsGoogleLoggingInitialized g
                then (out (Stderr before_init_warning) g)\<lparr>already_warned_before_initgoogle := True\<rparr> else g);
      g2 \<leftarrow> (if logtostderr (flags g1) \<or> \<not> IsGoogleLoggingInitialized g1
              then LogToSinks d msg (ColoredWriteToStderr (msg_severity d) msg g1)
              else do {
                h1 \<leftarrow> LogToAllLogfiles sy (msg_severity d) (timestamp d) msg g1;
                let h2 = MaybeLogToStderr (msg_severity d) msg h1;
                let h3 = MaybeLogToEmail sy (msg_severity d) msg h2;
                LogToSinks d msg h3
              });
      if msg_severity d = GLOG_FATAL \<and> exit_on_dfatal g2
      then do { g3 \<leftarrow> send_fatal sy d msg g2; Some (True, g3) }
      else Some (False, g2)
    }"

definition send_to_sink :: "LogMessageData \<Rightarrow> string \<Rightarrow> log_globals \<Rightarrow> log_globals option" where
  "send_to_sink d msg g =
    (case target d of
       Sink_Target k \<Rightarrow> map_option (\<lambda>body. sink_send d body k g) (message_body d msg)
     | _ \<Rightarrow> Some g)"

text \<open>
  The call of \<open>send_method_\<close>.  The last branch of \<open>SendToSyslogAndLog\<close> is for systems without \<open>syslog.h\<close>;
  the text sent to syslog has no newline of its own.
\<close>

definition send :: "sys \<Rightarrow> LogMessageData \<Rightarrow> string \<Rightarrow> log_globals \<Rightarrow> (bool \<times> log_globals) option" where
  "send sy d msg g =
    (case send_method d of
       SendToLog \<Rightarrow> send_to_log sy d msg g
     | SendToSink \<Rightarrow> map_option (Pair False) (send_to_sink d msg g)
     | SendToSinkAndLog \<Rightarrow> Option.bind (send_to_sink d msg g) (send_to_log sy d msg)
     | SaveOrSendToLog \<Rightarrow>
         (case target d of
            Vector_Target k \<Rightarrow> map_option (\<lambda>body. (False, out (Vector_Push k body) g)) (message_body d msg)
          | _ \<Rightarrow> send_to_log sy d msg g)
     | WriteToStringAndLog \<Rightarrow>
         (case target d of
            String_Target k \<Rightarrow>
              Option.bind (message_body d msg) (\<lambda>body. send_to_log sy d msg (out (String_Assign k body) g))
          | _ \<Rightarrow> send_to_log sy d msg g)
     | SendToSyslogAndLog \<Rightarrow>
         send_to_log sy d msg
           (out (Syslog (msg_severity d) (c_str (drop (num_prefix_chars d) (message_text d))))
              (g\<lparr>openlog_already_called := True\<rparr>)))"

text \<open>The text with a newline at its end, added unless there is one.\<close>

definition final_text :: "LogMessageData \<Rightarrow> string" where
  "final_text d = (if last (message_text d) \<noteq> newline then message_text d @ [newline] else message_text d)"

text \<open>
  \<open>Flush\<close>.  \<open>None\<close> where the last character of an empty text is read.  When the message was fatal the
  rest of the function is not reached.
\<close>

definition LogMessage_Flush ::
  "sys \<Rightarrow> LogMessageData \<Rightarrow> log_globals \<Rightarrow> (bool \<times> LogMessageData \<times> log_globals) option" where
  "LogMessage_Flush sy d g =
    (if has_been_flushed d \<or> severity_value (msg_severity d) < minloglevel (flags g) then Some (False, d, g)
     else if message_text d = [] then None
     else do {
       (failed, g1) \<leftarrow> send sy d (final_text d) g;
       if failed then Some (True, d, g1)
       else do {
         let g2 = g1\<lparr>num_messages := (num_messages g1)(msg_severity d := num_messages g1 (msg_severity d) + 1)\<rparr>;
         g3 \<leftarrow> WaitForSinks d g2;
         let g4 = (if preserved_errno d \<noteq> 0 then g3\<lparr>errno := preserved_errno d\<rparr> else g3);
         Some (False, d\<lparr>has_been_flushed := True\<rparr>, g4)
       }
     })"

text \<open>The destructor; the text stays in the static buffer of the later fatal messages.\<close>

definition LogMessage_delete :: "sys \<Rightarrow> LogMessageData \<Rightarrow> log_globals \<Rightarrow> (bool \<times> log_globals) option" where
  "LogMessage_delete sy d g =
    map_option (\<lambda>(failed, d1, g1).
        (failed, if place d1 = Fatal_Shared then g1\<lparr>fatal_shared_text := message_text d1\<rparr> else g1))
      (LogMessage_Flush sy d g)"

definition ErrnoLogMessage_delete :: "sys \<Rightarrow> LogMessageData \<Rightarrow> log_globals \<Rightarrow> (bool \<times> log_globals) option" where
  "ErrnoLogMessage_delete sy d g =
    LogMessage_delete sy (stream_put ('': '' @ StrError (strerror_r sy) (preserved_errno d) @ '' [''
      @ int_to_string (preserved_errno d) @ '']'') d) g"

text \<open>\<open>LogMessageFatal\<close> always ends in \<open>Fail\<close>.\<close>

definition LogMessageFatal_delete :: "sys \<Rightarrow> LogMessageData \<Rightarrow> log_globals \<Rightarrow> (bool \<times> log_globals) option" where
  "LogMessageFatal_delete sy d g = map_option (\<lambda>(failed, d1, g1). (True, g1)) (LogMessage_Flush sy d g)"

text \<open>The statement \<open>LOG(severity) << text\<close> at a line of a file.\<close>

definition LOG :: "sys \<Rightarrow> int \<Rightarrow> string \<Rightarrow> int \<Rightarrow> LogSeverity \<Rightarrow> string \<Rightarrow> log_globals \<Rightarrow> (bool \<times> log_globals) option" where
  "LOG sy now file line severity txt g =
    (let (d, g1) = LogMessage_Init sy now file line severity SendToLog g
     in LogMessage_delete sy (stream_put txt d) g1)"

definition ReprintFatalMessage :: "sys \<Rightarrow> log_globals \<Rightarrow> log_globals option" where
  "ReprintFatalMessage sy g =
    (let m = c_str (fatal_message g)
     in if m \<noteq> [] then
          LogToAllLogfiles sy GLOG_ERROR (fatal_time g) m (if \<not> logtostderr (flags g) then out (Stderr m) g else g)
        else Some g)"

definition LogSink_ToString :: "sys \<Rightarrow> LogSeverity \<Rightarrow> string \<Rightarrow> int \<Rightarrow> tm \<Rightarrow> string \<Rightarrow> string" where
  "LogSink_ToString sy severity file line t message =
    [hd (LogSeverityNames severity)] @ setw 2 (CHR ''0'') (1 + tm_mon t) @ setw 2 (CHR ''0'') (tm_mday t) @ '' ''
    @ setw 2 (CHR ''0'') (tm_hour t) @ '':'' @ setw 2 (CHR ''0'') (tm_min t) @ '':'' @ setw 2 (CHR ''0'') (tm_sec t)
    @ ''.'' @ setw 6 (CHR ''0'') 0 @ '' '' @ setw 5 (CHR '' '') (gettid sy) @ '' ''
    @ file @ '':'' @ int_to_string line @ ''] '' @ message"

section \<open>The other global functions\<close>

definition GetLogger :: "LogSeverity \<Rightarrow> log_globals \<Rightarrow> nat option \<times> log_globals" where
  "GetLogger severity g = (let (d, g1) = log_destination severity g in (logger d, g1))"

definition SetLogger :: "LogSeverity \<Rightarrow> nat option \<Rightarrow> log_globals \<Rightarrow> log_globals" where
  "SetLogger severity l g =
    (let (d, g1) = log_destination severity g
     in g1\<lparr>log_destinations := (log_destinations g1)(severity \<mapsto> d\<lparr>logger := l\<rparr>)\<rparr>)"

definition SetExitOnDFatal :: "bool \<Rightarrow> log_globals \<Rightarrow> log_globals" where
  "SetExitOnDFatal v g = g\<lparr>exit_on_dfatal := v\<rparr>"

text \<open>\<open>None\<close> where the \<open>CHECK\<close> fails.\<close>

definition InitGoogleLogging :: "string \<Rightarrow> log_globals \<Rightarrow> log_globals option" where
  "InitGoogleLogging argv0 g =
    (if IsGoogleLoggingInitialized g then None
     else Some (g\<lparr>program_invocation_short_name := Some (const_basename argv0)\<rparr>))"

definition ShutdownGoogleLogging :: "log_globals \<Rightarrow> log_globals option" where
  "ShutdownGoogleLogging g =
    (if \<not> IsGoogleLoggingInitialized g then None
     else map_option (\<lambda>g1. g1\<lparr>logging_directories_list := None\<rparr>)
            (DeleteLogDestinations (g\<lparr>program_invocation_short_name := None\<rparr>)))"

section \<open>Delivery to the log files\<close>

text \<open>The name and the contents of the log file of a severity, as far as it is open.\<close>

definition file_name :: "log_globals \<Rightarrow> LogSeverity \<Rightarrow> string option" where
  "file_name g i = Option.bind (log_destinations g i) (\<lambda>d. map_option fst (lf_file (fileobject d)))"

definition log_contents :: "log_globals \<Rightarrow> LogSeverity \<Rightarrow> string" where
  "log_contents g i = (case log_destinations g i of None \<Rightarrow> [] | Some d \<Rightarrow> contents (fileobject d) g)"

text \<open>A severity is ready if its log goes to an open file that is not full.\<close>

definition ready :: "sys \<Rightarrow> log_globals \<Rightarrow> LogSeverity \<Rightarrow> bool" where
  "ready sy g i \<longleftrightarrow> (\<exists>d n b c. log_destinations g i = Some d \<and> logger d = None \<and>
     lf_file (fileobject d) = Some (n, b) \<and> files g n = Some c \<and> \<not> roll_over (flags g) sy (fileobject d) g \<and>
     \<not> (base_filename_selected (fileobject d) \<and> base_filename (fileobject d) = []))"

definition own_files :: "log_globals \<Rightarrow> bool" where
  "own_files g \<longleftrightarrow> (\<forall>i j. i \<noteq> j \<longrightarrow> file_name g i = None \<or> file_name g i \<noteq> file_name g j)"

lemma write_message_state:
  assumes "\<not> disk_full sy" "\<not> stop_writing st" "write_message fl sy force_flush message obj st = (obj', st')"
  shows "\<exists>F. st' = st\<lparr>files := F\<rparr>"
proof -
  have "\<exists>F. flush_file o1 st = st\<lparr>files := F\<rparr>" for o1
    by (cases "lf_file o1"; cases "files st (fst (the (lf_file o1)))")
       (auto simp: flush_file_def intro: exI [of _ "files st"])
  moreover have "\<exists>F. st = st\<lparr>files := F\<rparr>" by (rule exI [of _ "files st"]) simp
  ultimately show ?thesis
    using assms by (auto simp: write_message_def FlushUnlocked_def Let_def split: if_splits)
qed

lemma MaybeLogToLogfile_ready:
  assumes "ready sy g i" "own_files g" "\<not> disk_full sy" "\<not> stop_writing g"
  shows "\<exists>F D. MaybeLogToLogfile sy i ts msg g = Some (g\<lparr>files := F, log_destinations := D\<rparr>) \<and>
    (let g' = g\<lparr>files := F, log_destinations := D\<rparr> in
      log_contents g' i = log_contents g i @ msg \<and> file_name g' = file_name g \<and>
      (\<forall>j. j \<noteq> i \<longrightarrow> log_contents g' j = log_contents g j \<and> (ready sy g j \<longrightarrow> ready sy g' j)))"
proof -
  from assms(1) obtain d n b c where d: "log_destinations g i = Some d" "logger d = None"
    "lf_file (fileobject d) = Some (n, b)" "files g n = Some c" "\<not> roll_over (flags g) sy (fileobject d) g"
    "\<not> (base_filename_selected (fileobject d) \<and> base_filename (fileobject d) = [])" unfolding ready_def by blast
  obtain o1 g1 where m: "write_message (flags g) sy (severity_value i > logbuflevel (flags g)) msg (fileobject d) g = (o1, g1)"
    by fastforce
  from write_message_state [OF assms(3,4) m] obtain F where F: "g1 = g\<lparr>files := F\<rparr>" by blast
  from write_message_appends [OF d(3,4) assms(3,4) m]
  obtain b' where w: "contents o1 g1 = c @ b @ msg" "lf_file o1 = Some (n, b')" "\<forall>k. k \<noteq> n \<longrightarrow> F k = files g k"
    by (auto simp: F)
  define D where "D = (log_destinations g)(i \<mapsto> d\<lparr>fileobject := o1\<rparr>)"
  let ?g = "g\<lparr>files := F, log_destinations := D\<rparr>"
  have "MaybeLogToLogfile sy i ts msg g = Some ?g"
    using Write_no_roll [OF d(6,5), of "severity_value i > logbuflevel (flags g)" ts msg] d(1,2,3) m
    by (simp add: MaybeLogToLogfile_def log_destination_def logger_write_def set_fileobject_def F D_def)
  moreover have "log_contents ?g i = log_contents g i @ msg"
    using w d by (simp add: log_contents_def D_def F contents_def)
  moreover have "file_name ?g = file_name g"
    using w(2) d by (auto simp: file_name_def D_def)
  moreover have "log_contents ?g j = log_contents g j \<and> (ready sy g j \<longrightarrow> ready sy ?g j)" if "j \<noteq> i" for j
  proof -
    have "file_name g j \<noteq> Some n"
      using assms(2) d(1,3) that unfolding own_files_def by (force simp: file_name_def)
    then have F_j: "F k = files g k" if "log_destinations g j = Some d'" "lf_file (fileobject d') = Some (k, b)" for d' k b
      using that w(3) by (auto simp: file_name_def)
    then have "log_contents ?g j = log_contents g j"
      using that by (auto simp: log_contents_def D_def contents_def split: option.split)
    moreover have "ready sy ?g j" if r: "ready sy g j"
      using r F_j \<open>j \<noteq> i\<close> unfolding ready_def by (fastforce simp: D_def roll_over_def)
    ultimately show ?thesis by blast
  qed
  ultimately show ?thesis by (metis (no_types, lifting))
qed

lemma logfiles_loop_ready:
  assumes "\<forall>i \<in> set is'. ready sy g i" "distinct is'" "own_files g" "\<not> disk_full sy" "\<not> stop_writing g"
  shows "\<exists>F D. logfiles_loop sy ts msg is' g = Some (g\<lparr>files := F, log_destinations := D\<rparr>) \<and>
    (\<forall>i. log_contents (g\<lparr>files := F, log_destinations := D\<rparr>) i =
         log_contents g i @ (if i \<in> set is' then msg else []))"
  using assms
proof (induction is' arbitrary: g)
  case Nil
  show ?case by (intro exI [of _ "files g"] exI [of _ "log_destinations g"]) simp
next
  case (Cons i is')
  from MaybeLogToLogfile_ready [of sy g i ts msg] Cons.prems
  obtain F D where w: "MaybeLogToLogfile sy i ts msg g = Some (g\<lparr>files := F, log_destinations := D\<rparr>)"
    "log_contents (g\<lparr>files := F, log_destinations := D\<rparr>) i = log_contents g i @ msg"
    "file_name (g\<lparr>files := F, log_destinations := D\<rparr>) = file_name g"
    "\<forall>j. j \<noteq> i \<longrightarrow> log_contents (g\<lparr>files := F, log_destinations := D\<rparr>) j = log_contents g j \<and>
       (ready sy g j \<longrightarrow> ready sy (g\<lparr>files := F, log_destinations := D\<rparr>) j)"
    unfolding Let_def by auto
  let ?g = "g\<lparr>files := F, log_destinations := D\<rparr>"
  have "\<exists>F' D'. logfiles_loop sy ts msg is' ?g = Some (?g\<lparr>files := F', log_destinations := D'\<rparr>) \<and>
    (\<forall>i. log_contents (?g\<lparr>files := F', log_destinations := D'\<rparr>) i = log_contents ?g i @ (if i \<in> set is' then msg else []))"
    using Cons.prems w(3,4) by (intro Cons.IH) (auto simp: own_files_def)
  then obtain F' D' where l: "logfiles_loop sy ts msg is' ?g = Some (g\<lparr>files := F', log_destinations := D'\<rparr>)"
    "\<forall>j. log_contents (g\<lparr>files := F', log_destinations := D'\<rparr>) j = log_contents ?g j @ (if j \<in> set is' then msg else [])"
    by auto
  have "log_contents (g\<lparr>files := F', log_destinations := D'\<rparr>) j =
      log_contents g j @ (if j \<in> set (i # is') then msg else [])" for j
    using l(2) w(2,4) Cons.prems(2) by (cases "j = i") auto
  with w(1) l(1) show ?case by (intro exI [of _ F'] exI [of _ D']) auto
qed

lemma set_down_from: "i \<in> set (down_from s) \<longleftrightarrow> severity_value i \<le> severity_value s"
  by (cases i) (auto simp: down_from_def severities_def)

lemma distinct_down_from: "distinct (down_from s)"
  by (simp add: down_from_def severities_def distinct_rev)

section \<open>Delivery\<close>

text \<open>The text of a message as sinks get it: cut to the buffer, without a newline at the end.\<close>

definition delivered :: "nat \<Rightarrow> string \<Rightarrow> string" where
  "delivered room txt = (let t = take room txt in if t \<noteq> [] \<and> last t = newline then butlast t else t)"

lemma delivered_line:
  fixes pre tx :: string
  assumes "pre \<noteq> []" "last pre \<noteq> newline" "length pre \<le> 29998"
  defines "t \<equiv> take 29998 (pre @ tx)"
  shows "(if last t \<noteq> newline then t @ [newline] else t) = pre @ delivered (29998 - length pre) tx @ [newline]"
    and "t \<noteq> []"
proof -
  let ?u = "take (29998 - length pre) tx"
  have t: "t = pre @ ?u" using assms(3) by (simp add: t_def)
  then show "t \<noteq> []" using assms(1) by simp
  show "(if last t \<noteq> newline then t @ [newline] else t) = pre @ delivered (29998 - length pre) tx @ [newline]"
  proof (cases "?u = []")
    case True
    with t have "t = pre" by simp
    with True assms(1,2) show ?thesis by (simp add: delivered_def)
  next
    case False
    then have u: "butlast ?u @ [last ?u] = ?u" "last t = last ?u" using t by simp_all
    show ?thesis
    proof (cases "last ?u = newline")
      case True
      with False have "delivered (29998 - length pre) tx = butlast ?u" by (simp add: delivered_def Let_def)
      with True u t show ?thesis by simp
    next
      case no: False
      with False have "delivered (29998 - length pre) tx = ?u" by (simp add: delivered_def Let_def)
      with no u t show ?thesis by simp
    qed
  qed
qed

lemma message_body_line: "num_prefix_chars d = length p \<Longrightarrow> message_body d (p @ b @ [newline]) = Some b"
  by (simp add: message_body_def)

lemma fold_out: "fold (\<lambda>k. out (f k)) ks g = g\<lparr>outs := outs g @ map f ks\<rparr>" for g :: log_globals
  by (induction ks arbitrary: g) (simp_all add: out_def)

lemma fold_sink_send:
  "fold (sink_send d b) ks g =
    g\<lparr>outs := outs g @ map (\<lambda>k. Sink_Send k (msg_severity d) (fullname d) (basename d) (msg_line d) (msg_tm d) b) ks\<rparr>"
  by (induction ks arbitrary: g) (simp_all add: out_def sink_send_def)

lemma send_to_log_ready:
  assumes "msg_severity d \<noteq> GLOG_FATAL" "IsGoogleLoggingInitialized g" "\<not> logtostderr (flags g)"
    "\<forall>i. severity_value i \<le> severity_value (msg_severity d) \<longrightarrow> ready sy g i" "own_files g" "\<not> disk_full sy"
    "\<not> stop_writing g" "severity_value (msg_severity d) < email_logging_severity g"
    "severity_value (msg_severity d) < logemaillevel (flags g)" "\<not> colorlogtostderr (flags g)"
    "sinks g = Sinks ss" "msg = p @ b @ [newline]" "num_prefix_chars d = length p"
  shows "\<exists>F D. send_to_log sy d msg g = Some (False, g\<lparr>files := F, log_destinations := D,
      outs := outs g @ (if stderrthreshold (flags g) \<le> severity_value (msg_severity d) \<or> alsologtostderr (flags g)
                        then [Stderr msg] else []) @
        map (\<lambda>k. Sink_Send k (msg_severity d) (fullname d) (basename d) (msg_line d) (msg_tm d) b) (rev ss)\<rparr>) \<and>
    (\<forall>i. log_contents (g\<lparr>files := F, log_destinations := D\<rparr>) i =
         log_contents g i @ (if severity_value i \<le> severity_value (msg_severity d) then msg else []))"
proof -
  from logfiles_loop_ready [of "down_from (msg_severity d)" sy g "timestamp d" msg] assms(4-7)
  obtain F D where l: "logfiles_loop sy (timestamp d) msg (down_from (msg_severity d)) g =
      Some (g\<lparr>files := F, log_destinations := D\<rparr>)"
    "\<forall>i. log_contents (g\<lparr>files := F, log_destinations := D\<rparr>) i =
       log_contents g i @ (if severity_value i \<le> severity_value (msg_severity d) then msg else [])"
    by (auto simp: set_down_from distinct_down_from)
  have "send_to_log sy d msg g = Some (False, g\<lparr>files := F, log_destinations := D,
      outs := outs g @ (if stderrthreshold (flags g) \<le> severity_value (msg_severity d) \<or> alsologtostderr (flags g)
                        then [Stderr msg] else []) @
        map (\<lambda>k. Sink_Send k (msg_severity d) (fullname d) (basename d) (msg_line d) (msg_tm d) b) (rev ss)\<rparr>)"
    using assms(1-3,8-13) l(1) message_body_line [OF assms(13), of b]
    by (simp add: send_to_log_def LogToAllLogfiles_def MaybeLogToStderr_def MaybeLogToEmail_def ColoredWriteToStderr_def
        LogToSinks_def fold_sink_send out_def Let_def)
  with l(2) show ?thesis by blast
qed

lemma log_prefix_text_ends: "log_prefix_text sy s t us b l \<noteq> []" "last (log_prefix_text sy s t us b l) = CHR '' ''"
  by (simp_all add: log_prefix_text_def)

lemma delete_sent:
  assumes "\<not> has_been_flushed d" "minloglevel (flags g) \<le> severity_value (msg_severity d)" "message_text d \<noteq> []"
    "final_text d = msg"
    "send_method d = SendToLog" "send_to_log sy d msg g = Some (False, g1)" "sinks g1 = Sinks ss" "place d = Heap"
  shows "\<exists>g'. LogMessage_delete sy d g = Some (False, g') \<and> files g' = files g1 \<and>
    log_destinations g' = log_destinations g1 \<and> outs g' = outs g1 @ map Sink_Wait (rev ss) \<and>
    num_messages g' = (num_messages g1)(msg_severity d := num_messages g1 (msg_severity d) + 1)"
proof -
  have "LogMessage_Flush sy d g = do {
       (failed, g1) \<leftarrow> send sy d msg g;
       if failed then Some (True, d, g1)
       else do {
         let g2 = g1\<lparr>num_messages := (num_messages g1)(msg_severity d := num_messages g1 (msg_severity d) + 1)\<rparr>;
         g3 \<leftarrow> WaitForSinks d g2;
         let g4 = (if preserved_errno d \<noteq> 0 then g3\<lparr>errno := preserved_errno d\<rparr> else g3);
         Some (False, d\<lparr>has_been_flushed := True\<rparr>, g4)
       }
     }"
    using assms(1-3) unfolding LogMessage_Flush_def assms(4) by simp
  then obtain g4 where "LogMessage_Flush sy d g = Some (False, d\<lparr>has_been_flushed := True\<rparr>, g4)" "files g4 = files g1"
    "log_destinations g4 = log_destinations g1" "outs g4 = outs g1 @ map Sink_Wait (rev ss)"
    "num_messages g4 = (num_messages g1)(msg_severity d := num_messages g1 (msg_severity d) + 1)"
    using assms(5-7) by (auto simp: send_def WaitForSinks_def fold_out Let_def split: if_splits)
  then show ?thesis using assms(8) by (simp add: LogMessage_delete_def)
qed

section \<open>Properties\<close>


definition running_log :: log_globals where
  "running_log = (log_globals_new some_sys)\<lparr>program_invocation_short_name := Some ''raft'',
     files := [''/l/raft.1'' \<mapsto> []], sinks := Sinks [1, 2],
     log_destinations := [GLOG_INFO \<mapsto> \<lparr>fileobject = open_log, logger = None\<rparr>]\<rparr>"


section \<open>Buffers\<close>

lemma stream_put_le: "length (message_text (stream_put s d)) \<le> 29998"
  by (simp add: stream_put_def kMaxLogMessageLen_def)

lemma Flush_marks:
  assumes "LogMessage_Flush sy d g = Some (False, d', g')"
    "\<not> (has_been_flushed d \<or> severity_value (msg_severity d) < minloglevel (flags g))"
  shows "has_been_flushed d'"
proof (cases "send sy d (final_text d) g")
  case None
  then show ?thesis using assms(1) unfolding LogMessage_Flush_def if_not_P [OF assms(2)] by (simp split: if_splits)
next
  case (Some r)
  obtain failed g1 where r: "r = (failed, g1)" by fastforce
  let ?g = "g1\<lparr>num_messages := (num_messages g1)(msg_severity d := num_messages g1 (msg_severity d) + 1)\<rparr>"
  show ?thesis
    using assms(1) Some r unfolding LogMessage_Flush_def if_not_P [OF assms(2)]
    by (cases failed; cases "WaitForSinks d ?g") (simp_all split: if_splits, auto)
qed

text \<open>
  C22.  The buffer of a message: whatever is streamed into it, at most 29998 characters are kept, so the
  newline that \<open>Flush\<close> adds is still inside the buffer.  A message that was flushed is not sent again.
  A message without prefix and without text makes \<open>Flush\<close> read the character before its buffer.
\<close>

theorem log_message_buffer:
  fixes g :: log_globals
  assumes "severity \<noteq> GLOG_FATAL" "minloglevel (flags g) \<le> severity_value severity" "log_backtrace_at (flags g) = []"
    "fst (LogMessage_Init sy now file line severity method g) = d0"
  shows "length (message_text (fold stream_put ss d0)) \<le> 29998 \<and>
    (LogMessage_Flush sy d g = Some (False, d', g') \<longrightarrow>
      LogMessage_Flush sy d' g' = Some (False, d', g')) \<and>
    ((\<not> log_prefix (flags g) \<or> line = kNoLogPrefix) \<and> concat ss = [] \<longrightarrow>
      LogMessage_Flush sy (fold stream_put ss d0) g = None)"
proof -
  have "length (message_text d0) \<le> 29998"
    using assms(1,3,4) by (auto simp: LogMessage_Init_def Let_def stream_put_def kMaxLogMessageLen_def)
  moreover have "length (message_text (fold stream_put ss d)) \<le> 29998" if "length (message_text d) \<le> 29998" for d
    using that by (induction ss arbitrary: d) (simp_all add: stream_put_le)
  ultimately have 1: "length (message_text (fold stream_put ss d0)) \<le> 29998" by blast
  have 2: "LogMessage_Flush sy d' g' = Some (False, d', g')" if "LogMessage_Flush sy d g = Some (False, d', g')"
  proof (cases "has_been_flushed d \<or> severity_value (msg_severity d) < minloglevel (flags g)")
    case True
    with that have "d' = d" "g' = g" by (auto simp: LogMessage_Flush_def)
    with True show ?thesis by (simp add: LogMessage_Flush_def)
  next
    case False
    from Flush_marks [OF that False] show ?thesis by (simp add: LogMessage_Flush_def)
  qed
  have 3: "LogMessage_Flush sy (fold stream_put ss d0) g = None"
    if "\<not> log_prefix (flags g) \<or> line = kNoLogPrefix" "concat ss = []"
  proof -
    have "message_text d0 = []" "\<not> has_been_flushed d0" "msg_severity d0 = severity"
      using that(1) assms(1,3,4) by (auto simp: LogMessage_Init_def Let_def)
    moreover have "stream_put [] d0 = d0" if "message_text d0 = []"
      using that by (cases d0) (simp add: stream_put_def)
    then have "fold stream_put ss d0 = d0" if "message_text d0 = []"
      using \<open>concat ss = []\<close> that by (induction ss) simp_all
    ultimately show ?thesis using assms(2) by (simp add: LogMessage_Flush_def)
  qed
  from 1 2 3 show ?thesis by blast
qed

theorem log_message_buffer_witness:
  "LogMessage_Flush some_sys (fst (LogMessage_Init some_sys 0 ''a.cc'' kNoLogPrefix GLOG_INFO SendToLog running_log)) running_log
     = None"
proof -
  have "minloglevel (flags running_log) = 0" "log_backtrace_at (flags running_log) = []" by code_simp+
  then show ?thesis
    using log_message_buffer [of GLOG_INFO running_log some_sys 0 "''a.cc''" kNoLogPrefix SendToLog _ "[]"] by auto
qed

section \<open>Sinks\<close>

lemma mset_remove_last:
  assumes "i < length ss"
  shows "mset (butlast (ss[i := last ss])) = mset ss - {#ss ! i#}"
proof -
  define A B where "A = take i ss" and "B = drop (Suc i) ss"
  have ss: "ss = A @ ss ! i # B" "length A = i" using assms by (simp_all add: A_def B_def id_take_nth_drop)
  show ?thesis
  proof (cases "B = []")
    case True
    with ss have "ss[i := last ss] = A @ [ss ! i]" by (metis last_snoc list_update_id nth_append_length)
    then show ?thesis using ss(1) True by (metis add_mset_remove_trivial butlast_snoc union_mset_add_mset_right mset.simps mset_append add.right_neutral)
  next
    case False
    then have l: "last ss = last B" using ss(1) by (metis last_ConsR last_appendR list.distinct(1))
    have "ss[i := last ss] = A @ last B # B" using ss l by (metis list_update_length)
    then have "butlast (ss[i := last ss]) = A @ last B # butlast B" using False by (simp add: butlast_append)
    moreover have "mset B = add_mset (last B) (mset (butlast B))" using False
      by (metis append_butlast_last_id mset.simps(2) mset_append union_mset_add_mset_right add.right_neutral mset.simps(1))
    moreover have "mset ss = mset A + add_mset (ss ! i) (mset B)" using ss(1) by (metis mset.simps(2) mset_append)
    ultimately show ?thesis by simp
  qed
qed

lemma remove_sink_loop_mset:
  assumes "i \<le> length ss"
  shows "if x \<in> set (take i ss) then mset (remove_sink_loop x i ss) = mset ss - {#x#}
         else remove_sink_loop x i ss = ss"
  using assms
proof (induction i)
  case (Suc i)
  then have t: "take (Suc i) ss = take i ss @ [ss ! i]" by (simp add: take_Suc_conv_app_nth)
  have "ss ! (length ss - 1) = last ss" using Suc.prems by (cases ss) (simp_all add: last_conv_nth)
  then show ?case using Suc t mset_remove_last [of i ss] by (auto split: if_splits)
qed simp

lemma ColoredWrite_sinks [simp]: "sinks (ColoredWriteToStderr s m g) = sinks g" "sinks (out e g) = sinks g"
  by (simp_all add: ColoredWriteToStderr_def out_def Let_def)

lemma LogMessage_Init_fields:
  "sinks (snd (LogMessage_Init sy now fn line severity method g)) = sinks g"
  "program_invocation_short_name (snd (LogMessage_Init sy now fn line severity method g)) = program_invocation_short_name g"
  "flags (snd (LogMessage_Init sy now fn line severity method g)) = flags g"
  "send_method (fst (LogMessage_Init sy now fn line severity method g)) = method"
  "\<not> has_been_flushed (fst (LogMessage_Init sy now fn line severity method g))"
  "msg_severity (fst (LogMessage_Init sy now fn line severity method g)) = severity"
  by (auto simp: LogMessage_Init_def stream_put_def Let_def)

text \<open>
  C21.  The sinks: adding appends, and removing takes one registration of the sink away and keeps all
  others, though not their order.  \<open>ShutdownGoogleLogging\<close> deletes the vector but leaves the pointer to it:
  when a sink was ever registered, adding, removing, another shutdown and every message that is
  logged after that use the deleted vector.
\<close>

theorem log_sinks:
  fixes g :: log_globals
  assumes "sinks g = Sinks ss" "IsGoogleLoggingInitialized g"
  shows "map_option sinks (AddLogSink x g) = Some (Sinks (ss @ [x])) \<and>
    (\<exists>ss'. map_option sinks (RemoveLogSink x g) = Some (Sinks ss') \<and>
      mset ss' = mset ss - {#x#} \<and> (x \<notin> set ss \<longrightarrow> ss' = ss)) \<and>
    (\<exists>g'. ShutdownGoogleLogging g = Some g' \<and> AddLogSink x g' = None \<and> RemoveLogSink x g' = None \<and>
      (\<forall>sy now file line severity msg. minloglevel (flags g) \<le> severity_value severity \<longrightarrow>
         LOG sy now file line severity msg g' = None))"
proof -
  have rm: "mset (remove_sink_loop x (length ss) ss) = mset ss - {#x#} \<and>
      (x \<notin> set ss \<longrightarrow> remove_sink_loop x (length ss) ss = ss)"
    using remove_sink_loop_mset [of "length ss" ss x] by (auto split: if_splits)
  have del: "sinks (fold delete_destination is' h) = sinks h \<and> flags (fold delete_destination is' h) = flags h \<and>
      program_invocation_short_name (fold delete_destination is' h) = program_invocation_short_name h" for is' h
    by (induction is' arbitrary: h)
       (simp_all add: delete_destination_def LogFileObject_delete_def close_file_def flush_file_def Let_def split: option.split)
  obtain g' where g': "ShutdownGoogleLogging g = Some g'" "sinks g' = Deleted_Sinks" "flags g' = flags g"
    "program_invocation_short_name g' = None"
    using assms by (simp add: ShutdownGoogleLogging_def DeleteLogDestinations_def del Let_def)
  have "send_to_log sy d msg h = None" if "sinks h = Deleted_Sinks" "program_invocation_short_name h = None" for sy d msg h
    using that by (simp add: send_to_log_def LogToSinks_def IsGoogleLoggingInitialized_def out_def Let_def)
  then have "LogMessage_Flush sy d h = None"
    if "sinks h = Deleted_Sinks" "program_invocation_short_name h = None" "send_method d = SendToLog"
      "\<not> has_been_flushed d" "minloglevel (flags h) \<le> severity_value (msg_severity d)" for sy d h
    using that by (simp add: LogMessage_Flush_def send_def)
  then have "LOG sy now fn line severity msg g' = None" if "minloglevel (flags g) \<le> severity_value severity"
    for sy now fn line severity msg
    using g' that LogMessage_Init_fields [of sy now fn line severity SendToLog g']
    by (simp add: LOG_def LogMessage_delete_def stream_put_def split_def Let_def)
  with rm g' assms show ?thesis by (simp add: AddLogSink_def RemoveLogSink_def)
qed

theorem log_sinks_witness:
  "\<exists>g'. ShutdownGoogleLogging running_log = Some g' \<and> AddLogSink 3 g' = None \<and>
     LOG some_sys 0 ''a.cc'' 1 GLOG_INFO ''x'' g' = None"
proof -
  have "sinks running_log = Sinks [1, 2]" "IsGoogleLoggingInitialized running_log" "minloglevel (flags running_log) = 0"
    by code_simp+
  then show ?thesis using log_sinks [of running_log "[1, 2]" 3] by fastforce
qed

end
