(* ===== verification/Glog_Raw.thy ===== *)
theory Glog_Raw
  imports Glog_Logging "HOL-Library.Word"
begin

text \<open>
  The rest of the logging code of glog: truncation of log files and the helpers of the \<open>CHECK\<close> macros
  (\<open>logging.cc\<close>), and the raw logging into a fixed buffer (\<open>raw_logging.cc\<close>).
\<close>

section \<open>Truncating a log file\<close>

text \<open>
  The results of the system calls of one call of \<open>TruncateLogFile\<close>: \<open>pwrite_result i n\<close> is \<open>None\<close> when call
  \<open>i\<close> writes all of its \<open>n\<close> bytes, and otherwise the number it returns.
\<close>

record trunc_sys =
  open_ok :: bool
  efbig :: bool
  truncate_ok :: bool
  fstat_ok :: bool
  is_reg :: bool
  pwrite_result :: "nat \<Rightarrow> nat \<Rightarrow> int option"
  ftruncate_ok :: bool

definition pwrite :: "string \<Rightarrow> string \<Rightarrow> nat \<Rightarrow> string" where
  "pwrite c b off = take off c @ b @ drop (off + length b) c"

text \<open>The loop, with the file's contents, the two offsets and the number of calls of \<open>pwrite\<close>.\<close>

partial_function (option) copy_loop ::
  "(nat \<Rightarrow> nat \<Rightarrow> int option) \<Rightarrow> string \<Rightarrow> nat \<Rightarrow> string \<Rightarrow> nat \<Rightarrow> nat \<Rightarrow> (string \<times> nat \<times> string list) option" where
  "copy_loop pw path i c read_offset write_offset =
    (let b = take 8192 (drop read_offset c)
     in if b = [] then Some (c, write_offset, [])
        else case pw i (length b) of
          None \<Rightarrow> copy_loop pw path (i + 1) (pwrite c b write_offset) (read_offset + length b) (write_offset + length b)
        | Some k \<Rightarrow>
            if k = - 1 then Some (c, write_offset, [''Unable to write to '' @ path])
            else do {
              (c', w', ls) \<leftarrow> copy_loop pw path (i + 1) (pwrite c (take (nat k) b) write_offset) (read_offset + length b)
                (write_offset + nat k);
              Some (c', w', (if k \<noteq> int (length b)
                 then [''Expected to write '' @ int_to_string (int (length b)) @ '', wrote '' @ int_to_string k] else []) @ ls)
            })"

text \<open>The file's contents afterwards and the messages that are logged.\<close>

definition TruncateLogFile ::
  "trunc_sys \<Rightarrow> string \<Rightarrow> int \<Rightarrow> int \<Rightarrow> string \<Rightarrow> (string \<times> string list) option" where
  "TruncateLogFile sy path limit keep c =
    (if \<not> open_ok sy then
       (if efbig sy then
          (if \<not> truncate_ok sy then Some (c, [''Unable to truncate '' @ path])
           else Some ([], [''Truncated '' @ path @ '' due to EFBIG error'']))
        else Some (c, [''Unable to open '' @ path]))
     else if \<not> fstat_ok sy then Some (c, [''Unable to fstat()''])
     else if \<not> is_reg sy \<or> int (length c) \<le> limit \<or> int (length c) \<le> keep then Some (c, [])
     else map_option (\<lambda>(c', w, ls).
              (if ftruncate_ok sy then take w c' else c',
               (''Truncating '' @ path @ '' to '' @ int_to_string keep @ '' bytes'') # ls
               @ (if ftruncate_ok sy then [] else [''Unable to truncate '' @ path])))
            (copy_loop (pwrite_result sy) path 0 c (nat (int (length c) - keep)) 0))"

text \<open>\<open>MaxLogSize() << 20\<close> is computed in an \<open>int\<close>.\<close>

definition stdout_limit :: "log_flags \<Rightarrow> int" where
  "stdout_limit fl = sint (push_bit 20 (word_of_int (MaxLogSize fl) :: 32 word))"

definition TruncateStdoutStderr ::
  "trunc_sys \<Rightarrow> trunc_sys \<Rightarrow> log_flags \<Rightarrow> string \<Rightarrow> string \<Rightarrow> (string \<times> string list) option \<times> (string \<times> string list) option" where
  "TruncateStdoutStderr sy1 sy2 fl out1 err2 =
    (let limit = stdout_limit fl; keep = 2 ^ 20
     in (TruncateLogFile sy1 ''/proc/self/fd/1'' limit keep out1, TruncateLogFile sy2 ''/proc/self/fd/2'' limit keep err2))"

lemma length_pwrite: "w + length b \<le> length c \<Longrightarrow> length (pwrite c b w) = length c"
  by (simp add: pwrite_def)

lemma copy_loop_returns:
  assumes "w \<le> r" "\<forall>i n k. pw i n = Some k \<longrightarrow> k \<le> int n"
  shows "\<exists>c' w' ls. copy_loop pw path i c r w = Some (c', w', ls)"
  using assms(1)
proof (induction "length c - r" arbitrary: i c r w rule: less_induct)
  case less
  let ?b = "take 8192 (drop r c)"
  show ?case
  proof (cases "?b = []")
    case True
    then show ?thesis by (subst copy_loop.simps) (simp add: Let_def)
  next
    case False
    then have r: "r < length c" by simp
    show ?thesis
    proof (cases "pw i (length ?b)")
      case None
      have "length (pwrite c ?b w) = length c" using less.prems r by (intro length_pwrite) auto
      then have "\<exists>c' w' ls. copy_loop pw path (i + 1) (pwrite c ?b w) (r + length ?b) (w + length ?b) = Some (c', w', ls)"
        using less.prems r by (intro less.hyps) auto
      then show ?thesis using False None by (subst copy_loop.simps) (simp add: Let_def del: take_eq_Nil)
    next
      case (Some k)
      with assms(2) have k: "nat k \<le> length ?b" by fastforce
      have "length (pwrite c (take (nat k) ?b) w) = length c" using less.prems r by (intro length_pwrite) auto
      then have "k \<noteq> - 1 \<Longrightarrow> \<exists>c' w' ls. copy_loop pw path (i + 1) (pwrite c (take (nat k) ?b) w) (r + length ?b) (w + nat k)
          = Some (c', w', ls)"
        using less.prems r k by (intro less.hyps) auto
      then show ?thesis using False Some by (subst copy_loop.simps) (auto simp: Let_def simp del: take_eq_Nil)
    qed
  qed
qed

lemma pwrite_parts:
  assumes "w \<le> length c" "w + length b \<le> n"
  shows "take (w + length b) (pwrite c b w) = take w c @ b" "drop n (pwrite c b w) = drop n c"
proof -
  from assms obtain k where n: "n = w + length b + k" using le_Suc_ex by blast
  show "take (w + length b) (pwrite c b w) = take w c @ b" using assms(1) by (simp add: pwrite_def min_def)
  show "drop n (pwrite c b w) = drop n c" using assms(1) by (simp add: pwrite_def n min_def add.commute)
qed

lemma copy_loop_copies:
  assumes "w \<le> r" "r \<le> length c" "\<forall>i n. pw i n = None"
  shows "\<exists>c'. copy_loop pw path i c r w = Some (c', w + (length c - r), []) \<and>
    take (w + (length c - r)) c' = take w c @ drop r c"
  using assms(1,2)
proof (induction "length c - r" arbitrary: i c r w rule: less_induct)
  case less
  let ?b = "take 8192 (drop r c)"
  show ?case
  proof (cases "r = length c")
    case True
    then show ?thesis by (subst copy_loop.simps) simp
  next
    case False
    with less.prems have r: "r < length c" by simp
    let ?c = "pwrite c ?b w"
    have len: "length ?c = length c" using less.prems r by (intro length_pwrite) auto
    have parts: "take (w + length ?b) ?c = take w c @ ?b" "drop (r + length ?b) ?c = drop (r + length ?b) c"
      using less.prems pwrite_parts [of w c ?b "r + length ?b"] by simp_all
    have "\<exists>c'. copy_loop pw path (i + 1) ?c (r + length ?b) (w + length ?b) =
        Some (c', w + length ?b + (length ?c - (r + length ?b)), []) \<and>
        take (w + length ?b + (length ?c - (r + length ?b))) c' = take (w + length ?b) ?c @ drop (r + length ?b) ?c"
      using less.prems r by (intro less.hyps) (auto simp: len)
    moreover have "w + length ?b + (length ?c - (r + length ?b)) = w + (length c - r)" using r by (simp add: len)
    moreover have "take 8192 X @ drop (length (take 8192 X)) X = X" for X :: string
      by (cases "length X \<le> 8192") simp_all
    from this [of "drop r c"] have "?b @ drop (r + length ?b) c = drop r c"
      by (simp only: drop_drop add.commute)
    moreover have "?b \<noteq> []" using r by simp
    ultimately show ?thesis
      using assms(3) parts by (subst copy_loop.simps) (simp add: Let_def del: take_eq_Nil length_take)
  qed
qed

section \<open>Checks\<close>

definition strcasecmp_equal :: "string \<Rightarrow> string \<Rightarrow> bool" where
  "strcasecmp_equal a b \<longleftrightarrow> map tolower a = map tolower b"

text \<open>
  The body of \<open>DEFINE_CHECK_STROP_IMPL\<close>: \<open>None\<close> when the check holds, otherwise the message.  Equal pointers
  have equal strings.
\<close>

definition CheckStrop ::
  "string \<Rightarrow> (string \<Rightarrow> string \<Rightarrow> bool) \<Rightarrow> bool \<Rightarrow> string option \<Rightarrow> string option \<Rightarrow> string \<Rightarrow> string option" where
  "CheckStrop name same expected s1 s2 names =
    (let equal = (case (s1, s2) of (None, None) \<Rightarrow> True | (Some a, Some b) \<Rightarrow> same a b | _ \<Rightarrow> False)
     in if equal = expected then None
        else Some (name @ '' failed: '' @ names @ '' ('' @ (case s1 of None \<Rightarrow> [] | Some a \<Rightarrow> a) @ '' vs. ''
               @ (case s2 of None \<Rightarrow> [] | Some b \<Rightarrow> b) @ '')''))"

definition CheckstrcmptrueImpl :: "string option \<Rightarrow> string option \<Rightarrow> string \<Rightarrow> string option" where
  "CheckstrcmptrueImpl = CheckStrop ''CHECK_STREQ'' (=) True"

definition CheckstrcmpfalseImpl :: "string option \<Rightarrow> string option \<Rightarrow> string \<Rightarrow> string option" where
  "CheckstrcmpfalseImpl = CheckStrop ''CHECK_STRNE'' (=) False"

definition CheckstrcasecmptrueImpl :: "string option \<Rightarrow> string option \<Rightarrow> string \<Rightarrow> string option" where
  "CheckstrcasecmptrueImpl = CheckStrop ''CHECK_STRCASEEQ'' strcasecmp_equal True"

definition CheckstrcasecmpfalseImpl :: "string option \<Rightarrow> string option \<Rightarrow> string \<Rightarrow> string option" where
  "CheckstrcasecmpfalseImpl = CheckStrop ''CHECK_STRCASENE'' strcasecmp_equal False"

text \<open>\<open>MakeCheckOpValueString\<close> for the three character types, and the message of a failed comparison.\<close>

definition check_op_value :: "string \<Rightarrow> int \<Rightarrow> char \<Rightarrow> string" where
  "check_op_value kind v ch =
    (if 32 \<le> v \<and> v \<le> 126 then [CHR 0x27, ch, CHR 0x27] else kind @ '' value '' @ int_to_string v)"

definition signed_byte :: "char \<Rightarrow> int" where
  "signed_byte ch = sint (of_char ch :: 8 word)"

definition MakeCheckOpValueString_char :: "char \<Rightarrow> string" where
  "MakeCheckOpValueString_char ch = check_op_value ''char'' (signed_byte ch) ch"

definition MakeCheckOpValueString_signed :: "char \<Rightarrow> string" where
  "MakeCheckOpValueString_signed ch = check_op_value ''signed char'' (signed_byte ch) ch"

definition MakeCheckOpValueString_unsigned :: "char \<Rightarrow> string" where
  "MakeCheckOpValueString_unsigned ch = check_op_value ''unsigned char'' (of_char ch) ch"

definition CheckOpMessage :: "string \<Rightarrow> string \<Rightarrow> string \<Rightarrow> string" where
  "CheckOpMessage exprtext v1 v2 = exprtext @ '' ('' @ v1 @ '' vs. '' @ v2 @ '')''"

section \<open>Raw logging\<close>

definition kLogBufSize :: nat where "kLogBufSize = 3000"

text \<open>
  The buffer of \<open>RawLog__\<close>: the text before \<open>buf\<close>, the text from \<open>buf\<close> to the terminating NUL, and \<open>size\<close>.
  The texts have no NUL.
\<close>

record raw_buffer =
  done_text :: string
  rest_text :: string
  room :: nat

text \<open>
  \<open>DoRawLog\<close> and \<open>VADoRawLog\<close> on the text that the format denotes.  \<open>vsnprintf\<close> returns the length of the whole
  text and writes at most \<open>size - 1\<close> characters and a NUL, and nothing when \<open>size\<close> is 0.
\<close>

definition DoRawLog :: "string \<Rightarrow> raw_buffer \<Rightarrow> bool \<times> raw_buffer" where
  "DoRawLog t b =
    (let written = (if room b = 0 then rest_text b else take (room b - 1) t)
     in if length t > room b then (False, b\<lparr>rest_text := written\<rparr>)
        else (True, \<lparr>done_text = done_text b @ (if room b = 0 then [] else written),
                     rest_text = (if room b = 0 then rest_text b else []), room = room b - length t\<rparr>))"

definition raw_prefix :: "sys \<Rightarrow> LogSeverity \<Rightarrow> tm \<Rightarrow> int \<Rightarrow> string \<Rightarrow> int \<Rightarrow> string" where
  "raw_prefix sy severity t us fn line =
    [hd (LogSeverityNames severity)] @ setw 2 (CHR ''0'') (1 + tm_mon t) @ setw 2 (CHR ''0'') (tm_mday t) @ '' ''
    @ setw 2 (CHR ''0'') (tm_hour t) @ '':'' @ setw 2 (CHR ''0'') (tm_min t) @ '':'' @ setw 2 (CHR ''0'') (tm_sec t)
    @ ''.'' @ setw 6 (CHR ''0'') us @ '' '' @ setw 5 (CHR '' '') (gettid sy mod 2 ^ 32) @ '' ''
    @ const_basename fn @ '':'' @ int_to_string line @ ''] RAW: ''"

definition too_long :: string where
  "too_long = ''RAW_LOG ERROR: The Message was too long!'' @ [newline]"

text \<open>What is written to standard error, and where in it the message starts.\<close>

definition raw_text :: "string \<Rightarrow> string \<Rightarrow> string \<times> nat" where
  "raw_text pre msg =
    (let (_, b1) = DoRawLog pre \<lparr>done_text = [], rest_text = [], room = kLogBufSize\<rparr>;
         (no_chop, b2) = DoRawLog msg b1;
         (_, b3) = DoRawLog (if no_chop then [newline] else too_long) b2
     in (done_text b3 @ rest_text b3, length (done_text b1)))"

text \<open>
  \<open>RawLog__\<close> with the time of the last log message; the flag tells whether the program is aborted.
\<close>

definition RawLog ::
  "sys \<Rightarrow> tm \<Rightarrow> int \<Rightarrow> LogSeverity \<Rightarrow> string \<Rightarrow> int \<Rightarrow> string \<Rightarrow> log_globals \<Rightarrow> bool \<times> log_globals" where
  "RawLog sy t us severity fn line msg g =
    (if \<not> (logtostderr (flags g) \<or> severity_value severity \<ge> stderrthreshold (flags g) \<or> alsologtostderr (flags g) \<or>
            \<not> IsGoogleLoggingInitialized g)
     then (False, g)
     else let (txt, start) = raw_text (raw_prefix sy severity t us fn line) msg;
              g1 = out (Stderr txt) g
          in if severity = GLOG_FATAL then (True, SetCrashReason (fn, line, drop start txt) g1)
             else (False, g1))"

section \<open>Properties\<close>

text \<open>
  \<open>TruncateLogFile\<close> always returns.  When no system call fails it leaves a file that is not larger
  than both bounds as it is and otherwise keeps exactly its last bytes, though it copies the file
  onto itself block by block.
\<close>

theorem truncate_log_file:
  assumes "0 \<le> keep" "\<forall>i n k. pwrite_result sy i n = Some k \<longrightarrow> k \<le> int n"
  shows "(\<exists>c' ls. TruncateLogFile sy path limit keep c = Some (c', ls)) \<and>
    (open_ok sy \<and> fstat_ok sy \<and> is_reg sy \<and> ftruncate_ok sy \<and> (\<forall>i n. pwrite_result sy i n = None) \<longrightarrow>
      map_option fst (TruncateLogFile sy path limit keep c) =
        Some (if int (length c) \<le> limit \<or> int (length c) \<le> keep then c else drop (length c - nat keep) c))"
proof -
  let ?r = "nat (int (length c) - keep)"
  obtain c1 w1 l1 where ret: "copy_loop (pwrite_result sy) path 0 c ?r 0 = Some (c1, w1, l1)"
    using copy_loop_returns [of 0 ?r "pwrite_result sy"] assms(2) by blast
  then have 1: "\<exists>c' ls. TruncateLogFile sy path limit keep c = Some (c', ls)"
    by (simp add: TruncateLogFile_def)
  have 2: "map_option fst (TruncateLogFile sy path limit keep c) = Some (drop (length c - nat keep) c)"
    if ok: "open_ok sy" "fstat_ok sy" "is_reg sy" "ftruncate_ok sy" "\<forall>i n. pwrite_result sy i n = None"
      and large: "\<not> (int (length c) \<le> limit \<or> int (length c) \<le> keep)"
  proof -
    have r: "?r = length c - nat keep" "?r \<le> length c" using assms(1) large by auto
    from copy_loop_copies [of 0 ?r c "pwrite_result sy" path 0] ok(5) r(2)
    obtain c' where "copy_loop (pwrite_result sy) path 0 c ?r 0 = Some (c', length c - ?r, [])"
      "take (length c - ?r) c' = drop ?r c" by auto
    then show ?thesis using ok large r(1) by (auto simp: TruncateLogFile_def)
  qed
  from 1 2 show ?thesis by (auto simp: TruncateLogFile_def)
qed

theorem truncate_log_file_witness:
  "map_option fst (TruncateLogFile \<lparr>open_ok = True, efbig = False, truncate_ok = True, fstat_ok = True, is_reg = True,
     pwrite_result = (\<lambda>_ _. None), ftruncate_ok = True\<rparr> ''log'' 4 3 ''abcdefg'') = Some ''efg''"
  using truncate_log_file [of 3 "\<lparr>open_ok = True, efbig = False, truncate_ok = True, fstat_ok = True, is_reg = True,
     pwrite_result = (\<lambda>_ _. None), ftruncate_ok = True\<rparr>" "''log''" 4 "''abcdefg''"] by simp

text \<open>From 2048 MB on the limit for standard output wraps around: it is not positive.\<close>

lemma stdout_limit_wraps: "stdout_limit (fl\<lparr>max_log_size := 2048\<rparr>) = - (2 ^ 31)" "stdout_limit (fl\<lparr>max_log_size := 4096\<rparr>) = 0"
  by (simp_all add: stdout_limit_def MaxLogSize_def)

lemma DoRawLog_fits:
  "length t < room b \<Longrightarrow>
   DoRawLog t b = (True, \<lparr>done_text = done_text b @ t, rest_text = [], room = room b - length t\<rparr>)"
  by (simp add: DoRawLog_def)

lemma DoRawLog_full:
  "length t = room b \<Longrightarrow> t \<noteq> [] \<Longrightarrow>
   DoRawLog t b = (True, \<lparr>done_text = done_text b @ butlast t, rest_text = [], room = 0\<rparr>)"
  by (auto simp: DoRawLog_def butlast_conv_take)

lemma DoRawLog_over:
  "room b < length t \<Longrightarrow>
   DoRawLog t b = (False, b\<lparr>rest_text := if room b = 0 then rest_text b else take (room b - 1) t\<rparr>)"
  by (simp add: DoRawLog_def)

text \<open>
  A raw log message never leaves its buffer, and a message that fits with its newline is written
  as it is.  At the end of the buffer the check for overflow is off by one: when one character is
  missing the newline is lost, when two are missing the last character too, without notice.  A
  longer message is replaced by an error text, which overwrites it from its start.
\<close>

theorem raw_log_exact:
  assumes "length pre + 100 < 3000"
  shows "length (fst (raw_text pre msg)) < 3000 \<and>
    fst (raw_text pre msg) =
     (if length pre + length msg < 2999 then pre @ msg @ [newline]
      else if length pre + length msg = 2999 then pre @ msg
      else if length pre + length msg = 3000 then pre @ butlast msg
      else pre @ too_long) \<and>
    snd (raw_text pre msg) = length pre"
proof -
  let ?b = "\<lparr>done_text = [], rest_text = [], room = kLogBufSize\<rparr>"
  let ?b1 = "\<lparr>done_text = pre, rest_text = [], room = 3000 - length pre\<rparr>"
  have 1: "DoRawLog pre ?b = (True, ?b1)" using assms DoRawLog_fits [of pre ?b] by (simp add: kLogBufSize_def)
  have start: "snd (raw_text pre msg) = length pre" by (simp add: raw_text_def 1 split_def Let_def)
  consider "length pre + length msg < 2999" | "length pre + length msg = 2999" | "length pre + length msg = 3000"
    | "length pre + length msg > 3000" by linarith
  then have "fst (raw_text pre msg) =
     (if length pre + length msg < 2999 then pre @ msg @ [newline]
      else if length pre + length msg = 2999 then pre @ msg
      else if length pre + length msg = 3000 then pre @ butlast msg
      else pre @ too_long)"
  proof cases
    case 1
    then show ?thesis using \<open>DoRawLog pre ?b = (True, ?b1)\<close> by (simp add: raw_text_def DoRawLog_fits)
  next
    case 2
    then show ?thesis using \<open>DoRawLog pre ?b = (True, ?b1)\<close> by (simp add: raw_text_def DoRawLog_fits DoRawLog_full)
  next
    case 3
    then have "length msg = 3000 - length pre" "msg \<noteq> []" using assms by auto
    then show ?thesis using 3 \<open>DoRawLog pre ?b = (True, ?b1)\<close> by (simp add: raw_text_def DoRawLog_full DoRawLog_over)
  next
    case 4
    then show ?thesis using \<open>DoRawLog pre ?b = (True, ?b1)\<close> assms
      by (simp add: raw_text_def DoRawLog_fits DoRawLog_over too_long_def)
  qed
  moreover have "length too_long = 41" by code_simp
  ultimately show ?thesis using start assms by (cases msg rule: rev_cases) auto
qed

theorem raw_log_exact_witness:
  "fst (raw_text ''I RAW: '' (replicate 2993 (CHR ''x''))) = ''I RAW: '' @ replicate 2992 (CHR ''x'')"
proof -
  have "butlast (replicate 2993 (CHR ''x'')) = replicate 2992 (CHR ''x'')"
    by (simp add: butlast_conv_take)
  then show ?thesis
    using raw_log_exact [of "''I RAW: ''" "replicate 2993 (CHR ''x'')"] by simp
qed

end
