(* ===== verification/Spec2Isabelle.thy ===== *)
theory Spec2Isabelle
  imports Scenarios Demangle_Properties Glog_Vlog Gtest_Verdict Gtest_Assertions Gmock_Unordered Gmock_Engine Gmock_Matchers Gtest_Filepath Gtest_Floating Gtest_Listeners Glog_Raw
begin

text \<open>
  A verification development of RaftCPP, a C++ implementation of the leader election of Raft over
  the rpcz message library.

  \<^bold>\<open>The program.\<close>  \<open>src/main.cpp\<close> reads a configuration file of \<open>address port\<close> lines and constructs
  one \<open>Raft\<close> object per line in one process.  Each object (\<open>src/raft.h\<close>, \<open>src/raft.cpp\<close>) runs two
  threads: an rpcz server that dispatches requests to the service methods \<open>GetStatus\<close>,
  \<open>AppendMsg\<close>, \<open>Vote\<close> and \<open>Op\<close>, and a daemon that loops over the peer's status: a follower watches
  the time of the last message, a candidate collects votes, a leader sends heartbeats.  Server and
  daemon share the object's fields under \<open>lock_\<close>.  The dispatch and the client stubs are
  \<open>src/raft.rpcz.h\<close> and \<open>src/raft.rpcz.cc\<close>; the messages are \<open>protofiles/raft.proto\<close>.

  \<^bold>\<open>The theories.\<close>
  \<^item> \<open>Prelude\<close>: the machine integers at their width and the conversions the code relies on.
  \<^item> \<open>Raft_Types\<close>: the enumerations and structs of \<open>src/struct.h\<close> and the messages of the
    \<open>.proto\<close> file, with presence bits, defaults and required fields.
  \<^item> \<open>RWLock\<close>: \<open>struct RWLock\<close> of \<open>src/raft.h\<close>, as an instance of the locale \<open>rw_lock\<close>.
  \<^item> \<open>Consensus_Log\<close>: \<open>src/consensus_log.h\<close>.
  \<^item> \<open>Cpp_Strings\<close>: what the sources use of the C++ string and stream library.
  \<^item> \<open>Rpcz_Service\<close>: \<open>RaftService\<close> and \<open>RaftService_Stub\<close>.  The transport is a parameter; the
    locales \<open>rpc_channel\<close> and \<open>peer_channel\<close> state what the stubs and the daemon rely on.
  \<^item> \<open>Raft_Node\<close>: the fields of \<open>Raft\<close> (record \<open>Raft\<close>, field names without the trailing
    underscore; \<open>term_\<close> is \<open>node_term\<close>), its constructor, \<open>Kill\<close>, and the four service methods.
  \<^item> \<open>Raft_Daemon\<close>: \<open>LaunchRaftDemon\<close>, one definition per branch of its loop, and the in-process
    channel that instantiates the transport.
  \<^item> \<open>Quorum\<close>: the candidate's majority test as an instance of the locale \<open>quorum_system\<close>.
  \<^item> \<open>Cluster\<close>: all peers at once.  A daemon has a program counter at the points where others can
    interfere; requests and responses are messages that may be delayed, overtaken or lost; \<open>exec\<close>
    is the executable step function on events, \<open>reachable\<close> its closure.
  \<^item> \<open>Cluster_Invariant\<close>: the invariant of every reachable state, one lemma per step.
  \<^item> \<open>Election_Safety\<close>: steady executions, in which no vote is cleared, and their invariant.
  \<^item> \<open>Main_Config\<close>: \<open>src/main.cpp\<close>.
  \<^item> \<open>Scenarios\<close>: concrete executions of a cluster of three.

  The repository also carries the libraries its tests and logging are built on.  Their own logic is
  modelled in a second group of theories.
  \<^item> \<open>C_Strings\<close>: the C string functions these libraries use, with their laws.
  \<^item> \<open>Demangle_Base\<close>, \<open>Demangle\<close>, \<open>Demangle_Safety\<close>, \<open>Demangle_Properties\<close>: the symbol demangler of
    \<open>lib/glog/src/demangle.cc\<close>, one function per production of its grammar over the record of its
    parsing state.
  \<^item> \<open>Glob\<close>, \<open>Glog_Vlog\<close>: a reference meaning of wildcard patterns and the locale
    \<open>wildcard_matcher\<close>; \<open>SafeFNMatch_\<close> and the per-module verbosity levels of
    \<open>lib/glog/src/vlog_is_on.cc\<close>.
  \<^item> \<open>Glog_Logfile\<close>, \<open>Glog_Logging\<close>, \<open>Glog_Raw\<close>: \<open>logging.cc\<close>, \<open>utilities.cc\<close> and \<open>raw_logging.cc\<close> of glog.  The
    first has the log files with their creation, rollover and flushing, the second the destinations
    (files, loggers, sinks, standard error, e-mail) and the life of a \<open>LogMessage\<close>, the third raw
    logging, truncation and the \<open>CHECK\<close> helpers.  The clock, the process and the file system's answers
    are a record \<open>sys\<close> of arguments.
  \<^item> \<open>Gtest_Filter\<close>, \<open>Gtest_Flags\<close>: test name filters, and flags from the environment, the command
    line and flag files (\<open>lib/googletest/src/gtest.cc\<close>, \<open>gtest-port.cc\<close>).
  \<^item> \<open>Gtest_Model\<close>, \<open>Gtest_Selection\<close>, \<open>Gtest_Shuffle\<close>: the classes \<open>TestPartResult\<close>, \<open>TestResult\<close>,
    \<open>TestInfo\<close>, \<open>TestCase\<close> and \<open>UnitTestImpl\<close>; registration, filtering, sharding, shuffling.
  \<^item> \<open>Gtest_Run\<close>, \<open>Gtest_Verdict\<close>: running the tests with user code that reports failures, throws or
    exits, and the exit code of the program.
  \<^item> \<open>Gtest_Diff\<close>, \<open>Gtest_Unified_Diff\<close>: edit scripts, hunks and the unified diff of a failed equality.
  \<^item> \<open>Gtest_Printers\<close>, \<open>Gtest_Utf8\<close>, \<open>Gtest_Assertions\<close>: printed characters, strings and bytes, the
    encoding of wide strings, assertion results and the comparison helpers.
  \<^item> \<open>Gmock_Matching\<close>, \<open>Gmock_Unordered\<close>: the bipartite matching of \<open>lib/googlemock/src/gmock-matchers.cc\<close>
    behind the locale \<open>maximum_matching\<close>, and the matcher \<open>UnorderedElementsAre\<close> as its client.
  \<^item> \<open>Gtest_Regex\<close>: the simple regular expressions of \<open>gtest-port.cc\<close>, against the language of their
    syntax trees.
  \<^item> \<open>Gmock_Base\<close>, \<open>Gmock_Expectations\<close>, \<open>Gmock_Mock\<close>: flags, logging and cardinalities; expectations
    with their clauses and pre-requisites; function mockers, default actions, sequences, the
    dispatch of a call, verification and the registry of mock objects (\<open>lib/googlemock/src\<close> and
    \<open>gmock-spec-builders.h\<close>).  \<open>Gmock_Prerequisites\<close> holds the closure of the pre-requisites and what
    the recursive traversals compute; \<open>Gmock_Engine\<close> the step relation of a test, its invariant and
    its guarantees.
  \<^item> \<open>Gmock_Matchers\<close>: the matcher classes of \<open>gmock-matchers.h\<close> with their descriptions and explanations.
  \<^item> \<open>Gtest_Floating\<close>: comparison of floating-point numbers on their bit patterns (\<open>gtest-internal.h\<close>), its
    assertions and matchers.
  \<^item> \<open>Gtest_Filepath\<close>: \<open>gtest-filepath.cc\<close>, with \<open>stat\<close> and \<open>mkdir\<close> as parameters.
  \<^item> \<open>Gtest_Xml\<close>, \<open>Gtest_Listeners\<close>: the XML report, the event repeater and the registry of listeners, the
    console output and the streaming listener of \<open>gtest.cc\<close>, as the text they write.

  \<^bold>\<open>What is shown.\<close>  Each service method is characterised on every branch, at the width of its
  integers.  A campaign elects exactly on a majority, whatever the order of the peers.  Every
  reachable state of a cluster started by \<open>main\<close> keeps the lock discipline and never calls
  through a null stub.  In steady executions at most one peer is leader, and it holds the votes of
  a majority.  Outside them the code does not keep Raft's promise, and the executions that show it
  are part of the development: two leaders in one term, the first heartbeat deposing the first
  leader because the initial term is \<open>2 ^ 64 - 1\<close>, and two campaigns that block each other.

  Of the libraries: a log message reaches the files of its own and all lower severities, standard error
  from its threshold on, and every sink; log files keep their size, and the executions that lose
  messages or use deleted sinks are exhibited; the demangler ends inside its buffers on every name whose numbers are
  plain, and the short names on which it does not are exhibited; both
  wildcard matchers decide the reference meaning; flags survive a round trip through the command
  line; shards partition the tests; shuffling permutes them and can be undone; the exit code is
  0 exactly when no failure was reported; the diff of a failed equality is a patch; printed strings
  read back, and wide strings decode; \<open>UnorderedElementsAre\<close> implements "some permutation of the
  elements satisfies the matchers", and every other matcher the relation its name promises; the
  regular expressions decide their language, but for an escaped \<open>$\<close> at the end; a mock call goes to
  the newest active expectation that matches, calls respect the order of sequences and
  pre-requisites, and verification succeeds exactly when all call counts are within their bounds;
  floating-point equality counts the numbers between its operands; pathnames stay normalised, and
  the missing directories of a path are created unless none of its ancestors can be found, when the
  code does not return; the XML report and the stream of events read back, and the summary lists
  the failed tests.

  \<^bold>\<open>Conventions.\<close>  The clock, the random draw and the enumeration order of an unordered set are
  arguments of the operations that read them.  A handler that would block on a mutex is \<open>None\<close>.
  An undefined C++ operation is a value of an error type (\<open>ctor_error\<close>, \<open>dispatch_error\<close>,
  \<open>daemon_error\<close>), and the theorems show it does not occur.  In the library theories \<open>None\<close> stands
  for a failed check or an index out of range, and the theorems show the same.  Loops over peers,
  requests, lines, edits and matchers are structural or have a measure, and the two endless loops
  (the daemon, the server) are step functions.  The
  traversals of the pre-requisites of an expectation are given the number of expectations as fuel,
  which is enough because an expectation only depends on older ones.  The
  demangler is given fuel too, a bound on the depth of its mutual recursion: on names whose numbers are
  plain, \<open>4 * length + 2\<close> is enough, because productions nest at most four deep without consuming a character, and
  the outcome with it is proved to be a result and not a cut-off; on the one input where the code
  itself never returns, no fuel is enough, which is proved too.

  \<^bold>\<open>Not modelled.\<close>  The rpcz transport and the protobuf encoding (not part of the repository), the
  contents of log messages, and the \<open>sleep_for\<close> calls, which only restrict the schedules the
  cluster model already allows.  Of the libraries: what is an interface of the operating system
  (signal handlers, symbol tables, stack traces, death test processes, mutexes and thread-local
  storage), the headers generated by scripts and the templates over user types (predefined actions,
  parameterised tests), and the repository's tests.
\<close>

section \<open>Elections\<close>

text \<open>
  C1.  Election safety.  Start the peers \<open>main\<close> constructs from a configuration file with pairwise
  different lines, fewer than \<open>2 ^ 30\<close> of them, and let daemons, handlers, clocks and network
  interleave in any way, as long as no peer clears a vote it has cast.  Then two peers that are
  leaders are the same peer.
\<close>

theorem election_safety:
  assumes "main text nows = Inr nodes" and "distinct (read_config text)"
    and "length (read_config text) < 2 ^ 30"
    and "steady (boot nodes) c"
    and "procs c i = Some p" and "status (raft p) = LEADER"
    and "procs c j = Some q" and "status (raft q) = LEADER"
  shows "i = j"
proof -
  from assms(3) have small: "length (read_config text) < 2 ^ 31" by simp
  note boot = main_good_boot [OF assms(1) small assms(2)]
  have "length nodes = length (read_config text)"
    using arg_cong [OF main_self_ids(1) [OF assms(1) small], of length] by (simp add: build_service_def)
  then have "length nodes < 2 ^ 30"
    using assms(3) by (rule ssubst)
  with assms(4) boot have inv: "steady_inv c"
    by (rule steady_boot_inv)
  have "leaders_won c"
    using reachable_leaders_won [OF boot steady_reachable [OF assms(4)]] .
  with assms(5-8) have "i \<in> won c" "j \<in> won c"
    by (auto simp: leaders_won_def)
  with inv show ?thesis by (rule steady_unique_winner)
qed

theorem election_safety_witness:
  "\<exists>p. procs (outcome elect_A) pA = Some p \<and> status (raft p) = LEADER \<and>
     (\<forall>j q. procs (outcome elect_A) j = Some q \<and> status (raft q) = LEADER \<longrightarrow> pA = j)"
proof -
  obtain p where p: "procs (outcome elect_A) pA = Some p" "status (raft p) = LEADER"
    using observe_elect_A by (auto simp: observe_def)
  have "pA = j" if "procs (outcome elect_A) j = Some q" "status (raft q) = LEADER" for j q
    by (rule election_safety [OF main_config3 _ _ elect_A_steady p that]) (simp_all add: read_config3)
  with p show ?thesis by blast
qed

text \<open>
  C2.  A leader of such an execution was voted for by a majority of all the peers: a set of peers
  whose size passes the code's test \<open>vote_count >= peers_.size() / 2 + 1\<close> cast their vote for it,
  and none of them ever cast a vote for another peer.
\<close>

theorem leader_has_majority:
  assumes "good_boot nodes" and "length nodes < 2 ^ 30" and "steady (boot nodes) c"
    and "procs c i = Some p" and "status (raft p) = LEADER"
  shows "\<exists>Q \<subseteq> dom (procs c). wins (of_nat (card Q)) (dom (procs c)) \<and>
    (\<forall>v\<in>Q. \<forall>x. (v, x) \<in> votes c \<longleftrightarrow> x = i)"
proof -
  have inv: "steady_inv c"
    by (rule steady_boot_inv [OF assms(3,1,2)])
  have "i \<in> won c"
    using reachable_leaders_won [OF assms(1) steady_reachable [OF assms(3)]] assms(4,5)
    by (auto simp: leaders_won_def)
  with inv have "majority (dom (procs c)) {v. (v, i) \<in> votes c}"
    and single: "\<And>v x y. (v, x) \<in> votes c \<Longrightarrow> (v, y) \<in> votes c \<Longrightarrow> x = y"
    using steady_invD(4) [OF inv] unfolding votes_ok_def by blast+
  then show ?thesis
    by (intro exI [of _ "{v. (v, i) \<in> votes c}"]) (auto simp: majority_def)
qed

theorem leader_has_majority_witness:
  "\<exists>Q \<subseteq> dom (procs (outcome elect_A)). wins (of_nat (card Q)) (dom (procs (outcome elect_A))) \<and>
     (\<forall>v\<in>Q. \<forall>x. (v, x) \<in> votes (outcome elect_A) \<longleftrightarrow> x = pA)"
proof -
  obtain p where p: "procs (outcome elect_A) pA = Some p" "status (raft p) = LEADER"
    using observe_elect_A by (auto simp: observe_def)
  have "length nodes3 < 2 ^ 30"
    using arg_cong [OF nodes3_ids, of length] by simp
  from leader_has_majority [OF nodes3_good this elect_A_steady p] show ?thesis .
qed

text \<open>
  C3.  What holds in every reachable state of every cluster \<open>main\<close> starts, whatever the schedule,
  the clocks, the random draws and the network do: no daemon calls through a null stub; a daemon
  holds \<open>lock_\<close> exactly while it campaigns or sends heartbeats; one that collects votes is a
  candidate that voted for itself, one that sends heartbeats is a leader; a candidate between two
  iterations has voted for nobody; every peer asked belongs to the cluster.
\<close>

theorem reachable_peers_ok:
  assumes "main text nows = Inr nodes" and "distinct (read_config text)"
    and "length (read_config text) < 2 ^ 31"
    and "reachable (boot nodes) c" and "procs c i = Some p"
  shows "pc_of p \<noteq> Pc_Crashed \<and> (lock (raft p) \<longleftrightarrow> busy (pc_of p)) \<and>
    (\<forall>ps n. pc_of p = Pc_Election ps n \<longrightarrow>
       status (raft p) = CANDIDATE \<and> vote_for (raft p) = self_id (raft p)) \<and>
    (\<forall>ps. pc_of p = Pc_Beat ps \<longrightarrow> status (raft p) = LEADER) \<and>
    (pc_of p = Pc_Loop \<and> status (raft p) = CANDIDATE \<longrightarrow> vote_for (raft p) = []) \<and>
    self_id (raft p) = i \<and> peers (raft p) \<subseteq> set (build_service (read_config text))"
proof -
  note boot = main_good_boot [OF assms(1,3,2)]
  have "cluster_inv c"
    by (rule reachable_inv [OF assms(4) boot_inv [OF boot]])
  then have inv: "proc_inv (dom (procs c)) i p"
    using assms(5) by (rule cluster_invD)
  have "dom (procs c) = set (build_service (read_config text))"
    using reachable_dom [OF assms(4)] by (simp only: boot_dom main_self_ids(1) [OF assms(1,3)])
  with inv show ?thesis
    by (auto simp: proc_inv_defs)
qed

theorem reachable_peers_ok_witness:
  "\<exists>p. procs (outcome both_campaign) pA = Some p \<and> lock (raft p) \<and> busy (pc_of p)"
proof -
  obtain p where p: "procs (outcome both_campaign) pA = Some p" "lock (raft p)"
    using both_campaign_wait(1) by auto
  from reachable_peers_ok [OF main_config3 _ _ both_campaign_reachable p(1)] p show ?thesis
    by (auto simp: read_config3)
qed

text \<open>
  C4.  Where votes are cleared the promise of one leader per term is broken: a cluster of three
  reaches a state with two leaders in term 0.  The peers that elected the first drop it after six
  silent seconds, and vote again in the same term, which \<open>Vote\<close> never compares.
\<close>

theorem two_leaders_in_one_term:
  "\<exists>c p q. reachable (boot nodes3) c \<and> procs c pA = Some p \<and> procs c pB = Some q \<and>
     status (raft p) = LEADER \<and> status (raft q) = LEADER \<and> node_term (raft p) = node_term (raft q)"
  using elect_B_too_reachable observe_elect_B_too
  by (intro exI [of _ "outcome elect_B_too"]) (auto simp: observe_def)



end
